(* ===== verification/Prelude.thy ===== *)
theory Prelude
  imports Main "HOL-Library.Word" "HOL-Library.Multiset"
begin

text \<open>
  The shared layer of the development: names for the machine types of
  \<^verbatim>\<open>shared/Define.h\<close>, results with errors, wrapping \<^verbatim>\<open>size_t\<close> arithmetic, and models
  of the two ordered containers of the C++ library that the server uses everywhere:
  \<^verbatim>\<open>std::multimap\<close> (the time-ordered event stores) and \<^verbatim>\<open>std::map\<close> (keyed stores whose
  iteration order is the key order).  The multimap is given to its clients through the
  locale \<open>timed_queue\<close>.
\<close>

named_theorems res_simps \<open>rules for results with errors\<close>
named_theorems mm_simps \<open>rules for the ordered multimap\<close>
named_theorems om_simps \<open>rules for the ordered map\<close>

section \<open>Machine types\<close>

type_synonym uint8 = "8 word"
type_synonym uint16 = "16 word"
type_synonym uint32 = "32 word"
type_synonym uint64 = "64 word"
type_synonym int32 = "32 word"
type_synonym int64 = "64 word"
type_synonym wchar = "16 word"

text \<open>
  Positions and sizes (\<^verbatim>\<open>size_t\<close>, 64 bits) are natural numbers; every addition the code
  makes on them is \<open>sz_add\<close>, with the wrap-around written out.
\<close>

definition SIZE_T_MOD :: nat where
  "SIZE_T_MOD = 2 ^ 64"

definition sz_add :: "nat \<Rightarrow> nat \<Rightarrow> nat" where
  "sz_add a b = (a + b) mod SIZE_T_MOD"

definition sz_sub :: "nat \<Rightarrow> nat \<Rightarrow> nat" where
  "sz_sub a b = (a + SIZE_T_MOD - b mod SIZE_T_MOD) mod SIZE_T_MOD"

lemma sz_add_small [simp]: "a + b < SIZE_T_MOD \<Longrightarrow> sz_add a b = a + b"
  by (simp add: sz_add_def)

lemma sz_add_less [simp]: "sz_add a b < SIZE_T_MOD"
  by (simp add: sz_add_def SIZE_T_MOD_def)

lemma sz_add_le: "sz_add a b \<le> a + b"
  by (simp add: sz_add_def)

lemma sz_sub_small:
  assumes "b \<le> a" and "a < SIZE_T_MOD"
  shows "sz_sub a b = a - b"
proof -
  from assms have "a + SIZE_T_MOD - b mod SIZE_T_MOD = (a - b) + SIZE_T_MOD" by simp
  then have "sz_sub a b = (a - b) mod SIZE_T_MOD"
    by (simp only: sz_sub_def mod_add_self2)
  with assms show ?thesis by simp
qed

lemma sz_sub_wrap: "a < b \<Longrightarrow> b < SIZE_T_MOD \<Longrightarrow> sz_sub a b = SIZE_T_MOD - (b - a)"
  by (simp add: sz_sub_def)

section \<open>Results with errors\<close>

definition bind_res :: "'e + 'a \<Rightarrow> ('a \<Rightarrow> 'e + 'b) \<Rightarrow> 'e + 'b" where
  "bind_res r f = (case r of Inl e \<Rightarrow> Inl e | Inr x \<Rightarrow> f x)"

lemma bind_res_Inl [simp, res_simps]: "bind_res (Inl e) f = Inl e"
  by (simp add: bind_res_def)

lemma bind_res_Inr [simp, res_simps]: "bind_res (Inr x) f = f x"
  by (simp add: bind_res_def)

lemma bind_res_eq_Inr [res_simps]:
  "bind_res r f = Inr y \<longleftrightarrow> (\<exists>x. r = Inr x \<and> f x = Inr y)"
  by (cases r) simp_all

lemma bind_res_eq_Inl [res_simps]:
  "bind_res r f = Inl e \<longleftrightarrow> r = Inl e \<or> (\<exists>x. r = Inr x \<and> f x = Inl e)"
  by (cases r) simp_all

lemma bind_res_assoc: "bind_res (bind_res r f) g = bind_res r (\<lambda>x. bind_res (f x) g)"
  by (cases r) simp_all

text \<open>A loop over a list whose body may fail: the first error ends it.\<close>

fun iter_res :: "('a \<Rightarrow> 's \<Rightarrow> 'e + 's) \<Rightarrow> 'a list \<Rightarrow> 's \<Rightarrow> 'e + 's" where
  "iter_res f [] s = Inr s"
| "iter_res f (x # xs) s = bind_res (f x s) (iter_res f xs)"

lemma iter_res_append:
  "iter_res f (xs @ ys) s = bind_res (iter_res f xs s) (iter_res f ys)"
  by (induction xs arbitrary: s) (simp_all add: bind_res_def split: sum.splits)

lemma iter_res_invariant:
  assumes step: "\<And>x s s'. P s \<Longrightarrow> f x s = Inr s' \<Longrightarrow> P s'"
    and "P s" and "iter_res f xs s = Inr s'"
  shows "P s'"
  using assms(2,3)
  by (induction xs arbitrary: s) (auto simp: res_simps intro: step)

section \<open>The ordered multimap\<close>

text \<open>
  A \<^verbatim>\<open>std::multimap\<close> is the list of its entries in iteration order.  Since C++11 an insertion
  goes to the upper end of the range of equal keys; \<^verbatim>\<open>begin()\<close> is the head.
\<close>

type_synonym ('k, 'v) mmap = "('k \<times> 'v) list"

definition mm_sorted :: "('k::linorder, 'v) mmap \<Rightarrow> bool" where
  "mm_sorted m \<longleftrightarrow> sorted (map fst m)"

fun mm_insert :: "'k::linorder \<Rightarrow> 'v \<Rightarrow> ('k, 'v) mmap \<Rightarrow> ('k, 'v) mmap" where
  "mm_insert k v [] = [(k, v)]"
| "mm_insert k v (e # m) = (if fst e \<le> k then e # mm_insert k v m else (k, v) # e # m)"

text \<open>Inserting a range of entries, one after the other.\<close>

definition mm_insert_all :: "('k::linorder \<times> 'v) list \<Rightarrow> ('k, 'v) mmap \<Rightarrow> ('k, 'v) mmap" where
  "mm_insert_all es m = fold (\<lambda>e. mm_insert (fst e) (snd e)) es m"

definition mm_first :: "('k, 'v) mmap \<Rightarrow> ('k \<times> 'v) option" where
  "mm_first m = (case m of [] \<Rightarrow> None | e # _ \<Rightarrow> Some e)"

definition mm_pop :: "('k, 'v) mmap \<Rightarrow> ('k, 'v) mmap" where
  "mm_pop m = (case m of [] \<Rightarrow> [] | _ # m' \<Rightarrow> m')"

lemma mm_sorted_Nil [simp]: "mm_sorted []"
  by (simp add: mm_sorted_def)

lemma mm_sorted_Cons:
  "mm_sorted (e # m) \<longleftrightarrow> (\<forall>x \<in> set m. fst e \<le> fst x) \<and> mm_sorted m"
  by (auto simp: mm_sorted_def)

lemma set_mm_insert [simp, mm_simps]: "set (mm_insert k v m) = insert (k, v) (set m)"
  by (induction m) auto

lemma mset_mm_insert [mm_simps]: "mset (mm_insert k v m) = add_mset (k, v) (mset m)"
  by (induction m) auto

lemma mm_insert_not_Nil [simp]: "mm_insert k v m \<noteq> []"
  by (cases m) auto

lemma mm_sorted_insert [simp, mm_simps]: "mm_sorted m \<Longrightarrow> mm_sorted (mm_insert k v m)"
  by (induction m) (auto simp: mm_sorted_Cons)

lemma mm_sorted_insert_all [simp, mm_simps]:
  "mm_sorted m \<Longrightarrow> mm_sorted (mm_insert_all es m)"
  unfolding mm_insert_all_def by (induction es arbitrary: m) auto

lemma mset_mm_insert_all [mm_simps]: "mset (mm_insert_all es m) = mset es + mset m"
  unfolding mm_insert_all_def by (induction es arbitrary: m) (auto simp: mset_mm_insert)

lemma set_mm_insert_all [mm_simps]: "set (mm_insert_all es m) = set es \<union> set m"
  using mset_mm_insert_all [of es m] by (metis set_mset_mset set_mset_union)

lemma mm_sorted_filter [simp, mm_simps]: "mm_sorted m \<Longrightarrow> mm_sorted (filter P m)"
  by (induction m) (auto simp: mm_sorted_Cons)

lemma mm_sorted_pop [simp]: "mm_sorted m \<Longrightarrow> mm_sorted (mm_pop m)"
  by (cases m) (auto simp: mm_pop_def mm_sorted_Cons)

lemma mm_insert_at_end:
  "\<forall>e \<in> set m. fst e \<le> k \<Longrightarrow> mm_insert k v m = m @ [(k, v)]"
  by (induction m) auto

text \<open>Entries that share a key stay in the order of their insertion.\<close>

lemma mm_insert_stable:
  assumes "mm_sorted m"
  shows "filter (\<lambda>e. fst e = k) (mm_insert k v m) = filter (\<lambda>e. fst e = k) m @ [(k, v)]"
  using assms
proof (induction m)
  case Nil
  then show ?case by simp
next
  case (Cons e m)
  show ?case
  proof (cases "fst e \<le> k")
    case True
    with Cons show ?thesis by (auto simp: mm_sorted_Cons)
  next
    case False
    with Cons.prems have "\<forall>x \<in> set m. fst x \<noteq> k"
      by (auto simp: mm_sorted_Cons)
    then have "filter (\<lambda>e. fst e = k) m = []"
      by (simp add: filter_empty_conv)
    with False show ?thesis by auto
  qed
qed

lemma filter_mm_insert_other:
  "\<not> P (k, v) \<Longrightarrow> filter P (mm_insert k v m) = filter P m"
  by (induction m) auto

lemma filter_mm_insert_all_other:
  "\<forall>e \<in> set es. \<not> P e \<Longrightarrow> filter P (mm_insert_all es m) = filter P m"
  unfolding mm_insert_all_def
  by (induction es arbitrary: m) (auto simp: filter_mm_insert_other)

text \<open>An ordered store is its due part followed by the rest.\<close>

lemma sorted_due_split:
  assumes "mm_sorted st"
  shows "st = filter (\<lambda>e. fst e \<le> t) st @ filter (\<lambda>e. t < fst e) st"
  using assms
proof (induction st)
  case Nil
  then show ?case by simp
next
  case (Cons e st)
  show ?case
  proof (cases "fst e \<le> t")
    case True
    with Cons show ?thesis by (auto simp: mm_sorted_Cons)
  next
    case False
    with Cons.prems have "\<forall>x \<in> set (e # st). t < fst x"
      by (auto simp: mm_sorted_Cons)
    then have "filter (\<lambda>e. fst e \<le> t) (e # st) = []" and "filter (\<lambda>e. t < fst e) (e # st) = e # st"
      by (auto simp: filter_empty_conv filter_id_conv)
    then show ?thesis by simp
  qed
qed

subsection \<open>The interface the event stores rely on\<close>

locale timed_queue =
  fixes emp :: 'q
    and ins :: "'k::linorder \<Rightarrow> 'v \<Rightarrow> 'q \<Rightarrow> 'q"
    and front :: "'q \<Rightarrow> ('k \<times> 'v) option"
    and pop :: "'q \<Rightarrow> 'q"
    and entries :: "'q \<Rightarrow> ('k \<times> 'v) multiset"
    and invar :: "'q \<Rightarrow> bool"
  assumes entries_emp: "entries emp = {#}"
    and entries_ins: "invar q \<Longrightarrow> entries (ins k v q) = add_mset (k, v) (entries q)"
    and front_None: "invar q \<Longrightarrow> front q = None \<longleftrightarrow> entries q = {#}"
    and front_min: "invar q \<Longrightarrow> front q = Some e \<Longrightarrow>
      e \<in># entries q \<and> (\<forall>x \<in># entries q. fst e \<le> fst x)"
    and entries_pop: "invar q \<Longrightarrow> front q = Some e \<Longrightarrow> entries q = add_mset e (entries (pop q))"
    and invar_emp: "invar emp"
    and invar_ins: "invar q \<Longrightarrow> invar (ins k v q)"
    and invar_pop: "invar q \<Longrightarrow> invar (pop q)"
begin

lemma front_ins_min:
  assumes "invar q" and "\<forall>x \<in># entries q. k < fst x"
  shows "front (ins k v q) = Some (k, v)"
proof -
  from assms(1) have inv: "invar (ins k v q)" by (rule invar_ins)
  have "entries (ins k v q) \<noteq> {#}" using assms(1) by (simp add: entries_ins)
  with inv obtain e where e: "front (ins k v q) = Some e"
    using front_None by (cases "front (ins k v q)") auto
  from front_min [OF inv e] have "e \<in># entries (ins k v q)" and "fst e \<le> k"
    using assms(1) by (auto simp: entries_ins)
  with assms have "e = (k, v)" by (auto simp: entries_ins)
  with e show ?thesis by simp
qed

lemma no_due_iff:
  assumes "invar q"
  shows "(\<forall>e. front q = Some e \<longrightarrow> now < fst e) \<longleftrightarrow> (\<forall>x \<in># entries q. now < fst x)"
proof (cases "front q")
  case None
  with front_None [OF assms] show ?thesis by simp
next
  case (Some e)
  with front_min [OF assms Some] show ?thesis by force
qed

lemma size_pop:
  assumes "invar q" and "front q = Some e"
  shows "size (entries (pop q)) < size (entries q)"
  using entries_pop [OF assms] by simp

end

interpretation mm: timed_queue "[]" mm_insert mm_first mm_pop mset mm_sorted
proof unfold_locales
  fix q :: "('a \<times> 'b) list" and e
  assume "mm_sorted q" and "mm_first q = Some e"
  then show "e \<in># mset q \<and> (\<forall>x \<in># mset q. fst e \<le> fst x)"
    by (cases q) (auto simp: mm_first_def mm_sorted_Cons)
qed (auto simp: mm_first_def mm_pop_def mm_simps mm_sorted_Cons split: list.splits)

section \<open>The ordered map\<close>

text \<open>
  A \<^verbatim>\<open>std::map\<close> is the list of its entries in key order, without duplicate keys.
\<close>

definition om_ok :: "('k::linorder \<times> 'v) list \<Rightarrow> bool" where
  "om_ok m \<longleftrightarrow> sorted_wrt (<) (map fst m)"

fun om_put :: "'k::linorder \<Rightarrow> 'v \<Rightarrow> ('k \<times> 'v) list \<Rightarrow> ('k \<times> 'v) list" where
  "om_put k v [] = [(k, v)]"
| "om_put k v (e # m) =
     (if k < fst e then (k, v) # e # m
      else if k = fst e then (k, v) # m
      else e # om_put k v m)"

definition om_del :: "'k \<Rightarrow> ('k \<times> 'v) list \<Rightarrow> ('k \<times> 'v) list" where
  "om_del k m = filter (\<lambda>e. fst e \<noteq> k) m"

text \<open>\<^verbatim>\<open>m.insert(make_pair(k, v))\<close> keeps the value of a key that is already present.\<close>

definition om_insert :: "'k::linorder \<Rightarrow> 'v \<Rightarrow> ('k \<times> 'v) list \<Rightarrow> ('k \<times> 'v) list" where
  "om_insert k v m = (case map_of m k of None \<Rightarrow> om_put k v m | Some _ \<Rightarrow> m)"

lemma om_ok_Nil [simp]: "om_ok []"
  by (simp add: om_ok_def)

lemma om_ok_Cons: "om_ok (e # m) \<longleftrightarrow> (\<forall>x \<in> set m. fst e < fst x) \<and> om_ok m"
  by (auto simp: om_ok_def)

lemma set_om_put_subset: "set (om_put k v m) \<subseteq> insert (k, v) (set m)"
  by (induction m) auto

lemma om_ok_put [simp, om_simps]: "om_ok m \<Longrightarrow> om_ok (om_put k v m)"
proof (induction m)
  case Nil
  then show ?case by (simp add: om_ok_Cons)
next
  case (Cons e m)
  then show ?case
    using set_om_put_subset [of k v m] by (fastforce simp: om_ok_Cons)
qed

lemma map_of_om_put [simp, om_simps]: "map_of (om_put k v m) = (map_of m)(k \<mapsto> v)"
  by (induction m) (auto simp: fun_eq_iff)

lemma om_put_not_Nil [simp]: "om_put k v m \<noteq> []"
  by (cases m) auto

lemma om_ok_del [simp, om_simps]: "om_ok m \<Longrightarrow> om_ok (om_del k m)"
  by (induction m) (auto simp: om_del_def om_ok_Cons)

lemma map_of_om_del [simp, om_simps]: "map_of (om_del k m) = (map_of m)(k := None)"
  by (induction m) (auto simp: om_del_def fun_eq_iff)

lemma om_ok_distinct: "om_ok m \<Longrightarrow> distinct (map fst m)"
  by (induction m) (auto simp: om_ok_Cons)

lemma fst_om_put: "fst ` set (om_put k v m) = insert k (fst ` set m)"
  by (metis dom_map_of_conv_image_fst dom_fun_upd map_of_om_put option.simps(3))

lemma fst_om_del: "fst ` set (om_del k m) = fst ` set m - {k}"
  by (auto simp: om_del_def)

text \<open>A store whose keys all lie above is extended at the front, below at the end.\<close>

lemma om_put_snoc: "\<forall>e \<in> set m. fst e < k \<Longrightarrow> om_put k v m = m @ [(k, v)]"
  by (induction m) auto

text \<open>Two ordered maps with the same lookups are the same list.\<close>

lemma om_ok_imp_sorted: "om_ok m \<Longrightarrow> sorted (map fst m)"
  by (simp add: om_ok_def strict_sorted_imp_sorted)

lemma om_ext:
  assumes "om_ok m" and "om_ok m'" and "map_of m = map_of m'"
  shows "m = m'"
  using assms
proof (induction m arbitrary: m')
  case Nil
  then show ?case by (cases m') (auto simp: fun_eq_iff split: if_splits)
next
  case (Cons e m)
  show ?case
  proof (cases m')
    case Nil
    with Cons.prems(3) show ?thesis
      by (metis map_of_eq_empty_iff list.discI)
  next
    case (Cons e' m'')
    have keys: "insert (fst e) (fst ` set m) = insert (fst e') (fst ` set m'')"
      using Cons.prems(3) unfolding \<open>m' = e' # m''\<close>
      by (metis dom_map_of_conv_image_fst image_insert list.simps(15))
    have "fst e = fst e'"
      using keys Cons.prems(1,2) unfolding \<open>m' = e' # m''\<close> om_ok_Cons
      by (metis (no_types, opaque_lifting) image_iff insert_iff order_less_asym)
    moreover from this have "e = e'"
      using Cons.prems(3) unfolding \<open>m' = e' # m''\<close>
      by (metis map_of_Cons_code(2) option.inject prod.collapse)
    moreover have "map_of m = map_of m''"
    proof
      fix x
      have none: "map_of m (fst e) = None" "map_of m'' (fst e') = None"
        using Cons.prems(1,2) unfolding \<open>m' = e' # m''\<close>
        by (auto simp: om_ok_Cons map_of_eq_None_iff)
      show "map_of m x = map_of m'' x"
        using none fun_cong [OF Cons.prems(3), of x] \<open>e = e'\<close>
        unfolding \<open>m' = e' # m''\<close> by (cases "x = fst e") (auto split: if_splits)
    qed
    ultimately show ?thesis
      using Cons.IH Cons.prems(1,2) unfolding \<open>m' = e' # m''\<close> om_ok_Cons by blast
  qed
qed

lemma om_put_put [simp]: "om_put k a (om_put k b m) = om_put k a m"
  by (induction m) auto

lemma set_om_put_sub: "e \<in> set (om_put k v m) \<Longrightarrow> e = (k, v) \<or> e \<in> set m"
  using set_om_put_subset by fastforce

lemma om_mem_iff: "om_ok m \<Longrightarrow> (k, v) \<in> set m \<longleftrightarrow> map_of m k = Some v"
  using om_ok_distinct [of m] map_of_eq_Some_iff by fastforce

text \<open>How an update changes the number of entries with a property.\<close>

lemma length_filter_om_put:
  assumes "om_ok m" and "map_of m k = Some v"
  shows "length (filter (\<lambda>e. P (snd e)) (om_put k v' m)) + (if P v then 1 else 0)
         = length (filter (\<lambda>e. P (snd e)) m) + (if P v' then 1 else 0)"
  using assms
proof (induction m)
  case Nil
  then show ?case by simp
next
  case (Cons e m)
  have "\<not> k < fst e" if "k \<noteq> fst e"
    using Cons.prems that by (fastforce simp: om_ok_Cons dest: map_of_SomeD split: if_splits)
  with Cons show ?case by (cases e) (auto simp: om_ok_Cons split: if_splits)
qed

lemma length_filter_om_put_new:
  assumes "map_of m k = None"
  shows "length (filter (\<lambda>e. P (snd e)) (om_put k v m))
         = length (filter (\<lambda>e. P (snd e)) m) + (if P v then 1 else 0)"
  using assms by (induction m) (auto split: if_splits)

lemma map_of_map_snd: "map_of (map (\<lambda>e. (fst e, f (snd e))) m) k = map_option f (map_of m k)"
  by (induction m) auto

lemma om_ok_map_snd [simp]: "om_ok (map (\<lambda>e. (fst e, f (snd e))) m) = om_ok m"
  by (simp add: om_ok_def comp_def)

lemma om_ok_insert [simp]: "om_ok m \<Longrightarrow> om_ok (om_insert k v m)"
  by (simp add: om_insert_def split: option.splits)

lemma om_put_same: "om_ok m \<Longrightarrow> map_of m k = Some v \<Longrightarrow> om_put k v m = m"
  by (rule om_ext) (auto simp: fun_eq_iff)

section \<open>Casts between words\<close>

lemma ucast_16_32_16 [simp]: "(ucast (ucast (a :: 16 word) :: 32 word) :: 16 word) = a"
  by (rule bit_word_eqI) (simp add: bit_ucast_iff)

lemma ucast_16_32_inj: "ucast (a :: 16 word) = (ucast b :: 32 word) \<longleftrightarrow> a = b"
  by (metis ucast_16_32_16)

lemma ucast_32_16_32: "unat (i :: 32 word) < 65536 \<Longrightarrow> (ucast (ucast i :: 16 word) :: 32 word) = i"
  by (simp add: word_unat_eq_iff unsigned_ucast_eq take_bit_eq_mod unat_mod_distrib)

lemma ucast_8_16_8 [simp]: "(ucast (ucast (a :: 8 word) :: 16 word) :: 8 word) = a"
  by (rule bit_word_eqI) (simp add: bit_ucast_iff)

lemma ucast_8_16_inj: "ucast (a :: 8 word) = (ucast b :: 16 word) \<longleftrightarrow> a = b"
  by (metis ucast_8_16_8)

lemma ucast_8_16_eq_0: "ucast (a :: 8 word) = (0 :: 16 word) \<longleftrightarrow> a = 0"
  by (metis ucast_8_16_8 unsigned_0)

lemma word_less_succ: "(i :: 'a::len word) \<le> t \<Longrightarrow> t \<noteq> - 1 \<Longrightarrow> i < t + 1"
  by (meson inc_less_eq_iff linorder_not_less order_less_le_trans order_less_irrefl order.strict_trans1)

end
