(* ===== verification/ByteBuf.thy ===== *)
theory ByteBuf
  imports Prelude
begin

unbundle bit_operations_syntax

text \<open>
  The packet buffer \<^verbatim>\<open>ByteBuffer\<close> of \<^verbatim>\<open>shared/Packets/ByteBuffer.h\<close> and the byte swapping of
  \<^verbatim>\<open>shared/Utilities/ByteConverter.h\<close>: raw appends and reads, the bit cursor, the stream
  operators, packed GUIDs and packed times.  This theory holds the definitions; the theorems
  are in \<open>ByteBuf_Bytes\<close> (whole-byte codecs) and \<open>ByteBuf_Bits\<close> (the bit cursor).

  Exceptions are the values \<open>PositionException\<close> and \<open>SourceException\<close> with the arguments
  of the constructor in its order; a failed \<^verbatim>\<open>ASSERT\<close> is \<open>AssertFailed\<close>; a memory access or a
  shift the C++ standard leaves undefined is \<open>Undefined\<close>.
\<close>

section \<open>State and errors\<close>

datatype bb_error =
    PositionException (pe_add: bool) (pe_pos: nat) (pe_size: nat) (pe_valueSize: nat)
  | SourceException (se_pos: nat) (se_size: nat) (se_valueSize: nat)
  | AssertFailed
  | Undefined

record bytebuffer =
  rpos :: nat
  wpos :: nat
  bitpos :: nat
  curbitval :: uint8
  storage :: "uint8 list"

definition ByteBuffer_new :: bytebuffer where
  "ByteBuffer_new = \<lparr>rpos = 0, wpos = 0, bitpos = 8, curbitval = 0, storage = []\<rparr>"

abbreviation bb_size :: "bytebuffer \<Rightarrow> nat" where
  "bb_size b \<equiv> length (storage b)"

definition bb_clear :: "bytebuffer \<Rightarrow> bytebuffer" where
  "bb_clear b = b\<lparr>storage := [], rpos := 0, wpos := 0\<rparr>"

text \<open>\<^verbatim>\<open>std::vector::resize(n)\<close>: cut, or fill up with zero bytes.\<close>

definition vec_resize :: "nat \<Rightarrow> uint8 list \<Rightarrow> uint8 list" where
  "vec_resize n xs = take n xs @ replicate (n - length xs) 0"

definition bb_resize :: "nat \<Rightarrow> bytebuffer \<Rightarrow> bytebuffer" where
  "bb_resize newsize b =
     (let st = vec_resize newsize (storage b)
      in b\<lparr>storage := st, rpos := 0, wpos := length st\<rparr>)"

section \<open>Bytes of a machine word\<close>

text \<open>The object representation of a value, lowest byte first, and back.\<close>

definition word_bytes :: "'a::len word \<Rightarrow> uint8 list" where
  "word_bytes w = map (\<lambda>i. ucast (drop_bit (8 * i) w)) [0..<LENGTH('a) div 8]"

fun bytes_word :: "uint8 list \<Rightarrow> 'a::len word" where
  "bytes_word [] = 0"
| "bytes_word (b # bs) = ucast b OR push_bit 8 (bytes_word bs)"

text \<open>The memory of a value on a host that is big-endian (\<open>be\<close>) or little-endian.\<close>

definition host_bytes :: "bool \<Rightarrow> 'a::len word \<Rightarrow> uint8 list" where
  "host_bytes be w = (if be then rev (word_bytes w) else word_bytes w)"

definition host_word :: "bool \<Rightarrow> uint8 list \<Rightarrow> 'a::len word" where
  "host_word be bs = bytes_word (if be then rev bs else bs)"

text \<open>\<^verbatim>\<open>ByteConverter::convert\<close> swaps the outer bytes and goes on with the inner ones.\<close>

fun bc_convert :: "uint8 list \<Rightarrow> uint8 list" where
  "bc_convert [] = []"
| "bc_convert [x] = [x]"
| "bc_convert (x # y # zs) = last (y # zs) # bc_convert (butlast (y # zs)) @ [x]"

definition EndianConvert :: "bool \<Rightarrow> uint8 list \<Rightarrow> uint8 list" where
  "EndianConvert be bs = (if be then bc_convert bs else bs)"

section \<open>Raw appends, puts and reads\<close>

text \<open>
  \<^verbatim>\<open>append(const uint8* src, size_t cnt)\<close>: \<open>None\<close> is the null pointer, \<open>Some xs\<close> memory
  that holds \<open>xs\<close>.
\<close>

definition append_raw :: "uint8 list option \<Rightarrow> nat \<Rightarrow> bytebuffer \<Rightarrow> bb_error + bytebuffer" where
  "append_raw src cnt b =
     (if cnt = 0 then Inl (SourceException (wpos b) (bb_size b) cnt)
      else case src of
        None \<Rightarrow> Inl (SourceException (wpos b) (bb_size b) cnt)
      | Some xs \<Rightarrow>
         if \<not> bb_size b < 10000000 then Inl AssertFailed
         else
          let end = sz_add (wpos b) cnt;
              st = (if bb_size b < end then vec_resize end (storage b) else storage b)
          in if length xs < cnt \<or> length st < wpos b + cnt then Inl Undefined
             else Inr (b\<lparr>storage := take (wpos b) st @ take cnt xs @ drop (wpos b + cnt) st,
                         wpos := end\<rparr>))"

definition FlushBits :: "bytebuffer \<Rightarrow> bb_error + bytebuffer" where
  "FlushBits b =
     (if bitpos b = 8 then Inr b
      else bind_res (append_raw (Some [curbitval b]) 1 b)
             (\<lambda>b. Inr (b\<lparr>curbitval := 0, bitpos := 8\<rparr>)))"

text \<open>The template \<^verbatim>\<open>append<T>(T value)\<close>, for an integral type of the width of \<open>'a\<close>.\<close>

definition append_T :: "bool \<Rightarrow> 'a::len word \<Rightarrow> bytebuffer \<Rightarrow> bb_error + bytebuffer" where
  "append_T be v b =
     bind_res (FlushBits b)
       (\<lambda>b. let bs = EndianConvert be (host_bytes be v) in append_raw (Some bs) (length bs) b)"

definition append_buffer :: "bytebuffer \<Rightarrow> bytebuffer \<Rightarrow> bb_error + bytebuffer" where
  "append_buffer buffer b =
     (if wpos buffer \<noteq> 0 then append_raw (Some (storage buffer)) (wpos buffer) b else Inr b)"

definition put_raw :: "nat \<Rightarrow> uint8 list option \<Rightarrow> nat \<Rightarrow> bytebuffer \<Rightarrow> bb_error + bytebuffer" where
  "put_raw pos src cnt b =
     (if sz_add pos cnt > bb_size b then Inl (PositionException True pos cnt (bb_size b))
      else case src of
        None \<Rightarrow> Inl (SourceException (wpos b) (bb_size b) cnt)
      | Some xs \<Rightarrow>
         if length xs < cnt \<or> bb_size b < pos + cnt then Inl Undefined
         else Inr (b\<lparr>storage := take pos (storage b) @ take cnt xs @ drop (pos + cnt) (storage b)\<rparr>))"

definition put_T :: "bool \<Rightarrow> nat \<Rightarrow> 'a::len word \<Rightarrow> bytebuffer \<Rightarrow> bb_error + bytebuffer" where
  "put_T be pos v b =
     (let bs = EndianConvert be (host_bytes be v) in put_raw pos (Some bs) (length bs) b)"

text \<open>The template \<^verbatim>\<open>read<T>(size_t pos) const\<close> and the consuming \<^verbatim>\<open>read<T>()\<close>.\<close>

definition read_at :: "bool \<Rightarrow> nat \<Rightarrow> bytebuffer \<Rightarrow> bb_error + 'a::len word" where
  "read_at be pos b =
     (let n = LENGTH('a) div 8
      in if sz_add pos n > bb_size b then Inl (PositionException False pos n (bb_size b))
         else if bb_size b < pos + n then Inl Undefined
         else Inr (host_word be (EndianConvert be (take n (drop pos (storage b))))))"

definition read_T :: "bool \<Rightarrow> bytebuffer \<Rightarrow> bb_error + ('a::len word \<times> bytebuffer)" where
  "read_T be b =
     bind_res (read_at be (rpos b) b)
       (\<lambda>r :: 'a word. Inr (r, b\<lparr>rpos := sz_add (rpos b) (LENGTH('a) div 8)\<rparr>))"

definition read_raw :: "nat \<Rightarrow> bytebuffer \<Rightarrow> bb_error + (uint8 list \<times> bytebuffer)" where
  "read_raw len b =
     (if sz_add (rpos b) len > bb_size b then Inl (PositionException False (rpos b) len (bb_size b))
      else if bb_size b < rpos b + len then Inl Undefined
      else Inr (take len (drop (rpos b) (storage b)), b\<lparr>rpos := sz_add (rpos b) len\<rparr>))"

definition read_skip :: "nat \<Rightarrow> bytebuffer \<Rightarrow> bb_error + bytebuffer" where
  "read_skip skip b =
     (if sz_add (rpos b) skip > bb_size b
      then Inl (PositionException False (rpos b) skip (bb_size b))
      else Inr (b\<lparr>rpos := sz_add (rpos b) skip\<rparr>))"

definition bb_index :: "nat \<Rightarrow> bytebuffer \<Rightarrow> bb_error + uint8" where
  "bb_index pos b =
     (if pos \<ge> bb_size b then Inl (PositionException False pos 1 (bb_size b))
      else Inr (storage b ! pos))"

definition set_rpos :: "nat \<Rightarrow> bytebuffer \<Rightarrow> nat \<times> bytebuffer" where
  "set_rpos p b = (p, b\<lparr>rpos := p\<rparr>)"

definition rfinish :: "bytebuffer \<Rightarrow> bytebuffer" where
  "rfinish b = b\<lparr>rpos := wpos b\<rparr>"

definition set_wpos :: "nat \<Rightarrow> bytebuffer \<Rightarrow> nat \<times> bytebuffer" where
  "set_wpos p b = (p, b\<lparr>wpos := p\<rparr>)"

definition bitwpos :: "bytebuffer \<Rightarrow> nat" where
  "bitwpos b = sz_sub (sz_add ((wpos b * 8) mod SIZE_T_MOD) 8) (bitpos b)"

definition set_bitwpos :: "nat \<Rightarrow> bytebuffer \<Rightarrow> nat \<times> bytebuffer" where
  "set_bitwpos newPos b =
     (let b' = b\<lparr>wpos := newPos div 8, bitpos := 8 - newPos mod 8\<rparr> in (bitwpos b', b'))"

section \<open>The bit cursor\<close>

definition WriteBit :: "uint32 \<Rightarrow> bytebuffer \<Rightarrow> bb_error + (bool \<times> bytebuffer)" where
  "WriteBit v b =
     (let bp = sz_sub (bitpos b) 1
      in if v \<noteq> 0 \<and> bp \<ge> 32 then Inl Undefined
         else
          let cur = (if v \<noteq> 0 then curbitval b OR ucast (push_bit bp (1 :: uint32))
                     else curbitval b);
              b1 = b\<lparr>bitpos := bp, curbitval := cur\<rparr>
          in if bp = 0
             then bind_res (append_raw (Some [cur]) 1 (b1\<lparr>bitpos := 8\<rparr>))
                    (\<lambda>b2. Inr (v \<noteq> 0, b2\<lparr>curbitval := 0\<rparr>))
             else Inr (v \<noteq> 0, b1))"

definition ReadBit :: "bytebuffer \<Rightarrow> bb_error + (bool \<times> bytebuffer)" where
  "ReadBit b =
     (let bp = sz_add (bitpos b) 1
      in if bp > 7
         then bind_res (read_T False (b\<lparr>bitpos := 0\<rparr>))
                (\<lambda>(r :: uint8, b1). Inr (drop_bit 7 r AND 1 \<noteq> 0, b1\<lparr>curbitval := r\<rparr>))
         else Inr (drop_bit (7 - bp) (curbitval b) AND 1 \<noteq> 0, b\<lparr>bitpos := bp\<rparr>))"

text \<open>
  The loops \<^verbatim>\<open>for (int32 i = bits-1; i >= 0; --i)\<close> run \<open>loop_count bits\<close> times: \<^verbatim>\<open>bits-1\<close>
  is converted to a signed 32-bit integer first.
\<close>

definition loop_count :: "nat \<Rightarrow> nat" where
  "loop_count bits = nat (sint (of_nat bits - 1 :: int32) + 1)"

fun WriteBits_loop :: "nat \<Rightarrow> 'a::len word \<Rightarrow> bytebuffer \<Rightarrow> bb_error + bytebuffer" where
  "WriteBits_loop 0 v b = Inr b"
| "WriteBits_loop (Suc i) v b =
     (if i \<ge> max 32 LENGTH('a) then Inl Undefined
      else bind_res (WriteBit (ucast (drop_bit i v AND 1)) b)
             (\<lambda>(_, b). WriteBits_loop i v b))"

definition WriteBits :: "'a::len word \<Rightarrow> nat \<Rightarrow> bytebuffer \<Rightarrow> bb_error + bytebuffer" where
  "WriteBits v bits b = WriteBits_loop (loop_count bits) v b"

fun ReadBits_loop :: "nat \<Rightarrow> uint32 \<Rightarrow> bytebuffer \<Rightarrow> bb_error + (uint32 \<times> bytebuffer)" where
  "ReadBits_loop 0 v b = Inr (v, b)"
| "ReadBits_loop (Suc i) v b =
     bind_res (ReadBit b)
       (\<lambda>(r, b). if r \<and> i \<ge> 32 then Inl Undefined
                 else ReadBits_loop i (if r then v OR push_bit i 1 else v) b)"

definition ReadBits :: "nat \<Rightarrow> bytebuffer \<Rightarrow> bb_error + (uint32 \<times> bytebuffer)" where
  "ReadBits bits b = ReadBits_loop (loop_count bits) 0 b"

definition ReadByteSeq :: "uint8 \<Rightarrow> bytebuffer \<Rightarrow> bb_error + (uint8 \<times> bytebuffer)" where
  "ReadByteSeq x b =
     (if x \<noteq> 0 then bind_res (read_T False b) (\<lambda>(r :: uint8, b). Inr (x XOR r, b))
      else Inr (x, b))"

definition WriteByteSeq :: "uint8 \<Rightarrow> bytebuffer \<Rightarrow> bb_error + bytebuffer" where
  "WriteByteSeq x b = (if x \<noteq> 0 then append_T False (x XOR 1) b else Inr b)"

text \<open>
  The GUID helpers index the bytes of the 64-bit GUID through a client-supplied order table;
  an index outside the table or outside the eight bytes is undefined.
\<close>

definition guid_byte :: "uint64 \<Rightarrow> uint8 list \<Rightarrow> nat \<Rightarrow> bb_error + uint8" where
  "guid_byte guid order i =
     (if i < length order \<and> unat (order ! i) < 8
      then Inr (host_bytes False guid ! unat (order ! i)) else Inl Undefined)"

definition WriteGuidMask ::
  "uint64 \<Rightarrow> uint8 list \<Rightarrow> uint8 \<Rightarrow> uint8 \<Rightarrow> bytebuffer \<Rightarrow> bb_error + bytebuffer" where
  "WriteGuidMask guid maskOrder maskCount maskPos b =
     iter_res (\<lambda>i b. bind_res (guid_byte guid maskOrder (i + unat maskPos))
                       (\<lambda>x. bind_res (WriteBit (ucast x) b) (\<lambda>(_, b). Inr b)))
       [0..<unat maskCount] b"

definition WriteGuidBytes ::
  "uint64 \<Rightarrow> uint8 list \<Rightarrow> uint8 \<Rightarrow> uint8 \<Rightarrow> bytebuffer \<Rightarrow> bb_error + bytebuffer" where
  "WriteGuidBytes guid byteOrder byteCount bytePos b =
     iter_res (\<lambda>i b. bind_res (guid_byte guid byteOrder (i + unat bytePos))
                       (\<lambda>x. if x \<noteq> 0 then append_T False (x XOR 1) b else Inr b))
       [0..<unat byteCount] b"

text \<open>\<^verbatim>\<open>PutBits\<close> overwrites bits that are already in the storage.\<close>

definition put_bit_at :: "nat \<Rightarrow> bool \<Rightarrow> uint8 list \<Rightarrow> uint8 list" where
  "put_bit_at p v st =
     st[p div 8 := (if v then st ! (p div 8) OR push_bit (7 - p mod 8) 1
                    else st ! (p div 8) AND NOT (push_bit (7 - p mod 8) 1))]"

fun PutBits_loop :: "nat \<Rightarrow> nat \<Rightarrow> 'a::len word \<Rightarrow> nat \<Rightarrow> uint8 list \<Rightarrow> bb_error + uint8 list" where
  "PutBits_loop 0 pos v bitCount st = Inr st"
| "PutBits_loop (Suc k) pos v bitCount st =
     (if k \<ge> max 32 LENGTH('a) \<or> (pos + (bitCount - Suc k)) div 8 \<ge> length st then Inl Undefined
      else PutBits_loop k pos v bitCount
             (put_bit_at (pos + (bitCount - Suc k)) (drop_bit k v AND 1 \<noteq> 0) st))"

definition PutBits :: "nat \<Rightarrow> 'a::len word \<Rightarrow> uint32 \<Rightarrow> bytebuffer \<Rightarrow> bb_error + bytebuffer" where
  "PutBits pos v bitCount b =
     (let n = unat bitCount
      in if n = 0 then Inl (SourceException (sz_add pos n div 8) (bb_size b) 0)
         else if sz_add pos n > (bb_size b * 8) mod SIZE_T_MOD
         then Inl (PositionException False (sz_add pos n div 8) (bb_size b) ((n - 1) div 8 + 1))
         else bind_res (PutBits_loop n pos v n (storage b)) (\<lambda>st. Inr (b\<lparr>storage := st\<rparr>)))"

section \<open>Stream operators\<close>

text \<open>
  One constructor per overload of \<^verbatim>\<open>operator<<\<close>.  Signed integers are kept as the words of
  their two's complement representation and floating point values as their bit patterns; a
  \<^verbatim>\<open>char const*\<close> is \<open>WCStr\<close>, with \<open>None\<close> for the null pointer.
\<close>

datatype wire =
    WU8 uint8 | WU16 uint16 | WU32 uint32 | WU64 uint64
  | WI8 uint8 | WI16 uint16 | WI32 uint32 | WI64 uint64
  | WF32 uint32 | WF64 uint64
  | WStr string
  | WCStr "string option"

definition str_bytes :: "string \<Rightarrow> uint8 list" where
  "str_bytes s = map of_char s"

definition byte_char :: "uint8 \<Rightarrow> char" where
  "byte_char x = char_of (unat x)"

text \<open>\<^verbatim>\<open>strlen\<close> and C string contents end at the first NUL.\<close>

definition c_str :: "string \<Rightarrow> string" where
  "c_str s = takeWhile (\<lambda>c. c \<noteq> CHR 0x00) s"

definition append_str :: "string \<Rightarrow> bytebuffer \<Rightarrow> bb_error + bytebuffer" where
  "append_str s b =
     bind_res (if length s \<noteq> 0 then append_raw (Some (str_bytes s)) (length s) b else Inr b)
       (append_T False (0 :: uint8))"

fun op_shl :: "wire \<Rightarrow> bytebuffer \<Rightarrow> bb_error + bytebuffer" where
  "op_shl (WU8 v) b = append_T False v b"
| "op_shl (WU16 v) b = append_T False v b"
| "op_shl (WU32 v) b = append_T False v b"
| "op_shl (WU64 v) b = append_T False v b"
| "op_shl (WI8 v) b = append_T False v b"
| "op_shl (WI16 v) b = append_T False v b"
| "op_shl (WI32 v) b = append_T False v b"
| "op_shl (WI64 v) b = append_T False v b"
| "op_shl (WF32 v) b = append_T False v b"
| "op_shl (WF64 v) b = append_T False v b"
| "op_shl (WStr s) b = append_str s b"
| "op_shl (WCStr s) b = append_str (case s of None \<Rightarrow> [] | Some s \<Rightarrow> c_str s) b"

datatype wtype =
    TU8 | TU16 | TU32 | TU64 | TI8 | TI16 | TI32 | TI64 | TF32 | TF64 | TStr

text \<open>\<^verbatim>\<open>operator>>(bool&)\<close> compares a signed \<^verbatim>\<open>char\<close> with 0.\<close>

definition op_shr_bool :: "bytebuffer \<Rightarrow> bb_error + (bool \<times> bytebuffer)" where
  "op_shr_bool b = bind_res (read_T False b) (\<lambda>(r :: uint8, b). Inr (sint r > 0, b))"

text \<open>
  \<^verbatim>\<open>operator>>(std::string&)\<close>: the loop condition \<^verbatim>\<open>rpos() < size()\<close> bounds the number of
  iterations by the bytes that are left, which is the fuel of \<open>read_str_loop\<close>.
\<close>

fun read_str_loop :: "nat \<Rightarrow> string \<Rightarrow> bytebuffer \<Rightarrow> bb_error + (string \<times> bytebuffer)" where
  "read_str_loop 0 s b = Inr (s, b)"
| "read_str_loop (Suc n) s b =
     (if rpos b < bb_size b
      then bind_res (read_T False b)
             (\<lambda>(c :: uint8, b). if c = 0 then Inr (s, b)
                                else read_str_loop n (s @ [byte_char c]) b)
      else Inr (s, b))"

definition read_str :: "bytebuffer \<Rightarrow> bb_error + (string \<times> bytebuffer)" where
  "read_str b = read_str_loop (bb_size b - rpos b) [] b"

fun op_shr :: "wtype \<Rightarrow> bytebuffer \<Rightarrow> bb_error + (wire \<times> bytebuffer)" where
  "op_shr TU8 b = bind_res (read_T False b) (\<lambda>(v, b). Inr (WU8 v, b))"
| "op_shr TU16 b = bind_res (read_T False b) (\<lambda>(v, b). Inr (WU16 v, b))"
| "op_shr TU32 b = bind_res (read_T False b) (\<lambda>(v, b). Inr (WU32 v, b))"
| "op_shr TU64 b = bind_res (read_T False b) (\<lambda>(v, b). Inr (WU64 v, b))"
| "op_shr TI8 b = bind_res (read_T False b) (\<lambda>(v, b). Inr (WI8 v, b))"
| "op_shr TI16 b = bind_res (read_T False b) (\<lambda>(v, b). Inr (WI16 v, b))"
| "op_shr TI32 b = bind_res (read_T False b) (\<lambda>(v, b). Inr (WI32 v, b))"
| "op_shr TI64 b = bind_res (read_T False b) (\<lambda>(v, b). Inr (WI64 v, b))"
| "op_shr TF32 b = bind_res (read_T False b) (\<lambda>(v, b). Inr (WF32 v, b))"
| "op_shr TF64 b = bind_res (read_T False b) (\<lambda>(v, b). Inr (WF64 v, b))"
| "op_shr TStr b = bind_res (read_str b) (\<lambda>(s, b). Inr (WStr s, b))"

text \<open>\<^verbatim>\<open>read_skip<char*>()\<close> reads a string and drops it.\<close>

definition read_skip_str :: "bytebuffer \<Rightarrow> bb_error + bytebuffer" where
  "read_skip_str b = bind_res (read_str b) (\<lambda>(_, b). Inr b)"

definition ReadString :: "uint32 \<Rightarrow> bytebuffer \<Rightarrow> bb_error + (string \<times> bytebuffer)" where
  "ReadString len b =
     (if len = 0 then Inr ([], b)
      else bind_res (read_raw (unat len) b)
             (\<lambda>(bs, b). Inr (c_str (map byte_char bs), b)))"

definition WriteString :: "string \<Rightarrow> bytebuffer \<Rightarrow> bb_error + bytebuffer" where
  "WriteString s b =
     (if length s \<noteq> 0 then append_raw (Some (str_bytes s)) (length s) b else Inr b)"

text \<open>The containers: the element operators of the templates are arguments.\<close>

definition op_shl_vector ::
  "('a \<Rightarrow> bytebuffer \<Rightarrow> bb_error + bytebuffer) \<Rightarrow> 'a list \<Rightarrow> bytebuffer \<Rightarrow> bb_error + bytebuffer" where
  "op_shl_vector wr v b =
     bind_res (op_shl (WU32 (of_nat (length v))) b) (iter_res wr v)"

fun shr_loop ::
  "(bytebuffer \<Rightarrow> bb_error + ('a \<times> bytebuffer)) \<Rightarrow> nat \<Rightarrow> 'a list \<Rightarrow> bytebuffer
     \<Rightarrow> bb_error + ('a list \<times> bytebuffer)" where
  "shr_loop rd 0 v b = Inr (v, b)"
| "shr_loop rd (Suc n) v b = bind_res (rd b) (\<lambda>(t, b). shr_loop rd n (v @ [t]) b)"

definition op_shr_vector ::
  "(bytebuffer \<Rightarrow> bb_error + ('a \<times> bytebuffer)) \<Rightarrow> bytebuffer
     \<Rightarrow> bb_error + ('a list \<times> bytebuffer)" where
  "op_shr_vector rd b =
     bind_res (read_T False b) (\<lambda>(vsize :: uint32, b). shr_loop rd (unat vsize) [] b)"

definition op_shl_map ::
  "('k \<Rightarrow> bytebuffer \<Rightarrow> bb_error + bytebuffer) \<Rightarrow> ('v \<Rightarrow> bytebuffer \<Rightarrow> bb_error + bytebuffer)
     \<Rightarrow> ('k \<times> 'v) list \<Rightarrow> bytebuffer \<Rightarrow> bb_error + bytebuffer" where
  "op_shl_map wk wv m b =
     bind_res (op_shl (WU32 (of_nat (length m))) b)
       (iter_res (\<lambda>e b. bind_res (wk (fst e) b) (wv (snd e))) m)"

fun shr_map_loop ::
  "(bytebuffer \<Rightarrow> bb_error + ('k::linorder \<times> bytebuffer)) \<Rightarrow>
   (bytebuffer \<Rightarrow> bb_error + ('v \<times> bytebuffer)) \<Rightarrow> nat \<Rightarrow> ('k \<times> 'v) list \<Rightarrow> bytebuffer
     \<Rightarrow> bb_error + (('k \<times> 'v) list \<times> bytebuffer)" where
  "shr_map_loop rk rv 0 m b = Inr (m, b)"
| "shr_map_loop rk rv (Suc n) m b =
     bind_res (rk b) (\<lambda>(k, b). bind_res (rv b)
       (\<lambda>(v, b). shr_map_loop rk rv n (om_insert k v m) b))"

definition op_shr_map ::
  "(bytebuffer \<Rightarrow> bb_error + ('k::linorder \<times> bytebuffer)) \<Rightarrow>
   (bytebuffer \<Rightarrow> bb_error + ('v \<times> bytebuffer)) \<Rightarrow> bytebuffer
     \<Rightarrow> bb_error + (('k \<times> 'v) list \<times> bytebuffer)" where
  "op_shr_map rk rv b =
     bind_res (read_T False b) (\<lambda>(msize :: uint32, b). shr_map_loop rk rv (unat msize) [] b)"

section \<open>Packed GUIDs\<close>

text \<open>
  \<^verbatim>\<open>appendPackGUID\<close>: a mask byte, then the bytes of the GUID that are not zero.  The loop ends
  when the shifted GUID is zero.
\<close>

function pack_guid_loop :: "nat \<Rightarrow> uint64 \<Rightarrow> uint8 \<Rightarrow> uint8 list \<Rightarrow> uint8 \<times> uint8 list" where
  "pack_guid_loop i guid mk out =
     (if guid = 0 then (mk, out)
      else if guid AND 0xFF \<noteq> 0
      then pack_guid_loop (Suc i) (drop_bit 8 guid) (mk OR push_bit i 1)
             (out @ [ucast (guid AND 0xFF)])
      else pack_guid_loop (Suc i) (drop_bit 8 guid) mk out)"
  by pat_completeness auto
termination
proof (relation "measure (\<lambda>(i, guid, mk, out). unat guid)")
  have *: "unat (drop_bit 8 g) < unat g" if "g \<noteq> 0" for g :: uint64
  proof -
    have "unat (drop_bit 8 g) = unat g div 256"
      by (simp add: drop_bit_eq_div unat_div)
    moreover have "0 < unat g" using that by (simp add: unat_gt_0)
    ultimately show ?thesis by simp
  qed
  fix i and guid :: uint64 and mk :: uint8 and out :: "uint8 list"
  assume "guid \<noteq> 0"
  then show "((Suc i, drop_bit 8 guid, mk OR push_bit i 1, out @ [ucast (guid AND 0xFF)]),
      i, guid, mk, out) \<in> measure (\<lambda>(i, guid, mk, out). unat guid)"
    and "((Suc i, drop_bit 8 guid, mk, out), i, guid, mk, out)
      \<in> measure (\<lambda>(i, guid, mk, out). unat guid)"
    by (simp_all add: *)
qed simp

declare pack_guid_loop.simps [simp del]

definition appendPackGUID :: "uint64 \<Rightarrow> bytebuffer \<Rightarrow> bb_error + bytebuffer" where
  "appendPackGUID guid b =
     (let (mk, out) = pack_guid_loop 0 guid 0 []
      in append_raw (Some (mk # out)) (Suc (length out)) b)"

fun read_pack_loop ::
  "nat list \<Rightarrow> uint8 \<Rightarrow> uint64 \<Rightarrow> bytebuffer \<Rightarrow> bb_error + (uint64 \<times> bytebuffer)" where
  "read_pack_loop [] mark guid b = Inr (guid, b)"
| "read_pack_loop (i # is) mark guid b =
     (if mark AND push_bit i 1 \<noteq> 0
      then if sz_add (rpos b) 1 > bb_size b
           then Inl (PositionException False (rpos b) 1 (bb_size b))
           else bind_res (read_T False b)
                  (\<lambda>(x :: uint8, b). read_pack_loop is mark (guid OR push_bit (i * 8) (ucast x)) b)
      else read_pack_loop is mark guid b)"

definition readPackGUID :: "bytebuffer \<Rightarrow> bb_error + (uint64 \<times> bytebuffer)" where
  "readPackGUID b =
     (if sz_add (rpos b) 1 > bb_size b then Inl (PositionException False (rpos b) 1 (bb_size b))
      else bind_res (read_T False b)
             (\<lambda>(guidmark :: uint8, b). read_pack_loop [0..<8] guidmark 0 b))"

section \<open>Packed times\<close>

text \<open>
  The C library's broken-down time; \<^verbatim>\<open>localtime\<close> and \<^verbatim>\<open>mktime\<close>, which depend on the time zone
  of the host, are arguments of the two operations.
\<close>

record tm =
  tm_sec :: int
  tm_min :: int
  tm_hour :: int
  tm_mday :: int
  tm_mon :: int
  tm_year :: int
  tm_wday :: int

definition packed_date :: "tm \<Rightarrow> uint32" where
  "packed_date lt =
     push_bit 24 (of_int (tm_year lt - 100)) OR push_bit 20 (of_int (tm_mon lt))
     OR push_bit 14 (of_int (tm_mday lt - 1)) OR push_bit 11 (of_int (tm_wday lt))
     OR push_bit 6 (of_int (tm_hour lt)) OR of_int (tm_min lt)"

definition unpacked_tm :: "uint32 \<Rightarrow> tm" where
  "unpacked_tm d =
     \<lparr>tm_sec = 0,
      tm_min = uint (d AND 0x3F),
      tm_hour = uint (drop_bit 6 d AND 0x1F),
      tm_mday = uint (drop_bit 14 d AND 0x3F) + 1,
      tm_mon = uint (drop_bit 20 d AND 0xF),
      tm_year = uint (drop_bit 24 d AND 0x1F) + 100,
      tm_wday = 0\<rparr>"

definition AppendPackedTime :: "('t \<Rightarrow> tm) \<Rightarrow> 't \<Rightarrow> bytebuffer \<Rightarrow> bb_error + bytebuffer" where
  "AppendPackedTime localtime t b = append_T False (packed_date (localtime t)) b"

definition ReadPackedTime ::
  "(tm \<Rightarrow> int) \<Rightarrow> bytebuffer \<Rightarrow> bb_error + (uint32 \<times> bytebuffer)" where
  "ReadPackedTime mktime b =
     bind_res (read_T False b) (\<lambda>(d :: uint32, b). Inr (of_int (mktime (unpacked_tm d)), b))"

end
