(* ===== verification/ByteBuf_Bytes.thy ===== *)
theory ByteBuf_Bytes
  imports ByteBuf
begin

unbundle bit_operations_syntax

text \<open>
  Theorems on the whole-byte operations of the packet buffer.  \<open>writer\<close> describes a buffer
  that is being filled, \<open>appended xs\<close> what an append of \<open>xs\<close> does to it, \<open>remaining\<close> what a
  reader still has before it.  The locale \<open>byte_codec\<close> is the contract between a pair of
  stream operators and the container templates built on them.
\<close>

named_theorems bb_simps \<open>rules for the packet buffer\<close>

section \<open>Words and bytes\<close>

lemma length_word_bytes [simp]: "length (word_bytes (w :: 'a::len word)) = LENGTH('a) div 8"
  by (simp add: word_bytes_def)

lemma bit_bytes_word:
  "bit (bytes_word bs :: 'a::len word) n \<longleftrightarrow>
     n < LENGTH('a) \<and> n div 8 < length bs \<and> bit (bs ! (n div 8)) (n mod 8)"
proof (induction bs arbitrary: n)
  case Nil
  then show ?case by simp
next
  case (Cons b bs)
  show ?case
  proof (cases "n < 8")
    case True
    then show ?thesis by (auto simp: bit_simps)
  next
    case False
    then have "n div 8 = Suc ((n - 8) div 8)" and "(n - 8) mod 8 = n mod 8"
      by (auto simp: le_mod_geq)
    moreover have "\<not> bit b n"
      using False bit_imp_le_length [of b n] by auto
    ultimately show ?thesis
      using False Cons.IH [of "n - 8"] by (auto simp: bit_simps)
  qed
qed

lemma bit_word_bytes:
  assumes "i < LENGTH('a) div 8"
  shows "bit (word_bytes (w :: 'a::len word) ! i) k \<longleftrightarrow> k < 8 \<and> bit w (8 * i + k)"
  using assms by (auto simp: word_bytes_def bit_simps)

lemma bytes_word_word_bytes [simp]:
  assumes "8 dvd LENGTH('a)"
  shows "bytes_word (word_bytes w) = (w :: 'a::len word)"
proof (rule bit_word_eqI)
  fix n
  assume n: "n < LENGTH('a)"
  with assms have "n div 8 < LENGTH('a) div 8"
    by (metis dvd_mult_div_cancel less_mult_imp_div_less mult.commute)
  then show "bit (bytes_word (word_bytes w) :: 'a word) n \<longleftrightarrow> bit w n"
    using n by (simp add: bit_bytes_word bit_word_bytes)
qed

lemma word_bytes_bytes_word:
  assumes "length bs = LENGTH('a) div 8"
  shows "word_bytes (bytes_word bs :: 'a::len word) = bs"
proof (rule nth_equalityI)
  show "length (word_bytes (bytes_word bs :: 'a word)) = length bs"
    using assms by simp
next
  fix i
  assume "i < length (word_bytes (bytes_word bs :: 'a word))"
  then have i: "i < LENGTH('a) div 8" by simp
  show "word_bytes (bytes_word bs :: 'a word) ! i = bs ! i"
  proof (rule bit_word_eqI)
    fix k
    assume "k < LENGTH(8)"
    then have k: "k < 8" by simp
    have "8 * i + k < LENGTH('a)" and "(8 * i + k) div 8 = i" and "(8 * i + k) mod 8 = k"
      using i k by auto
    then show "bit (word_bytes (bytes_word bs :: 'a word) ! i) k \<longleftrightarrow> bit (bs ! i) k"
      using i k assms by (simp add: bit_word_bytes bit_bytes_word)
  qed
qed

text \<open>The byte swap of \<^verbatim>\<open>ByteConverter\<close> is a reversal, so the wire order is the host's no more.\<close>

lemma bc_convert_rev: "bc_convert xs = rev xs"
proof (induction xs rule: bc_convert.induct)
  case (3 x y zs)
  have "rev (y # zs) = last (y # zs) # rev (butlast (y # zs))"
    by (metis append_butlast_last_id list.discI rev_eq_Cons_iff rev_rev_ident)
  with 3 show ?case by simp
qed simp_all

lemma wire_bytes [simp]: "EndianConvert be (host_bytes be w) = word_bytes w"
  by (simp add: EndianConvert_def host_bytes_def bc_convert_rev)

lemma wire_word [simp]: "host_word be (EndianConvert be bs) = bytes_word bs"
  by (simp add: EndianConvert_def host_word_def bc_convert_rev)

section \<open>Writers and readers\<close>

definition writer :: "bytebuffer \<Rightarrow> bool" where
  "writer b \<longleftrightarrow> wpos b = bb_size b \<and> bitpos b = 8 \<and> curbitval b = 0"

definition appended :: "uint8 list \<Rightarrow> bytebuffer \<Rightarrow> bytebuffer" where
  "appended xs b = b\<lparr>storage := storage b @ xs, wpos := bb_size b + length xs\<rparr>"

definition remaining :: "bytebuffer \<Rightarrow> uint8 list" where
  "remaining b = drop (rpos b) (storage b)"

definition advance :: "nat \<Rightarrow> bytebuffer \<Rightarrow> bytebuffer" where
  "advance n b = b\<lparr>rpos := rpos b + n\<rparr>"

text \<open>Every append asserts that the buffer is below this size.\<close>

definition BB_LIMIT :: nat where
  "BB_LIMIT = 10000000"

text \<open>A reader's cursor is within the storage, and the storage within the address space.\<close>

definition reader :: "bytebuffer \<Rightarrow> bool" where
  "reader b \<longleftrightarrow> rpos b \<le> bb_size b \<and> bb_size b \<le> 2 ^ 32"

lemma SIZE_T_MOD_big [simp]: "n \<le> 2 ^ 33 \<Longrightarrow> n < SIZE_T_MOD"
  by (simp add: SIZE_T_MOD_def)

lemma writer_new [simp]: "writer ByteBuffer_new"
  by (simp add: writer_def ByteBuffer_new_def)

lemma writer_appended [simp]: "writer b \<Longrightarrow> writer (appended xs b)"
  by (simp add: writer_def appended_def)

lemma appended_appended [simp]: "appended ys (appended xs b) = appended (xs @ ys) b"
  by (simp add: appended_def)

lemma appended_Nil: "writer b \<Longrightarrow> appended [] b = b"
  by (simp add: appended_def writer_def)

lemma storage_appended [simp]: "storage (appended xs b) = storage b @ xs"
  by (simp add: appended_def)

lemma rpos_appended [simp]: "rpos (appended xs b) = rpos b"
  by (simp add: appended_def)

lemma append_raw_writer [bb_simps]:
  assumes "writer b" and "bb_size b < BB_LIMIT" and "xs \<noteq> []" and "length xs \<le> 2 ^ 32"
  shows "append_raw (Some xs) (length xs) b = Inr (appended xs b)"
proof -
  have "sz_add (wpos b) (length xs) = bb_size b + length xs"
    using assms by (simp add: writer_def BB_LIMIT_def)
  with assms show ?thesis
    by (simp add: append_raw_def writer_def appended_def BB_LIMIT_def vec_resize_def Let_def)
qed

lemma FlushBits_writer [simp]: "writer b \<Longrightarrow> FlushBits b = Inr b"
  by (simp add: writer_def FlushBits_def)

lemma append_T_writer [bb_simps]:
  assumes "writer b" and "bb_size b < BB_LIMIT" and "8 \<le> LENGTH('a)" and "LENGTH('a) \<le> 64"
  shows "append_T be (v :: 'a::len word) b = Inr (appended (word_bytes v) b)"
proof -
  have "length (word_bytes v) \<le> 8" and "0 < length (word_bytes v)" using assms by simp_all
  then have "length (word_bytes v) \<le> 2 ^ 32" and "word_bytes v \<noteq> []"
    by (simp, metis length_greater_0_conv)
  with assms append_raw_writer [of b "word_bytes v"] show ?thesis
    by (simp add: append_T_def)
qed

lemma reader_advance [simp]: "n \<le> length (remaining b) \<Longrightarrow> reader b \<Longrightarrow> reader (advance n b)"
  by (auto simp: reader_def advance_def remaining_def)

lemma remaining_advance [simp]: "remaining (advance n b) = drop n (remaining b)"
  by (simp add: remaining_def advance_def add.commute)

lemma remaining_Cons_less: "remaining b = x # xs \<Longrightarrow> rpos b < bb_size b"
  by (rule ccontr) (simp add: remaining_def)

lemma advance_advance [simp]: "advance m (advance n b) = advance (n + m) b"
  by (simp add: advance_def)

lemma advance_0 [simp]: "advance 0 b = b"
  by (simp add: advance_def)

lemma sz_add_reader: "reader b \<Longrightarrow> n \<le> 2 ^ 32 \<Longrightarrow> sz_add (rpos b) n = rpos b + n"
  by (simp add: reader_def)

lemma read_T_reader [bb_simps]:
  assumes "reader b" and "remaining b = word_bytes v @ rest"
    and "8 dvd LENGTH('a)" and "LENGTH('a) \<le> 64"
  shows "read_T be b = Inr (v :: 'a::len word, advance (LENGTH('a) div 8) b)"
proof -
  let ?n = "LENGTH('a) div 8"
  have n: "?n \<le> 2 ^ 32" using assms(4) by simp
  have len: "rpos b + ?n \<le> bb_size b"
    using arg_cong [OF assms(2), of length] assms(1) by (auto simp: remaining_def reader_def)
  have "take ?n (drop (rpos b) (storage b)) = word_bytes v"
    using assms(2) by (simp add: remaining_def)
  with len n assms show ?thesis
    by (simp add: read_T_def read_at_def sz_add_reader advance_def)
qed

lemma read_T_short:
  assumes "reader b" and "length (remaining b) < LENGTH('a) div 8" and "LENGTH('a) \<le> 64"
  shows "(read_T be b :: bb_error + ('a::len word \<times> bytebuffer)) =
    Inl (PositionException False (rpos b) (LENGTH('a) div 8) (bb_size b))"
proof -
  have n: "LENGTH('a) div 8 \<le> 2 ^ 32" using assms(3) by simp
  show ?thesis
    using assms n
    by (simp add: read_T_def read_at_def sz_add_reader Let_def) (auto simp: remaining_def reader_def)
qed

section \<open>Strings\<close>

lemma length_str_bytes [simp]: "length (str_bytes s) = length s"
  by (simp add: str_bytes_def)

lemma unat_of_char_byte: "unat (of_char c :: uint8) = of_char c"
proof -
  have "(of_char c :: uint8) = of_nat (of_char c)" by (rule of_nat_of_char [symmetric])
  then have "unat (of_char c :: uint8) = of_char c mod 2 ^ LENGTH(8)"
    by (simp only: unat_of_nat)
  then show ?thesis using nat_of_char_less_256 [of c] by simp
qed

lemma byte_char_of_char [simp]: "byte_char (of_char c) = c"
  by (simp add: byte_char_def unat_of_char_byte)

lemma of_char_byte_eq_0 [simp]: "(of_char c :: uint8) = 0 \<longleftrightarrow> c = CHR 0x00"
proof
  assume eq: "(of_char c :: uint8) = 0"
  have "c = byte_char (of_char c)" by (rule byte_char_of_char [symmetric])
  also have "\<dots> = CHR 0x00" unfolding eq by (simp add: byte_char_def char_of_def)
  finally show "c = CHR 0x00" .
qed simp

lemma word_bytes_uint8 [simp]: "word_bytes (x :: uint8) = [x]"
  by (simp add: word_bytes_def)

lemma append_str_writer [bb_simps]:
  assumes "writer b" and "bb_size b + length s < BB_LIMIT"
  shows "append_str s b = Inr (appended (str_bytes s @ [0]) b)"
proof (cases s)
  case Nil
  with assms show ?thesis by (simp add: append_str_def append_T_writer str_bytes_def)
next
  case (Cons c cs)
  then have ne: "str_bytes s \<noteq> []" by (simp add: str_bytes_def)
  moreover have "length (str_bytes s) \<le> 2 ^ 32"
    using assms(2) by (simp add: BB_LIMIT_def)
  ultimately have "append_raw (Some (str_bytes s)) (length s) b = Inr (appended (str_bytes s) b)"
    using append_raw_writer [of b "str_bytes s"] assms by simp
  with assms Cons show ?thesis by (simp add: append_str_def append_T_writer)
qed

lemma read_str_loop_reader:
  assumes "reader b" and "remaining b = str_bytes s @ 0 # rest"
    and "CHR 0x00 \<notin> set s" and "length s < n"
  shows "read_str_loop n acc b = Inr (acc @ s, advance (Suc (length s)) b)"
  using assms
proof (induction s arbitrary: n acc b)
  case Nil
  then obtain m where n: "n = Suc m" by (cases n) auto
  have "rpos b < bb_size b"
    using Nil.prems(2) by (intro remaining_Cons_less) (simp add: str_bytes_def)
  moreover have "read_T False b = Inr (0 :: uint8, advance 1 b)"
    using read_T_reader [of b "0 :: uint8" rest False] Nil.prems by (simp add: str_bytes_def)
  ultimately show ?case by (simp add: n)
next
  case (Cons c cs)
  then obtain m where n: "n = Suc m" by (cases n) auto
  have rem: "remaining b = word_bytes (of_char c :: uint8) @ (str_bytes cs @ 0 # rest)"
    using Cons.prems(2) by (simp add: str_bytes_def)
  then have "rpos b < bb_size b"
    by (intro remaining_Cons_less) simp
  moreover have "read_T False b = Inr (of_char c :: uint8, advance 1 b)"
    using read_T_reader [OF Cons.prems(1) rem, of False] by simp
  moreover have "reader (advance 1 b)"
    using Cons.prems(1) rem by simp
  moreover have "remaining (advance 1 b) = str_bytes cs @ 0 # rest"
    using rem by simp
  ultimately show ?case
    using Cons.IH [of "advance 1 b" m "acc @ [c]"] Cons.prems by (auto simp: n)
qed

lemma read_str_reader [bb_simps]:
  assumes "reader b" and "remaining b = str_bytes s @ 0 # rest" and "CHR 0x00 \<notin> set s"
  shows "read_str b = Inr (s, advance (Suc (length s)) b)"
proof -
  have "length s < bb_size b - rpos b"
    using arg_cong [OF assms(2), of length] by (simp add: remaining_def)
  with read_str_loop_reader [OF assms, of _ "[]"] show ?thesis
    by (simp add: read_str_def)
qed

section \<open>The contract of a pair of stream operators\<close>

locale byte_codec =
  fixes wr :: "'a \<Rightarrow> bytebuffer \<Rightarrow> bb_error + bytebuffer"
    and rd :: "bytebuffer \<Rightarrow> bb_error + ('a \<times> bytebuffer)"
    and enc :: "'a \<Rightarrow> uint8 list"
    and valid :: "'a \<Rightarrow> bool"
  assumes wr_enc: "valid x \<Longrightarrow> writer b \<Longrightarrow> bb_size b + length (enc x) \<le> BB_LIMIT \<Longrightarrow>
      wr x b = Inr (appended (enc x) b)"
    and rd_enc: "valid x \<Longrightarrow> reader b \<Longrightarrow> remaining b = enc x @ rest \<Longrightarrow>
      rd b = Inr (x, advance (length (enc x)) b)"
begin

lemma wr_all:
  assumes "list_all valid xs" and "writer b"
    and "bb_size b + length (concat (map enc xs)) \<le> BB_LIMIT"
  shows "iter_res wr xs b = Inr (appended (concat (map enc xs)) b)"
  using assms
proof (induction xs arbitrary: b)
  case Nil
  then show ?case by (simp add: appended_Nil)
next
  case (Cons x xs)
  then have "wr x b = Inr (appended (enc x) b)" by (simp add: wr_enc)
  with Cons show ?case by simp
qed

lemma rd_all:
  assumes "list_all valid xs" and "reader b" and "remaining b = concat (map enc xs) @ rest"
  shows "shr_loop rd (length xs) acc b = Inr (acc @ xs, advance (length (concat (map enc xs))) b)"
  using assms
proof (induction xs arbitrary: b acc)
  case Nil
  then show ?case by simp
next
  case (Cons x xs)
  then have "rd b = Inr (x, advance (length (enc x)) b)" by (simp add: rd_enc)
  moreover have "reader (advance (length (enc x)) b)" using Cons.prems by simp
  ultimately show ?case
    using Cons.IH [of "advance (length (enc x)) b" "acc @ [x]"] Cons.prems by simp
qed

text \<open>Reading back what was written, from the start of a new buffer.\<close>

lemma round_trip:
  assumes "valid x" and "length (enc x) \<le> BB_LIMIT"
  shows "\<exists>b. wr x ByteBuffer_new = Inr b \<and> storage b = enc x \<and>
    rd b = Inr (x, b\<lparr>rpos := bb_size b\<rparr>)"
proof -
  have "bb_size ByteBuffer_new = 0" by (simp add: ByteBuffer_new_def)
  then have w: "wr x ByteBuffer_new = Inr (appended (enc x) ByteBuffer_new)"
    using assms by (simp add: wr_enc)
  have st: "storage (appended (enc x) ByteBuffer_new) = enc x"
    and r0: "rpos (appended (enc x) ByteBuffer_new) = 0"
    by (simp_all add: ByteBuffer_new_def)
  then have "reader (appended (enc x) ByteBuffer_new)"
    and "remaining (appended (enc x) ByteBuffer_new) = enc x @ []"
    using assms(2) by (simp_all add: reader_def remaining_def BB_LIMIT_def)
  with assms(1) have "rd (appended (enc x) ByteBuffer_new)
      = Inr (x, advance (length (enc x)) (appended (enc x) ByteBuffer_new))"
    by (rule rd_enc)
  with w st r0 show ?thesis by (simp add: advance_def)
qed

definition vec_enc :: "'a list \<Rightarrow> uint8 list" where
  "vec_enc v = word_bytes (of_nat (length v) :: uint32) @ concat (map enc v)"

definition vec_valid :: "'a list \<Rightarrow> bool" where
  "vec_valid v \<longleftrightarrow> list_all valid v \<and> length v < 2 ^ 32"

text \<open>The vector templates turn one codec into another.\<close>

lemma vector_codec: "byte_codec (op_shl_vector wr) (op_shr_vector rd) vec_enc vec_valid"
proof
  fix v b
  assume "vec_valid v" and "writer b" and "bb_size b + length (vec_enc v) \<le> BB_LIMIT"
  then show "op_shl_vector wr v b = Inr (appended (vec_enc v) b)"
    using wr_all [of v "appended (word_bytes (of_nat (length v) :: uint32)) b"]
    by (simp add: op_shl_vector_def vec_valid_def vec_enc_def append_T_writer)
next
  fix v b rest
  assume v: "vec_valid v" and b: "reader b" and rem: "remaining b = vec_enc v @ rest"
  let ?n = "of_nat (length v) :: uint32"
  have n: "unat ?n = length v"
    using v by (simp add: vec_valid_def unat_of_nat)
  have r: "read_T False b = Inr (?n, advance 4 b)"
    using read_T_reader [OF b, of ?n] rem by (simp add: vec_enc_def)
  have "reader (advance 4 b)" and "remaining (advance 4 b) = concat (map enc v) @ rest"
    using b rem by (simp_all add: vec_enc_def)
  then have "shr_loop rd (length v) [] (advance 4 b)
      = Inr ([] @ v, advance (length (concat (map enc v))) (advance 4 b))"
    using v by (intro rd_all) (simp_all add: vec_valid_def)
  with r n show "op_shr_vector rd b = Inr (v, advance (length (vec_enc v)) b)"
    by (simp add: op_shr_vector_def vec_enc_def)
qed

end

section \<open>Codecs of the scalar stream operators\<close>

lemma word_codec_wr:
  assumes "writer b" and "bb_size b + length (word_bytes (v :: 'a::len word)) \<le> BB_LIMIT"
    and "8 \<le> LENGTH('a)" and "LENGTH('a) \<le> 64"
  shows "append_T False v b = Inr (appended (word_bytes v) b)"
proof -
  have "0 < length (word_bytes v)" using assms(3) by simp
  with assms show ?thesis by (intro append_T_writer) simp_all
qed

interpretation u8: byte_codec "append_T False" "read_T False" "\<lambda>v :: uint8. word_bytes v" "\<lambda>_. True"
  by unfold_locales (simp_all add: word_codec_wr read_T_reader)

interpretation u16: byte_codec "append_T False" "read_T False" "\<lambda>v :: uint16. word_bytes v" "\<lambda>_. True"
  by unfold_locales (simp_all add: word_codec_wr read_T_reader)

interpretation u32: byte_codec "append_T False" "read_T False" "\<lambda>v :: uint32. word_bytes v" "\<lambda>_. True"
  by unfold_locales (simp_all add: word_codec_wr read_T_reader)

interpretation u64: byte_codec "append_T False" "read_T False" "\<lambda>v :: uint64. word_bytes v" "\<lambda>_. True"
  by unfold_locales (simp_all add: word_codec_wr read_T_reader)

definition str_enc :: "string \<Rightarrow> uint8 list" where
  "str_enc s = str_bytes s @ [0]"

definition str_valid :: "string \<Rightarrow> bool" where
  "str_valid s \<longleftrightarrow> CHR 0x00 \<notin> set s"

interpretation strc: byte_codec append_str read_str str_enc str_valid
  by unfold_locales (simp_all add: append_str_writer read_str_reader str_enc_def str_valid_def)

interpretation vec_u32: byte_codec "op_shl_vector (append_T False)" "op_shr_vector (read_T False)"
    u32.vec_enc u32.vec_valid
  by (rule u32.vector_codec)

interpretation vec_str: byte_codec "op_shl_vector append_str" "op_shr_vector read_str"
    strc.vec_enc strc.vec_valid
  by (rule strc.vector_codec)

section \<open>Sequences of stream operations\<close>

fun wire_type :: "wire \<Rightarrow> wtype" where
  "wire_type (WU8 v) = TU8" | "wire_type (WU16 v) = TU16"
| "wire_type (WU32 v) = TU32" | "wire_type (WU64 v) = TU64"
| "wire_type (WI8 v) = TI8" | "wire_type (WI16 v) = TI16"
| "wire_type (WI32 v) = TI32" | "wire_type (WI64 v) = TI64"
| "wire_type (WF32 v) = TF32" | "wire_type (WF64 v) = TF64"
| "wire_type (WStr s) = TStr" | "wire_type (WCStr s) = TStr"

fun wire_enc :: "wire \<Rightarrow> uint8 list" where
  "wire_enc (WU8 v) = word_bytes v" | "wire_enc (WU16 v) = word_bytes v"
| "wire_enc (WU32 v) = word_bytes v" | "wire_enc (WU64 v) = word_bytes v"
| "wire_enc (WI8 v) = word_bytes v" | "wire_enc (WI16 v) = word_bytes v"
| "wire_enc (WI32 v) = word_bytes v" | "wire_enc (WI64 v) = word_bytes v"
| "wire_enc (WF32 v) = word_bytes v" | "wire_enc (WF64 v) = word_bytes v"
| "wire_enc (WStr s) = str_enc s"
| "wire_enc (WCStr s) = str_enc (case s of None \<Rightarrow> [] | Some s \<Rightarrow> c_str s)"

text \<open>What a reader gets back: a C string arrives as a string.\<close>

fun wire_norm :: "wire \<Rightarrow> wire" where
  "wire_norm (WCStr s) = WStr (case s of None \<Rightarrow> [] | Some s \<Rightarrow> c_str s)"
| "wire_norm v = v"

fun wire_valid :: "wire \<Rightarrow> bool" where
  "wire_valid (WStr s) = str_valid s"
| "wire_valid v = True"

lemma str_valid_c_str [simp]: "str_valid (c_str s)"
  by (auto simp: str_valid_def c_str_def dest: set_takeWhileD)

lemma str_valid_Nil [simp]: "str_valid []"
  by (simp add: str_valid_def)

lemma op_shl_writer [bb_simps]:
  assumes "writer b" and "bb_size b + length (wire_enc v) \<le> BB_LIMIT"
  shows "op_shl v b = Inr (appended (wire_enc v) b)"
  using assms
  by (cases v) (simp_all add: word_codec_wr append_str_writer str_enc_def)

lemma op_shr_reader [bb_simps]:
  assumes "wire_valid v" and "reader b" and "remaining b = wire_enc v @ rest"
  shows "op_shr (wire_type v) b = Inr (wire_norm v, advance (length (wire_enc v)) b)"
proof (cases v)
  case (WStr s)
  with assms strc.rd_enc [of s b rest] show ?thesis by simp
next
  case (WCStr s)
  let ?s = "case s of None \<Rightarrow> [] | Some s \<Rightarrow> c_str s"
  have "str_valid ?s" by (cases s) simp_all
  with assms WCStr strc.rd_enc [of ?s b rest] show ?thesis by simp
qed (use assms u8.rd_enc u16.rd_enc u32.rd_enc u64.rd_enc in simp_all)

lemma op_shl_all_writer:
  assumes "writer b" and "bb_size b + length (concat (map wire_enc vs)) \<le> BB_LIMIT"
  shows "iter_res op_shl vs b = Inr (appended (concat (map wire_enc vs)) b)"
  using assms
proof (induction vs arbitrary: b)
  case Nil
  then show ?case by (simp add: appended_Nil)
next
  case (Cons v vs)
  then have "op_shl v b = Inr (appended (wire_enc v) b)" by (simp add: op_shl_writer)
  with Cons show ?case by simp
qed

text \<open>A sequence of \<^verbatim>\<open>>>\<close> operators, one per type.\<close>

fun op_shr_all :: "wtype list \<Rightarrow> bytebuffer \<Rightarrow> bb_error + (wire list \<times> bytebuffer)" where
  "op_shr_all [] b = Inr ([], b)"
| "op_shr_all (t # ts) b =
     bind_res (op_shr t b) (\<lambda>(v, b). bind_res (op_shr_all ts b) (\<lambda>(vs, b). Inr (v # vs, b)))"

lemma op_shr_all_reader:
  assumes "list_all wire_valid vs" and "reader b"
    and "remaining b = concat (map wire_enc vs) @ rest"
  shows "op_shr_all (map wire_type vs) b =
    Inr (map wire_norm vs, advance (length (concat (map wire_enc vs))) b)"
  using assms
proof (induction vs arbitrary: b)
  case Nil
  then show ?case by simp
next
  case (Cons v vs)
  let ?b = "advance (length (wire_enc v)) b"
  have "op_shr (wire_type v) b = Inr (wire_norm v, ?b)"
    using Cons.prems by (intro op_shr_reader [of v b "concat (map wire_enc vs) @ rest"]) simp_all
  moreover have "reader ?b" using Cons.prems by simp
  ultimately show ?case using Cons.IH [of ?b] Cons.prems by simp
qed

end
