(* ===== verification/ByteBuf_Packed.thy ===== *)
theory ByteBuf_Packed
  imports ByteBuf_Bytes
begin

unbundle bit_operations_syntax

text \<open>
  Theorems on the packed values of the packet buffer: GUIDs without their zero bytes, and
  dates in the bit fields of a 32-bit word; and on the map templates.
\<close>

section \<open>Packed GUIDs\<close>

text \<open>The loop of \<^verbatim>\<open>appendPackGUID\<close> seen on the list of the bytes.\<close>

fun pack_bytes :: "nat \<Rightarrow> uint8 list \<Rightarrow> uint8 \<Rightarrow> uint8 list \<Rightarrow> uint8 \<times> uint8 list" where
  "pack_bytes i [] m out = (m, out)"
| "pack_bytes i (x # xs) m out =
     (if x \<noteq> 0 then pack_bytes (Suc i) xs (m OR push_bit i 1) (out @ [x])
      else pack_bytes (Suc i) xs m out)"

lemma pack_bytes_zero: "\<forall>x \<in> set xs. x = 0 \<Longrightarrow> pack_bytes i xs m out = (m, out)"
  by (induction xs arbitrary: i) simp_all

lemma pack_bytes_out: "snd (pack_bytes i xs m out) = out @ filter (\<lambda>x. x \<noteq> 0) xs"
  by (induction xs arbitrary: i m out) simp_all

lemma pack_bytes_mark:
  "bit (fst (pack_bytes i xs m out)) j \<longleftrightarrow>
     bit m j \<or> (j < 8 \<and> i \<le> j \<and> j < i + length xs \<and> xs ! (j - i) \<noteq> 0)"
proof (induction xs arbitrary: i m out)
  case Nil
  then show ?case by auto
next
  case (Cons x xs)
  have "j - i = Suc (j - Suc i)" if "i < j" using that by simp
  then show ?case
    using Cons.IH by (cases "j = i") (auto simp: bit_simps nth_Cons')
qed

lemma ucast_byte_up_down [simp]: "ucast (ucast x :: uint64) = (x :: uint8)"
  by (rule bit_word_eqI) (simp add: bit_simps)

lemma ucast_byte_up_eq_0 [simp]: "(ucast x :: uint64) = 0 \<longleftrightarrow> x = (0 :: uint8)"
  by (metis ucast_byte_up_down ucast_0)

lemma FF_mask: "(0xFF :: uint64) = mask 8"
  by (simp add: mask_eq_exp_minus_1)

lemma bytes_word_low: "(bytes_word (x # xs) :: uint64) AND 0xFF = ucast x"
proof (rule bit_word_eqI)
  fix n
  assume "n < LENGTH(64)"
  then show "bit ((bytes_word (x # xs) :: uint64) AND 0xFF) n \<longleftrightarrow> bit (ucast x :: uint64) n"
    unfolding FF_mask by (auto simp: bit_simps dest: bit_imp_le_length)
qed

lemma bytes_word_high:
  assumes "length xs < 8"
  shows "drop_bit 8 (bytes_word (x # xs) :: uint64) = bytes_word xs"
proof (rule bit_word_eqI)
  fix n
  assume n: "n < LENGTH(64)"
  have "(8 + n) div 8 = Suc (n div 8)" and "(8 + n) mod 8 = n mod 8" by simp_all
  moreover have "8 + n < 64" if "n div 8 < length xs"
    using that assms by simp
  ultimately show "bit (drop_bit 8 (bytes_word (x # xs) :: uint64)) n
      \<longleftrightarrow> bit (bytes_word xs :: uint64) n"
    using n by (auto simp: bit_drop_bit_eq bit_bytes_word simp del: bytes_word.simps)
qed

lemma bytes_word_eq_0:
  assumes "length xs \<le> 8" and "(bytes_word xs :: uint64) = 0" and "x \<in> set xs"
  shows "x = 0"
proof (rule bit_word_eqI)
  fix k
  assume k: "k < LENGTH(8)"
  from assms(3) obtain i where i: "i < length xs" "x = xs ! i"
    by (auto simp: in_set_conv_nth)
  then have "8 * i + k < 64" using assms(1) k by simp
  moreover have "\<not> bit (bytes_word xs :: uint64) (8 * i + k)"
    by (simp add: assms(2))
  ultimately show "bit x k \<longleftrightarrow> bit 0 k"
    using i k by (simp add: bit_bytes_word)
qed

lemma pack_guid_loop_bytes:
  "length xs \<le> 8 \<Longrightarrow> pack_guid_loop i (bytes_word xs) m out = pack_bytes i xs m out"
proof (induction xs arbitrary: i m out)
  case Nil
  then show ?case by (simp add: pack_guid_loop.simps)
next
  case (Cons x xs)
  show ?case
  proof (cases "(bytes_word (x # xs) :: uint64) = 0")
    case True
    have "\<forall>y \<in> set (x # xs). y = 0"
      using bytes_word_eq_0 [OF Cons.prems True] by blast
    with True show ?thesis
      by (simp add: pack_guid_loop.simps pack_bytes_zero del: bytes_word.simps)
  next
    case False
    then show ?thesis
      using False Cons
      by (simp add: pack_guid_loop.simps [of i "bytes_word (x # xs)"] bytes_word_low
          bytes_word_high del: bytes_word.simps)
  qed
qed

definition guid_enc :: "uint64 \<Rightarrow> uint8 list" where
  "guid_enc guid = fst (pack_bytes 0 (word_bytes guid) 0 []) # filter (\<lambda>x. x \<noteq> 0) (word_bytes guid)"

lemma length_guid_enc: "length (guid_enc guid) \<le> 9"
  using length_filter_le [of "\<lambda>x. x \<noteq> 0" "word_bytes guid"] by (simp add: guid_enc_def)

lemma pack_guid_loop_word: "pack_guid_loop 0 guid 0 [] = pack_bytes 0 (word_bytes guid) 0 []"
proof -
  have "bytes_word (word_bytes guid) = guid" by simp
  then show ?thesis
    using pack_guid_loop_bytes [of "word_bytes guid" 0 0 "[]"] by simp
qed

lemma appendPackGUID_writer:
  assumes "writer b" and "bb_size b + length (guid_enc guid) \<le> BB_LIMIT"
  shows "appendPackGUID guid b = Inr (appended (guid_enc guid) b)"
proof -
  let ?p = "pack_bytes 0 (word_bytes guid) 0 []"
  have enc: "fst ?p # snd ?p = guid_enc guid"
    by (simp add: guid_enc_def pack_bytes_out)
  have ne: "guid_enc guid \<noteq> []" by (simp add: guid_enc_def)
  have "(9::nat) \<le> 2 ^ 32" by simp
  then have "length (guid_enc guid) \<le> 2 ^ 32"
    using length_guid_enc [of guid] by linarith
  moreover have "bb_size b < BB_LIMIT"
    using assms(2) ne by (cases "guid_enc guid") simp_all
  ultimately have "append_raw (Some (guid_enc guid)) (length (guid_enc guid)) b
      = Inr (appended (guid_enc guid) b)"
    using append_raw_writer [OF assms(1)] ne by simp
  moreover have "Suc (length (snd ?p)) = length (guid_enc guid)"
    by (simp flip: enc)
  ultimately show ?thesis
    by (simp add: appendPackGUID_def pack_guid_loop_word case_prod_unfold enc)
qed

lemma bytes_word_take_Suc:
  assumes "i < length xs" and "length xs \<le> 8"
  shows "(bytes_word (take (Suc i) xs) :: uint64)
    = bytes_word (take i xs) OR push_bit (i * 8) (ucast (xs ! i))"
proof (rule bit_word_eqI)
  fix n
  assume n: "n < LENGTH(64)"
  consider "n div 8 < i" | "n div 8 = i" | "i < n div 8" by linarith
  then show "bit (bytes_word (take (Suc i) xs) :: uint64) n \<longleftrightarrow>
      bit (bytes_word (take i xs) OR push_bit (i * 8) (ucast (xs ! i) :: uint64)) n"
  proof cases
    case 1
    then have "\<not> i * 8 \<le> n" by simp
    with 1 n assms show ?thesis by (simp add: bit_simps bit_bytes_word)
  next
    case 2
    then have "n - i * 8 = n mod 8" and "i * 8 \<le> n" by (auto simp: minus_div_mult_eq_mod)
    with 2 n assms show ?thesis by (auto simp: bit_simps bit_bytes_word)
  next
    case 3
    then have "8 \<le> n - i * 8" by simp
    then have "\<not> bit (xs ! i) (n - i * 8)"
      using bit_imp_le_length [of "xs ! i" "n - i * 8"] by auto
    with 3 n assms show ?thesis by (auto simp: bit_simps bit_bytes_word)
  qed
qed

lemma read_pack_loop_reader:
  assumes "length xs = 8" and "\<And>j. j < 8 \<Longrightarrow> bit mk j \<longleftrightarrow> xs ! j \<noteq> 0" and "i \<le> 8"
    and "reader b" and "remaining b = filter (\<lambda>x. x \<noteq> 0) (drop i xs) @ rest"
  shows "read_pack_loop [i..<8] mk (bytes_word (take i xs)) b =
    Inr (bytes_word xs, advance (length (filter (\<lambda>x. x \<noteq> 0) (drop i xs))) b)"
  using assms(3-5)
proof (induction "8 - i" arbitrary: i b)
  case 0
  then show ?case using assms(1) by simp
next
  case (Suc n)
  then have i: "i < 8" by simp
  then have upt: "[i..<8] = i # [Suc i..<8]" by (simp add: upt_rec)
  have drop: "drop i xs = xs ! i # drop (Suc i) xs"
    using i assms(1) by (simp add: Cons_nth_drop_Suc)
  have bitm: "mk AND push_bit i 1 \<noteq> 0 \<longleftrightarrow> xs ! i \<noteq> 0"
    using assms(2) [OF i] by (simp add: bit_iff_and_push_bit_not_eq_0)
  have n: "n = 8 - Suc i" using Suc.hyps(2) by simp
  show ?case
  proof (cases "xs ! i = 0")
    case True
    then have t: "bytes_word (take (Suc i) xs) = (bytes_word (take i xs) :: uint64)"
      using bytes_word_take_Suc [of i xs] i assms(1) by simp
    show ?thesis
      using Suc.hyps(1) [OF n, of b] Suc.prems i True bitm t by (simp add: upt drop)
  next
    case False
    let ?rest = "filter (\<lambda>x. x \<noteq> 0) (drop (Suc i) xs) @ rest"
    have rem: "remaining b = word_bytes (xs ! i) @ ?rest"
      using Suc.prems(3) drop False by simp
    have r: "read_T False b = Inr (xs ! i, advance 1 b)"
      using read_T_reader [OF Suc.prems(2) rem, of False] by simp
    have "\<not> sz_add (rpos b) 1 > bb_size b"
      using remaining_Cons_less [of b] rem sz_add_reader [OF Suc.prems(2), of 1] by simp
    moreover have "reader (advance 1 b)" and "remaining (advance 1 b) = ?rest"
      using Suc.prems(2) rem by simp_all
    ultimately show ?thesis
      using Suc.hyps(1) [OF n, of "advance 1 b"] i False bitm r assms(1)
        bytes_word_take_Suc [of i xs]
      by (simp add: upt drop)
  qed
qed

lemma readPackGUID_reader:
  assumes "reader b" and "remaining b = guid_enc guid @ rest"
  shows "readPackGUID b = Inr (guid, advance (length (guid_enc guid)) b)"
proof -
  let ?m = "fst (pack_bytes 0 (word_bytes guid) 0 [])"
  let ?f = "filter (\<lambda>x. x \<noteq> 0) (word_bytes guid)"
  have rem: "remaining b = word_bytes ?m @ (?f @ rest)"
    using assms(2) by (simp add: guid_enc_def)
  have r: "read_T False b = Inr (?m, advance 1 b)"
    using read_T_reader [OF assms(1) rem, of False] by simp
  have ok: "\<not> sz_add (rpos b) 1 > bb_size b"
    using remaining_Cons_less [of b] rem sz_add_reader [OF assms(1), of 1] by simp
  have "read_pack_loop [0..<8] ?m (bytes_word (take 0 (word_bytes guid))) (advance 1 b)
      = Inr (bytes_word (word_bytes guid), advance (length (filter (\<lambda>x. x \<noteq> 0)
          (drop 0 (word_bytes guid)))) (advance 1 b))"
    using assms(1) rem
    by (intro read_pack_loop_reader) (simp_all add: pack_bytes_mark)
  with r ok show ?thesis
    by (simp add: readPackGUID_def guid_enc_def)
qed

interpretation guidc: byte_codec appendPackGUID readPackGUID guid_enc "\<lambda>_. True"
  by unfold_locales (simp_all add: appendPackGUID_writer readPackGUID_reader)

section \<open>Packed times\<close>

text \<open>The ranges of the C library's fields for the dates the format can hold (2000 to 2031).\<close>

definition tm_packable :: "tm \<Rightarrow> bool" where
  "tm_packable t \<longleftrightarrow> 0 \<le> tm_min t \<and> tm_min t < 60 \<and> 0 \<le> tm_hour t \<and> tm_hour t < 24
     \<and> 1 \<le> tm_mday t \<and> tm_mday t \<le> 31 \<and> 0 \<le> tm_mon t \<and> tm_mon t < 12
     \<and> 100 \<le> tm_year t \<and> tm_year t < 132 \<and> 0 \<le> tm_wday t \<and> tm_wday t < 7"

lemma of_int_field:
  assumes "0 \<le> x" and "x < 2 ^ k"
  shows "(of_int x :: uint32) = take_bit k (of_int x)"
proof -
  have "take_bit k x = x" using assms by (simp add: take_bit_int_eq_self)
  then show ?thesis by (metis take_bit_of_int)
qed

lemma uint_field:
  assumes "0 \<le> x" and "x < 2 ^ k" and "k \<le> 32"
  shows "uint (take_bit k (of_int x :: uint32)) = x"
proof -
  have "x < 2 ^ 32" using assms by (meson less_le_trans one_le_numeral power_increasing)
  then show ?thesis
    using assms of_int_field [OF assms(1,2)] by (simp add: uint_word_of_int_eq take_bit_int_eq_self)
qed

lemma and_field:
  "(x :: uint32) AND 0x3F = take_bit 6 x" "(x :: uint32) AND 0x1F = take_bit 5 x"
  "(x :: uint32) AND 0xF = take_bit 4 x"
  by (simp_all add: take_bit_eq_mask mask_eq_exp_minus_1)

lemma packed_fields:
  fixes y mo md w h mi :: uint32
  defines "d \<equiv> push_bit 24 (take_bit 5 y) OR push_bit 20 (take_bit 4 mo)
    OR push_bit 14 (take_bit 5 md) OR push_bit 11 (take_bit 3 w)
    OR push_bit 6 (take_bit 5 h) OR take_bit 6 mi"
  shows "take_bit 6 d = take_bit 6 mi"
    and "take_bit 5 (drop_bit 6 d) = take_bit 5 h"
    and "take_bit 6 (drop_bit 14 d) = take_bit 5 md"
    and "take_bit 4 (drop_bit 20 d) = take_bit 4 mo"
    and "take_bit 5 (drop_bit 24 d) = take_bit 5 y"
  unfolding d_def by (rule bit_word_eqI, auto simp: bit_simps)+

lemma unpacked_packed:
  assumes "tm_packable t"
  shows "unpacked_tm (packed_date t) = t\<lparr>tm_sec := 0, tm_wday := 0\<rparr>"
proof -
  have "packed_date t =
      push_bit 24 (take_bit 5 (of_int (tm_year t - 100)))
      OR push_bit 20 (take_bit 4 (of_int (tm_mon t)))
      OR push_bit 14 (take_bit 5 (of_int (tm_mday t - 1)))
      OR push_bit 11 (take_bit 3 (of_int (tm_wday t)))
      OR push_bit 6 (take_bit 5 (of_int (tm_hour t))) OR take_bit 6 (of_int (tm_min t))"
    unfolding packed_date_def
    using assms of_int_field [of "tm_year t - 100" 5] of_int_field [of "tm_mon t" 4]
      of_int_field [of "tm_mday t - 1" 5] of_int_field [of "tm_wday t" 3]
      of_int_field [of "tm_hour t" 5] of_int_field [of "tm_min t" 6]
    unfolding tm_packable_def by simp
  note d = this
  have "uint (take_bit 6 (of_int (tm_min t) :: uint32)) = tm_min t"
    and "uint (take_bit 5 (of_int (tm_hour t) :: uint32)) = tm_hour t"
    and "uint (take_bit 5 (of_int (tm_mday t - 1) :: uint32)) = tm_mday t - 1"
    and "uint (take_bit 4 (of_int (tm_mon t) :: uint32)) = tm_mon t"
    and "uint (take_bit 5 (of_int (tm_year t - 100) :: uint32)) = tm_year t - 100"
    using assms unfolding tm_packable_def
    by (simp_all add: uint_field del: of_int_diff)
  then show ?thesis
    unfolding unpacked_tm_def and_field d packed_fields by simp
qed

section \<open>Maps\<close>

text \<open>
  Writing a map and reading it back: the reader inserts the pairs in the order of their keys,
  so each goes to the end.
\<close>

locale map_codec =
  key: byte_codec wk rk ek vk + val: byte_codec wv rv ev vv
  for wk :: "'k::linorder \<Rightarrow> bytebuffer \<Rightarrow> bb_error + bytebuffer" and rk ek vk
    and wv :: "'v \<Rightarrow> bytebuffer \<Rightarrow> bb_error + bytebuffer" and rv ev vv
begin

definition map_enc :: "('k \<times> 'v) list \<Rightarrow> uint8 list" where
  "map_enc m = word_bytes (of_nat (length m) :: uint32)
     @ concat (map (\<lambda>e. ek (fst e) @ ev (snd e)) m)"

definition map_valid :: "('k \<times> 'v) list \<Rightarrow> bool" where
  "map_valid m \<longleftrightarrow> om_ok m \<and> (\<forall>e \<in> set m. vk (fst e) \<and> vv (snd e)) \<and> length m < 2 ^ 32"

lemma pair_codec:
  "byte_codec (\<lambda>e b. bind_res (wk (fst e) b) (wv (snd e)))
     (\<lambda>b. bind_res (rk b) (\<lambda>(k, b). bind_res (rv b) (\<lambda>(v, b). Inr ((k, v), b))))
     (\<lambda>e. ek (fst e) @ ev (snd e)) (\<lambda>e. vk (fst e) \<and> vv (snd e))"
proof
  fix x :: "'k \<times> 'v" and b rest
  assume v: "vk (fst x) \<and> vv (snd x)" and b: "reader b"
    and rem: "remaining b = (ek (fst x) @ ev (snd x)) @ rest"
  from v b have "rk b = Inr (fst x, advance (length (ek (fst x))) b)"
    using rem by (intro key.rd_enc [of _ _ "ev (snd x) @ rest"]) simp_all
  moreover have "rv (advance (length (ek (fst x))) b)
      = Inr (snd x, advance (length (ev (snd x))) (advance (length (ek (fst x))) b))"
    using v b rem by (intro val.rd_enc [of _ _ rest]) simp_all
  ultimately show "bind_res (rk b) (\<lambda>(k, b). bind_res (rv b) (\<lambda>(v, b). Inr ((k, v), b)))
      = Inr (x, advance (length (ek (fst x) @ ev (snd x))) b)"
    by simp
qed (simp add: key.wr_enc val.wr_enc)

lemma shr_map_loop_reader:
  assumes "om_ok (m @ m')" and "\<forall>e \<in> set m'. vk (fst e) \<and> vv (snd e)" and "reader b"
    and "remaining b = concat (map (\<lambda>e. ek (fst e) @ ev (snd e)) m') @ rest"
  shows "shr_map_loop rk rv (length m') m b =
    Inr (m @ m', advance (length (concat (map (\<lambda>e. ek (fst e) @ ev (snd e)) m'))) b)"
  using assms
proof (induction m' arbitrary: m b)
  case Nil
  then show ?case by simp
next
  case (Cons e m')
  let ?n = "length (ek (fst e))" and ?n' = "length (ev (snd e))"
  have rk: "rk b = Inr (fst e, advance ?n b)"
    using Cons.prems by (intro key.rd_enc) simp_all
  have rv: "rv (advance ?n b) = Inr (snd e, advance ?n' (advance ?n b))"
    using Cons.prems by (intro val.rd_enc) simp_all
  have "\<forall>x \<in> set m. fst x < fst e"
    using Cons.prems(1) by (auto simp: om_ok_def sorted_wrt_append)
  moreover from this have "map_of m (fst e) = None"
    by (auto simp: map_of_eq_None_iff)
  ultimately have "om_insert (fst e) (snd e) m = m @ [e]"
    by (simp add: om_insert_def om_put_snoc)
  then show ?case
    using Cons.IH [of "m @ [e]" "advance ?n' (advance ?n b)"] Cons.prems rk rv
    by (simp add: add.assoc)
qed

lemma map_templates_codec: "byte_codec (op_shl_map wk wv) (op_shr_map rk rv) map_enc map_valid"
proof
  fix m :: "('k \<times> 'v) list" and b
  assume m: "map_valid m" and b: "writer b" and lim: "bb_size b + length (map_enc m) \<le> BB_LIMIT"
  have "list_all (\<lambda>e. vk (fst e) \<and> vv (snd e)) m"
    using m by (simp add: map_valid_def list_all_iff)
  then show "op_shl_map wk wv m b = Inr (appended (map_enc m) b)"
    using byte_codec.wr_all [OF pair_codec, of m
        "appended (word_bytes (of_nat (length m) :: uint32)) b"] b lim
    by (simp add: op_shl_map_def map_enc_def append_T_writer)
next
  fix m :: "('k \<times> 'v) list" and b rest
  assume m: "map_valid m" and b: "reader b" and rem: "remaining b = map_enc m @ rest"
  let ?n = "of_nat (length m) :: uint32"
  have n: "unat ?n = length m" using m by (simp add: map_valid_def unat_of_nat)
  have r: "read_T False b = Inr (?n, advance 4 b)"
    using read_T_reader [OF b, of ?n] rem by (simp add: map_enc_def)
  show "op_shr_map rk rv b = Inr (m, advance (length (map_enc m)) b)"
    using shr_map_loop_reader [of "[]" m "advance 4 b" rest] m b rem r n
    by (simp add: op_shr_map_def map_enc_def map_valid_def)
qed

end

interpretation u32_str: map_codec "append_T False" "read_T False" "\<lambda>v :: uint32. word_bytes v"
    "\<lambda>_. True" append_str read_str str_enc str_valid
  by unfold_locales

interpretation map_u32_str: byte_codec "op_shl_map (append_T False) append_str"
    "op_shr_map (read_T False) read_str" u32_str.map_enc u32_str.map_valid
  by (rule u32_str.map_templates_codec)

end
