(* ===== verification/ByteBuf_Bits.thy ===== *)
theory ByteBuf_Bits
  imports ByteBuf_Packed
begin

unbundle bit_operations_syntax

text \<open>
  The bit cursor of the packet buffer refines a queue of bits: \<open>written b\<close> is the sequence of
  bits that were written so far, \<open>unread b\<close> the sequence a reader has before it, both with
  the most significant bit of each byte first.  Writing a bit appends to the one, reading a
  bit takes the head of the other.
\<close>

definition byte_bits :: "uint8 \<Rightarrow> bool list" where
  "byte_bits x = map (\<lambda>i. bit x (7 - i)) [0..<8]"

definition bits_of :: "uint8 list \<Rightarrow> bool list" where
  "bits_of xs = concat (map byte_bits xs)"

definition bit_writer :: "bytebuffer \<Rightarrow> bool" where
  "bit_writer b \<longleftrightarrow> wpos b = bb_size b \<and> 1 \<le> bitpos b \<and> bitpos b \<le> 8
     \<and> (\<forall>j < bitpos b. \<not> bit (curbitval b) j)"

definition written :: "bytebuffer \<Rightarrow> bool list" where
  "written b = bits_of (storage b) @ take (8 - bitpos b) (byte_bits (curbitval b))"

definition bit_reader :: "bytebuffer \<Rightarrow> bool" where
  "bit_reader b \<longleftrightarrow> reader b \<and> bitpos b \<le> 8"

definition unread :: "bytebuffer \<Rightarrow> bool list" where
  "unread b = drop (Suc (bitpos b)) (byte_bits (curbitval b)) @ bits_of (remaining b)"

lemma byte_bits_list:
  "byte_bits x = [bit x 7, bit x 6, bit x 5, bit x 4, bit x 3, bit x 2, bit x 1, bit x 0]"
  by (simp add: byte_bits_def upt_rec)

lemma length_byte_bits [simp]: "length (byte_bits x) = 8"
  by (simp add: byte_bits_def)

lemma length_bits_of [simp]: "length (bits_of xs) = 8 * length xs"
  by (induction xs) (simp_all add: bits_of_def)

lemma bits_of_append [simp]: "bits_of (xs @ ys) = bits_of xs @ bits_of ys"
  by (simp add: bits_of_def)

lemma bits_of_simps [simp]: "bits_of [] = []" "bits_of (x # xs) = byte_bits x @ bits_of xs"
  by (simp_all add: bits_of_def)

lemma length_written: "length (written b) = 8 * bb_size b + (8 - bitpos b)"
  by (simp add: written_def)

lemma bit_writer_of_writer: "writer b \<Longrightarrow> bit_writer b"
  by (simp add: writer_def bit_writer_def)

lemma written_writer: "writer b \<Longrightarrow> written b = bits_of (storage b)"
  by (simp add: writer_def written_def)

lemma nat_less_8: "(n :: nat) < 8 \<Longrightarrow> n \<in> {0, 1, 2, 3, 4, 5, 6, 7}"
  by auto

lemma take_byte_bits_or:
  assumes "bp < 8" and "\<forall>j < Suc bp. \<not> bit cur j"
    and "cur' = (if v then cur OR push_bit bp 1 else cur)"
  shows "take (8 - bp) (byte_bits cur') = take (7 - bp) (byte_bits cur) @ [v]"
proof -
  have *: "\<not> bit cur bp" using assms(2) by simp
  show ?thesis
    using nat_less_8 [OF assms(1)] * unfolding assms(3) byte_bits_list
    by (auto simp: bit_simps)
qed

lemma append_raw_one:
  assumes "wpos b = bb_size b" and "bb_size b < BB_LIMIT"
  shows "append_raw (Some [x]) (Suc 0) b
    = Inr (b\<lparr>storage := storage b @ [x], wpos := Suc (bb_size b)\<rparr>)"
  using assms by (simp add: append_raw_def BB_LIMIT_def vec_resize_def)

lemma WriteBit_refines:
  assumes "bit_writer b" and "bb_size b < BB_LIMIT"
  shows "\<exists>b'. WriteBit v b = Inr (v \<noteq> 0, b') \<and> bit_writer b' \<and> rpos b' = rpos b
    \<and> written b' = written b @ [v \<noteq> 0]"
proof -
  let ?bp = "bitpos b - 1"
  let ?cur = "if v \<noteq> 0 then curbitval b OR push_bit ?bp 1 else curbitval b"
  have bp: "sz_sub (bitpos b) 1 = ?bp" "?bp < 8" "Suc ?bp = bitpos b"
    using assms(1) by (auto simp: bit_writer_def sz_sub_small)
  have uc: "(ucast (push_bit ?bp (1 :: uint32)) :: uint8) = push_bit ?bp 1"
    using bp(2) by (intro bit_word_eqI) (auto simp: bit_simps)
  have tk: "take (8 - ?bp) (byte_bits ?cur) = take (8 - bitpos b) (byte_bits (curbitval b)) @ [v \<noteq> 0]"
    using take_byte_bits_or [of ?bp "curbitval b" ?cur "v \<noteq> 0"] assms(1) bp
    by (simp add: bit_writer_def)
  have low: "\<forall>j < ?bp. \<not> bit ?cur j"
    using assms(1) by (auto simp: bit_writer_def bit_simps)
  show ?thesis
  proof (cases "?bp = 0")
    case True
    then have one: "bitpos b = 1" using bp(3) by simp
    have "WriteBit v b = Inr (v \<noteq> 0, b\<lparr>bitpos := 8, curbitval := 0,
        storage := storage b @ [?cur], wpos := Suc (bb_size b)\<rparr>)"
      using bp(1) assms by (simp add: WriteBit_def Let_def one append_raw_one bit_writer_def)
    moreover have "take 8 (byte_bits ?cur) = byte_bits ?cur" by simp
    ultimately show ?thesis
      using tk True by (simp add: bit_writer_def written_def)
  next
    case False
    then have "WriteBit v b = Inr (v \<noteq> 0, b\<lparr>bitpos := ?bp, curbitval := ?cur\<rparr>)"
      using bp uc by (simp add: WriteBit_def Let_def)
    moreover have "1 \<le> ?bp" and "?bp \<le> 8" using False bp(2) by simp_all
    ultimately show ?thesis
      using tk low assms(1) by (simp add: bit_writer_def written_def)
  qed
qed

lemma FlushBits_refines:
  assumes "bit_writer b" and "bb_size b < BB_LIMIT"
  shows "\<exists>b'. FlushBits b = Inr b' \<and> writer b' \<and> rpos b' = rpos b
    \<and> bits_of (storage b') = written b @ replicate (bitpos b mod 8) False"
proof (cases "bitpos b = 8")
  case True
  then have "curbitval b = 0"
    using assms(1) by (intro bit_word_eqI) (simp add: bit_writer_def)
  with True assms(1) show ?thesis
    by (simp add: FlushBits_def writer_def bit_writer_def written_def)
next
  case False
  then have bp: "bitpos b < 8" "bitpos b \<noteq> 0" using assms(1) by (auto simp: bit_writer_def)
  have "byte_bits (curbitval b) = take (8 - bitpos b) (byte_bits (curbitval b))
      @ replicate (bitpos b) False"
    using nat_less_8 [OF bp(1)] bp(2) assms(1) unfolding byte_bits_list bit_writer_def
    by (auto simp: less_Suc_eq numeral_eq_Suc)
  moreover have "append_raw (Some [curbitval b]) 1 b
      = Inr (b\<lparr>storage := storage b @ [curbitval b], wpos := Suc (bb_size b)\<rparr>)"
    using append_raw_one [of b] assms by (simp add: bit_writer_def)
  ultimately show ?thesis
    using False bp by (simp add: FlushBits_def writer_def written_def)
qed

definition value_bits :: "nat \<Rightarrow> 'a::len word \<Rightarrow> bool list" where
  "value_bits n v = map (bit v) (rev [0..<n])"

lemma value_bits_Suc: "value_bits (Suc n) v = bit v n # value_bits n v"
  by (simp add: value_bits_def)

lemma length_value_bits [simp]: "length (value_bits n v) = n"
  by (simp add: value_bits_def)

lemma low_bit_ne_0: "(ucast (drop_bit i (v :: 'a::len word) AND 1) :: uint32) \<noteq> 0 \<longleftrightarrow> bit v i"
  by (simp add: bit_iff_odd_drop_bit and_one_eq mod_2_eq_odd)

lemma size_less_limit: "length (written b) < 8 * BB_LIMIT \<Longrightarrow> bb_size b < BB_LIMIT"
  by (simp add: length_written)

lemma WriteBits_loop_refines:
  assumes "bit_writer b" and "length (written b) + n < 8 * BB_LIMIT" and "n \<le> max 32 LENGTH('a)"
  shows "\<exists>b'. WriteBits_loop n (v :: 'a::len word) b = Inr b' \<and> bit_writer b' \<and> rpos b' = rpos b
    \<and> written b' = written b @ value_bits n v"
  using assms
proof (induction n arbitrary: b)
  case 0
  then show ?case by (simp add: value_bits_def)
next
  case (Suc n)
  let ?v = "ucast (drop_bit n v AND 1) :: uint32"
  have "bb_size b < BB_LIMIT" using Suc.prems(2) by (intro size_less_limit) simp
  with WriteBit_refines [OF Suc.prems(1), of ?v] obtain b1 where
    b1: "WriteBit ?v b = Inr (bit v n, b1)" "bit_writer b1" "rpos b1 = rpos b"
      "written b1 = written b @ [bit v n]"
    by (auto simp: low_bit_ne_0)
  from Suc.IH [OF b1(2)] b1(4) Suc.prems obtain b2 where
    "WriteBits_loop n v b1 = Inr b2" "bit_writer b2" "rpos b2 = rpos b1"
      "written b2 = written b1 @ value_bits n v"
    by auto
  with b1 Suc.prems(3) show ?case by (auto simp: value_bits_Suc)
qed

lemma loop_count_small: "n \<le> 64 \<Longrightarrow> loop_count n = n"
proof -
  assume n: "n \<le> 64"
  have "(of_nat n - 1 :: int32) = of_int (int n - 1)" by simp
  then have "sint (of_nat n - 1 :: int32) = signed_take_bit 31 (int n - 1)"
    by (simp only: sint_sbintrunc') simp
  also have "\<dots> = int n - 1"
    using n by (intro signed_take_bit_int_eq_self) simp_all
  finally show ?thesis by (simp add: loop_count_def)
qed

lemma WriteBits_refines:
  assumes "bit_writer b" and "length (written b) + n < 8 * BB_LIMIT" and "n \<le> 32"
  shows "\<exists>b'. WriteBits (v :: uint32) n b = Inr b' \<and> bit_writer b' \<and> rpos b' = rpos b
    \<and> written b' = written b @ value_bits n v"
  using WriteBits_loop_refines [OF assms(1,2), of v] assms(3)
  by (simp add: WriteBits_def loop_count_small)

lemma bit_reader_writer: "writer b \<Longrightarrow> reader b \<Longrightarrow> bit_reader b"
  by (simp add: bit_reader_def writer_def)

lemma unread_writer: "writer b \<Longrightarrow> unread b = bits_of (remaining b)"
  by (simp add: writer_def unread_def)

lemma bit_7_drop: "drop_bit k (x :: uint8) AND 1 \<noteq> 0 \<longleftrightarrow> bit x k"
  by (simp add: bit_iff_odd_drop_bit and_one_eq mod_2_eq_odd)

lemma ReadBit_refines:
  assumes "bit_reader b" and "unread b = x # xs"
  shows "\<exists>b'. ReadBit b = Inr (x, b') \<and> bit_reader b' \<and> storage b' = storage b \<and> unread b' = xs"
proof (cases "bitpos b < 7")
  case True
  let ?bp = "Suc (bitpos b)"
  have bp: "sz_add (bitpos b) 1 = ?bp" using True by (simp add: SIZE_T_MOD_def)
  have "drop ?bp (byte_bits (curbitval b)) = byte_bits (curbitval b) ! ?bp
      # drop (Suc ?bp) (byte_bits (curbitval b))"
    using True by (simp add: Cons_nth_drop_Suc)
  moreover have "byte_bits (curbitval b) ! ?bp = bit (curbitval b) (7 - ?bp)"
    using True by (simp add: byte_bits_def)
  ultimately have x: "x = bit (curbitval b) (7 - ?bp)"
    and xs: "xs = drop (Suc ?bp) (byte_bits (curbitval b)) @ bits_of (remaining b)"
    using assms(2) by (simp_all add: unread_def)
  have "ReadBit b = Inr (x, b\<lparr>bitpos := ?bp\<rparr>)"
    using True bp x by (simp add: ReadBit_def Let_def bit_7_drop)
  then show ?thesis
    using assms(1) True xs by (simp add: bit_reader_def reader_def unread_def remaining_def)
next
  case False
  then have bp: "sz_add (bitpos b) 1 > 7"
    using assms(1) by (simp add: bit_reader_def SIZE_T_MOD_def)
  have un: "unread b = bits_of (remaining b)" using False by (simp add: unread_def)
  then obtain r rest where rem: "remaining b = r # rest"
    using assms(2) by (cases "remaining b") simp_all
  let ?b = "b\<lparr>bitpos := 0\<rparr>"
  have "reader ?b" and "remaining ?b = word_bytes r @ rest"
    using assms(1) rem by (simp_all add: bit_reader_def reader_def remaining_def)
  from read_T_reader [OF this, of False] have rd: "read_T False ?b = Inr (r, advance 1 ?b)"
    by simp
  have x: "x = bit r 7" and xs: "xs = drop 1 (byte_bits r) @ bits_of rest"
    using assms(2) un rem by (simp_all add: byte_bits_list)
  have "ReadBit b = Inr (x, (advance 1 ?b)\<lparr>curbitval := r\<rparr>)"
    using bp rd x by (simp add: ReadBit_def Let_def bit_7_drop)
  moreover have "remaining ((advance 1 ?b)\<lparr>curbitval := r\<rparr>) = rest"
    and "reader ((advance 1 ?b)\<lparr>curbitval := r\<rparr>)"
    using arg_cong [OF rem, of "drop 1"] remaining_Cons_less [OF rem] assms(1)
    by (auto simp: remaining_def advance_def bit_reader_def reader_def)
  ultimately show ?thesis
    using xs by (simp add: bit_reader_def unread_def advance_def)
qed

lemma take_bit_Suc_or:
  "n < 32 \<Longrightarrow> take_bit (Suc n) (v :: uint32) = (if bit v n then push_bit n 1 else 0) OR take_bit n v"
  by (rule bit_word_eqI) (auto simp: bit_simps less_Suc_eq)

lemma ReadBits_loop_refines:
  assumes "bit_reader b" and "unread b = value_bits n v @ rest" and "n \<le> 32"
  shows "\<exists>b'. ReadBits_loop n acc b = Inr (acc OR take_bit n v, b') \<and> bit_reader b'
    \<and> storage b' = storage b \<and> unread b' = rest"
  using assms
proof (induction n arbitrary: acc b)
  case 0
  then show ?case by (simp add: value_bits_def)
next
  case (Suc n)
  obtain b1 where b1: "ReadBit b = Inr (bit v n, b1)" "bit_reader b1" "storage b1 = storage b"
      "unread b1 = value_bits n v @ rest"
    using ReadBit_refines [OF Suc.prems(1)] Suc.prems(2) by (auto simp: value_bits_Suc)
  let ?acc = "if bit v n then acc OR push_bit n 1 else acc"
  obtain b2 where "ReadBits_loop n ?acc b1 = Inr (?acc OR take_bit n v, b2)" "bit_reader b2"
      "storage b2 = storage b1" "unread b2 = rest"
    using Suc.IH [OF b1(2) b1(4), of ?acc] Suc.prems(3) by auto
  moreover have "?acc OR take_bit n v = acc OR take_bit (Suc n) v"
    using Suc.prems(3) by (simp add: take_bit_Suc_or or.assoc)
  ultimately show ?case using b1 Suc.prems(3) by auto
qed

lemma ReadBits_refines:
  assumes "bit_reader b" and "unread b = value_bits n v @ rest" and "n \<le> 32"
  shows "\<exists>b'. ReadBits n b = Inr (take_bit n v, b') \<and> bit_reader b'
    \<and> storage b' = storage b \<and> unread b' = rest"
  using ReadBits_loop_refines [OF assms, of 0] assms(3)
  by (simp add: ReadBits_def loop_count_small)

section \<open>Sequences of bit fields\<close>

text \<open>A sequence of \<^verbatim>\<open>WriteBits(value, bits)\<close> calls and of \<^verbatim>\<open>ReadBits(bits)\<close> calls.\<close>

definition WriteBits_all :: "(uint32 \<times> nat) list \<Rightarrow> bytebuffer \<Rightarrow> bb_error + bytebuffer" where
  "WriteBits_all ps b = iter_res (\<lambda>p. WriteBits (fst p) (snd p)) ps b"

fun ReadBits_all :: "nat list \<Rightarrow> bytebuffer \<Rightarrow> bb_error + (uint32 list \<times> bytebuffer)" where
  "ReadBits_all [] b = Inr ([], b)"
| "ReadBits_all (n # ns) b =
     bind_res (ReadBits n b) (\<lambda>(v, b). bind_res (ReadBits_all ns b) (\<lambda>(vs, b). Inr (v # vs, b)))"

definition fields_bits :: "(uint32 \<times> nat) list \<Rightarrow> bool list" where
  "fields_bits ps = concat (map (\<lambda>p. value_bits (snd p) (fst p)) ps)"

lemma fields_bits_simps [simp]:
  "fields_bits [] = []" "fields_bits (p # ps) = value_bits (snd p) (fst p) @ fields_bits ps"
  by (simp_all add: fields_bits_def)

lemma length_fields_bits: "length (fields_bits ps) = sum_list (map snd ps)"
  by (induction ps) simp_all

lemma WriteBits_all_refines:
  assumes "bit_writer b" and "length (written b) + sum_list (map snd ps) < 8 * BB_LIMIT"
    and "\<forall>p \<in> set ps. snd p \<le> 32"
  shows "\<exists>b'. WriteBits_all ps b = Inr b' \<and> bit_writer b' \<and> rpos b' = rpos b
    \<and> written b' = written b @ fields_bits ps"
  using assms
proof (induction ps arbitrary: b)
  case Nil
  then show ?case by (simp add: WriteBits_all_def)
next
  case (Cons p ps)
  obtain b1 where b1: "WriteBits (fst p) (snd p) b = Inr b1" "bit_writer b1" "rpos b1 = rpos b"
      "written b1 = written b @ value_bits (snd p) (fst p)"
    using WriteBits_refines [OF Cons.prems(1), of "snd p" "fst p"] Cons.prems by auto
  from Cons.IH [OF b1(2)] b1(4) Cons.prems obtain b2 where
    "WriteBits_all ps b1 = Inr b2" "bit_writer b2" "rpos b2 = rpos b1"
      "written b2 = written b1 @ fields_bits ps"
    by auto
  with b1 show ?case by (simp add: WriteBits_all_def)
qed

lemma ReadBits_all_refines:
  assumes "bit_reader b" and "unread b = fields_bits ps @ rest" and "\<forall>p \<in> set ps. snd p \<le> 32"
  shows "\<exists>b'. ReadBits_all (map snd ps) b = Inr (map (\<lambda>p. take_bit (snd p) (fst p)) ps, b')
    \<and> unread b' = rest \<and> bit_reader b' \<and> storage b' = storage b"
  using assms
proof (induction ps arbitrary: b)
  case Nil
  then show ?case by simp
next
  case (Cons p ps)
  obtain b1 where b1: "ReadBits (snd p) b = Inr (take_bit (snd p) (fst p), b1)" "bit_reader b1"
      "storage b1 = storage b" "unread b1 = fields_bits ps @ rest"
    using ReadBits_refines [OF Cons.prems(1), of "snd p" "fst p"] Cons.prems by auto
  with Cons.IH [OF b1(2,4)] Cons.prems show ?case by auto
qed

section \<open>Overwriting bits\<close>

lemma nth_bits_of:
  "k < 8 * length st \<Longrightarrow> bits_of st ! k = bit (st ! (k div 8)) (7 - k mod 8)"
proof (induction st arbitrary: k)
  case Nil
  then show ?case by simp
next
  case (Cons x st)
  show ?case
  proof (cases "k < 8")
    case True
    then show ?thesis by (simp add: nth_append byte_bits_def)
  next
    case False
    then have "k div 8 = Suc ((k - 8) div 8)" and "(k - 8) mod 8 = k mod 8"
      by (auto simp: le_mod_geq)
    with False Cons show ?thesis by (simp add: nth_append)
  qed
qed

lemma bits_of_put_bit_at:
  assumes "p < 8 * length st"
  shows "bits_of (put_bit_at p v st) = (bits_of st)[p := v]"
proof (rule nth_equalityI)
  show "length (bits_of (put_bit_at p v st)) = length ((bits_of st)[p := v])"
    by (simp add: put_bit_at_def)
next
  fix k
  assume "k < length (bits_of (put_bit_at p v st))"
  then have k: "k < 8 * length st" by (simp add: put_bit_at_def)
  have pd: "p div 8 < length st" using assms by simp
  have m: "k mod 8 < 8" "p mod 8 < 8" by simp_all
  show "bits_of (put_bit_at p v st) ! k = (bits_of st)[p := v] ! k"
  proof (cases "k = p")
    case True
    moreover have "7 - p mod 8 < 8" by simp
    ultimately show ?thesis using k pd by (simp add: nth_bits_of put_bit_at_def bit_simps)
  next
    case ne: False
    show ?thesis
    proof (cases "k div 8 = p div 8")
      case True
      with ne have "k mod 8 \<noteq> p mod 8" by (metis div_mult_mod_eq)
      with m have "7 - k mod 8 \<noteq> 7 - p mod 8" and "7 - k mod 8 < 8" by linarith+
      with True ne k pd show ?thesis
        by (simp add: nth_bits_of put_bit_at_def bit_simps)
    next
      case False
      with ne k show ?thesis by (simp add: nth_bits_of put_bit_at_def)
    qed
  qed
qed

lemma length_put_bit_at [simp]: "length (put_bit_at p v st) = length st"
  by (simp add: put_bit_at_def)

lemma PutBits_loop_bits:
  assumes "k \<le> n" and "n \<le> 32" and "pos + n \<le> 8 * length st"
  shows "\<exists>st'. PutBits_loop k pos (v :: uint32) n st = Inr st' \<and> length st' = length st
    \<and> bits_of st' = take (pos + (n - k)) (bits_of st) @ value_bits k v @ drop (pos + n) (bits_of st)"
  using assms
proof (induction k arbitrary: st)
  case 0
  then show ?case by (simp add: value_bits_def)
next
  case (Suc k)
  let ?p = "pos + (n - Suc k)"
  let ?st = "put_bit_at ?p (bit v k) st"
  have p: "?p < 8 * length st" using Suc.prems by simp
  then have "?p div 8 < length st" by simp
  moreover have "drop_bit k v AND 1 \<noteq> 0 \<longleftrightarrow> bit v k"
    by (simp add: bit_iff_odd_drop_bit and_one_eq mod_2_eq_odd)
  ultimately have step: "PutBits_loop (Suc k) pos v n st = PutBits_loop k pos v n ?st"
    using Suc.prems by simp
  obtain st' where st': "PutBits_loop k pos v n ?st = Inr st'" "length st' = length st"
      "bits_of st' = take (pos + (n - k)) (bits_of ?st) @ value_bits k v
        @ drop (pos + n) (bits_of ?st)"
    using Suc.IH [of ?st] Suc.prems by auto
  have "pos + (n - k) = Suc ?p" using Suc.prems by simp
  then have "take (pos + (n - k)) (bits_of ?st) = take ?p (bits_of st) @ [bit v k]"
    using p by (simp add: bits_of_put_bit_at take_Suc_conv_app_nth)
  moreover have "drop (pos + n) (bits_of ?st) = drop (pos + n) (bits_of st)"
    using p Suc.prems by (simp add: bits_of_put_bit_at)
  ultimately show ?case
    using step st' by (simp add: value_bits_Suc)
qed

end
