(* ===== verification/ByteBuf_Props.thy ===== *)
theory ByteBuf_Props
  imports ByteBuf_Bits
begin

unbundle bit_operations_syntax

text \<open>The properties of the packet buffer.\<close>

section \<open>Reading is safe\<close>

text \<open>
  What every successful read keeps: the bytes, and the cursor within them.
\<close>

definition read_step :: "bytebuffer \<Rightarrow> bytebuffer \<Rightarrow> bool" where
  "read_step b b' \<longleftrightarrow> reader b' \<and> storage b' = storage b \<and> rpos b \<le> rpos b'"

lemma read_step_trans: "read_step a b \<Longrightarrow> read_step b c \<Longrightarrow> read_step a c"
  by (simp add: read_step_def)

lemma read_T_safe:
  assumes "reader b" and "LENGTH('a::len) \<le> 64"
  shows "(\<exists>p s v. (read_T be b :: bb_error + ('a word \<times> bytebuffer)) = Inl (PositionException False p s v))
    \<or> (\<exists>w b'. (read_T be b :: bb_error + ('a word \<times> bytebuffer)) = Inr (w, b') \<and> read_step b b'
         \<and> rpos b' = rpos b + LENGTH('a) div 8)"
proof -
  let ?n = "LENGTH('a) div 8"
  have n: "?n \<le> 2 ^ 32" using assms(2) by simp
  then have "sz_add (rpos b) ?n = rpos b + ?n" using assms(1) by (rule sz_add_reader [rotated])
  then show ?thesis
    using assms(1) by (auto simp: read_T_def read_at_def Let_def read_step_def reader_def)
qed

lemma read_str_loop_safe:
  assumes "reader b"
  shows "\<exists>s b'. read_str_loop n acc b = Inr (s, b') \<and> read_step b b'"
  using assms
proof (induction n arbitrary: acc b)
  case 0
  then show ?case by (simp add: read_step_def)
next
  case (Suc n)
  show ?case
  proof (cases "rpos b < bb_size b")
    case True
    have "sz_add (rpos b) 1 = rpos b + 1" using Suc.prems by (intro sz_add_reader) simp_all
    with True have "read_T False b = Inr (bytes_word (take 1 (drop (rpos b) (storage b))) :: uint8,
        advance 1 b)"
      by (simp add: read_T_def read_at_def advance_def)
    moreover have "read_step b (advance 1 b)"
      using True Suc.prems by (simp add: read_step_def advance_def reader_def)
    moreover from this have "reader (advance 1 b)" by (simp add: read_step_def)
    ultimately show ?thesis
      using True Suc.IH [of "advance 1 b"] read_step_trans [of b "advance 1 b"]
      by (simp del: One_nat_def) blast
  next
    case False
    with Suc.prems show ?thesis by (simp add: read_step_def)
  qed
qed

lemma op_shr_word_safe:
  assumes "reader b" and "LENGTH('a::len) \<le> 64"
  shows "(\<exists>p s v. bind_res (read_T False b) (\<lambda>(v :: 'a word, b). Inr (f v, b)) = Inl (PositionException False p s v))
    \<or> (\<exists>x b'. bind_res (read_T False b) (\<lambda>(v :: 'a word, b). Inr (f v, b)) = Inr (x, b') \<and> read_step b b')"
  using read_T_safe [OF assms, of False] by auto

lemma op_shr_safe:
  assumes "reader b"
  shows "(\<exists>p s v. op_shr t b = Inl (PositionException False p s v))
    \<or> (\<exists>x b'. op_shr t b = Inr (x, b') \<and> read_step b b')"
proof (cases t)
  case TStr
  with read_str_loop_safe [OF assms, of "bb_size b - rpos b" "[]"] show ?thesis
    by (auto simp: read_str_def)
qed (simp_all only: op_shr.simps, (rule op_shr_word_safe [OF assms], simp)+)

section \<open>Properties\<close>



text \<open>
  C18. Round trip of bit fields: writing a sequence of fields with \<^verbatim>\<open>WriteBits\<close> (each at most 32
  bits wide) to a new buffer and flushing it succeeds, the buffer then holds the fields most
  significant bit first, padded with zero bits to a whole byte, and reading fields of the same
  widths with \<^verbatim>\<open>ReadBits\<close> gives back each value reduced to its width.
\<close>

theorem bit_fields_round_trip:
  assumes "\<forall>p \<in> set ps. snd p \<le> 32" and "sum_list (map snd ps) < 8 * BB_LIMIT"
  shows "\<exists>b b' b''. WriteBits_all ps ByteBuffer_new = Inr b \<and> FlushBits b = Inr b' \<and>
    bits_of (storage b') = fields_bits ps @ replicate (bitpos b mod 8) False \<and>
    ReadBits_all (map snd ps) b' = Inr (map (\<lambda>p. take_bit (snd p) (fst p)) ps, b'')"
proof -
  have w0: "written ByteBuffer_new = []" by (simp add: written_def ByteBuffer_new_def)
  obtain b where b: "WriteBits_all ps ByteBuffer_new = Inr b" "bit_writer b"
      "rpos b = rpos ByteBuffer_new" "written b = fields_bits ps"
    using WriteBits_all_refines [of ByteBuffer_new ps] assms w0
    by (auto simp: bit_writer_of_writer)
  have "bb_size b < BB_LIMIT"
    using assms(2) b(4) by (intro size_less_limit) (simp add: length_fields_bits)
  with FlushBits_refines [OF b(2)] obtain b' where b': "FlushBits b = Inr b'" "writer b'"
      "rpos b' = rpos b" "bits_of (storage b') = written b @ replicate (bitpos b mod 8) False"
    by auto
  have r0: "rpos b' = 0" using b' b by (simp add: ByteBuffer_new_def)
  have "8 * bb_size b' \<le> 8 * BB_LIMIT + 8"
    using arg_cong [OF b'(4), of length] assms(2) b(4) by (simp add: length_fields_bits)
  then have "reader b'" using r0 by (simp add: reader_def BB_LIMIT_def)
  moreover have "unread b' = fields_bits ps @ replicate (bitpos b mod 8) False"
    using b' b(4) r0 by (simp add: unread_writer remaining_def)
  ultimately obtain b'' where
    "ReadBits_all (map snd ps) b' = Inr (map (\<lambda>p. take_bit (snd p) (fst p)) ps, b'')"
    using ReadBits_all_refines [of b' ps] assms(1) b'(2) by (auto simp: bit_reader_writer)
  with b b' show ?thesis by auto
qed

theorem bit_fields_round_trip_witness:
  "\<exists>b b' b''. WriteBits_all [(5, 3), (0x12345678, 32), (1, 1)] ByteBuffer_new = Inr b \<and>
    FlushBits b = Inr b' \<and> ReadBits_all [3, 32, 1] b' = Inr ([5, 0x12345678, 1], b'')"
  using bit_fields_round_trip [of "[(5, 3), (0x12345678, 32), (1, 1)]"]
  by (auto simp: BB_LIMIT_def)

text \<open>
  C19. Round trip of packed GUIDs: every 64-bit GUID appended to a new buffer with
  \<^verbatim>\<open>appendPackGUID\<close> takes at most nine bytes and is read back by \<^verbatim>\<open>readPackGUID\<close>, which consumes
  exactly those bytes.
\<close>

theorem packed_guid_round_trip:
  "\<exists>b. appendPackGUID guid ByteBuffer_new = Inr b \<and> bb_size b \<le> 9 \<and>
    readPackGUID b = Inr (guid, b\<lparr>rpos := bb_size b\<rparr>)"
proof -
  have "length (guid_enc guid) \<le> BB_LIMIT"
    using length_guid_enc [of guid] by (simp add: BB_LIMIT_def)
  with guidc.round_trip [of guid] length_guid_enc [of guid] show ?thesis by auto
qed

text \<open>
  C20. Reading is safe: from a buffer whose cursor is within its bytes (a packet of the network,
  with any content), every \<^verbatim>\<open>>>\<close> operator either throws the position exception or returns a value,
  keeps the bytes and leaves the cursor within them and never before its old place; no read is
  undefined.
\<close>

theorem stream_read_safe:
  assumes "reader b"
  shows "(\<exists>p s v. op_shr t b = Inl (PositionException False p s v)) \<or>
    (\<exists>x b'. op_shr t b = Inr (x, b') \<and> reader b' \<and> storage b' = storage b \<and> rpos b \<le> rpos b')"
  using op_shr_safe [OF assms, of t] by (simp add: read_step_def)

theorem stream_read_safe_witness:
  "(\<exists>p s v. op_shr TU32 (ByteBuffer_new\<lparr>storage := [1, 2]\<rparr>) = Inl (PositionException False p s v)) \<or>
   (\<exists>x b'. op_shr TU32 (ByteBuffer_new\<lparr>storage := [1, 2]\<rparr>) = Inr (x, b') \<and> reader b' \<and>
      storage b' = [1, 2] \<and> 0 \<le> rpos b')"
  using stream_read_safe [of "ByteBuffer_new\<lparr>storage := [1, 2]\<rparr>" TU32]
  by (simp add: reader_def ByteBuffer_new_def)

text \<open>
  Overwriting bits: \<^verbatim>\<open>PutBits\<close> of 1 to 32 bits at a bit position where they fit replaces
  exactly those bits of the stored bit sequence by the bits of the value, most significant
  first, and changes no other bit.
\<close>

theorem PutBits_overwrites:
  assumes "0 < n" and "n \<le> 32" and "pos + n \<le> 8 * bb_size b" and "bb_size b < BB_LIMIT"
  shows "\<exists>b'. PutBits pos (v :: uint32) (of_nat n) b = Inr b' \<and>
    bits_of (storage b') = take pos (bits_of (storage b)) @ value_bits n v
      @ drop (pos + n) (bits_of (storage b))"
proof -
  have n: "unat (of_nat n :: uint32) = n" using assms(2) by (simp add: unat_of_nat)
  have "8 * bb_size b < SIZE_T_MOD" using assms(4) by (simp add: BB_LIMIT_def)
  then have "sz_add pos n = pos + n" and "(bb_size b * 8) mod SIZE_T_MOD = bb_size b * 8"
    using assms(3) by (simp_all add: mult.commute)
  with PutBits_loop_bits [of n n pos "storage b" v] n assms show ?thesis
    by (auto simp: PutBits_def Let_def mult.commute)
qed

theorem PutBits_overwrites_witness:
  "\<exists>b'. PutBits 4 (0xFF :: uint32) 8 (ByteBuffer_new\<lparr>storage := [0, 0]\<rparr>) = Inr b' \<and>
    bits_of (storage b') = bits_of [0x0F, 0xF0]"
proof -
  have "value_bits 8 (0xFF :: uint32) = [True, True, True, True, True, True, True, True]"
    by (simp add: value_bits_def upt_rec)
  then show ?thesis
    using PutBits_overwrites [of 8 4 "ByteBuffer_new\<lparr>storage := [0, 0]\<rparr>" "0xFF"]
    by (simp add: BB_LIMIT_def byte_bits_list)
qed

text \<open>
  Round trip of packed times: for a broken-down time with fields in the C library's ranges
  and a year from 2000 to 2031, \<^verbatim>\<open>AppendPackedTime\<close> on a new buffer followed by
  \<^verbatim>\<open>ReadPackedTime\<close> returns \<^verbatim>\<open>mktime\<close> of the same minute, hour, day, month and year; the seconds
  and the day of the week are not transmitted.
\<close>

theorem packed_time_round_trip:
  assumes "tm_packable (localtime t)"
  shows "\<exists>b b'. AppendPackedTime localtime t ByteBuffer_new = Inr b \<and> bb_size b = 4 \<and>
    ReadPackedTime mktime b
      = Inr (of_int (mktime ((localtime t)\<lparr>tm_sec := 0, tm_wday := 0\<rparr>)), b')"
proof -
  have "length (word_bytes (packed_date (localtime t))) \<le> BB_LIMIT" by (simp add: BB_LIMIT_def)
  with u32.round_trip [of "packed_date (localtime t)"] obtain b where
    b: "append_T False (packed_date (localtime t)) ByteBuffer_new = Inr b"
      "storage b = word_bytes (packed_date (localtime t))"
      "read_T False b = Inr (packed_date (localtime t), b\<lparr>rpos := bb_size b\<rparr>)"
    by auto
  then show ?thesis
    using unpacked_packed [OF assms] by (simp add: AppendPackedTime_def ReadPackedTime_def)
qed

theorem packed_time_round_trip_witness:
  "\<exists>b b'. AppendPackedTime (\<lambda>_ :: unit. \<lparr>tm_sec = 30, tm_min = 59, tm_hour = 23, tm_mday = 6,
        tm_mon = 9, tm_year = 123, tm_wday = 5\<rparr>) () ByteBuffer_new = Inr b \<and>
    ReadPackedTime (\<lambda>t. tm_min t + 60 * tm_hour t + 1440 * tm_mday t) b = Inr (10079, b')"
  using packed_time_round_trip [of "\<lambda>_ :: unit. \<lparr>tm_sec = 30, tm_min = 59, tm_hour = 23,
        tm_mday = 6, tm_mon = 9, tm_year = 123, tm_wday = 5\<rparr>" "()"
      "\<lambda>t. tm_min t + 60 * tm_hour t + 1440 * tm_mday t"]
  by (auto simp: tm_packable_def)

text \<open>
  The wire format does not depend on the host: on a big-endian and on a little-endian
  build, \<^verbatim>\<open>append\<close> puts the same bytes, lowest first, and \<^verbatim>\<open>read\<close> returns the same value, for every
  integral type.
\<close>

theorem wire_format_host_independent:
  "append_T be (v :: 'a::len word) b = append_T False v b \<and>
   (read_T be b :: bb_error + ('a word \<times> bytebuffer)) = read_T False b"
  by (simp add: append_T_def read_T_def read_at_def Let_def)

text \<open>
  The string operators do not flush the bit cursor first: on a buffer with pending bits,
  writing a non-empty string puts the characters before the byte that holds the pending bits,
  and the terminating NUL after it.
\<close>

theorem string_overtakes_pending_bits:
  assumes "bit_writer b" and "bitpos b < 8" and "s \<noteq> []" and "bb_size b + length s + 1 < BB_LIMIT"
  shows "\<exists>b'. op_shl (WStr s) b = Inr b' \<and>
    storage b' = storage b @ str_bytes s @ [curbitval b, 0]"
proof -
  let ?b = "b\<lparr>storage := storage b @ str_bytes s, wpos := bb_size b + length s\<rparr>"
  let ?c = "?b\<lparr>storage := storage b @ str_bytes s @ [curbitval b],
      wpos := Suc (bb_size b + length s), curbitval := 0, bitpos := 8\<rparr>"
  have wp: "wpos b = bb_size b" using assms(1) by (simp add: bit_writer_def)
  have "append_raw (Some (str_bytes s)) (length s) b = Inr ?b"
    using assms(3,4) wp by (simp add: append_raw_def vec_resize_def BB_LIMIT_def)
  moreover have "FlushBits ?b = Inr ?c"
    using append_raw_one [of ?b "curbitval b"] assms(2,4) by (simp add: FlushBits_def)
  moreover have "append_raw (Some [0]) (Suc 0) ?c
      = Inr (?c\<lparr>storage := storage ?c @ [0], wpos := Suc (bb_size ?c)\<rparr>)"
    using assms(4) by (intro append_raw_one) simp_all
  ultimately show ?thesis
    using assms(3) by (simp add: append_str_def append_T_def)
qed

theorem string_overtakes_pending_bits_witness:
  "\<exists>b'. op_shl (WStr ''ab'') (ByteBuffer_new\<lparr>bitpos := 7, curbitval := 0x80\<rparr>) = Inr b' \<and>
    storage b' = [97, 98, 0x80, 0]"
proof -
  have "\<not> bit (0x80 :: uint8) j" if "j < 7" for j
    using that by (simp add: bit_iff_odd less_Suc_eq numeral_eq_Suc) auto
  then have "bit_writer (ByteBuffer_new\<lparr>bitpos := 7, curbitval := 0x80\<rparr>)"
    by (simp add: bit_writer_def ByteBuffer_new_def)
  from string_overtakes_pending_bits [OF this, of "''ab''"] show ?thesis
    by (simp add: BB_LIMIT_def ByteBuffer_new_def str_bytes_def)
qed

end
