(* ===== verification/Event_Map.thy ===== *)
theory Event_Map
  imports Prelude
begin

unbundle bit_operations_syntax

text \<open>
  The script timer \<^verbatim>\<open>EventMap\<close> of \<^verbatim>\<open>game/Utilities/EventMap.h\<close> and \<^verbatim>\<open>EventMap.cpp\<close>: a
  \<^verbatim>\<open>std::multimap\<close> from due times (milliseconds, \<^verbatim>\<open>uint32\<close>) to event data (\<^verbatim>\<open>uint64\<close>, event id in
  bits 0 to 31, group bit in 32 to 47, phase bit in 48 to 63), a running timer and a mask of
  active phases.  The random source \<^verbatim>\<open>urand\<close> is an argument of the operations that use it.
\<close>

section \<open>State and operations\<close>

record eventmap =
  em_time :: uint32
  em_phase :: uint16
  em_store :: "(uint32, uint64) mmap"
  em_last :: uint64

definition EventMap_new :: eventmap where
  "EventMap_new = \<lparr>em_time = 0, em_phase = 0, em_store = [], em_last = 0\<rparr>"

definition EVENT_MASK :: uint64 where
  "EVENT_MASK = 0x00000000FFFFFFFF"

definition PHASE_MASK :: uint64 where
  "PHASE_MASK = 0xFFFF000000000000"

definition em_Reset :: "eventmap \<Rightarrow> eventmap" where
  "em_Reset m = m\<lparr>em_store := [], em_time := 0, em_phase := 0\<rparr>"

definition em_Update :: "uint32 \<Rightarrow> eventmap \<Rightarrow> eventmap" where
  "em_Update t m = m\<lparr>em_time := em_time m + t\<rparr>"

definition GetPhaseMask :: "eventmap \<Rightarrow> uint8" where
  "GetPhaseMask m = ucast (em_phase m)"

definition em_Empty :: "eventmap \<Rightarrow> bool" where
  "em_Empty m = (em_store m = [])"

definition SetPhase :: "uint16 \<Rightarrow> eventmap \<Rightarrow> eventmap" where
  "SetPhase phase m =
     (if phase = 0 then m\<lparr>em_phase := 0\<rparr>
      else if phase \<le> 16 then m\<lparr>em_phase := push_bit (unat (phase - 1)) 1\<rparr>
      else m)"

definition AddPhase :: "uint16 \<Rightarrow> eventmap \<Rightarrow> eventmap" where
  "AddPhase phase m =
     (if phase \<noteq> 0 \<and> phase \<le> 16
      then m\<lparr>em_phase := em_phase m OR push_bit (unat (phase - 1)) 1\<rparr> else m)"

definition RemovePhase :: "uint16 \<Rightarrow> eventmap \<Rightarrow> eventmap" where
  "RemovePhase phase m =
     (if phase \<noteq> 0 \<and> phase \<le> 16
      then m\<lparr>em_phase := em_phase m AND NOT (push_bit (unat (phase - 1)) 1)\<rparr> else m)"

definition IsInPhase :: "uint16 \<Rightarrow> eventmap \<Rightarrow> bool" where
  "IsInPhase phase m \<longleftrightarrow>
     phase \<le> 16 \<and> (phase = 0 \<or> em_phase m AND push_bit (unat (phase - 1)) 1 \<noteq> 0)"

text \<open>The id in the event data, compared by the code as a 64-bit value.\<close>

definition has_id :: "uint32 \<Rightarrow> uint64 \<Rightarrow> bool" where
  "has_id eventId d \<longleftrightarrow> d AND EVENT_MASK = ucast eventId"

definition HasEvent :: "uint32 \<Rightarrow> eventmap \<Rightarrow> bool" where
  "HasEvent eventId m = list_ex (\<lambda>e. has_id eventId (snd e)) (em_store m)"

definition event_data :: "uint32 \<Rightarrow> uint16 \<Rightarrow> uint16 \<Rightarrow> uint64" where
  "event_data eventId grp phase =
     (let d0 = ucast eventId;
          d1 = (if grp \<noteq> 0 \<and> grp < 16 then d0 OR push_bit (unat grp + 31) 1 else d0)
      in if phase \<noteq> 0 \<and> phase < 16 then d1 OR push_bit (unat phase + 47) 1 else d1)"

definition em_insert :: "uint32 \<Rightarrow> uint64 \<Rightarrow> eventmap \<Rightarrow> eventmap" where
  "em_insert t d m = m\<lparr>em_store := mm_insert t d (em_store m)\<rparr>"

definition ScheduleEvent :: "uint32 \<Rightarrow> uint32 \<Rightarrow> uint16 \<Rightarrow> uint16 \<Rightarrow> eventmap \<Rightarrow> eventmap" where
  "ScheduleEvent eventId time grp phase m =
     em_insert (em_time m + time) (event_data eventId grp phase) m"

definition ScheduleEvent_range ::
  "(uint32 \<Rightarrow> uint32 \<Rightarrow> uint32) \<Rightarrow> uint32 \<Rightarrow> int64 \<Rightarrow> int64 \<Rightarrow> uint16 \<Rightarrow> uint16 \<Rightarrow> eventmap \<Rightarrow> eventmap" where
  "ScheduleEvent_range urand eventId minTime maxTime grp phase m =
     ScheduleEvent eventId (urand (ucast minTime) (ucast maxTime)) grp phase m"

definition CancelEvent :: "uint32 \<Rightarrow> eventmap \<Rightarrow> eventmap" where
  "CancelEvent eventId m =
     (if em_Empty m then m
      else m\<lparr>em_store := filter (\<lambda>e. \<not> has_id eventId (snd e)) (em_store m)\<rparr>)"

definition RescheduleEvent :: "uint32 \<Rightarrow> uint32 \<Rightarrow> uint16 \<Rightarrow> uint16 \<Rightarrow> eventmap \<Rightarrow> eventmap" where
  "RescheduleEvent eventId time grp phase m =
     ScheduleEvent eventId time grp phase (CancelEvent eventId m)"

definition RescheduleEvent_range ::
  "(uint32 \<Rightarrow> uint32 \<Rightarrow> uint32) \<Rightarrow> uint32 \<Rightarrow> int64 \<Rightarrow> int64 \<Rightarrow> uint16 \<Rightarrow> uint16 \<Rightarrow> eventmap \<Rightarrow> eventmap" where
  "RescheduleEvent_range urand eventId minTime maxTime grp phase m =
     RescheduleEvent eventId (urand (ucast minTime) (ucast maxTime)) grp phase m"

definition em_Repeat :: "uint32 \<Rightarrow> eventmap \<Rightarrow> eventmap" where
  "em_Repeat time m = em_insert (em_time m + time) (em_last m) m"

definition em_Repeat_range ::
  "(uint32 \<Rightarrow> uint32 \<Rightarrow> uint32) \<Rightarrow> uint32 \<Rightarrow> uint32 \<Rightarrow> eventmap \<Rightarrow> eventmap" where
  "em_Repeat_range urand minTime maxTime m = em_Repeat (urand minTime maxTime) m"

definition ScheduleNextEvent :: "uint32 \<Rightarrow> eventmap \<Rightarrow> eventmap" where
  "ScheduleNextEvent time m = em_insert (em_time m + time) (em_last m + 1) m"

definition ScheduleNextEvent_range ::
  "(uint32 \<Rightarrow> uint32 \<Rightarrow> uint32) \<Rightarrow> uint32 \<Rightarrow> uint32 \<Rightarrow> eventmap \<Rightarrow> eventmap" where
  "ScheduleNextEvent_range urand minTime maxTime m = ScheduleNextEvent (urand minTime maxTime) m"

text \<open>The overloads on \<^verbatim>\<open>std::chrono\<close> durations call \<^verbatim>\<open>Repeat\<close>.\<close>

definition ScheduleNextEvent_ms :: "int64 \<Rightarrow> eventmap \<Rightarrow> eventmap" where
  "ScheduleNextEvent_ms time m = em_Repeat (ucast time) m"

definition ScheduleNextEvent_ms_range ::
  "(uint32 \<Rightarrow> uint32 \<Rightarrow> uint32) \<Rightarrow> int64 \<Rightarrow> int64 \<Rightarrow> eventmap \<Rightarrow> eventmap" where
  "ScheduleNextEvent_ms_range urand minTime maxTime m =
     em_Repeat_range urand (ucast minTime) (ucast maxTime) m"

text \<open>Due, but tied to phases none of which is active: such an event is dropped.\<close>

definition phase_blocked :: "uint16 \<Rightarrow> uint64 \<Rightarrow> bool" where
  "phase_blocked phase d \<longleftrightarrow>
     phase \<noteq> 0 \<and> d AND PHASE_MASK \<noteq> 0 \<and> drop_bit 48 d AND ucast phase = 0"

fun execute_loop ::
  "uint32 \<Rightarrow> uint16 \<Rightarrow> uint64 \<Rightarrow> (uint32, uint64) mmap \<Rightarrow> uint32 \<times> uint64 \<times> (uint32, uint64) mmap" where
  "execute_loop time phase lst [] = (0, lst, [])"
| "execute_loop time phase lst (e # st) =
     (if fst e > time then (0, lst, e # st)
      else if phase_blocked phase (snd e) then execute_loop time phase lst st
      else (ucast (snd e AND EVENT_MASK), snd e, st))"

definition ExecuteEvent :: "eventmap \<Rightarrow> uint32 \<times> eventmap" where
  "ExecuteEvent m =
     (let (r, lst, st) = execute_loop (em_time m) (em_phase m) (em_last m) (em_store m)
      in (r, m\<lparr>em_last := lst, em_store := st\<rparr>))"

text \<open>
  The delaying loops take the selected entries out and insert them again, later; the key
  wraps at 32 bits like every other time.
\<close>

definition delay_where :: "(uint64 \<Rightarrow> bool) \<Rightarrow> uint32 \<Rightarrow> eventmap \<Rightarrow> eventmap" where
  "delay_where P delay m =
     (let delayed = mm_insert_all (map (\<lambda>e. (fst e + delay, snd e))
                      (filter (\<lambda>e. P (snd e)) (em_store m))) []
      in m\<lparr>em_store := mm_insert_all delayed (filter (\<lambda>e. \<not> P (snd e)) (em_store m))\<rparr>)"

definition DelayEvent :: "uint32 \<Rightarrow> uint32 \<Rightarrow> eventmap \<Rightarrow> eventmap" where
  "DelayEvent eventId delay m =
     (if em_Empty m then m else delay_where (has_id eventId) delay m)"

definition DelayEvents :: "uint32 \<Rightarrow> eventmap \<Rightarrow> eventmap" where
  "DelayEvents delay m =
     m\<lparr>em_time := (if delay < em_time m then em_time m - delay else 0)\<rparr>"

definition in_group :: "uint16 \<Rightarrow> uint64 \<Rightarrow> bool" where
  "in_group grp d \<longleftrightarrow> d AND push_bit (unat grp + 31) 1 \<noteq> 0"

definition DelayEvents_group :: "uint32 \<Rightarrow> uint16 \<Rightarrow> eventmap \<Rightarrow> eventmap" where
  "DelayEvents_group delay grp m =
     (if grp = 0 \<or> grp > 16 \<or> em_Empty m then m else delay_where (in_group grp) delay m)"

definition CancelEventGroup :: "uint16 \<Rightarrow> eventmap \<Rightarrow> eventmap" where
  "CancelEventGroup grp m =
     (if grp = 0 \<or> grp > 16 \<or> em_Empty m then m
      else m\<lparr>em_store := filter (\<lambda>e. \<not> in_group grp (snd e)) (em_store m)\<rparr>)"

definition GetNextEventTime :: "uint32 \<Rightarrow> eventmap \<Rightarrow> uint32" where
  "GetNextEventTime eventId m =
     (case find (\<lambda>e. has_id eventId (snd e)) (em_store m) of None \<Rightarrow> 0 | Some e \<Rightarrow> fst e)"


definition GetTimeUntilEvent :: "uint32 \<Rightarrow> eventmap \<Rightarrow> uint32" where
  "GetTimeUntilEvent eventId m =
     (case find (\<lambda>e. has_id eventId (snd e)) (em_store m) of
        None \<Rightarrow> 0xFFFFFFFF | Some e \<Rightarrow> fst e - em_time m)"

section \<open>Event data\<close>

named_theorems em_simps \<open>rules for the event map\<close>

lemma EVENT_MASK_mask: "EVENT_MASK = mask 32"
  by (simp add: EVENT_MASK_def mask_eq_exp_minus_1)

lemma event_data_id: "event_data eventId grp phase AND EVENT_MASK = ucast eventId"
proof (rule bit_word_eqI)
  fix n
  assume "n < LENGTH(64)"
  then show "bit (event_data eventId grp phase AND EVENT_MASK) n
      \<longleftrightarrow> bit (ucast eventId :: uint64) n"
    unfolding EVENT_MASK_mask event_data_def Let_def
    by (auto simp: bit_simps unat_eq_zero dest: bit_imp_le_length)
qed

lemma ucast_uint32_up_inj [simp]: "(ucast x :: uint64) = ucast y \<longleftrightarrow> x = (y :: uint32)"
proof
  assume eq: "(ucast x :: uint64) = ucast y"
  have down: "ucast (ucast z :: uint64) = z" for z :: uint32
    by (rule bit_word_eqI) (simp add: bit_simps)
  show "x = y" using down eq by metis
qed simp

lemma has_id_event_data [simp, em_simps]: "has_id i (event_data j grp phase) \<longleftrightarrow> i = j"
  by (auto simp: has_id_def event_data_id)

lemma has_id_unique: "has_id i d \<Longrightarrow> has_id j d \<longleftrightarrow> i = j"
  by (auto simp: has_id_def)

lemma in_group_event_data:
  assumes "0 < g" and "g \<le> 16"
  shows "in_group g (event_data i grp phase) \<longleftrightarrow> g = grp \<and> grp < 16"
proof -
  have g: "unat g \<le> 16" "0 < unat g" using assms
    by (simp_all add: word_le_nat_alt word_less_nat_alt)
  have "in_group g (event_data i grp phase) \<longleftrightarrow> bit (event_data i grp phase) (unat g + 31)"
    using bit_iff_and_push_bit_not_eq_0 [of "event_data i grp phase" "unat g + 31"] by (simp add: in_group_def)
  also have "\<dots> \<longleftrightarrow> unat g = unat grp \<and> grp \<noteq> 0 \<and> grp < 16"
    using g by (auto simp: event_data_def Let_def bit_simps word_less_nat_alt
        unat_eq_zero dest: bit_imp_le_length)
  finally show ?thesis using g(2) by (auto simp: word_unat_eq_iff)
qed

section \<open>The store stays ordered\<close>



lemmas em_op_defs = em_Reset_def em_Update_def SetPhase_def AddPhase_def RemovePhase_def
  ScheduleEvent_def RescheduleEvent_def CancelEvent_def CancelEventGroup_def em_Repeat_def
  ScheduleNextEvent_def DelayEvent_def DelayEvents_def DelayEvents_group_def em_insert_def
  delay_where_def Let_def





section \<open>Execution\<close>

lemma execute_loop_split:
  assumes "\<forall>e \<in> set due. fst e \<le> t" and "\<forall>e \<in> set later. t < fst e"
  shows "execute_loop t p l (due @ later) =
    (case dropWhile (\<lambda>e. phase_blocked p (snd e)) due of
       [] \<Rightarrow> (0, l, later)
     | e # rest \<Rightarrow> (ucast (snd e AND EVENT_MASK), snd e, rest @ later))"
  using assms
proof (induction due)
  case Nil
  then show ?case by (cases later) auto
qed auto

lemma filter_delay_where:
  "mset (em_store (delay_where P d m)) =
     image_mset (\<lambda>e. if P (snd e) then (fst e + d, snd e) else e) (mset (em_store m))"
proof -
  have "image_mset (\<lambda>e. if P (snd e) then (fst e + d, snd e) else e) (mset st)
      = mset (map (\<lambda>e. (fst e + d, snd e)) (filter (\<lambda>e. P (snd e)) st))
        + mset (filter (\<lambda>e. \<not> P (snd e)) st)" for st
    by (induction st) auto
  then show ?thesis by (simp add: delay_where_def Let_def mset_mm_insert_all)
qed

lemma find_mm_insert_only:
  assumes "\<forall>e \<in> set st. \<not> P e" and "P (k, v)"
  shows "find P (mm_insert k v st) = Some (k, v)"
  using assms by (induction st) auto

lemma filter_mm_insert_only:
  assumes "\<forall>e \<in> set st. \<not> P e" and "P (k, v)"
  shows "filter P (mm_insert k v st) = [(k, v)]"
  using assms by (induction st) (auto simp: filter_empty_conv)

lemma HasEvent_iff: "HasEvent i m \<longleftrightarrow> (\<exists>e \<in> set (em_store m). has_id i (snd e))"
  by (simp add: HasEvent_def list_ex_iff)

lemma store_CancelEvent [simp, em_simps]:
  "em_store (CancelEvent i m) = filter (\<lambda>e. \<not> has_id i (snd e)) (em_store m)"
  by (auto simp: CancelEvent_def em_Empty_def)

lemma time_CancelEvent [simp, em_simps]: "em_time (CancelEvent i m) = em_time m"
  by (simp add: CancelEvent_def)

lemma add_mset_eq_same: "add_mset a M = add_mset b M \<Longrightarrow> a = b"
  by (metis add_mset_add_single add_left_cancel single_eq_single)

section \<open>Properties\<close>



text \<open>
  C22. \<^verbatim>\<open>ExecuteEvent\<close> on an ordered map: among the events that are due it drops those at the front
  whose phases are all inactive, and executes the first other one: it returns its id, records
  it as the last event and removes it; all later due events and all events that are not due
  stay. When every due event is blocked by its phase, all of them are dropped and it returns 0.
\<close>

theorem ExecuteEvent_spec:
  assumes "mm_sorted (em_store m)"
  defines "due \<equiv> filter (\<lambda>e. fst e \<le> em_time m) (em_store m)"
    and "later \<equiv> filter (\<lambda>e. em_time m < fst e) (em_store m)"
  shows "ExecuteEvent m =
    (case dropWhile (\<lambda>e. phase_blocked (em_phase m) (snd e)) due of
       [] \<Rightarrow> (0, m\<lparr>em_store := later\<rparr>)
     | e # rest \<Rightarrow> (ucast (snd e AND EVENT_MASK), m\<lparr>em_last := snd e, em_store := rest @ later\<rparr>))"
proof -
  have "em_store m = due @ later"
    unfolding due_def later_def by (rule sorted_due_split [OF assms(1)])
  moreover have "\<forall>e \<in> set due. fst e \<le> em_time m" and "\<forall>e \<in> set later. em_time m < fst e"
    by (auto simp: due_def later_def)
  ultimately show ?thesis
    using execute_loop_split [of due "em_time m" later "em_phase m" "em_last m"]
    by (cases "dropWhile (\<lambda>e. phase_blocked (em_phase m) (snd e)) due")
      (simp_all add: ExecuteEvent_def del: dropWhile_eq_Nil_conv)
qed

theorem ExecuteEvent_spec_witness:
  "ExecuteEvent (em_Update 400 (ScheduleEvent 7 300 0 0 EventMap_new))
     = (7, (em_Update 400 (ScheduleEvent 7 300 0 0 EventMap_new))\<lparr>em_last := 7, em_store := []\<rparr>)"
proof -
  let ?m = "em_Update 400 (ScheduleEvent 7 300 0 0 EventMap_new)"
  have st: "em_store ?m = [(300, 7)]" and t: "em_time ?m = 400" and p: "em_phase ?m = 0"
    by (simp_all add: em_op_defs EventMap_new_def event_data_def)
  then have "mm_sorted (em_store ?m)" by (simp add: mm_sorted_Cons)
  from ExecuteEvent_spec [OF this] show ?thesis
    by (simp add: st t p phase_blocked_def EVENT_MASK_def)
qed

text \<open>
  \<^verbatim>\<open>RescheduleEvent\<close> leaves exactly one occurrence of the event, due after the given time,
  whatever was scheduled before and even where the 32-bit timer wraps around, and leaves every
  other event as it was.
\<close>

theorem reschedule_exactly_once:
  "filter (\<lambda>e. has_id i (snd e)) (em_store (RescheduleEvent i t g p m))
     = [(em_time m + t, event_data i g p)] \<and>
   filter (\<lambda>e. \<not> has_id i (snd e)) (em_store (RescheduleEvent i t g p m))
     = filter (\<lambda>e. \<not> has_id i (snd e)) (em_store m) \<and>
   GetTimeUntilEvent i (RescheduleEvent i t g p m) = t"
proof -
  have "em_store (RescheduleEvent i t g p m) = mm_insert (em_time m + t) (event_data i g p)
      (filter (\<lambda>e. \<not> has_id i (snd e)) (em_store m))"
    and "em_time (RescheduleEvent i t g p m) = em_time m"
    by (simp_all add: RescheduleEvent_def ScheduleEvent_def em_insert_def)
  then show ?thesis
    by (simp add: filter_mm_insert_only filter_mm_insert_other GetTimeUntilEvent_def
        find_mm_insert_only)
qed

text \<open>
  Groups: an event scheduled in group \<open>g\<close> (1 to 16) is removed by \<^verbatim>\<open>CancelEventGroup(g)\<close> for the
  groups 1 to 15, and survives for group 16, which \<^verbatim>\<open>CancelEventGroup\<close> and \<^verbatim>\<open>DelayEvents\<close> accept
  but \<^verbatim>\<open>ScheduleEvent\<close> silently ignores.
\<close>

theorem cancel_group_of_scheduled_event:
  assumes "0 < g" and "g \<le> 16" and "\<not> HasEvent i m"
  shows "HasEvent i (CancelEventGroup g (ScheduleEvent i t g p m)) \<longleftrightarrow> g = 16"
proof -
  let ?m = "ScheduleEvent i t g p m"
  have st: "em_store ?m = mm_insert (em_time m + t) (event_data i g p) (em_store m)"
    by (simp add: ScheduleEvent_def em_insert_def)
  have "em_store (CancelEventGroup g ?m) = filter (\<lambda>e. \<not> in_group g (snd e)) (em_store ?m)"
    using assms(1,2) st by (auto simp: CancelEventGroup_def em_Empty_def)
  then have "HasEvent i (CancelEventGroup g ?m) \<longleftrightarrow> \<not> in_group g (event_data i g p)"
    using assms(3) st by (force simp: HasEvent_iff)
  also have "\<dots> \<longleftrightarrow> \<not> g < 16" using in_group_event_data [OF assms(1,2)] by simp
  finally show ?thesis using assms(2) by auto
qed

theorem cancel_group_of_scheduled_event_witness:
  "\<not> HasEvent 4 (CancelEventGroup 3 (ScheduleEvent 4 1000 3 0 EventMap_new)) \<and>
   HasEvent 4 (CancelEventGroup 16 (ScheduleEvent 4 1000 16 0 EventMap_new))"
proof -
  have "\<not> HasEvent 4 EventMap_new" by (simp add: HasEvent_def EventMap_new_def)
  then show ?thesis
    using cancel_group_of_scheduled_event [of 3 4 EventMap_new 1000 0]
      cancel_group_of_scheduled_event [of 16 4 EventMap_new 1000 0]
    by simp
qed

text \<open>
  \<^verbatim>\<open>DelayEvents(delay, group)\<close> for a valid group moves exactly the events of that group by the
  delay and keeps every other event; no event is lost or duplicated.
\<close>

theorem delay_group_moves_group:
  assumes "0 < g" and "g \<le> 16"
  shows "mset (em_store (DelayEvents_group d g m)) =
    image_mset (\<lambda>e. if in_group g (snd e) then (fst e + d, snd e) else e) (mset (em_store m))"
proof (cases "em_Empty m")
  case True
  then show ?thesis by (simp add: DelayEvents_group_def em_Empty_def)
next
  case False
  moreover have "g \<noteq> 0" and "\<not> 16 < g" using assms by auto
  ultimately show ?thesis
    using filter_delay_where [of "in_group g" d m] by (simp add: DelayEvents_group_def)
qed

theorem delay_group_moves_group_witness:
  "mset (em_store (DelayEvents_group 50 2 (ScheduleEvent 9 100 2 0 EventMap_new)))
     = {# (150, event_data 9 2 0) #}"
proof -
  have "in_group 2 (event_data 9 2 0)" using in_group_event_data [of 2 9 2 0] by simp
  then show ?thesis
    using delay_group_moves_group [of 2 50 "ScheduleEvent 9 100 2 0 EventMap_new"]
    by (simp add: ScheduleEvent_def em_insert_def EventMap_new_def)
qed

text \<open>
  The duration overload of \<^verbatim>\<open>ScheduleNextEvent\<close> does not schedule the next event: its effect
  always differs from that of the \<^verbatim>\<open>uint32\<close> overload with the same time, because it inserts the last
  event again instead of the event after it.
\<close>

theorem schedule_next_ms_differs:
  "mset (em_store (ScheduleNextEvent_ms t m)) = add_mset (em_time m + ucast t, em_last m) (mset (em_store m)) \<and>
   em_store (ScheduleNextEvent_ms t m) \<noteq> em_store (ScheduleNextEvent (ucast t) m)"
proof
  show *: "mset (em_store (ScheduleNextEvent_ms t m))
      = add_mset (em_time m + ucast t, em_last m) (mset (em_store m))"
    by (simp add: ScheduleNextEvent_ms_def em_Repeat_def em_insert_def mset_mm_insert)
  have "mset (em_store (ScheduleNextEvent (ucast t) m))
      = add_mset (em_time m + ucast t, em_last m + 1) (mset (em_store m))"
    by (simp add: ScheduleNextEvent_def em_insert_def mset_mm_insert)
  moreover have "(em_time m + ucast t, em_last m) \<noteq> (em_time m + ucast t, em_last m + 1)" by simp
  ultimately show "em_store (ScheduleNextEvent_ms t m) \<noteq> em_store (ScheduleNextEvent (ucast t) m)"
    using * add_mset_eq_same by metis
qed

end
