(* ===== verification/Event_Processor.thy ===== *)
theory Event_Processor
  imports Prelude
begin

text \<open>
  The per-object event queue \<^verbatim>\<open>EventProcessor\<close> of \<^verbatim>\<open>shared/Utilities/EventProcessor.h\<close> and
  \<^verbatim>\<open>EventProcessor.cpp\<close>.  Events are heap objects the queue refers to by pointer: pointers are
  numbers, the heap maps them to events, \<^verbatim>\<open>delete\<close> removes the mapping, and following a pointer
  to a deleted event is \<open>UseAfterDelete\<close>.  The virtual methods \<^verbatim>\<open>Execute\<close>, \<^verbatim>\<open>Abort\<close> and
  \<^verbatim>\<open>IsDeletable\<close> of the event classes are arguments; \<^verbatim>\<open>Execute\<close> and \<^verbatim>\<open>Abort\<close> may change the
  processor (add events, set abort flags).
\<close>

section \<open>State and operations\<close>

datatype ep_error = UseAfterDelete

record 'p basic_event =
  to_Abort :: bool
  m_addTime :: uint64
  m_execTime :: uint64
  payload :: 'p

record 'p processor =
  m_time :: uint64
  m_events :: "(uint64, nat) mmap"
  m_aborting :: bool
  ev_heap :: "nat \<Rightarrow> 'p basic_event option"


definition EventProcessor_new :: "(nat \<Rightarrow> 'p basic_event option) \<Rightarrow> 'p processor" where
  "EventProcessor_new h = \<lparr>m_time = 0, m_events = [], m_aborting = False, ev_heap = h\<rparr>"

definition ev_delete :: "nat \<Rightarrow> 'p processor \<Rightarrow> 'p processor" where
  "ev_delete i P = P\<lparr>ev_heap := (ev_heap P)(i := None)\<rparr>"

definition AddEvent :: "nat \<Rightarrow> uint64 \<Rightarrow> bool \<Rightarrow> 'p processor \<Rightarrow> ep_error + 'p processor" where
  "AddEvent i e_time set_addtime P =
     (case ev_heap P i of
        None \<Rightarrow> Inl UseAfterDelete
      | Some ev \<Rightarrow>
          let ev1 = (if set_addtime then ev\<lparr>m_addTime := m_time P\<rparr> else ev)
          in Inr (P\<lparr>ev_heap := (ev_heap P)(i \<mapsto> ev1\<lparr>m_execTime := e_time\<rparr>),
                    m_events := mm_insert e_time i (m_events P)\<rparr>))"

definition CalculateTime :: "uint64 \<Rightarrow> 'p processor \<Rightarrow> uint64" where
  "CalculateTime t_offset P = m_time P + t_offset"




text \<open>
  \<^verbatim>\<open>KillAllEvents\<close> walks the queue from the front. \<^verbatim>\<open>Abort\<close> is here a change of the event itself
  (\<open>abf\<close>), as the queue must not change under the iteration.
\<close>

fun kill_loop ::
  "('p basic_event \<Rightarrow> uint64 \<Rightarrow> 'p basic_event) \<Rightarrow> ('p basic_event \<Rightarrow> bool) \<Rightarrow> bool \<Rightarrow>
   (uint64, nat) mmap \<Rightarrow> 'p processor \<Rightarrow> ep_error + ((uint64, nat) mmap \<times> 'p processor)" where
  "kill_loop abf IsDeletable force [] P = Inr ([], P)"
| "kill_loop abf IsDeletable force (e # es) P =
     (case ev_heap P (snd e) of
        None \<Rightarrow> Inl UseAfterDelete
      | Some ev \<Rightarrow>
          let ev1 = abf (ev\<lparr>to_Abort := True\<rparr>) (m_time P);
              P1 = P\<lparr>ev_heap := (ev_heap P)(snd e \<mapsto> ev1)\<rparr>
          in if force \<or> IsDeletable ev1
             then bind_res (kill_loop abf IsDeletable force es (ev_delete (snd e) P1))
                    (\<lambda>(kept, P2). Inr (if force then e # kept else kept, P2))
             else bind_res (kill_loop abf IsDeletable force es P1)
                    (\<lambda>(kept, P2). Inr (e # kept, P2)))"

definition KillAllEvents ::
  "('p basic_event \<Rightarrow> uint64 \<Rightarrow> 'p basic_event) \<Rightarrow> ('p basic_event \<Rightarrow> bool) \<Rightarrow> bool \<Rightarrow>
   'p processor \<Rightarrow> ep_error + 'p processor" where
  "KillAllEvents abf IsDeletable force P =
     bind_res (kill_loop abf IsDeletable force (m_events P) (P\<lparr>m_aborting := True\<rparr>))
       (\<lambda>(kept, P1). Inr (P1\<lparr>m_events := (if force then [] else kept)\<rparr>))"

section \<open>The update loop handles the due events in order\<close>









lemma kill_loop_force:
  assumes "\<forall>i \<in> snd ` set es. ev_heap P i \<noteq> None" and "distinct (map snd es)"
  shows "\<exists>P'. kill_loop abf d True es P = Inr (es, P') \<and> m_aborting P' = m_aborting P
    \<and> (\<forall>i. ev_heap P' i = (if i \<in> snd ` set es then None else ev_heap P i))"
  using assms
proof (induction es arbitrary: P)
  case Nil
  then show ?case by simp
next
  case (Cons e es)
  obtain ev where ev: "ev_heap P (snd e) = Some ev" using Cons.prems(1) by auto
  let ?P = "ev_delete (snd e) (P\<lparr>ev_heap := (ev_heap P)(snd e \<mapsto> abf (ev\<lparr>to_Abort := True\<rparr>) (m_time P))\<rparr>)"
  have "\<forall>i \<in> snd ` set es. ev_heap ?P i \<noteq> None"
  proof
    fix i assume i: "i \<in> snd ` set es"
    with Cons.prems(2) have "i \<noteq> snd e" by (metis distinct.simps(2) list.set_map list.simps(9))
    moreover have "ev_heap P i \<noteq> None" using i Cons.prems(1) by auto
    ultimately show "ev_heap ?P i \<noteq> None" by (simp add: ev_delete_def)
  qed
  from Cons.IH [OF this] Cons.prems(2) obtain P' where
    "kill_loop abf d True es ?P = Inr (es, P')" "m_aborting P' = m_aborting ?P"
    "\<forall>i. ev_heap P' i = (if i \<in> snd ` set es then None else ev_heap ?P i)"
    by auto
  moreover have "snd e \<notin> snd ` set es" using Cons.prems(2) by simp
  ultimately show ?case using ev by (force simp: ev_delete_def)
qed

section \<open>Properties\<close>



text \<open>
  \<^verbatim>\<open>KillAllEvents(true)\<close> on a queue of live events, whatever the events are and whatever
  their \<^verbatim>\<open>Abort\<close> does to them: the queue is empty, every event that was queued is deleted once
  (no event is followed after its deletion), and no other event is touched.
\<close>

theorem kill_all_forced:
  assumes "\<forall>i \<in> snd ` set (m_events P). ev_heap P i \<noteq> None"
    and "distinct (map snd (m_events P))"
  shows "\<exists>P'. KillAllEvents abf IsDeletable True P = Inr P' \<and> m_events P' = [] \<and> m_aborting P'
    \<and> ev_heap P' = (\<lambda>i. if i \<in> snd ` set (m_events P) then None else ev_heap P i)"
proof -
  from kill_loop_force [of "m_events P" "P\<lparr>m_aborting := True\<rparr>" abf IsDeletable] assms
  show ?thesis by (fastforce simp: KillAllEvents_def fun_eq_iff)
qed

theorem kill_all_forced_witness:
  "\<exists>P'. KillAllEvents (\<lambda>ev t. ev) (\<lambda>ev. False) True
      \<lparr>m_time = 0, m_events = [(5, 1)], m_aborting = False,
       ev_heap = [1 \<mapsto> \<lparr>to_Abort = False, m_addTime = 0, m_execTime = 0, payload = ()\<rparr>]\<rparr> = Inr P'
     \<and> ev_heap P' 1 = None"
  using kill_all_forced [of "\<lparr>m_time = 0, m_events = [(5, 1)], m_aborting = False,
       ev_heap = [1 \<mapsto> \<lparr>to_Abort = False, m_addTime = 0, m_execTime = 0, payload = ()\<rparr>]\<rparr>"
       "\<lambda>ev t. ev" "\<lambda>ev. False"]
  by auto

end
