(* ===== verification/Task_Scheduler.thy ===== *)
theory Task_Scheduler
  imports Prelude
begin

text \<open>
  The script scheduler \<^verbatim>\<open>TaskScheduler\<close> with its \<^verbatim>\<open>TaskContext\<close> of
  \<^verbatim>\<open>game/Utilities/TaskScheduler.h\<close> and \<^verbatim>\<open>TaskScheduler.cpp\<close>.  Tasks are shared objects
  (\<^verbatim>\<open>std::shared_ptr<Task>\<close>): the queue, and the context of a task that is running, refer to the
  same task, and a change through one is seen through the other.  A task is therefore a number,
  and the heap maps numbers to tasks.  Time points and durations are integers in nanoseconds (the
  duration of the steady clock).

  Task handlers, asynchronous callables and validators are arbitrary C++ functions.  They are
  names (the type parameters \<open>'h\<close>, \<open>'a\<close>, \<open>'p\<close>); what a handler or callable does to the
  scheduler is the list of calls it makes, which may depend on the whole state, and whether a
  validator holds may depend on it too.
\<close>

section \<open>State\<close>

datatype ts_error =
    ContextConsumed      \<comment> \<open>\<^verbatim>\<open>AssertOnConsumed\<close> fails\<close>
  | PopEmptyQueue        \<comment> \<open>\<^verbatim>\<open>std::queue::pop\<close> on an empty queue\<close>
  | SchedulerDestroyed   \<comment> \<open>the scheduler is used after its destruction\<close>

record 'h task =
  t_end :: int
  t_duration :: int
  t_group :: uint32
  t_repeated :: uint32
  t_task :: 'h

record ('h, 'a, 'p) scheduler =
  self_reference :: bool
  ts_now :: int
  ts_holder :: "nat list"
  ts_async :: "'a list"
  ts_predicate :: "'p option"
  ts_heap :: "nat \<Rightarrow> 'h task"
  ts_fresh :: nat

definition TaskScheduler_new ::
  "int \<Rightarrow> 'p option \<Rightarrow> (nat \<Rightarrow> 'h task) \<Rightarrow> ('h, 'a, 'p) scheduler" where
  "TaskScheduler_new now p h =
     \<lparr>self_reference = True, ts_now = now, ts_holder = [], ts_async = [], ts_predicate = p,
      ts_heap = h, ts_fresh = 0\<rparr>"

definition IsInGroup :: "uint32 \<Rightarrow> 'h task \<Rightarrow> bool" where
  "IsInGroup g t \<longleftrightarrow> t_group t = g"

definition task_less :: "'h task \<Rightarrow> 'h task \<Rightarrow> bool" where
  "task_less a b \<longleftrightarrow> t_end a < t_end b"

section \<open>The task queue\<close>

text \<open>\<^verbatim>\<open>multiset::insert\<close> puts a task behind the tasks that do not compare greater.\<close>

fun tq_insert :: "(nat \<Rightarrow> 'h task) \<Rightarrow> nat \<Rightarrow> nat list \<Rightarrow> nat list" where
  "tq_insert h i [] = [i]"
| "tq_insert h i (j # q) = (if task_less (h i) (h j) then i # j # q else j # tq_insert h i q)"

definition tq_Push :: "nat \<Rightarrow> ('h, 'a, 'p) scheduler \<Rightarrow> ('h, 'a, 'p) scheduler" where
  "tq_Push i s = s\<lparr>ts_holder := tq_insert (ts_heap s) i (ts_holder s)\<rparr>"

definition tq_IsEmpty :: "('h, 'a, 'p) scheduler \<Rightarrow> bool" where
  "tq_IsEmpty s \<longleftrightarrow> ts_holder s = []"

definition tq_Clear :: "('h, 'a, 'p) scheduler \<Rightarrow> ('h, 'a, 'p) scheduler" where
  "tq_Clear s = s\<lparr>ts_holder := []\<rparr>"

definition tq_RemoveIf :: "('h task \<Rightarrow> bool) \<Rightarrow> ('h, 'a, 'p) scheduler \<Rightarrow> ('h, 'a, 'p) scheduler" where
  "tq_RemoveIf P s = s\<lparr>ts_holder := filter (\<lambda>i. \<not> P (ts_heap s i)) (ts_holder s)\<rparr>"

text \<open>
  The loop of \<^verbatim>\<open>ModifyIf\<close>: the filter may change the task it looks at; the tasks it accepts go
  to the cache, the others stay.
\<close>

fun modify_loop ::
  "('h task \<Rightarrow> bool \<times> 'h task) \<Rightarrow> nat list \<Rightarrow> (nat \<Rightarrow> 'h task) \<Rightarrow>
   nat list \<times> nat list \<times> (nat \<Rightarrow> 'h task)" where
  "modify_loop f [] h = ([], [], h)"
| "modify_loop f (i # q) h =
     (let (take_it, t) = f (h i); (cache, kept, h1) = modify_loop f q (h(i := t))
      in if take_it then (i # cache, kept, h1) else (cache, i # kept, h1))"

definition tq_ModifyIf ::
  "('h task \<Rightarrow> bool \<times> 'h task) \<Rightarrow> ('h, 'a, 'p) scheduler \<Rightarrow> ('h, 'a, 'p) scheduler" where
  "tq_ModifyIf f s =
     (let (cache, kept, h) = modify_loop f (ts_holder s) (ts_heap s)
      in s\<lparr>ts_heap := h, ts_holder := fold (tq_insert h) cache kept\<rparr>)"

section \<open>Operations of the scheduler\<close>

definition SetValidator :: "'p \<Rightarrow> ('h, 'a, 'p) scheduler \<Rightarrow> ('h, 'a, 'p) scheduler" where
  "SetValidator p s = s\<lparr>ts_predicate := Some p\<rparr>"

definition ClearValidator :: "('h, 'a, 'p) scheduler \<Rightarrow> ('h, 'a, 'p) scheduler" where
  "ClearValidator s = s\<lparr>ts_predicate := None\<rparr>"

definition ts_Async :: "'a \<Rightarrow> ('h, 'a, 'p) scheduler \<Rightarrow> ('h, 'a, 'p) scheduler" where
  "ts_Async a s = s\<lparr>ts_async := ts_async s @ [a]\<rparr>"

definition ts_CancelAll :: "('h, 'a, 'p) scheduler \<Rightarrow> ('h, 'a, 'p) scheduler" where
  "ts_CancelAll s = (tq_Clear s)\<lparr>ts_async := []\<rparr>"

definition CancelGroup :: "uint32 \<Rightarrow> ('h, 'a, 'p) scheduler \<Rightarrow> ('h, 'a, 'p) scheduler" where
  "CancelGroup g s = tq_RemoveIf (IsInGroup g) s"

definition CancelGroupsOf :: "uint32 list \<Rightarrow> ('h, 'a, 'p) scheduler \<Rightarrow> ('h, 'a, 'p) scheduler" where
  "CancelGroupsOf gs s = fold CancelGroup gs s"

definition InsertTask :: "nat \<Rightarrow> ('h, 'a, 'p) scheduler \<Rightarrow> ('h, 'a, 'p) scheduler" where
  "InsertTask i s = tq_Push i s"

text \<open>\<^verbatim>\<open>new Task(...)\<close> takes the next unused number.\<close>

definition new_task :: "'h task \<Rightarrow> ('h, 'a, 'p) scheduler \<Rightarrow> nat \<times> ('h, 'a, 'p) scheduler" where
  "new_task t s = (ts_fresh s, s\<lparr>ts_heap := (ts_heap s)(ts_fresh s := t), ts_fresh := Suc (ts_fresh s)\<rparr>)"

definition ScheduleAt_group ::
  "int \<Rightarrow> int \<Rightarrow> uint32 \<Rightarrow> 'h \<Rightarrow> ('h, 'a, 'p) scheduler \<Rightarrow> ('h, 'a, 'p) scheduler" where
  "ScheduleAt_group e time g f s =
     (let (i, s1) = new_task \<lparr>t_end = e + time, t_duration = time, t_group = g, t_repeated = 0,
                               t_task = f\<rparr> s
      in InsertTask i s1)"

definition ScheduleAt :: "int \<Rightarrow> int \<Rightarrow> 'h \<Rightarrow> ('h, 'a, 'p) scheduler \<Rightarrow> ('h, 'a, 'p) scheduler" where
  "ScheduleAt e time f s = ScheduleAt_group e time 0 f s"

definition ts_Schedule :: "int \<Rightarrow> 'h \<Rightarrow> ('h, 'a, 'p) scheduler \<Rightarrow> ('h, 'a, 'p) scheduler" where
  "ts_Schedule time f s = ScheduleAt (ts_now s) time f s"

definition ts_Schedule_group ::
  "int \<Rightarrow> uint32 \<Rightarrow> 'h \<Rightarrow> ('h, 'a, 'p) scheduler \<Rightarrow> ('h, 'a, 'p) scheduler" where
  "ts_Schedule_group time g f s = ScheduleAt_group (ts_now s) time g f s"

definition ts_Schedule_list ::
  "int list \<Rightarrow> 'h \<Rightarrow> ('h, 'a, 'p) scheduler \<Rightarrow> ('h, 'a, 'p) scheduler" where
  "ts_Schedule_list ds f s = fold (\<lambda>time s'. ScheduleAt (ts_now s') time f s') ds s"

definition ts_Schedule_list_group ::
  "int list \<Rightarrow> uint32 \<Rightarrow> 'h \<Rightarrow> ('h, 'a, 'p) scheduler \<Rightarrow> ('h, 'a, 'p) scheduler" where
  "ts_Schedule_list_group ds g f s =
     fold (\<lambda>time s'. ScheduleAt_group (ts_now s') time g f s') ds s"

text \<open>
  \<^verbatim>\<open>RandomDurationBetween\<close>: the bounds become whole milliseconds, rounded towards zero; \<open>urand\<close>
  is the server's random generator.
\<close>

definition to_milli :: "int \<Rightarrow> int" where
  "to_milli d = sgn d * (\<bar>d\<bar> div 1000000)"

definition RandomDurationBetween :: "(uint32 \<Rightarrow> uint32 \<Rightarrow> uint32) \<Rightarrow> int \<Rightarrow> int \<Rightarrow> int" where
  "RandomDurationBetween urand mn mx =
     1000000 * uint (urand (word_of_int (to_milli mn)) (word_of_int (to_milli mx)))"

definition DelayAll :: "int \<Rightarrow> ('h, 'a, 'p) scheduler \<Rightarrow> ('h, 'a, 'p) scheduler" where
  "DelayAll d s = tq_ModifyIf (\<lambda>t. (True, t\<lparr>t_end := t_end t + d\<rparr>)) s"

definition DelayGroup :: "uint32 \<Rightarrow> int \<Rightarrow> ('h, 'a, 'p) scheduler \<Rightarrow> ('h, 'a, 'p) scheduler" where
  "DelayGroup g d s =
     tq_ModifyIf (\<lambda>t. if IsInGroup g t then (True, t\<lparr>t_end := t_end t + d\<rparr>) else (False, t)) s"

definition RescheduleAll :: "int \<Rightarrow> ('h, 'a, 'p) scheduler \<Rightarrow> ('h, 'a, 'p) scheduler" where
  "RescheduleAll d s = (let e = ts_now s + d in tq_ModifyIf (\<lambda>t. (True, t\<lparr>t_end := e\<rparr>)) s)"

definition RescheduleGroup :: "uint32 \<Rightarrow> int \<Rightarrow> ('h, 'a, 'p) scheduler \<Rightarrow> ('h, 'a, 'p) scheduler" where
  "RescheduleGroup g d s =
     (let e = ts_now s + d
      in tq_ModifyIf (\<lambda>t. if IsInGroup g t then (True, t\<lparr>t_end := e\<rparr>) else (False, t)) s)"

section \<open>The context of a running task\<close>

text \<open>
  A context has its task and the shared flag \<^verbatim>\<open>_consumed\<close>; copies of a context share both.
  \<^verbatim>\<open>TaskContext::Dispatch\<close> does nothing when the scheduler is gone.
\<close>

record context_state =
  c_task :: nat
  c_consumed :: bool

definition ctx_Dispatch ::
  "(('h, 'a, 'p) scheduler \<Rightarrow> ('h, 'a, 'p) scheduler) \<Rightarrow>
   ('h, 'a, 'p) scheduler \<Rightarrow> ('h, 'a, 'p) scheduler" where
  "ctx_Dispatch f s = (if self_reference s then f s else s)"

definition IsExpired :: "('h, 'a, 'p) scheduler \<Rightarrow> bool" where
  "IsExpired s \<longleftrightarrow> \<not> self_reference s"

definition set_task :: "nat \<Rightarrow> ('h task \<Rightarrow> 'h task) \<Rightarrow> ('h, 'a, 'p) scheduler \<Rightarrow> ('h, 'a, 'p) scheduler" where
  "set_task i f s = s\<lparr>ts_heap := (ts_heap s)(i := f (ts_heap s i))\<rparr>"

definition ctx_SetGroup ::
  "uint32 \<Rightarrow> context_state \<Rightarrow> ('h, 'a, 'p) scheduler \<Rightarrow> ('h, 'a, 'p) scheduler" where
  "ctx_SetGroup g c s = set_task (c_task c) (t_group_update (\<lambda>_. g)) s"

definition ctx_ClearGroup ::
  "context_state \<Rightarrow> ('h, 'a, 'p) scheduler \<Rightarrow> ('h, 'a, 'p) scheduler" where
  "ctx_ClearGroup c s = set_task (c_task c) (t_group_update (\<lambda>_. 0)) s"

definition GetRepeatCounter :: "context_state \<Rightarrow> ('h, 'a, 'p) scheduler \<Rightarrow> uint32" where
  "GetRepeatCounter c s = t_repeated (ts_heap s (c_task c))"

definition ctx_Repeat ::
  "int \<Rightarrow> context_state \<Rightarrow> ('h, 'a, 'p) scheduler \<Rightarrow>
   ts_error + (context_state \<times> ('h, 'a, 'p) scheduler)" where
  "ctx_Repeat d c s =
     (if c_consumed c then Inl ContextConsumed
      else let s1 = set_task (c_task c) (\<lambda>t. t\<lparr>t_duration := d, t_end := t_end t + d,
                                                 t_repeated := t_repeated t + 1\<rparr>) s
           in Inr (c\<lparr>c_consumed := True\<rparr>, ctx_Dispatch (InsertTask (c_task c)) s1))"

definition ctx_Repeat_same ::
  "context_state \<Rightarrow> ('h, 'a, 'p) scheduler \<Rightarrow> ts_error + (context_state \<times> ('h, 'a, 'p) scheduler)" where
  "ctx_Repeat_same c s = ctx_Repeat (t_duration (ts_heap s (c_task c))) c s"

definition ctx_Schedule ::
  "int \<Rightarrow> 'h \<Rightarrow> context_state \<Rightarrow> ('h, 'a, 'p) scheduler \<Rightarrow> ('h, 'a, 'p) scheduler" where
  "ctx_Schedule time f c s =
     (let e = t_end (ts_heap s (c_task c)) in ctx_Dispatch (ScheduleAt e time f) s)"

definition ctx_Schedule_group ::
  "int \<Rightarrow> uint32 \<Rightarrow> 'h \<Rightarrow> context_state \<Rightarrow> ('h, 'a, 'p) scheduler \<Rightarrow> ('h, 'a, 'p) scheduler" where
  "ctx_Schedule_group time g f c s =
     (let e = t_end (ts_heap s (c_task c)) in ctx_Dispatch (ScheduleAt_group e time g f) s)"

section \<open>Programs of handlers and callables\<close>

text \<open>The calls on the scheduler itself; \<open>Destroy\<close> is the destruction of its owner.\<close>

datatype ('h, 'a, 'p) scmd =
    Schedule int 'h | Schedule_in int uint32 'h | Async 'a | CancelAll | Cancel_group uint32
  | Cancel_groups "uint32 list" | Delay_all int | Delay_group uint32 int | Reschedule_all int
  | Reschedule_group uint32 int | Set_validator 'p | Clear_validator | Destroy

fun run_scmd :: "('h, 'a, 'p) scmd \<Rightarrow> ('h, 'a, 'p) scheduler \<Rightarrow> ('h, 'a, 'p) scheduler" where
  "run_scmd (Schedule d f) s = ts_Schedule d f s"
| "run_scmd (Schedule_in d g f) s = ts_Schedule_group d g f s"
| "run_scmd (Async a) s = ts_Async a s"
| "run_scmd CancelAll s = ts_CancelAll s"
| "run_scmd (Cancel_group g) s = CancelGroup g s"
| "run_scmd (Cancel_groups gs) s = CancelGroupsOf gs s"
| "run_scmd (Delay_all d) s = DelayAll d s"
| "run_scmd (Delay_group g d) s = DelayGroup g d s"
| "run_scmd (Reschedule_all d) s = RescheduleAll d s"
| "run_scmd (Reschedule_group g d) s = RescheduleGroup g d s"
| "run_scmd (Set_validator p) s = SetValidator p s"
| "run_scmd Clear_validator s = ClearValidator s"
| "run_scmd Destroy s = s\<lparr>self_reference := False\<rparr>"

text \<open>
  The calls on a context; \<open>Owner\<close> are those that \<^verbatim>\<open>TaskContext\<close> hands on to its scheduler
  (\<^verbatim>\<open>Async\<close>, \<^verbatim>\<open>CancelAll\<close>, \<^verbatim>\<open>CancelGroup\<close>, \<^verbatim>\<open>CancelGroupsOf\<close>, \<^verbatim>\<open>DelayAll\<close>, \<^verbatim>\<open>DelayGroup\<close>,
  \<^verbatim>\<open>RescheduleAll\<close>, \<^verbatim>\<open>RescheduleGroup\<close>).
\<close>

datatype ('h, 'a, 'p) ccmd =
    Repeat int | Repeat_same | CSchedule int 'h | CSchedule_in int uint32 'h
  | Set_group uint32 | Clear_group | Owner "('h, 'a, 'p) scmd"

fun run_ccmd ::
  "('h, 'a, 'p) ccmd \<Rightarrow> context_state \<times> ('h, 'a, 'p) scheduler \<Rightarrow>
   ts_error + (context_state \<times> ('h, 'a, 'p) scheduler)" where
  "run_ccmd (Repeat d) (c, s) = ctx_Repeat d c s"
| "run_ccmd Repeat_same (c, s) = ctx_Repeat_same c s"
| "run_ccmd (CSchedule d f) (c, s) = Inr (c, ctx_Schedule d f c s)"
| "run_ccmd (CSchedule_in d g f) (c, s) = Inr (c, ctx_Schedule_group d g f c s)"
| "run_ccmd (Set_group g) (c, s) = Inr (c, ctx_SetGroup g c s)"
| "run_ccmd Clear_group (c, s) = Inr (c, ctx_ClearGroup c s)"
| "run_ccmd (Owner x) (c, s) = Inr (c, ctx_Dispatch (run_scmd x) s)"

record ('h, 'a, 'p) programs =
  handler :: "'h \<Rightarrow> context_state \<Rightarrow> ('h, 'a, 'p) scheduler \<Rightarrow> ('h, 'a, 'p) ccmd list"
  callable :: "'a \<Rightarrow> ('h, 'a, 'p) scheduler \<Rightarrow> ('h, 'a, 'p) scmd list"
  validator :: "'p \<Rightarrow> ('h, 'a, 'p) scheduler \<Rightarrow> bool"

section \<open>Dispatching\<close>

definition predicate_holds :: "('h, 'a, 'p) programs \<Rightarrow> ('h, 'a, 'p) scheduler \<Rightarrow> bool" where
  "predicate_holds W s = (case ts_predicate s of None \<Rightarrow> True | Some p \<Rightarrow> validator W p s)"

definition ctx_Invoke ::
  "('h, 'a, 'p) programs \<Rightarrow> nat \<Rightarrow> ('h, 'a, 'p) scheduler \<Rightarrow> ts_error + ('h, 'a, 'p) scheduler" where
  "ctx_Invoke W i s =
     (let c = \<lparr>c_task = i, c_consumed = False\<rparr>
      in bind_res (iter_res run_ccmd (handler W (t_task (ts_heap s i)) c s) (c, s)) (\<lambda>r. Inr (snd r)))"

text \<open>
  The two loops of \<^verbatim>\<open>Dispatch\<close>.  Each takes fuel and is \<open>None\<close> when that runs out; the Boolean of
  the result says whether the loop ran to its end (and not into a failed validation).
\<close>

fun async_loop ::
  "nat \<Rightarrow> ('h, 'a, 'p) programs \<Rightarrow> ('h, 'a, 'p) scheduler \<Rightarrow>
   (ts_error + (bool \<times> ('h, 'a, 'p) scheduler)) option" where
  "async_loop 0 W s = None"
| "async_loop (Suc n) W s =
     (case ts_async s of
        [] \<Rightarrow> Some (Inr (True, s))
      | a # _ \<Rightarrow>
          let s1 = fold run_scmd (callable W a s) s
          in if \<not> self_reference s1 then Some (Inl SchedulerDestroyed)
             else case ts_async s1 of
                    [] \<Rightarrow> Some (Inl PopEmptyQueue)
                  | _ # rest \<Rightarrow>
                      let s2 = s1\<lparr>ts_async := rest\<rparr>
                      in if \<not> predicate_holds W s2 then Some (Inr (False, s2))
                         else async_loop n W s2)"

fun task_loop ::
  "nat \<Rightarrow> ('h, 'a, 'p) programs \<Rightarrow> ('h, 'a, 'p) scheduler \<Rightarrow>
   (ts_error + (bool \<times> ('h, 'a, 'p) scheduler)) option" where
  "task_loop 0 W s = None"
| "task_loop (Suc n) W s =
     (case ts_holder s of
        [] \<Rightarrow> Some (Inr (True, s))
      | i # rest \<Rightarrow>
          if ts_now s < t_end (ts_heap s i) then Some (Inr (True, s))
          else case ctx_Invoke W i (s\<lparr>ts_holder := rest\<rparr>) of
                 Inl e \<Rightarrow> Some (Inl e)
               | Inr s1 \<Rightarrow>
                   if \<not> self_reference s1 then Some (Inl SchedulerDestroyed)
                   else if \<not> predicate_holds W s1 then Some (Inr (False, s1))
                   else task_loop n W s1)"

text \<open>The Boolean of the result says whether the success callback is called.\<close>

definition Dispatch ::
  "nat \<Rightarrow> ('h, 'a, 'p) programs \<Rightarrow> ('h, 'a, 'p) scheduler \<Rightarrow>
   (ts_error + (bool \<times> ('h, 'a, 'p) scheduler)) option" where
  "Dispatch fuel W s =
     (if \<not> predicate_holds W s then Some (Inr (False, s))
      else case async_loop fuel W s of
             None \<Rightarrow> None
           | Some (Inl e) \<Rightarrow> Some (Inl e)
           | Some (Inr (finished, s1)) \<Rightarrow>
               if finished then task_loop fuel W s1 else Some (Inr (False, s1)))"

definition ts_Update ::
  "nat \<Rightarrow> ('h, 'a, 'p) programs \<Rightarrow> int \<Rightarrow> ('h, 'a, 'p) scheduler \<Rightarrow>
   (ts_error + (bool \<times> ('h, 'a, 'p) scheduler)) option" where
  "ts_Update fuel W difftime s = Dispatch fuel W (s\<lparr>ts_now := ts_now s + difftime\<rparr>)"

definition ts_Update_clock ::
  "nat \<Rightarrow> ('h, 'a, 'p) programs \<Rightarrow> int \<Rightarrow> ('h, 'a, 'p) scheduler \<Rightarrow>
   (ts_error + (bool \<times> ('h, 'a, 'p) scheduler)) option" where
  "ts_Update_clock fuel W clock s = Dispatch fuel W (s\<lparr>ts_now := clock\<rparr>)"

definition ts_Update_ms ::
  "nat \<Rightarrow> ('h, 'a, 'p) programs \<Rightarrow> nat \<Rightarrow> ('h, 'a, 'p) scheduler \<Rightarrow>
   (ts_error + (bool \<times> ('h, 'a, 'p) scheduler)) option" where
  "ts_Update_ms fuel W milliseconds s = ts_Update fuel W (1000000 * int milliseconds) s"

section \<open>The queue refines the ordered multimap\<close>

text \<open>What the queue stands for: its tasks with their end times.\<close>

definition tq_view :: "(nat \<Rightarrow> 'h task) \<Rightarrow> nat list \<Rightarrow> (int, nat) mmap" where
  "tq_view h q = map (\<lambda>i. (t_end (h i), i)) q"

lemma view_insert: "tq_view h (tq_insert h i q) = mm_insert (t_end (h i)) i (tq_view h q)"
  by (induction q) (auto simp: tq_view_def task_less_def)

lemma view_insert_fold: "tq_view h (fold (tq_insert h) xs q) = mm_insert_all (tq_view h xs) (tq_view h q)"
  unfolding mm_insert_all_def
  by (induction xs arbitrary: q) (simp_all add: view_insert, simp_all add: tq_view_def)

lemma mset_tq_insert: "mset (tq_insert h i q) = add_mset i (mset q)"
  by (induction q) auto

lemma set_tq_insert [simp]: "set (tq_insert h i q) = insert i (set q)"
  by (induction q) auto

lemma distinct_tq_insert [simp]: "distinct (tq_insert h i q) \<longleftrightarrow> i \<notin> set q \<and> distinct q"
  by (induction q) auto

lemma mset_fold_tq_insert: "mset (fold (tq_insert h) xs q) = mset xs + mset q"
  by (induction xs arbitrary: q) (simp_all add: mset_tq_insert)

lemma view_filter: "tq_view h (filter P q) = filter (\<lambda>e. P (snd e)) (tq_view h q)"
  by (induction q) (auto simp: tq_view_def)

lemma view_cong: "\<forall>i \<in> set q. t_end (h i) = t_end (h' i) \<Longrightarrow> tq_view h q = tq_view h' q"
  by (simp add: tq_view_def)

lemma modify_loop_distinct:
  assumes "distinct q"
  shows "modify_loop f q h =
    (filter (\<lambda>i. fst (f (h i))) q, filter (\<lambda>i. \<not> fst (f (h i))) q,
     \<lambda>i. if i \<in> set q then snd (f (h i)) else h i)"
  using assms
proof (induction q arbitrary: h)
  case Nil
  then show ?case by simp
next
  case (Cons i q)
  let ?h = "h(i := snd (f (h i)))"
  have "filter (\<lambda>j. fst (f (?h j))) q = filter (\<lambda>j. fst (f (h j))) q"
    and "filter (\<lambda>j. \<not> fst (f (?h j))) q = filter (\<lambda>j. \<not> fst (f (h j))) q"
    using Cons.prems by (auto intro!: filter_cong)
  with Cons show ?case
    by (auto simp: case_prod_unfold Let_def fun_eq_iff)
qed

section \<open>The invariant\<close>

text \<open>
  The queue is ordered by the end times its tasks have now, holds no task twice, and only tasks
  that were created.
\<close>

definition ts_ok :: "('h, 'a, 'p) scheduler \<Rightarrow> bool" where
  "ts_ok s \<longleftrightarrow> mm_sorted (tq_view (ts_heap s) (ts_holder s)) \<and> distinct (ts_holder s)
     \<and> (\<forall>i \<in> set (ts_holder s). i < ts_fresh s)"

text \<open>A context that is not consumed has its task for itself.\<close>

definition ctx_ok :: "context_state \<times> ('h, 'a, 'p) scheduler \<Rightarrow> bool" where
  "ctx_ok r \<longleftrightarrow> ts_ok (snd r) \<and> c_task (fst r) < ts_fresh (snd r)
     \<and> (\<not> c_consumed (fst r) \<longrightarrow> c_task (fst r) \<notin> set (ts_holder (snd r)))"

lemma ModifyIf_state:
  assumes "ts_ok s" and keep: "\<And>t. \<not> fst (f t) \<Longrightarrow> snd (f t) = t"
  shows "ts_ok (tq_ModifyIf f s) \<and> mset (ts_holder (tq_ModifyIf f s)) = mset (ts_holder s)"
proof -
  let ?q = "ts_holder s" and ?h = "ts_heap s"
  let ?h' = "\<lambda>i. if i \<in> set ?q then snd (f (?h i)) else ?h i"
  let ?c = "filter (\<lambda>i. fst (f (?h i))) ?q" and ?k = "filter (\<lambda>i. \<not> fst (f (?h i))) ?q"
  have mod: "tq_ModifyIf f s = s\<lparr>ts_heap := ?h', ts_holder := fold (tq_insert ?h') ?c ?k\<rparr>"
    using assms(1) by (simp add: tq_ModifyIf_def modify_loop_distinct ts_ok_def)
  have m: "mset (fold (tq_insert ?h') ?c ?k) = mset ?q"
    by (simp add: mset_fold_tq_insert)
  have "set (fold (tq_insert ?h') ?c ?k) = set ?q" using m by (rule mset_eq_setD)
  moreover have "distinct (fold (tq_insert ?h') ?c ?k)"
    using mset_eq_imp_distinct_iff [OF m] assms(1) by (simp only: ts_ok_def)
  moreover have "tq_view ?h' ?k = tq_view ?h ?k" by (rule view_cong) (simp add: keep)
  then have "mm_sorted (tq_view ?h' (fold (tq_insert ?h') ?c ?k))"
    using assms(1) by (simp only: view_insert_fold view_filter ts_ok_def mm_sorted_insert_all mm_sorted_filter)
  ultimately show ?thesis
    using assms(1) m unfolding mod ts_ok_def by simp
qed

lemma ModifyIf_other [simp]:
  "ts_fresh (tq_ModifyIf f s) = ts_fresh s" "ts_now (tq_ModifyIf f s) = ts_now s"
  by (simp_all add: tq_ModifyIf_def case_prod_unfold Let_def)

lemma set_ModifyIf:
  "ts_ok s \<Longrightarrow> (\<And>t. \<not> fst (f t) \<Longrightarrow> snd (f t) = t) \<Longrightarrow>
     set (ts_holder (tq_ModifyIf f s)) = set (ts_holder s)"
  using ModifyIf_state [of s f] by (metis set_mset_mset)

lemma RemoveIf_ok [simp]: "ts_ok s \<Longrightarrow> ts_ok (tq_RemoveIf P s)"
  by (auto simp: ts_ok_def tq_RemoveIf_def view_filter)

lemma InsertTask_ok:
  "ts_ok s \<Longrightarrow> i < ts_fresh s \<Longrightarrow> i \<notin> set (ts_holder s) \<Longrightarrow> ts_ok (InsertTask i s)"
  by (auto simp: ts_ok_def InsertTask_def tq_Push_def view_insert)

lemma ScheduleAt_group_ok: "ts_ok s \<Longrightarrow> ts_ok (ScheduleAt_group e d g f s)"
  unfolding ScheduleAt_group_def new_task_def Let_def prod.case
proof (rule InsertTask_ok)
  let ?t = "\<lparr>t_end = e + d, t_duration = d, t_group = g, t_repeated = 0, t_task = f\<rparr>"
  assume ok: "ts_ok s"
  have "tq_view ((ts_heap s)(ts_fresh s := ?t)) (ts_holder s) = tq_view (ts_heap s) (ts_holder s)"
    using ok by (intro view_cong) (auto simp: ts_ok_def)
  with ok show "ts_ok (s\<lparr>ts_heap := (ts_heap s)(ts_fresh s := ?t), ts_fresh := Suc (ts_fresh s)\<rparr>)"
    by (auto simp: ts_ok_def)
qed (auto simp: ts_ok_def)

text \<open>How a call may change the queue: no task that exists already enters it.\<close>

definition grows_fresh :: "('h, 'a, 'p) scheduler \<Rightarrow> ('h, 'a, 'p) scheduler \<Rightarrow> bool" where
  "grows_fresh s s' \<longleftrightarrow> ts_fresh s \<le> ts_fresh s' \<and> ts_now s' = ts_now s
     \<and> (\<forall>i \<in> set (ts_holder s'). i \<in> set (ts_holder s) \<or> ts_fresh s \<le> i)"

lemma ScheduleAt_group_grows: "grows_fresh s (ScheduleAt_group e d g f s)"
  by (simp add: grows_fresh_def ScheduleAt_group_def new_task_def InsertTask_def tq_Push_def Let_def)

lemma CancelGroupsOf_ok:
  "ts_ok s \<Longrightarrow> ts_ok (CancelGroupsOf gs s) \<and> grows_fresh s (CancelGroupsOf gs s)"
  unfolding CancelGroupsOf_def
proof (induction gs arbitrary: s)
  case (Cons g gs)
  from Cons.prems have "ts_ok (CancelGroup g s)" by (simp add: CancelGroup_def)
  from Cons.IH [OF this] show ?case
    by (auto simp: grows_fresh_def CancelGroup_def tq_RemoveIf_def)
qed (simp add: grows_fresh_def)

lemmas ts_op_defs = ts_Schedule_def ts_Schedule_group_def ScheduleAt_def ts_Async_def
  ts_CancelAll_def tq_Clear_def CancelGroup_def SetValidator_def ClearValidator_def

lemmas ts_modify_defs = DelayAll_def DelayGroup_def RescheduleAll_def RescheduleGroup_def Let_def

lemma ModifyIf_ok:
  assumes "ts_ok s" and "\<And>t. \<not> fst (f t) \<Longrightarrow> snd (f t) = t"
  shows "ts_ok (tq_ModifyIf f s) \<and> grows_fresh s (tq_ModifyIf f s)"
  using ModifyIf_state [OF assms] set_ModifyIf [OF assms] by (simp add: grows_fresh_def)

lemma run_scmd_ok: "ts_ok s \<Longrightarrow> ts_ok (run_scmd x s) \<and> grows_fresh s (run_scmd x s)"
proof (cases x)
  case (Delay_all d)
  assume "ts_ok s" then show ?thesis unfolding Delay_all run_scmd.simps ts_modify_defs
    by (rule ModifyIf_ok) simp
next
  case (Delay_group g d)
  assume "ts_ok s" then show ?thesis unfolding Delay_group run_scmd.simps ts_modify_defs
    by (rule ModifyIf_ok) (simp split: if_splits)
next
  case (Reschedule_all d)
  assume "ts_ok s" then show ?thesis unfolding Reschedule_all run_scmd.simps ts_modify_defs
    by (rule ModifyIf_ok) simp
next
  case (Reschedule_group g d)
  assume "ts_ok s" then show ?thesis unfolding Reschedule_group run_scmd.simps ts_modify_defs
    by (rule ModifyIf_ok) (simp split: if_splits)
qed (auto simp: ts_op_defs ScheduleAt_group_ok ScheduleAt_group_grows CancelGroupsOf_ok,
     auto simp: ts_ok_def grows_fresh_def tq_RemoveIf_def tq_view_def)

lemma set_group_ok:
  assumes "ts_ok s"
  shows "ts_ok (set_task i (t_group_update f) s)"
proof -
  have "tq_view ((ts_heap s)(i := t_group_update f (ts_heap s i))) (ts_holder s)
      = tq_view (ts_heap s) (ts_holder s)"
    by (rule view_cong) simp
  with assms show ?thesis by (simp add: ts_ok_def set_task_def)
qed

lemma ctx_ok_grows: "ctx_ok (c, s) \<Longrightarrow> ts_ok s' \<Longrightarrow> grows_fresh s s' \<Longrightarrow> ctx_ok (c, s')"
  by (fastforce simp: ctx_ok_def grows_fresh_def)

lemma ctx_Repeat_ok:
  assumes "ctx_ok (c, s)" and "ctx_Repeat d c s = Inr r"
  shows "ctx_ok r \<and> ts_now (snd r) = ts_now s"
proof -
  from assms(2) have nc: "\<not> c_consumed c" by (auto simp: ctx_Repeat_def split: if_splits)
  with assms(1) have out: "c_task c \<notin> set (ts_holder s)" and fr: "c_task c < ts_fresh s" and ok: "ts_ok s"
    by (simp_all add: ctx_ok_def)
  let ?s = "set_task (c_task c) (\<lambda>t. t\<lparr>t_duration := d, t_end := t_end t + d, t_repeated := t_repeated t + 1\<rparr>) s"
  have "tq_view (ts_heap ?s) (ts_holder s) = tq_view (ts_heap s) (ts_holder s)"
    using out by (intro view_cong) (auto simp: set_task_def)
  with ok have ok': "ts_ok ?s" by (simp add: ts_ok_def set_task_def)
  have "ts_ok (InsertTask (c_task c) ?s)"
    using InsertTask_ok [OF ok'] out fr by (simp add: set_task_def)
  with ok' fr nc assms(2) show ?thesis
    by (auto simp: ctx_Repeat_def ctx_ok_def ctx_Dispatch_def InsertTask_def tq_Push_def set_task_def Let_def)
qed

lemma run_ccmd_ok:
  assumes "ctx_ok r" and "run_ccmd x r = Inr r'"
  shows "ctx_ok r' \<and> ts_now (snd r') = ts_now (snd r)"
proof -
  obtain c s where r: "r = (c, s)" by (cases r)
  have grow: "ctx_ok (c, ctx_Dispatch f s) \<and> ts_now (ctx_Dispatch f s) = ts_now s"
    if "ts_ok (f s) \<and> grows_fresh s (f s)" for f
    using that assms(1) ctx_ok_grows [of c s "f s"] unfolding r
    by (auto simp: ctx_Dispatch_def grows_fresh_def)
  have ok: "ts_ok s" using assms(1) by (simp add: r ctx_ok_def)
  have sched: "ctx_ok (c, ctx_Dispatch (ScheduleAt_group e d g f) s)
      \<and> ts_now (ctx_Dispatch (ScheduleAt_group e d g f) s) = ts_now s" for e d g f
    by (rule grow) (simp add: ScheduleAt_group_ok [OF ok] ScheduleAt_group_grows)
  note grp = set_group_ok [OF ok]
  show ?thesis
  proof (cases x)
    case (Repeat d)
    then show ?thesis using ctx_Repeat_ok assms by (fastforce simp: r)
  next
    case Repeat_same
    then show ?thesis using ctx_Repeat_ok assms by (fastforce simp: r ctx_Repeat_same_def)
  next
    case (Owner y)
    then show ?thesis using grow [of "run_scmd y"] run_scmd_ok [OF ok] assms(2) by (auto simp: r)
  next
    case (CSchedule d f)
    then show ?thesis using sched assms(2)
      by (auto simp: r ctx_Schedule_def ScheduleAt_def [abs_def])
  next
    case (CSchedule_in d g f)
    then show ?thesis using sched assms(2) by (auto simp: r ctx_Schedule_group_def)
  qed (use assms grp in \<open>auto simp: r ctx_ok_def ctx_SetGroup_def ctx_ClearGroup_def set_task_def\<close>)
qed

lemma run_ccmds_ok:
  assumes "ctx_ok r" and "iter_res run_ccmd xs r = Inr r'"
  shows "ctx_ok r' \<and> ts_now (snd r') = ts_now (snd r)"
  using assms
proof (induction xs arbitrary: r)
  case (Cons x xs)
  then show ?case using run_ccmd_ok by (fastforce simp: bind_res_eq_Inr)
qed simp


lemma ctx_Invoke_ok:
  assumes "ts_ok s" and "ts_holder s = i # rest" and "ctx_Invoke W i (s\<lparr>ts_holder := rest\<rparr>) = Inr s'"
  shows "ts_ok s' \<and> ts_now s' = ts_now s"
proof -
  let ?s = "s\<lparr>ts_holder := rest\<rparr>" and ?c = "\<lparr>c_task = i, c_consumed = False\<rparr>"
  have "ctx_ok (?c, ?s)"
    using assms(1,2) by (auto simp: ctx_ok_def ts_ok_def tq_view_def mm_sorted_Cons)
  moreover obtain r where "iter_res run_ccmd (handler W (t_task (ts_heap ?s i)) ?c ?s) (?c, ?s) = Inr r"
    and "s' = snd r"
    using assms(3) by (auto simp: ctx_Invoke_def bind_res_eq_Inr Let_def)
  ultimately show ?thesis
    using run_ccmds_ok [of "(?c, ?s)" _ r] by (simp add: ctx_ok_def)
qed



section \<open>Repeating tasks\<close>

text \<open>How often a task that moves on by at least \<open>d\<close> can still be due at time \<open>now\<close>.\<close>

definition due_turns :: "int \<Rightarrow> int \<Rightarrow> 'h task \<Rightarrow> nat" where
  "due_turns d now t = (if t_end t \<le> now then nat ((now - t_end t) div d + 1) else 0)"

definition queue_turns :: "int \<Rightarrow> ('h, 'a, 'p) scheduler \<Rightarrow> nat" where
  "queue_turns d s = (\<Sum>i \<leftarrow> ts_holder s. due_turns d (ts_now s) (ts_heap s i))"

definition only_repeats :: "int \<Rightarrow> ('h, 'a, 'p) programs \<Rightarrow> bool" where
  "only_repeats d W \<longleftrightarrow>
     (\<forall>f c s. handler W f c s = [] \<or> (\<exists>e. d \<le> e \<and> handler W f c s = [Repeat e]))"

lemma due_turns_later:
  assumes "0 < d" and "d \<le> e" and "t_end t \<le> now" and "t_end t' = t_end t + e"
  shows "due_turns d now t' < due_turns d now t"
proof (cases "t_end t' \<le> now")
  case True
  have "(now - t_end t - e) div d \<le> (now - t_end t - d) div d"
    using assms(1,2) by (intro zdiv_mono1) auto
  also have "\<dots> = (now - t_end t) div d - 1"
    using assms(1) div_mult_self1 [of d "now - t_end t" "- 1"] by simp
  finally have "(now - t_end t') div d < (now - t_end t) div d"
    using assms(4) by (simp add: algebra_simps)
  moreover have "0 \<le> (now - t_end t') div d"
    using True assms(1) by (simp add: pos_imp_zdiv_nonneg_iff)
  ultimately show ?thesis using True assms(3) by (simp add: due_turns_def)
next
  case False
  have "0 \<le> (now - t_end t) div d" using assms(1,3) by (simp add: pos_imp_zdiv_nonneg_iff)
  with False assms(3) show ?thesis by (simp add: due_turns_def)
qed

lemma sum_list_tq_insert: "(\<Sum>j \<leftarrow> tq_insert h i q. f j) = f i + (\<Sum>j \<leftarrow> q. f j :: nat)"
  by (induction q) auto

lemma task_loop_repeats:
  assumes d: "0 < d" and W: "only_repeats d W"
  shows "\<lbrakk>ts_ok s; self_reference s; ts_predicate s = None; queue_turns d s < n\<rbrakk> \<Longrightarrow>
     \<exists>s'. task_loop n W s = Some (Inr (True, s'))"
proof (induction n arbitrary: s)
  case (Suc n)
  show ?case
  proof (cases "ts_holder s")
    case Nil
    then show ?thesis by simp
  next
    case (Cons i rest)
    let ?s = "s\<lparr>ts_holder := rest\<rparr>" and ?c = "\<lparr>c_task = i, c_consumed = False\<rparr>"
    show ?thesis
    proof (cases "ts_now s < t_end (ts_heap s i)")
      case True
      with Cons show ?thesis by simp
    next
      case False
      have out: "i \<notin> set rest" using Suc.prems(1) Cons by (simp add: ts_ok_def)
      have step: "\<exists>s1. ctx_Invoke W i ?s = Inr s1 \<and> self_reference s1 \<and> ts_predicate s1 = None
          \<and> queue_turns d s1 < queue_turns d s"
      proof (cases "handler W (t_task (ts_heap s i)) ?c ?s")
        case Nil
        have "0 \<le> (ts_now s - t_end (ts_heap s i)) div d"
          using False d by (simp add: pos_imp_zdiv_nonneg_iff)
        with False have "0 < due_turns d (ts_now s) (ts_heap s i)" by (simp add: due_turns_def)
        with Nil False Suc.prems(2,3) Cons show ?thesis
          by (simp add: ctx_Invoke_def queue_turns_def)
      next
        case (Cons x xs)
        with W obtain e where e: "d \<le> e" "handler W (t_task (ts_heap s i)) ?c ?s = [Repeat e]"
          unfolding only_repeats_def by (metis list.discI)
        let ?t = "(ts_heap s i)\<lparr>t_duration := e, t_end := t_end (ts_heap s i) + e,
                                  t_repeated := t_repeated (ts_heap s i) + 1\<rparr>"
        let ?h = "(ts_heap s)(i := ?t)"
        have inv: "ctx_Invoke W i ?s = Inr (s\<lparr>ts_heap := ?h, ts_holder := tq_insert ?h i rest\<rparr>)"
          using e(2) Suc.prems(2)
          by (simp add: ctx_Invoke_def ctx_Repeat_def set_task_def ctx_Dispatch_def InsertTask_def
              tq_Push_def)
        have "map (\<lambda>j. due_turns d (ts_now s) (?h j)) rest = map (\<lambda>j. due_turns d (ts_now s) (ts_heap s j)) rest"
          using out by (intro map_cong) auto
        moreover have "due_turns d (ts_now s) ?t < due_turns d (ts_now s) (ts_heap s i)"
          using d e(1) False by (intro due_turns_later [of d e]) auto
        ultimately have "queue_turns d (s\<lparr>ts_heap := ?h, ts_holder := tq_insert ?h i rest\<rparr>) < queue_turns d s"
          using \<open>ts_holder s = i # rest\<close>
          by (simp add: queue_turns_def sum_list_tq_insert del: fun_upd_apply map_eq_conv)
            (simp only: fun_upd_same add_less_cancel_right)
        with inv Suc.prems(2,3) show ?thesis by simp
      qed
      then obtain s1 where s1: "ctx_Invoke W i ?s = Inr s1" "self_reference s1" "ts_predicate s1 = None"
        "queue_turns d s1 < queue_turns d s" by blast
      have "ts_ok s1" using ctx_Invoke_ok [OF Suc.prems(1) Cons s1(1)] by simp
      from Suc.IH [OF this s1(2,3)] s1 Suc.prems(4) Cons False show ?thesis
        by (simp add: predicate_holds_def)
    qed
  qed
qed simp

section \<open>Properties\<close>


text \<open>A scheduler with one task, due at time 3, that repeats itself every 5.\<close>

definition sample_scheduler :: "(unit, unit, unit) scheduler" where
  "sample_scheduler = ts_Schedule 3 ()
     (TaskScheduler_new 0 None (\<lambda>_. \<lparr>t_end = 0, t_duration = 0, t_group = 0, t_repeated = 0, t_task = ()\<rparr>))"

definition sample_programs :: "(unit, unit, unit) programs" where
  "sample_programs = \<lparr>handler = (\<lambda>f c s. [Repeat 5]), callable = (\<lambda>a s. [CancelAll]), validator = (\<lambda>p s. True)\<rparr>"

lemma sample_ok: "ts_ok sample_scheduler"
  unfolding sample_scheduler_def ts_Schedule_def ScheduleAt_def
  by (rule ScheduleAt_group_ok) (simp add: ts_ok_def TaskScheduler_new_def tq_view_def)

lemma sample_fields:
  "ts_predicate sample_scheduler = None" "ts_async sample_scheduler = []" "ts_now sample_scheduler = 0"
  "ts_holder sample_scheduler = [0]" "t_end (ts_heap sample_scheduler 0) = 3"
  "self_reference sample_scheduler"
  by (simp_all add: sample_scheduler_def ts_Schedule_def ScheduleAt_def ScheduleAt_group_def
      new_task_def InsertTask_def tq_Push_def TaskScheduler_new_def)


text \<open>
  C24. Tasks that only repeat themselves, each time by at least some \<open>d > 0\<close>, cannot keep
  \<^verbatim>\<open>Update\<close> from returning: with more fuel than the number of times they can still come due it
  ends normally and calls the success callback.
\<close>

theorem update_ends_for_repeating_tasks:
  assumes "0 < d" and "only_repeats d W" and "ts_ok s" and "self_reference s"
    and "ts_predicate s = None" and "ts_async s = []"
    and "queue_turns d (s\<lparr>ts_now := ts_now s + difftime\<rparr>) < fuel"
  shows "\<exists>s'. ts_Update fuel W difftime s = Some (Inr (True, s'))"
proof -
  let ?s = "s\<lparr>ts_now := ts_now s + difftime\<rparr>"
  have "ts_ok ?s" using assms(3) by (simp add: ts_ok_def)
  from task_loop_repeats [OF assms(1,2) this] assms(4,5,7)
  obtain s' where "task_loop fuel W ?s = Some (Inr (True, s'))" by auto
  moreover have "async_loop fuel W ?s = Some (Inr (True, ?s))"
    using assms(6,7) by (cases fuel) simp_all
  ultimately show ?thesis
    using assms(5) by (simp add: ts_Update_def Dispatch_def predicate_holds_def)
qed

theorem update_ends_for_repeating_tasks_witness:
  "\<exists>s'. ts_Update 3 sample_programs 10 sample_scheduler = Some (Inr (True, s'))"
proof (rule update_ends_for_repeating_tasks [of 5])
  show "only_repeats 5 sample_programs"
    unfolding only_repeats_def sample_programs_def by auto
  show "queue_turns 5 (sample_scheduler\<lparr>ts_now := ts_now sample_scheduler + 10\<rparr>) < 3"
    by (simp add: queue_turns_def due_turns_def sample_fields)
qed (simp_all add: sample_ok sample_fields)

text \<open>
  An asynchronous callable that ends with \<^verbatim>\<open>CancelAll\<close> on its scheduler (which the comment on
  \<^verbatim>\<open>Async\<close> calls safe) makes \<^verbatim>\<open>Dispatch\<close> call \<^verbatim>\<open>pop\<close> on an empty queue: \<^verbatim>\<open>CancelAll\<close> replaces the
  queue whose front is being run.
\<close>

theorem cancel_all_in_async_pops_empty_queue:
  assumes "predicate_holds W s" and "ts_async s = a # rest"
    and "callable W a s = xs @ [CancelAll]" and "self_reference (fold run_scmd xs s)"
  shows "Dispatch (Suc n) W s = Some (Inl PopEmptyQueue)"
  using assms by (simp add: Dispatch_def ts_CancelAll_def tq_Clear_def)

theorem cancel_all_in_async_pops_empty_queue_witness:
  "Dispatch 1 sample_programs (ts_Async () sample_scheduler) = Some (Inl PopEmptyQueue)"
  using cancel_all_in_async_pops_empty_queue
    [of sample_programs "ts_Async () sample_scheduler" "()" "[]" "[]" 0]
  by (simp add: sample_programs_def ts_Async_def sample_fields predicate_holds_def)

lemma consumed_stays:
  "c_consumed (fst r) \<Longrightarrow> run_ccmd x r = Inr r' \<Longrightarrow> c_consumed (fst r')"
  by (cases x; cases r) (auto simp: ctx_Repeat_def ctx_Repeat_same_def Let_def split: if_splits)

lemma consumed_stays_run:
  "c_consumed (fst r) \<Longrightarrow> iter_res run_ccmd xs r = Inr r' \<Longrightarrow> c_consumed (fst r')"
  by (rule iter_res_invariant [where P = "\<lambda>r. c_consumed (fst r)"]) (auto intro: consumed_stays)

text \<open>
  A context repeats its task at most once: after a \<^verbatim>\<open>Repeat\<close>, and any calls that are not refused,
  a second \<^verbatim>\<open>Repeat\<close> is stopped by the assertion.
\<close>

theorem context_repeats_once:
  assumes "iter_res run_ccmd (Repeat d # xs) (c, s) = Inr r"
  shows "run_ccmd (Repeat e) r = Inl ContextConsumed \<and> run_ccmd Repeat_same r = Inl ContextConsumed"
proof -
  from assms obtain r1 where r1: "ctx_Repeat d c s = Inr r1" "iter_res run_ccmd xs r1 = Inr r"
    by (auto simp: bind_res_eq_Inr)
  from r1(1) have "c_consumed (fst r1)" by (auto simp: ctx_Repeat_def Let_def split: if_splits)
  from consumed_stays_run [OF this r1(2)] show ?thesis
    by (cases r) (simp add: ctx_Repeat_def ctx_Repeat_same_def)
qed

theorem context_repeats_once_witness:
  "iter_res run_ccmd [Repeat 5, Repeat 7] (\<lparr>c_task = 0, c_consumed = False\<rparr>, sample_scheduler)
     = Inl ContextConsumed"
proof -
  let ?c = "\<lparr>c_task = 0, c_consumed = False\<rparr>"
  obtain r where "iter_res run_ccmd [Repeat 5] (?c, sample_scheduler) = Inr r"
    by (simp add: ctx_Repeat_def Let_def)
  moreover from this have "run_ccmd (Repeat 7) r = Inl ContextConsumed"
    using context_repeats_once [of 5 "[]"] by blast
  ultimately show ?thesis by (cases r) (auto simp: bind_res_def split: sum.splits)
qed

end
