(* ===== verification/Timers.thy ===== *)
theory Timers
  imports Prelude
begin

text \<open>
  The tick arithmetic and the timers of \<^verbatim>\<open>shared/Utilities/Timer.h\<close>.  \<^verbatim>\<open>time_t\<close> is an integer
  (64 bits of milliseconds or seconds do not overflow in the life of a server); the 32-bit timers
  are words, read as signed where the code compares them, so that mixed \<^verbatim>\<open>int32\<close>/\<^verbatim>\<open>uint32\<close>
  arithmetic wraps as it does in the code.  Two of the timers keep exact time over any number of
  updates; the argument is made once, in the locale \<open>drift_free\<close>.
\<close>

section \<open>Millisecond ticks\<close>

definition getMSTimeDiff :: "uint32 \<Rightarrow> uint32 \<Rightarrow> uint32" where
  "getMSTimeDiff oldMSTime newMSTime =
     (if newMSTime < oldMSTime then (0xFFFFFFFF - oldMSTime) + newMSTime else newMSTime - oldMSTime)"

section \<open>Timers\<close>

record interval_timer =
  it_interval :: int
  it_current :: int

definition IntervalTimer_new :: interval_timer where
  "IntervalTimer_new = \<lparr>it_interval = 0, it_current = 0\<rparr>"

definition it_Update :: "int \<Rightarrow> interval_timer \<Rightarrow> interval_timer" where
  "it_Update diff t =
     (let c = it_current t + diff in t\<lparr>it_current := (if c < 0 then 0 else c)\<rparr>)"

definition it_Passed :: "interval_timer \<Rightarrow> bool" where
  "it_Passed t \<longleftrightarrow> it_interval t \<le> it_current t"

text \<open>C++ \<^verbatim>\<open>%\<close> truncates towards zero, and a zero divisor traps (\<open>None\<close>).\<close>

definition c_mod :: "int \<Rightarrow> int \<Rightarrow> int option" where
  "c_mod a b = (if b = 0 then None else Some (sgn a * (\<bar>a\<bar> mod \<bar>b\<bar>)))"

definition it_Reset :: "interval_timer \<Rightarrow> interval_timer option" where
  "it_Reset t =
     (if it_interval t \<le> it_current t
      then map_option (\<lambda>c. t\<lparr>it_current := c\<rparr>) (c_mod (it_current t) (it_interval t))
      else Some t)"

definition it_SetCurrent :: "int \<Rightarrow> interval_timer \<Rightarrow> interval_timer" where
  "it_SetCurrent c t = t\<lparr>it_current := c\<rparr>"

definition it_SetInterval :: "int \<Rightarrow> interval_timer \<Rightarrow> interval_timer" where
  "it_SetInterval i t = t\<lparr>it_interval := i\<rparr>"

record time_tracker =
  i_expiryTime :: int

definition tt_Update :: "int \<Rightarrow> time_tracker \<Rightarrow> time_tracker" where
  "tt_Update diff t = t\<lparr>i_expiryTime := i_expiryTime t - diff\<rparr>"

definition tt_Passed :: "time_tracker \<Rightarrow> bool" where
  "tt_Passed t \<longleftrightarrow> i_expiryTime t \<le> 0"

definition tt_Reset :: "int \<Rightarrow> time_tracker \<Rightarrow> time_tracker" where
  "tt_Reset interval t = t\<lparr>i_expiryTime := interval\<rparr>"

record time_tracker_small =
  ts_expiryTime :: int32

definition tts_Update :: "int32 \<Rightarrow> time_tracker_small \<Rightarrow> time_tracker_small" where
  "tts_Update diff t = t\<lparr>ts_expiryTime := ts_expiryTime t - diff\<rparr>"

definition tts_Passed :: "time_tracker_small \<Rightarrow> bool" where
  "tts_Passed t \<longleftrightarrow> sint (ts_expiryTime t) \<le> 0"

definition tts_Reset :: "uint32 \<Rightarrow> time_tracker_small \<Rightarrow> time_tracker_small" where
  "tts_Reset interval t = t\<lparr>ts_expiryTime := interval\<rparr>"

record periodic_timer =
  i_period :: int32
  i_expireTime :: int32

definition pt_Update :: "uint32 \<Rightarrow> periodic_timer \<Rightarrow> bool \<times> periodic_timer" where
  "pt_Update diff t =
     (let e = i_expireTime t - diff
      in if 0 < sint e then (False, t\<lparr>i_expireTime := e\<rparr>)
         else (True, t\<lparr>i_expireTime := e + (if sint diff < sint (i_period t) then i_period t else diff)\<rparr>))"

definition pt_SetPeriodic :: "int32 \<Rightarrow> int32 \<Rightarrow> periodic_timer \<Rightarrow> periodic_timer" where
  "pt_SetPeriodic period start t = t\<lparr>i_expireTime := start, i_period := period\<rparr>"

definition pt_TUpdate :: "int32 \<Rightarrow> periodic_timer \<Rightarrow> periodic_timer" where
  "pt_TUpdate diff t = t\<lparr>i_expireTime := i_expireTime t - diff\<rparr>"

definition pt_TPassed :: "periodic_timer \<Rightarrow> bool" where
  "pt_TPassed t \<longleftrightarrow> sint (i_expireTime t) \<le> 0"

definition pt_TReset :: "int32 \<Rightarrow> int32 \<Rightarrow> periodic_timer \<Rightarrow> periodic_timer" where
  "pt_TReset diff period t =
     t\<lparr>i_expireTime := i_expireTime t + (if sint diff < sint period then period else diff)\<rparr>"

section \<open>Timers without drift\<close>

text \<open>
  A timer that is asked after every update: \<open>tick d\<close> lets the time \<open>d\<close> pass and says whether the
  timer fired; \<open>elapsed\<close> is the time since it last fired.
\<close>

locale drift_free =
  fixes tick :: "nat \<Rightarrow> 's \<Rightarrow> bool \<times> 's"
    and elapsed :: "'s \<Rightarrow> int"
    and period :: "'s \<Rightarrow> int"
    and ok :: "'s \<Rightarrow> bool"
  assumes elapsed_range: "ok s \<Longrightarrow> 0 \<le> elapsed s \<and> elapsed s < period s"
    and tick_ok: "ok s \<Longrightarrow> int d \<le> period s \<Longrightarrow> ok (snd (tick d s))"
    and tick_period: "ok s \<Longrightarrow> int d \<le> period s \<Longrightarrow> period (snd (tick d s)) = period s"
    and tick_elapsed: "ok s \<Longrightarrow> int d \<le> period s \<Longrightarrow>
      elapsed (snd (tick d s)) = elapsed s + int d - (if fst (tick d s) then period s else 0)"
begin

fun fired :: "nat list \<Rightarrow> 's \<Rightarrow> nat \<times> 's" where
  "fired [] s = (0, s)"
| "fired (d # ds) s =
     (let (f, s1) = tick d s; (n, s2) = fired ds s1 in ((if f then Suc n else n), s2))"

lemma fired_elapsed:
  assumes "ok s" and "\<forall>d \<in> set ds. int d \<le> period s"
  shows "ok (snd (fired ds s)) \<and> period (snd (fired ds s)) = period s
    \<and> elapsed (snd (fired ds s)) = elapsed s + int (sum_list ds) - int (fst (fired ds s)) * period s"
  using assms
proof (induction ds arbitrary: s)
  case (Cons d ds)
  let ?s = "snd (tick d s)"
  have d: "int d \<le> period s" using Cons.prems by simp
  note t = tick_ok [OF Cons.prems(1) d] tick_period [OF Cons.prems(1) d] tick_elapsed [OF Cons.prems(1) d]
  show ?case
    using Cons.IH [OF t(1)] Cons.prems(2) t
    by (auto simp: case_prod_unfold Let_def algebra_simps)
qed simp

lemma fired_exactly:
  assumes "ok s" and "\<forall>d \<in> set ds. int d \<le> period s"
  shows "int (fst (fired ds s)) = (elapsed s + int (sum_list ds)) div period s"
proof -
  let ?n = "int (fst (fired ds s))" and ?e = "elapsed (snd (fired ds s))"
  note f = fired_elapsed [OF assms]
  with elapsed_range [of "snd (fired ds s)"] have "0 \<le> ?e" "?e < period s" by simp_all
  moreover have "elapsed s + int (sum_list ds) = ?e + ?n * period s" using f by simp
  ultimately show ?thesis by simp
qed

end

section \<open>The interval timer and the periodic timer keep exact time\<close>

text \<open>How the world loop uses an interval timer: update, and reset when passed.\<close>

definition it_tick :: "nat \<Rightarrow> interval_timer \<Rightarrow> bool \<times> interval_timer" where
  "it_tick d t =
     (let t1 = it_Update (int d) t
      in if it_Passed t1 then (True, the (it_Reset t1)) else (False, t1))"

lemma it_tick_eq:
  assumes "0 \<le> it_current t" and "it_current t < it_interval t" and "int d \<le> it_interval t"
  shows "it_tick d t =
    (if it_interval t \<le> it_current t + int d
     then (True, t\<lparr>it_current := it_current t + int d - it_interval t\<rparr>)
     else (False, t\<lparr>it_current := it_current t + int d\<rparr>))"
proof -
  let ?c = "it_current t + int d"
  have c: "0 \<le> ?c" "0 < it_interval t" using assms by simp_all
  have "c_mod ?c (it_interval t) = Some (?c - it_interval t)" if "it_interval t \<le> ?c"
  proof -
    have "?c mod it_interval t = (?c - it_interval t) mod it_interval t"
      using c(2) that by (rule mod_pos_geq)
    also have "\<dots> = ?c - it_interval t"
      using that assms by (intro mod_pos_pos_trivial) simp_all
    finally have "?c mod it_interval t = ?c - it_interval t" .
    moreover have "0 < ?c" using that c by linarith
    ultimately show ?thesis using c by (simp only: c_mod_def sgn_pos abs_of_pos) simp
  qed
  moreover have "it_Update (int d) t = t\<lparr>it_current := ?c\<rparr>"
    using c(1) by (simp add: it_Update_def Let_def)
  ultimately show ?thesis
    by (simp add: it_tick_def it_Passed_def it_Reset_def Let_def)
qed

interpretation itm: drift_free it_tick it_current it_interval
  "\<lambda>t. 0 \<le> it_current t \<and> it_current t < it_interval t"
  by unfold_locales (auto simp: it_tick_eq)

definition pt_tick :: "nat \<Rightarrow> periodic_timer \<Rightarrow> bool \<times> periodic_timer" where
  "pt_tick d t = pt_Update (of_nat d) t"

definition pt_ok :: "periodic_timer \<Rightarrow> bool" where
  "pt_ok t \<longleftrightarrow> 0 < sint (i_expireTime t) \<and> sint (i_expireTime t) \<le> sint (i_period t)"

lemma sint32_of_int: "- (2 ^ 31) \<le> x \<Longrightarrow> x < 2 ^ 31 \<Longrightarrow> sint (word_of_int x :: 32 word) = x"
  using sint_sbintrunc' [where 'a = 32, of x] by (simp add: signed_take_bit_int_eq_self)

lemma sint32_diff:
  "- (2 ^ 31) \<le> sint a - sint b \<Longrightarrow> sint a - sint b < 2 ^ 31 \<Longrightarrow>
     sint (a - b :: 32 word) = sint a - sint b"
  using sint32_of_int [of "sint a - sint b"] by simp

lemma sint32_add:
  "- (2 ^ 31) \<le> sint a + sint b \<Longrightarrow> sint a + sint b < 2 ^ 31 \<Longrightarrow>
     sint (a + b :: 32 word) = sint a + sint b"
  using sint32_of_int [of "sint a + sint b"] by simp

lemma sint32_range: "- (2 ^ 31) \<le> sint (a :: 32 word)" "sint (a :: 32 word) < 2 ^ 31"
  using sint_ge [of a] sint_lt [of a] by simp_all

lemma pt_tick_eq:
  assumes "pt_ok t" and "int d \<le> sint (i_period t)"
  shows "fst (pt_tick d t) = (sint (i_expireTime t) \<le> int d)"
    and "i_period (snd (pt_tick d t)) = i_period t"
    and "sint (i_expireTime (snd (pt_tick d t))) = sint (i_expireTime t) - int d
      + (if sint (i_expireTime t) \<le> int d then sint (i_period t) else 0)"
proof -
  let ?d = "of_nat d :: uint32" and ?e = "i_expireTime t - of_nat d"
  have d: "sint ?d = int d"
    using sint32_of_int [of "int d"] assms(2) sint32_range [of "i_period t"] by simp
  have e: "sint ?e = sint (i_expireTime t) - int d"
    using sint32_diff [of "i_expireTime t" ?d] assms sint32_range [of "i_period t"] d
    by (simp add: pt_ok_def)
  let ?p = "if sint ?d < sint (i_period t) then i_period t else ?d"
  have p: "sint ?p = sint (i_period t)" using d assms(2) by auto
  have "sint (?e + ?p) = sint ?e + sint ?p" if "sint (i_expireTime t) \<le> int d"
    using that assms sint32_range [of "i_period t"] unfolding p e
    by (subst sint32_add) (auto simp: p e pt_ok_def)
  with p e show "fst (pt_tick d t) = (sint (i_expireTime t) \<le> int d)"
    and "i_period (snd (pt_tick d t)) = i_period t"
    and "sint (i_expireTime (snd (pt_tick d t))) = sint (i_expireTime t) - int d
      + (if sint (i_expireTime t) \<le> int d then sint (i_period t) else 0)"
    by (auto simp: pt_tick_def pt_Update_def Let_def)
qed

interpretation ptm: drift_free pt_tick "\<lambda>t. sint (i_period t) - sint (i_expireTime t)"
  "\<lambda>t. sint (i_period t)" pt_ok
  by unfold_locales (auto simp: pt_tick_eq, auto simp: pt_ok_def pt_tick_eq)

section \<open>Properties\<close>

text \<open>
  \<^verbatim>\<open>getMSTimeDiff\<close> gives the time that really passed while the 32-bit counter does not wrap
  around, and one millisecond too few when it does.
\<close>

theorem ms_time_diff:
  "getMSTimeDiff t (t + d) = (if t \<le> t + d then d else d - 1)"
  by (auto simp: getMSTimeDiff_def not_less)

text \<open>The number of times a periodic timer fires over a sequence of updates, and its state then.\<close>

fun pt_run :: "nat list \<Rightarrow> periodic_timer \<Rightarrow> nat \<times> periodic_timer" where
  "pt_run [] t = (0, t)"
| "pt_run (d # ds) t =
     (let (f, t1) = pt_Update (of_nat d) t; (n, t2) = pt_run ds t1
      in ((if f then Suc n else n), t2))"

lemma pt_run_fired: "pt_run ds t = ptm.fired ds t"
  by (induction ds arbitrary: t) (simp_all add: pt_tick_def)

text \<open>
  A \<^verbatim>\<open>PeriodicTimer\<close> that is updated in steps no longer than its period does not drift: over any
  sequence of updates it fires once for every full period that has passed since the timer last
  fired, wherever the steps fall; the expiry stays between 1 and the period, so the 32-bit counter
  does not overflow.
\<close>

theorem periodic_timer_exact:
  assumes "0 < sint (i_expireTime t)" and "sint (i_expireTime t) \<le> sint (i_period t)"
    and "\<forall>d \<in> set ds. int d \<le> sint (i_period t)"
  shows "int (fst (pt_run ds t))
      = (sint (i_period t) - sint (i_expireTime t) + int (sum_list ds)) div sint (i_period t)
    \<and> 0 < sint (i_expireTime (snd (pt_run ds t)))
    \<and> sint (i_expireTime (snd (pt_run ds t))) \<le> sint (i_period t)"
proof -
  have ok: "pt_ok t" using assms by (simp add: pt_ok_def)
  show ?thesis
    using ptm.fired_exactly [OF ok assms(3)] ptm.fired_elapsed [OF ok assms(3)]
    by (simp add: pt_run_fired pt_ok_def)
qed

theorem periodic_timer_exact_witness:
  "int (fst (pt_run [7, 3, 9, 10] \<lparr>i_period = 10, i_expireTime = 10\<rparr>)) = 2"
  using periodic_timer_exact [of "\<lparr>i_period = 10, i_expireTime = 10\<rparr>" "[7, 3, 9, 10]"] by simp

end
