(* ===== verification/Update_Mask.thy ===== *)
theory Update_Mask
  imports ByteBuf_Bytes
begin

text \<open>
  The mask of changed fields an object update carries, \<^verbatim>\<open>UpdateMask\<close> of
  \<^verbatim>\<open>game/Entities/Object/Updates/UpdateMask.h\<close>.  The flags are a heap array: \<open>None\<close> is the null
  pointer of a new mask, an index outside the array is \<open>MaskOutOfBounds\<close>.  Writing the mask to a
  packet uses the packet buffer of the theory ByteBuf.
\<close>

unbundle bit_operations_syntax

datatype um_error = MaskOutOfBounds | MaskAssert | MaskPacket bb_error

record update_mask =
  um_fieldCount :: uint32
  um_blockCount :: uint32
  um_bits :: "uint8 list option"

definition UpdateMask_new :: update_mask where
  "UpdateMask_new = \<lparr>um_fieldCount = 0, um_blockCount = 0, um_bits = None\<rparr>"

definition um_SetCount :: "uint32 \<Rightarrow> update_mask \<Rightarrow> update_mask" where
  "um_SetCount valuesCount m =
     (let blocks = (valuesCount + 32 - 1) div 32
      in m\<lparr>um_fieldCount := valuesCount, um_blockCount := blocks,
           um_bits := Some (replicate (unat (blocks * 32)) 0)\<rparr>)"

definition um_write :: "uint32 \<Rightarrow> uint8 \<Rightarrow> update_mask \<Rightarrow> um_error + update_mask" where
  "um_write index v m =
     (case um_bits m of
        None \<Rightarrow> Inl MaskOutOfBounds
      | Some bs \<Rightarrow> if unat index < length bs then Inr (m\<lparr>um_bits := Some (bs[unat index := v])\<rparr>)
                   else Inl MaskOutOfBounds)"

definition um_SetBit :: "uint32 \<Rightarrow> update_mask \<Rightarrow> um_error + update_mask" where
  "um_SetBit index m = um_write index 1 m"

definition um_UnsetBit :: "uint32 \<Rightarrow> update_mask \<Rightarrow> um_error + update_mask" where
  "um_UnsetBit index m = um_write index 0 m"

definition um_read :: "nat \<Rightarrow> update_mask \<Rightarrow> um_error + uint8" where
  "um_read i m =
     (case um_bits m of
        None \<Rightarrow> Inl MaskOutOfBounds
      | Some bs \<Rightarrow> if i < length bs then Inr (bs ! i) else Inl MaskOutOfBounds)"

definition um_GetBit :: "uint32 \<Rightarrow> update_mask \<Rightarrow> um_error + bool" where
  "um_GetBit index m = bind_res (um_read (unat index) m) (\<lambda>b. Inr (b \<noteq> 0))"

definition um_Clear :: "update_mask \<Rightarrow> update_mask" where
  "um_Clear m =
     (case um_bits m of
        None \<Rightarrow> m
      | Some bs \<Rightarrow> m\<lparr>um_bits := Some (replicate (unat (um_blockCount m * 32)) 0)\<rparr>)"

text \<open>\<^verbatim>\<open>operator=\<close> onto another object, and the loops of \<^verbatim>\<open>operator&=\<close> and \<^verbatim>\<open>operator|=\<close>.\<close>

definition um_assign :: "update_mask \<Rightarrow> update_mask \<Rightarrow> um_error + update_mask" where
  "um_assign right m =
     (let m1 = um_SetCount (um_fieldCount right) m; n = unat (um_blockCount m1 * 32)
      in case um_bits right of
           None \<Rightarrow> if n = 0 then Inr m1 else Inl MaskOutOfBounds
         | Some bs \<Rightarrow> if n \<le> length bs then Inr (m1\<lparr>um_bits := Some (take n bs)\<rparr>)
                      else Inl MaskOutOfBounds)"

fun um_combine_loop ::
  "(uint8 \<Rightarrow> uint8 \<Rightarrow> uint8) \<Rightarrow> nat \<Rightarrow> nat \<Rightarrow> update_mask \<Rightarrow> update_mask \<Rightarrow> um_error + update_mask" where
  "um_combine_loop f 0 i right m = Inr m"
| "um_combine_loop f (Suc n) i right m =
     bind_res (um_read i m) (\<lambda>a. bind_res (um_read i right) (\<lambda>b.
       bind_res (um_write (of_nat i) (f a b) m) (um_combine_loop f n (Suc i) right)))"

definition um_combine ::
  "(uint8 \<Rightarrow> uint8 \<Rightarrow> uint8) \<Rightarrow> update_mask \<Rightarrow> update_mask \<Rightarrow> um_error + update_mask" where
  "um_combine f right m =
     (if um_fieldCount right \<le> um_fieldCount m
      then um_combine_loop f (unat (um_fieldCount m)) 0 right m
      else Inl MaskAssert)"

definition um_and :: "update_mask \<Rightarrow> update_mask \<Rightarrow> um_error + update_mask" where
  "um_and right m = um_combine (\<lambda>a b. a AND b) right m"

definition um_or :: "update_mask \<Rightarrow> update_mask \<Rightarrow> um_error + update_mask" where
  "um_or right m = um_combine (\<lambda>a b. a OR b) right m"

text \<open>One 32-bit word of the mask, and the loop over the blocks.\<close>

fun um_part_loop :: "nat \<Rightarrow> nat \<Rightarrow> nat \<Rightarrow> uint32 \<Rightarrow> update_mask \<Rightarrow> um_error + uint32" where
  "um_part_loop 0 base j maskPart m = Inr maskPart"
| "um_part_loop (Suc n) base j maskPart m =
     bind_res (um_read (base + j) m) (\<lambda>b.
       um_part_loop n base (Suc j) (if b \<noteq> 0 then maskPart OR push_bit j 1 else maskPart) m)"

fun um_append_loop :: "nat \<Rightarrow> nat \<Rightarrow> update_mask \<Rightarrow> bytebuffer \<Rightarrow> um_error + bytebuffer" where
  "um_append_loop 0 i m data = Inr data"
| "um_append_loop (Suc n) i m data =
     bind_res (um_part_loop 32 (32 * i) 0 0 m) (\<lambda>maskPart.
       case append_T False maskPart data of
         Inl e \<Rightarrow> Inl (MaskPacket e)
       | Inr data1 \<Rightarrow> um_append_loop n (Suc i) m data1)"

definition um_AppendToPacket :: "update_mask \<Rightarrow> bytebuffer \<Rightarrow> um_error + bytebuffer" where
  "um_AppendToPacket m data = um_append_loop (unat (um_blockCount m)) 0 m data"

section \<open>Well-formed masks\<close>

text \<open>A mask whose size was set: one flag for each bit of its blocks, and room for each field.\<close>

definition um_ok :: "update_mask \<Rightarrow> bool" where
  "um_ok m \<longleftrightarrow> (\<exists>bs. um_bits m = Some bs \<and> length bs = 32 * unat (um_blockCount m)
     \<and> unat (um_fieldCount m) \<le> length bs \<and> length bs < 2 ^ 32)"

lemma um_read_ok: "um_ok m \<Longrightarrow> i < 32 * unat (um_blockCount m) \<Longrightarrow> um_read i m = Inr (the (um_bits m) ! i)"
  by (auto simp: um_ok_def um_read_def)

lemma um_SetCount_ok:
  assumes "unat n \<le> 2 ^ 31"
  shows "um_ok (um_SetCount n m)"
proof -
  have "unat (n + 31) = unat n + 31"
    using assms by (subst unat_add_lem [THEN iffD1]) auto
  then have b: "unat ((n + 31) div 32) = (unat n + 31) div 32"
    by (simp add: unat_div)
  then have "unat ((n + 31) div 32 * 32) = (unat n + 31) div 32 * 32"
    using assms by (subst unat_mult_lem [THEN iffD1]) auto
  moreover have "unat n \<le> (unat n + 31) div 32 * 32" by presburger
  ultimately show ?thesis
    using b assms by (simp add: um_ok_def um_SetCount_def Let_def add_diff_eq [symmetric])
qed

lemma um_write_ok: "um_ok m \<Longrightarrow> um_write i v m = Inr m' \<Longrightarrow> um_ok m'"
  by (auto simp: um_ok_def um_write_def split: if_splits)

lemma um_Clear_ok:
  assumes "um_ok m"
  shows "um_ok (um_Clear m) \<and> (\<forall>b \<in> set (the (um_bits (um_Clear m))). b = 0)"
proof -
  have "32 * unat (um_blockCount m) < 2 ^ 32" using assms by (auto simp: um_ok_def)
  then have "unat (um_blockCount m * 32) = 32 * unat (um_blockCount m)"
    by (subst unat_mult_lem [THEN iffD1]) auto
  with assms show ?thesis by (auto simp: um_ok_def um_Clear_def)
qed

section \<open>The mask in a packet\<close>

lemma um_part_loop_bits:
  assumes "um_ok m" and "base + 32 \<le> 32 * unat (um_blockCount m)" and "j + n \<le> 32"
  shows "\<exists>w'. um_part_loop n base j w m = Inr w' \<and>
    (\<forall>k < 32. bit w' k \<longleftrightarrow> bit w k \<or> (j \<le> k \<and> k < j + n \<and> the (um_bits m) ! (base + k) \<noteq> 0))"
  using assms(3)
proof (induction n arbitrary: j w)
  case 0
  then show ?case by auto
next
  case (Suc n)
  let ?b = "the (um_bits m) ! (base + j)"
  let ?w = "if ?b \<noteq> 0 then w OR push_bit j 1 else w"
  have "um_read (base + j) m = Inr ?b"
    using um_read_ok [OF assms(1), of "base + j"] assms(2) Suc.prems by simp
  moreover obtain w' where w': "um_part_loop n base (Suc j) ?w m = Inr w'"
    "\<forall>k < 32. bit w' k \<longleftrightarrow> bit ?w k \<or> (Suc j \<le> k \<and> k < Suc j + n \<and> the (um_bits m) ! (base + k) \<noteq> 0)"
    using Suc.IH [of "Suc j" ?w] Suc.prems by auto
  moreover have "bit ?w k \<longleftrightarrow> bit w k \<or> (k = j \<and> ?b \<noteq> 0)" if "k < 32" for k
    using that by (auto simp: bit_simps)
  ultimately have "um_part_loop (Suc n) base j w m = Inr w'" by simp
  moreover have "\<forall>k < 32. bit w' k \<longleftrightarrow> bit w k \<or> (j \<le> k \<and> k < j + Suc n \<and> the (um_bits m) ! (base + k) \<noteq> 0)"
  proof (intro allI impI)
    fix k :: nat assume k: "k < 32"
    have "j \<le> k \<and> k < j + Suc n \<longleftrightarrow> k = j \<or> (Suc j \<le> k \<and> k < Suc j + n)" by auto
    with w'(2) k \<open>\<And>k. k < 32 \<Longrightarrow> bit ?w k \<longleftrightarrow> _\<close> show
      "bit w' k \<longleftrightarrow> bit w k \<or> (j \<le> k \<and> k < j + Suc n \<and> the (um_bits m) ! (base + k) \<noteq> 0)"
      by auto
  qed
  ultimately show ?case by blast
qed

text \<open>Bit \<open>k\<close> of a sequence of bytes, lowest bit first.\<close>

definition lsb_bit :: "uint8 list \<Rightarrow> nat \<Rightarrow> bool" where
  "lsb_bit bs k = bit (bs ! (k div 8)) (k mod 8)"

lemma lsb_bit_word:
  fixes w :: uint32
  shows "lsb_bit (word_bytes w @ bs) k \<longleftrightarrow> (if k < 32 then bit w k else lsb_bit bs (k - 32))"
proof (cases "k < 32")
  case True
  have e: "8 * (k div 8) + k mod 8 = k" by simp
  have l: "k div 8 < LENGTH(32) div 8" using True by simp
  have "(word_bytes w @ bs) ! (k div 8) = word_bytes w ! (k div 8)"
    by (rule nth_append_left) (use l in \<open>simp only: length_word_bytes\<close>)
  moreover have "k mod 8 < 8" by simp
  then have "bit (word_bytes w ! (k div 8)) (k mod 8) = bit w k"
    using bit_word_bytes [OF l, of w "k mod 8"] e by (simp only: simp_thms)
  ultimately show ?thesis using True by (simp add: lsb_bit_def)
next
  case False
  then have k: "k = (k - 32) + 4 * 8" by linarith
  define j where "j = k - 32"
  have "k div 8 = 4 + j div 8" and m: "k mod 8 = j mod 8" 
    using k div_mult_self1 [of 8 j 4] mod_mult_self1 [of j 4 8] by (simp_all only: j_def [symmetric])
  then have "(word_bytes w @ bs) ! (k div 8) = bs ! (j div 8)"
    by (simp add: nth_append)
  with False m show ?thesis by (simp add: lsb_bit_def j_def)
qed

lemma um_append_loop_bits:
  assumes "um_ok m" and "writer data" and "i + n \<le> unat (um_blockCount m)"
    and "bb_size data + 4 * n \<le> BB_LIMIT"
  shows "\<exists>bs. um_append_loop n i m data = Inr (appended bs data) \<and> length bs = 4 * n
    \<and> (\<forall>k < 32 * n. lsb_bit bs k \<longleftrightarrow> the (um_bits m) ! (32 * i + k) \<noteq> 0)"
  using assms(2-4)
proof (induction n arbitrary: i data)
  case 0
  then show ?case by (auto simp: appended_Nil)
next
  case (Suc n)
  have "32 * i + 32 \<le> 32 * unat (um_blockCount m)" using Suc.prems(2) by simp
  from um_part_loop_bits [OF assms(1) this, of 0 32 0] obtain w where
    w: "um_part_loop 32 (32 * i) 0 0 m = Inr w"
       "\<forall>k < 32. bit w k \<longleftrightarrow> the (um_bits m) ! (32 * i + k) \<noteq> 0" by auto
  have app: "append_T False w data = Inr (appended (word_bytes w) data)"
    using Suc.prems(1,3) by (intro append_T_writer) auto
  obtain bs where bs: "um_append_loop n (Suc i) m (appended (word_bytes w) data)
      = Inr (appended bs (appended (word_bytes w) data))" "length bs = 4 * n"
      "\<forall>k < 32 * n. lsb_bit bs k \<longleftrightarrow> the (um_bits m) ! (32 * Suc i + k) \<noteq> 0"
    using Suc.IH [of "appended (word_bytes w) data" "Suc i"] Suc.prems by auto
  have "um_append_loop (Suc n) i m data = Inr (appended (word_bytes w @ bs) data)"
    using w(1) app bs(1) by simp
  moreover have "length (word_bytes w @ bs) = 4 * Suc n" using bs(2) by simp
  moreover have "\<forall>k < 32 * Suc n. lsb_bit (word_bytes w @ bs) k \<longleftrightarrow> the (um_bits m) ! (32 * i + k) \<noteq> 0"
  proof (intro allI impI)
    fix k assume k: "k < 32 * Suc n"
    show "lsb_bit (word_bytes w @ bs) k \<longleftrightarrow> the (um_bits m) ! (32 * i + k) \<noteq> 0"
    proof (cases "k < 32")
      case True
      with w(2) show ?thesis by (simp add: lsb_bit_word)
    next
      case False
      then have "32 * Suc i + (k - 32) = 32 * i + k" and "k - 32 < 32 * n" using k by auto
      with False bs(3) show ?thesis by (metis lsb_bit_word)
    qed
  qed
  ultimately show ?case by blast
qed

section \<open>Combining masks\<close>

lemma um_combine_loop_eq:
  assumes "um_bits m = Some xs" and "um_bits right = Some ys"
    and "i + n \<le> length xs" and "length xs < 2 ^ 32"
  shows "um_combine_loop f n i right m =
    (if n = 0 \<or> i + n \<le> length ys
     then Inr (m\<lparr>um_bits := Some (take i xs @ map2 f (take n (drop i xs)) (drop i ys) @ drop (i + n) xs)\<rparr>)
     else Inl MaskOutOfBounds)"
  using assms
proof (induction n arbitrary: i m xs)
  case 0
  then show ?case by simp
next
  case (Suc n)
  have i: "i < length xs" and u: "unat (of_nat i :: uint32) = i"
    using Suc.prems by (simp_all add: unat_of_nat)
  show ?case
  proof (cases "i < length ys")
    case False
    with Suc.prems i show ?thesis by (simp add: um_read_def)
  next
    case True
    let ?xs = "xs[i := f (xs ! i) (ys ! i)]"
    let ?m = "m\<lparr>um_bits := Some ?xs\<rparr>"
    have step: "um_combine_loop f (Suc n) i right m = um_combine_loop f n (Suc i) right ?m"
      using Suc.prems True i u by (simp add: um_read_def um_write_def)
    have "take (Suc i) ?xs @ map2 f (take n (drop (Suc i) ?xs)) (drop (Suc i) ys) @ drop (Suc i + n) ?xs
      = take i xs @ map2 f (take (Suc n) (drop i xs)) (drop i ys) @ drop (i + Suc n) xs"
      using i True by (simp add: take_Suc_conv_app_nth Cons_nth_drop_Suc [symmetric])
    moreover have "i + Suc n \<le> length ys \<longleftrightarrow> n = 0 \<or> Suc i + n \<le> length ys" using True by auto
    ultimately show ?thesis
      unfolding step using Suc.IH [of ?m ?xs "Suc i"] Suc.prems by simp
  qed
qed

section \<open>Properties\<close>

text \<open>
  The mask a client receives is the mask of the object: \<^verbatim>\<open>AppendToPacket\<close> of a mask whose size
  was set appends exactly four bytes for each block, and bit \<open>k\<close> of these bytes (lowest bit
  first) is set exactly for the fields \<open>k\<close> with \<^verbatim>\<open>GetBit(k)\<close>.
\<close>

theorem update_mask_on_the_wire:
  assumes "um_ok m" and "writer data" and "bb_size data + 4 * unat (um_blockCount m) \<le> BB_LIMIT"
  shows "\<exists>bs. um_AppendToPacket m data = Inr (appended bs data)
    \<and> length bs = 4 * unat (um_blockCount m)
    \<and> (\<forall>k. unat k < 32 * unat (um_blockCount m) \<longrightarrow> um_GetBit k m = Inr (lsb_bit bs (unat k)))"
proof -
  from um_append_loop_bits [OF assms(1,2), of 0 "unat (um_blockCount m)"] assms(3)
  obtain bs where bs: "um_append_loop (unat (um_blockCount m)) 0 m data = Inr (appended bs data)"
    "length bs = 4 * unat (um_blockCount m)"
    "\<forall>k < 32 * unat (um_blockCount m). lsb_bit bs k \<longleftrightarrow> the (um_bits m) ! k \<noteq> 0"
    by auto
  moreover have "um_GetBit k m = Inr (lsb_bit bs (unat k))" if "unat k < 32 * unat (um_blockCount m)" for k
    using um_read_ok [OF assms(1) that] that bs(3) by (simp add: um_GetBit_def)
  ultimately show ?thesis unfolding um_AppendToPacket_def by blast
qed

theorem update_mask_on_the_wire_witness:
  "\<exists>m bs. um_SetBit 37 (um_SetCount 40 UpdateMask_new) = Inr m
     \<and> um_AppendToPacket m ByteBuffer_new = Inr (appended bs ByteBuffer_new)
     \<and> length bs = 8 \<and> lsb_bit bs 37"
proof -
  have ok0: "um_ok (um_SetCount 40 UpdateMask_new)" by (rule um_SetCount_ok) simp
  let ?m = "\<lparr>um_fieldCount = 40, um_blockCount = 2, um_bits = Some ((replicate 64 0)[37 := 1])\<rparr>"
  have m: "um_SetBit 37 (um_SetCount 40 UpdateMask_new) = Inr ?m"
    by (simp add: um_SetBit_def um_write_def um_SetCount_def UpdateMask_new_def)
  have ok: "um_ok ?m" using um_write_ok [OF ok0] m by (simp add: um_SetBit_def)
  moreover have "um_GetBit 37 ?m = Inr True" by (simp add: um_GetBit_def um_read_def)
  ultimately show ?thesis
    using update_mask_on_the_wire [OF ok writer_new] m
    by (auto simp: ByteBuffer_new_def BB_LIMIT_def dest!: spec [of _ 37])
qed

text \<open>
  \<^verbatim>\<open>operator|=\<close> and \<^verbatim>\<open>operator&=\<close>: the assertion refuses a larger right side; a right side whose
  flags cover the fields of the left one is combined flag by flag; but a smaller right side, which
  the assertion lets through, is read beyond the end of its array.
\<close>

theorem update_mask_combine:
  assumes "um_ok m" and "um_ok right"
  defines "n \<equiv> unat (um_fieldCount m)"
  shows "um_combine f right m =
    (if \<not> um_fieldCount right \<le> um_fieldCount m then Inl MaskAssert
     else if n \<le> 32 * unat (um_blockCount right)
     then Inr (m\<lparr>um_bits := Some (map2 f (take n (the (um_bits m))) (the (um_bits right))
                                    @ drop n (the (um_bits m)))\<rparr>)
     else Inl MaskOutOfBounds)"
proof -
  obtain xs ys where "um_bits m = Some xs" "um_bits right = Some ys"
    and "n \<le> length xs" and "length xs < 2 ^ 32" and "length ys = 32 * unat (um_blockCount right)"
    using assms by (auto simp: um_ok_def)
  then show ?thesis
    using um_combine_loop_eq [of m xs right ys 0 n f] by (auto simp: um_combine_def n_def)
qed

theorem update_mask_combine_witness:
  "um_and (um_SetCount 32 UpdateMask_new) (um_SetCount 40 UpdateMask_new) = Inl MaskOutOfBounds"
proof -
  have "um_ok (um_SetCount 40 UpdateMask_new)" and "um_ok (um_SetCount 32 UpdateMask_new)"
    by (rule um_SetCount_ok, simp)+
  from update_mask_combine [OF this] show ?thesis
    by (simp add: um_and_def um_SetCount_def UpdateMask_new_def)
qed

end
