(* ===== verification/Wide_Text.thy ===== *)
theory Wide_Text
  imports Prelude
begin

text \<open>
  Names and flag sets of \<^verbatim>\<open>shared/Utilities/Util.h\<close> and \<^verbatim>\<open>Util.cpp\<close>: the letter classes and the
  letter case that decide which character names are valid and how they are compared, the main
  part of a declined name, \<^verbatim>\<open>HookList\<close>, and the 96-bit spell family masks \<^verbatim>\<open>flag96\<close>.
\<close>

unbundle bit_operations_syntax

type_synonym wstring = "wchar list"

section \<open>Letter classes\<close>

definition isBasicLatinCharacter :: "wchar \<Rightarrow> bool" where
  "isBasicLatinCharacter c \<longleftrightarrow> (0x61 \<le> c \<and> c \<le> 0x7A) \<or> (0x41 \<le> c \<and> c \<le> 0x5A)"

definition isExtendedLatinCharacter :: "wchar \<Rightarrow> bool" where
  "isExtendedLatinCharacter c \<longleftrightarrow>
     isBasicLatinCharacter c \<or> (0x00C0 \<le> c \<and> c \<le> 0x00D6) \<or> (0x00D8 \<le> c \<and> c \<le> 0x00DF)
     \<or> c = 0x00DF \<or> (0x00E0 \<le> c \<and> c \<le> 0x00F6) \<or> (0x00F8 \<le> c \<and> c \<le> 0x00FE)
     \<or> (0x0100 \<le> c \<and> c \<le> 0x012F) \<or> c = 0x1E9E"

definition isCyrillicCharacter :: "wchar \<Rightarrow> bool" where
  "isCyrillicCharacter c \<longleftrightarrow> (0x0410 \<le> c \<and> c \<le> 0x044F) \<or> c = 0x0401 \<or> c = 0x0451"

definition isEastAsianCharacter :: "wchar \<Rightarrow> bool" where
  "isEastAsianCharacter c \<longleftrightarrow>
     (0x1100 \<le> c \<and> c \<le> 0x11F9) \<or> (0x3041 \<le> c \<and> c \<le> 0x30FF) \<or> (0x3131 \<le> c \<and> c \<le> 0x318E)
     \<or> (0x31F0 \<le> c \<and> c \<le> 0x31FF) \<or> (0x3400 \<le> c \<and> c \<le> 0x4DB5) \<or> (0x4E00 \<le> c \<and> c \<le> 0x9FC3)
     \<or> (0xAC00 \<le> c \<and> c \<le> 0xD7A3) \<or> (0xFF01 \<le> c \<and> c \<le> 0xFFEE)"

definition isNumeric :: "wchar \<Rightarrow> bool" where
  "isNumeric c \<longleftrightarrow> 0x30 \<le> c \<and> c \<le> 0x39"

definition isNumericOrSpace :: "wchar \<Rightarrow> bool" where
  "isNumericOrSpace c \<longleftrightarrow> isNumeric c \<or> c = 0x20"

definition class_string :: "(wchar \<Rightarrow> bool) \<Rightarrow> wstring \<Rightarrow> bool \<Rightarrow> bool" where
  "class_string P wstr numericOrSpace \<longleftrightarrow>
     \<not> list_ex (\<lambda>c. \<not> P c \<and> (\<not> numericOrSpace \<or> \<not> isNumericOrSpace c)) wstr"

definition isBasicLatinString :: "wstring \<Rightarrow> bool \<Rightarrow> bool" where
  "isBasicLatinString = class_string isBasicLatinCharacter"

definition isExtendedLatinString :: "wstring \<Rightarrow> bool \<Rightarrow> bool" where
  "isExtendedLatinString = class_string isExtendedLatinCharacter"

definition isCyrillicString :: "wstring \<Rightarrow> bool \<Rightarrow> bool" where
  "isCyrillicString = class_string isCyrillicCharacter"

definition isEastAsianString :: "wstring \<Rightarrow> bool \<Rightarrow> bool" where
  "isEastAsianString = class_string isEastAsianCharacter"

section \<open>Letter case\<close>

definition wcharToUpper :: "wchar \<Rightarrow> wchar" where
  "wcharToUpper c =
     (if 0x61 \<le> c \<and> c \<le> 0x7A then c - 0x20
      else if c = 0x00DF then 0x1E9E
      else if 0x00E0 \<le> c \<and> c \<le> 0x00F6 then c - 0x20
      else if 0x00F8 \<le> c \<and> c \<le> 0x00FE then c - 0x20
      else if 0x0101 \<le> c \<and> c \<le> 0x012F \<and> c mod 2 = 1 then c - 1
      else if 0x0430 \<le> c \<and> c \<le> 0x044F then c - 0x20
      else if c = 0x0451 then 0x0401
      else c)"

definition wcharToUpperOnlyLatin :: "wchar \<Rightarrow> wchar" where
  "wcharToUpperOnlyLatin c = (if isBasicLatinCharacter c then wcharToUpper c else c)"

definition wcharToLower :: "wchar \<Rightarrow> wchar" where
  "wcharToLower c =
     (if 0x41 \<le> c \<and> c \<le> 0x5A then c + 0x20
      else if 0x00C0 \<le> c \<and> c \<le> 0x00D6 then c + 0x20
      else if 0x00D8 \<le> c \<and> c \<le> 0x00DE then c + 0x20
      else if 0x0100 \<le> c \<and> c \<le> 0x012E \<and> c mod 2 = 0 then c + 1
      else if c = 0x1E9E then 0x00DF
      else if c = 0x0401 then 0x0451
      else if 0x0410 \<le> c \<and> c \<le> 0x042F then c + 0x20
      else c)"

definition wstrToUpper :: "wstring \<Rightarrow> wstring" where
  "wstrToUpper str = map wcharToUpper str"

definition wstrToLower :: "wstring \<Rightarrow> wstring" where
  "wstrToLower str = map wcharToLower str"

section \<open>The main part of a declined name\<close>

datatype name_error = OutOfRange   \<comment> \<open>\<^verbatim>\<open>std::out_of_range\<close> of \<^verbatim>\<open>substr\<close>\<close>

text \<open>\<^verbatim>\<open>str.substr(pos, len)\<close>\<close>

definition wsubstr :: "nat \<Rightarrow> nat \<Rightarrow> wstring \<Rightarrow> name_error + wstring" where
  "wsubstr pos len s = (if length s < pos then Inl OutOfRange else Inr (take len (drop pos s)))"

definition dropEnds :: "wstring list list" where
  "dropEnds =
     [[[0x0430], [0x043E], [0x044F], [0x0435], [0x044C], [0x0439]],
      [[0x0430], [0x044F], [0x044B], [0x0438]],
      [[0x0435], [0x0443], [0x044E], [0x0438]],
      [[0x0443], [0x044E], [0x043E], [0x0435], [0x044C], [0x044F], [0x0430]],
      [[0x043E, 0x0439], [0x0451, 0x0439], [0x0435, 0x0439], [0x043E, 0x043C], [0x0451, 0x043C],
       [0x0435, 0x043C], [0x044E]],
      [[0x0435], [0x0438]]]"

fun drop_end_loop :: "wstring list \<Rightarrow> wstring \<Rightarrow> name_error + wstring" where
  "drop_end_loop [] wname = Inr wname"
| "drop_end_loop (e # es) wname =
     (let len = length e
      in bind_res (wsubstr (sz_sub (length wname) len) len wname) (\<lambda>tail.
           if tail = e then wsubstr 0 (sz_sub (length wname) len) wname
           else drop_end_loop es wname))"

definition GetMainPartOfName :: "wstring \<Rightarrow> uint32 \<Rightarrow> name_error + wstring" where
  "GetMainPartOfName wname declension =
     (case wname of
        [] \<Rightarrow> Inr wname
      | c # _ \<Rightarrow>
          if \<not> isCyrillicCharacter c \<or> 5 < declension then Inr wname
          else drop_end_loop (dropEnds ! unat declension) wname)"

section \<open>Hook lists\<close>

definition hook_add :: "'a \<Rightarrow> 'a list \<Rightarrow> 'a list" where
  "hook_add t l = l @ [t]"

definition hook_remove :: "'a \<Rightarrow> 'a list \<Rightarrow> 'a list" where
  "hook_remove t l = filter (\<lambda>x. x \<noteq> t) l"

section \<open>Flag sets of 96 bits\<close>

datatype flag96 = Flag96 (part0: uint32) (part1: uint32) (part2: uint32)

definition flag96_of_uint64 :: "uint64 \<Rightarrow> uint32 \<Rightarrow> flag96" where
  "flag96_of_uint64 p1 p2 =
     Flag96 (ucast (p1 AND 0x00000000FFFFFFFF)) (ucast (drop_bit 32 p1 AND 0x00000000FFFFFFFF)) p2"

fun f96_IsEqual :: "uint32 \<Rightarrow> uint32 \<Rightarrow> uint32 \<Rightarrow> flag96 \<Rightarrow> bool" where
  "f96_IsEqual p1 p2 p3 (Flag96 a b c) \<longleftrightarrow> a = p1 \<and> b = p2 \<and> c = p3"

fun f96_HasFlag :: "uint32 \<Rightarrow> uint32 \<Rightarrow> uint32 \<Rightarrow> flag96 \<Rightarrow> bool" where
  "f96_HasFlag p1 p2 p3 (Flag96 a b c) \<longleftrightarrow> a AND p1 \<noteq> 0 \<or> b AND p2 \<noteq> 0 \<or> c AND p3 \<noteq> 0"

fun f96_Set :: "uint32 \<Rightarrow> uint32 \<Rightarrow> uint32 \<Rightarrow> flag96 \<Rightarrow> flag96" where
  "f96_Set p1 p2 p3 f = Flag96 p1 p2 p3"

text \<open>The loop of \<^verbatim>\<open>operator<\<close> runs from the highest part to the lowest.\<close>

fun f96_less_loop :: "(uint32 \<times> uint32) list \<Rightarrow> bool" where
  "f96_less_loop [] = False"
| "f96_less_loop ((a, b) # ps) = (if a < b then True else if b < a then False else f96_less_loop ps)"

fun f96_less :: "flag96 \<Rightarrow> flag96 \<Rightarrow> bool" where
  "f96_less (Flag96 a b c) (Flag96 x y z) = f96_less_loop [(c, z), (b, y), (a, x)]"

fun f96_and :: "flag96 \<Rightarrow> flag96 \<Rightarrow> flag96" where
  "f96_and (Flag96 a b c) (Flag96 x y z) = Flag96 (a AND x) (b AND y) (c AND z)"

fun f96_or :: "flag96 \<Rightarrow> flag96 \<Rightarrow> flag96" where
  "f96_or (Flag96 a b c) (Flag96 x y z) = Flag96 (a OR x) (b OR y) (c OR z)"

fun f96_xor :: "flag96 \<Rightarrow> flag96 \<Rightarrow> flag96" where
  "f96_xor (Flag96 a b c) (Flag96 x y z) = Flag96 (a XOR x) (b XOR y) (c XOR z)"

fun f96_not :: "flag96 \<Rightarrow> flag96" where
  "f96_not (Flag96 a b c) = Flag96 (NOT a) (NOT b) (NOT c)"

fun f96_bool :: "flag96 \<Rightarrow> bool" where
  "f96_bool (Flag96 a b c) \<longleftrightarrow> a \<noteq> 0 \<or> b \<noteq> 0 \<or> c \<noteq> 0"

text \<open>Flag sets are keys of ordered containers: \<^verbatim>\<open>operator<\<close> is a total order.\<close>

instantiation flag96 :: linorder
begin

definition less_flag96_def: "f < g \<longleftrightarrow> f96_less f g"

definition less_eq_flag96_def: "f \<le> g \<longleftrightarrow> f96_less f g \<or> f = (g :: flag96)"

instance
proof
  fix f g h :: flag96
  show "f < g \<longleftrightarrow> f \<le> g \<and> \<not> g \<le> f"
    by (cases f; cases g) (auto simp: less_flag96_def less_eq_flag96_def split: if_splits)
  show "f \<le> f" by (simp add: less_eq_flag96_def)
  show "f \<le> h" if "f \<le> g" "g \<le> h"
    using that by (cases f; cases g; cases h) (auto simp: less_eq_flag96_def split: if_splits)
  show "f = g" if "f \<le> g" "g \<le> f"
    using that by (cases f; cases g) (auto simp: less_eq_flag96_def split: if_splits)
  show "f \<le> g \<or> g \<le> f"
    by (cases f; cases g) (auto simp: less_eq_flag96_def)
qed

end

lemma f96_HasFlag_and: "f96_HasFlag a b c f \<longleftrightarrow> f96_bool (f96_and f (Flag96 a b c))"
  by (cases f) simp

lemma f96_de_morgan: "f96_not (f96_and f g) = f96_or (f96_not f) (f96_not g)"
  by (cases f; cases g) (simp add: bit.conj_disj_distrib)

section \<open>Case mappings on code points\<close>

text \<open>The two mappings on numbers, where linear arithmetic decides them.\<close>

definition upper_nat :: "nat \<Rightarrow> nat" where
  "upper_nat n =
     (if 0x61 \<le> n \<and> n \<le> 0x7A \<or> 0xE0 \<le> n \<and> n \<le> 0xF6 \<or> 0xF8 \<le> n \<and> n \<le> 0xFE
         \<or> 0x430 \<le> n \<and> n \<le> 0x44F then n - 0x20
      else if n = 0xDF then 0x1E9E
      else if 0x101 \<le> n \<and> n \<le> 0x12F \<and> odd n then n - 1
      else if n = 0x451 then 0x401 else n)"

definition lower_nat :: "nat \<Rightarrow> nat" where
  "lower_nat n =
     (if 0x41 \<le> n \<and> n \<le> 0x5A \<or> 0xC0 \<le> n \<and> n \<le> 0xD6 \<or> 0xD8 \<le> n \<and> n \<le> 0xDE
         \<or> 0x410 \<le> n \<and> n \<le> 0x42F then n + 0x20
      else if 0x100 \<le> n \<and> n \<le> 0x12E \<and> even n then n + 1
      else if n = 0x1E9E then 0xDF
      else if n = 0x401 then 0x451 else n)"

lemma wchar_eq_iff: "c = d \<longleftrightarrow> unat c = unat (d :: wchar)"
  by (simp add: word_unat_eq_iff)

lemma wchar_mod_2: "c mod 2 = 1 \<longleftrightarrow> odd (unat (c :: wchar))" "c mod 2 = 0 \<longleftrightarrow> even (unat c)"
  by (simp_all add: wchar_eq_iff unat_mod odd_iff_mod_2_eq_one even_iff_mod_2_eq_zero)

lemma unat_wchar_minus: "unat k \<le> unat c \<Longrightarrow> unat (c - k) = unat c - unat (k :: wchar)"
  by (simp add: unat_sub word_le_nat_alt)

lemma unat_wchar_plus: "unat c + unat k < 65536 \<Longrightarrow> unat (c + k) = unat c + unat (k :: wchar)"
  using unat_add_lem [of c k] by simp

lemma unat_wcharToUpper: "unat (wcharToUpper c) = upper_nat (unat c)"
  unfolding wcharToUpper_def upper_nat_def
  by (simp only: wchar_mod_2) (auto simp: word_le_nat_alt unat_wchar_minus wchar_eq_iff)

lemma unat_wcharToLower: "unat (wcharToLower c) = lower_nat (unat c)"
  unfolding wcharToLower_def lower_nat_def
  by (simp only: wchar_mod_2) (auto simp: word_le_nat_alt unat_wchar_plus wchar_eq_iff)

lemma upper_nat_cases:
  obtains "0x61 \<le> n" "n \<le> 0x7A" "upper_nat n = n - 0x20" | "0xE0 \<le> n" "n \<le> 0xF6" "upper_nat n = n - 0x20"
  | "0xF8 \<le> n" "n \<le> 0xFE" "upper_nat n = n - 0x20" | "0x430 \<le> n" "n \<le> 0x44F" "upper_nat n = n - 0x20"
  | "n = 0xDF" "upper_nat n = 0x1E9E" | "n = 0x451" "upper_nat n = 0x401"
  | k where "n = 2 * k + 1" "0x80 \<le> k" "k \<le> 0x97" "upper_nat n = 2 * k"
  | "upper_nat n = n"
proof (cases "0x101 \<le> n \<and> n \<le> 0x12F \<and> odd n")
  case True
  then obtain k where k: "n = 2 * k + 1" by (elim conjE oddE)
  with True have "0x80 \<le> k" and "k \<le> 0x97" and "upper_nat n = 2 * k"
    by (simp_all add: upper_nat_def)
  with k that(7) show ?thesis by blast
next
  case False
  then have "upper_nat n = (if 0x61 \<le> n \<and> n \<le> 0x7A \<or> 0xE0 \<le> n \<and> n \<le> 0xF6 \<or> 0xF8 \<le> n \<and> n \<le> 0xFE
         \<or> 0x430 \<le> n \<and> n \<le> 0x44F then n - 0x20
      else if n = 0xDF then 0x1E9E else if n = 0x451 then 0x401 else n)"
    by (simp only: upper_nat_def if_False)
  with that show ?thesis by presburger
qed

lemma lower_nat_cases:
  obtains "0x41 \<le> n" "n \<le> 0x5A" "lower_nat n = n + 0x20" | "0xC0 \<le> n" "n \<le> 0xD6" "lower_nat n = n + 0x20"
  | "0xD8 \<le> n" "n \<le> 0xDE" "lower_nat n = n + 0x20" | "0x410 \<le> n" "n \<le> 0x42F" "lower_nat n = n + 0x20"
  | "n = 0x1E9E" "lower_nat n = 0xDF" | "n = 0x401" "lower_nat n = 0x451"
  | k where "n = 2 * k" "0x80 \<le> k" "k \<le> 0x97" "lower_nat n = 2 * k + 1"
  | "lower_nat n = n"
proof (cases "0x100 \<le> n \<and> n \<le> 0x12E \<and> even n")
  case True
  then obtain k where k: "n = 2 * k" by (elim conjE evenE)
  with True have "0x80 \<le> k" and "k \<le> 0x97" and "lower_nat n = 2 * k + 1"
    by (simp_all add: lower_nat_def)
  with k that(7) show ?thesis by blast
next
  case False
  then have "lower_nat n = (if 0x41 \<le> n \<and> n \<le> 0x5A \<or> 0xC0 \<le> n \<and> n \<le> 0xD6 \<or> 0xD8 \<le> n \<and> n \<le> 0xDE
         \<or> 0x410 \<le> n \<and> n \<le> 0x42F then n + 0x20
      else if n = 0x1E9E then 0xDF else if n = 0x401 then 0x451 else n)"
    by (simp only: lower_nat_def if_False)
  with that show ?thesis by presburger
qed

lemma upper_nat_idem: "upper_nat (upper_nat n) = upper_nat n"
  by (rule upper_nat_cases [of n]) (simp_all, simp_all add: upper_nat_def, presburger+)

lemma lower_nat_idem: "lower_nat (lower_nat n) = lower_nat n"
  by (rule lower_nat_cases [of n]) (simp_all, simp_all add: lower_nat_def)

lemma lower_upper_nat: "upper_nat n \<noteq> n \<Longrightarrow> lower_nat (upper_nat n) = n"
  by (rule upper_nat_cases [of n]) (simp_all, simp_all add: lower_nat_def, presburger+)

lemma upper_lower_nat: "lower_nat n \<noteq> n \<Longrightarrow> upper_nat (lower_nat n) = n"
  by (rule lower_nat_cases [of n]) (simp_all, simp_all add: upper_nat_def)

section \<open>Endings of names\<close>

lemma wsubstr_end:
  assumes "len \<le> length w" and "length w < SIZE_T_MOD"
  shows "wsubstr (sz_sub (length w) len) len w = Inr (drop (length w - len) w)"
    and "wsubstr 0 (sz_sub (length w) len) w = Inr (take (length w - len) w)"
  using assms by (simp_all add: wsubstr_def sz_sub_small)

lemma wsubstr_too_short:
  assumes "length w < len" and "len < 8"
  shows "wsubstr (sz_sub (length w) len) len w = Inl OutOfRange"
  using assms by (simp add: wsubstr_def sz_sub_wrap SIZE_T_MOD_def)

lemma drop_end_loop_spec:
  assumes "\<forall>e \<in> set es. e \<noteq> [] \<and> length e \<le> length w" and "length w < SIZE_T_MOD"
  shows "\<exists>r. drop_end_loop es w = Inr r \<and>
    (if \<exists>e \<in> set es. \<exists>p. w = p @ e then \<exists>e \<in> set es. w = r @ e else r = w)"
  using assms(1)
proof (induction es)
  case (Cons e es)
  let ?n = "length w - length e"
  have "wsubstr (sz_sub (length w) (length e)) (length e) w = Inr (drop ?n w)"
    "wsubstr 0 (sz_sub (length w) (length e)) w = Inr (take ?n w)"
    using wsubstr_end [of "length e" w] Cons.prems assms(2) by simp_all
  then have loop: "drop_end_loop (e # es) w =
      (if drop ?n w = e then Inr (take ?n w) else drop_end_loop es w)"
    by (simp add: Let_def)
  have iff: "drop ?n w = e \<longleftrightarrow> (\<exists>p. w = p @ e)"
  proof
    assume "drop ?n w = e"
    then show "\<exists>p. w = p @ e" using append_take_drop_id [of ?n w] by metis
  qed auto
  show ?case
  proof (cases "drop ?n w = e")
    case True
    then have "w = take ?n w @ e" using append_take_drop_id [of ?n w] by simp
    then show ?thesis unfolding loop using True by auto
  next
    case False
    with iff have "(\<exists>e' \<in> set (e # es). \<exists>p. w = p @ e') \<longleftrightarrow> (\<exists>e' \<in> set es. \<exists>p. w = p @ e')" by auto
    with Cons False show ?thesis unfolding loop by (auto split: if_splits)
  qed
qed simp

section \<open>Properties\<close>

text \<open>
  Upper and lower case are inverse to each other on the letters each of them changes, over all
  code units, and each changes nothing more when it is applied twice.
\<close>

theorem letter_case_inverse:
  "(wcharToUpper c = c \<or> wcharToLower (wcharToUpper c) = c)
   \<and> (wcharToLower c = c \<or> wcharToUpper (wcharToLower c) = c)
   \<and> wstrToUpper (wstrToUpper str) = wstrToUpper str \<and> wstrToLower (wstrToLower str) = wstrToLower str"
  using lower_upper_nat [of "unat c"] upper_lower_nat [of "unat c"]
  by (auto simp: wstrToUpper_def wstrToLower_def wchar_eq_iff unat_wcharToUpper unat_wcharToLower
      upper_nat_idem lower_nat_idem)

text \<open>
  \<^verbatim>\<open>GetMainPartOfName\<close> of a name in Cyrillic letters: for each of the six declensions it removes
  one of the endings of that declension when the name has one and else returns the name; but
  for a name of a single letter and declension 4, whose endings are longer, it throws
  \<^verbatim>\<open>std::out_of_range\<close>.
\<close>

theorem main_part_of_name:
  assumes "wname \<noteq> []" and "isCyrillicCharacter (hd wname)" and "declension \<le> 5"
    and "length wname < SIZE_T_MOD"
  defines "ends \<equiv> set (dropEnds ! unat declension)"
  shows "if length wname = 1 \<and> declension = 4 then GetMainPartOfName wname declension = Inl OutOfRange
    else \<exists>r. GetMainPartOfName wname declension = Inr r
      \<and> (if \<exists>e \<in> ends. \<exists>p. wname = p @ e then \<exists>e \<in> ends. wname = r @ e else r = wname)"
proof -
  let ?es = "dropEnds ! unat declension"
  have main: "GetMainPartOfName wname declension = drop_end_loop ?es wname"
    using assms(1-3) by (cases wname) (auto simp: GetMainPartOfName_def)
  have "unat declension \<le> 5" using assms(3) by (simp add: word_le_nat_alt)
  then have "unat declension = 0 \<or> unat declension = 1 \<or> unat declension = 2 \<or> unat declension = 3
      \<or> unat declension = 4 \<or> unat declension = 5"
    by linarith
  then consider "declension = 0" | "declension = 1" | "declension = 2" | "declension = 3"
    | "declension = 4" | "declension = 5"
    by (auto simp: word_unat_eq_iff)
  then have len: "\<forall>e \<in> set ?es. e \<noteq> [] \<and> (length e \<le> 1 \<or> declension = 4 \<and> length e \<le> 2)"
    by cases (simp_all add: dropEnds_def)
  show ?thesis
  proof (cases "length wname = 1 \<and> declension = 4")
    case True
    then have "drop_end_loop ?es wname = Inl OutOfRange"
      using wsubstr_too_short [of wname "Suc (Suc 0)"] by (simp add: dropEnds_def)
    with True main show ?thesis by simp
  next
    case False
    have "0 < length wname" using assms(1) by simp
    with False have "1 \<le> length wname \<and> (declension = 4 \<longrightarrow> 2 \<le> length wname)" by linarith
    with len have "\<forall>e \<in> set ?es. e \<noteq> [] \<and> length e \<le> length wname"
      by (meson order_trans)
    from drop_end_loop_spec [OF this assms(4)] main show ?thesis
      unfolding ends_def if_not_P [OF False] by simp
  qed
qed

theorem main_part_of_name_witness:
  "GetMainPartOfName [0x0410] 4 = Inl OutOfRange"
  using main_part_of_name [of "[0x0410]" 4] by (simp add: isCyrillicCharacter_def SIZE_T_MOD_def)

end
