(* ===== verification/String_Util.thy ===== *)
theory String_Util
  imports Prelude
begin

text \<open>
  The string and number utilities of \<^verbatim>\<open>shared/Utilities/Util.h\<close> and \<^verbatim>\<open>Util.cpp\<close>: the tokenizer,
  the clean-up of chat lines, the printing and parsing of durations and of money, escaping,
  hex dumps, letter classes and letter case, declined names, and the 96-bit flag sets.  A
  \<^verbatim>\<open>std::string\<close> is a list of characters, a \<^verbatim>\<open>wchar_t\<close> a UTF-16 code unit.
\<close>

unbundle bit_operations_syntax

section \<open>Characters of the C library\<close>

definition isdigit :: "char \<Rightarrow> bool" where
  "isdigit c \<longleftrightarrow> 48 \<le> (of_char c :: nat) \<and> (of_char c :: nat) \<le> 57"

definition digit_val :: "char \<Rightarrow> nat" where
  "digit_val c = of_char c - 48"

definition digit_char :: "nat \<Rightarrow> char" where
  "digit_char d = char_of (48 + d)"

text \<open>\<^verbatim>\<open>ostream << uint64\<close>: the decimal digits.\<close>

fun dec_str :: "nat \<Rightarrow> string" where
  "dec_str n = (if n < 10 then [digit_char n] else dec_str (n div 10) @ [digit_char (n mod 10)])"

declare dec_str.simps [simp del]

section \<open>Tokens\<close>

text \<open>
  The tokenizer copies the string with its terminator, overwrites each separator by the end
  of a C string and keeps a pointer to the start of each token.  \<open>cur\<close> is the text from
  \<^verbatim>\<open>posold\<close> to \<^verbatim>\<open>posnew\<close>; a separator that is NUL makes the loop run past the terminator (\<open>None\<close>).
\<close>

fun tokenize_loop :: "char \<Rightarrow> string \<Rightarrow> string \<Rightarrow> string list option" where
  "tokenize_loop sep cur [] =
     (if sep = CHR 0x00 then None else if cur \<noteq> [] then Some [cur] else Some [])"
| "tokenize_loop sep cur (c # cs) =
     (if c = sep then map_option (\<lambda>ts. cur # ts) (tokenize_loop sep [] cs)
      else if c = CHR 0x00 then (if cur \<noteq> [] then Some [cur] else Some [])
      else tokenize_loop sep (cur @ [c]) cs)"

definition Tokenizer :: "string \<Rightarrow> char \<Rightarrow> string list option" where
  "Tokenizer src sep = tokenize_loop sep [] src"

section \<open>Chat lines\<close>

definition invisible :: "char \<Rightarrow> bool" where
  "invisible c \<longleftrightarrow> c \<in> set [CHR '' '', CHR 0x09, CHR 0x07, CHR 0x0A]"

text \<open>The in-place loop of \<^verbatim>\<open>stripLineInvisibleChars\<close> over \<open>n\<close> remaining characters.\<close>

fun strip_loop :: "nat \<Rightarrow> nat \<Rightarrow> nat \<Rightarrow> bool \<Rightarrow> string \<Rightarrow> nat \<times> string" where
  "strip_loop 0 pos wpos space str = (wpos, str)"
| "strip_loop (Suc n) pos wpos space str =
     (if invisible (str ! pos)
      then if \<not> space then strip_loop n (Suc pos) (Suc wpos) True (str[wpos := CHR '' ''])
           else strip_loop n (Suc pos) wpos True str
      else if wpos \<noteq> pos then strip_loop n (Suc pos) (Suc wpos) False (str[wpos := str ! pos])
           else strip_loop n (Suc pos) (Suc wpos) False str)"

text \<open>\<^verbatim>\<open>str.find(pat) != npos\<close>\<close>

fun str_contains :: "string \<Rightarrow> string \<Rightarrow> bool" where
  "str_contains pat [] \<longleftrightarrow> pat = []"
| "str_contains pat (c # cs) \<longleftrightarrow> take (length pat) (c # cs) = pat \<or> str_contains pat cs"

definition stripLineInvisibleChars :: "string \<Rightarrow> string" where
  "stripLineInvisibleChars str =
     (let (wpos, s1) = strip_loop (length str) 0 0 False str;
          s2 = (if wpos < length s1 then take wpos s1 else s1)
      in if str_contains ''|TInterface'' s2 then [] else s2)"

section \<open>Durations\<close>

definition MINUTE :: nat where "MINUTE = 60"
definition HOUR :: nat where "HOUR = MINUTE * 60"
definition DAY :: nat where "DAY = HOUR * 24"

definition secsToTimeString :: "uint64 \<Rightarrow> bool \<Rightarrow> bool \<Rightarrow> string" where
  "secsToTimeString timeInSecs shortText hoursOnly =
     (let t = unat timeInSecs;
          secs = t mod MINUTE; minutes = t mod HOUR div MINUTE;
          hours = t mod DAY div HOUR; days = t div DAY
      in (if days \<noteq> 0 then dec_str days @ (if shortText then ''d'' else '' Day(s) '') else [])
       @ (if hours \<noteq> 0 \<or> hoursOnly then dec_str hours @ (if shortText then ''h'' else '' Hour(s) '') else [])
       @ (if \<not> hoursOnly
          then (if minutes \<noteq> 0 then dec_str minutes @ (if shortText then ''m'' else '' Minute(s) '') else [])
             @ (if secs \<noteq> 0 \<or> (days = 0 \<and> hours = 0 \<and> minutes = 0)
                then dec_str secs @ (if shortText then ''s'' else '' Second(s).'') else [])
          else []))"

definition time_multiplier :: "char \<Rightarrow> nat option" where
  "time_multiplier c =
     (if c = CHR ''d'' then Some DAY else if c = CHR ''h'' then Some HOUR
      else if c = CHR ''m'' then Some MINUTE else if c = CHR ''s'' then Some 1 else None)"

fun tsts_loop :: "string \<Rightarrow> uint32 \<Rightarrow> uint32 \<Rightarrow> uint32" where
  "tsts_loop [] buffer secs = secs"
| "tsts_loop (c # cs) buffer secs =
     (if isdigit c then tsts_loop cs (buffer * 10 + of_nat (digit_val c)) secs
      else case time_multiplier c of
             None \<Rightarrow> 0
           | Some multiplier \<Rightarrow> tsts_loop cs 0 (secs + buffer * of_nat multiplier))"

definition TimeStringToSecs :: "string \<Rightarrow> uint32" where
  "TimeStringToSecs timestring = tsts_loop timestring 0 0"

section \<open>Money\<close>

definition moneyToString :: "uint64 \<Rightarrow> string" where
  "moneyToString money =
     (let gold = unat (money div 10000); silv = unat (money mod 10000 div 100);
          copp = unat (money mod 10000 mod 100)
      in dec_str gold @ ''g,'' @ dec_str silv @ ''s,'' @ dec_str copp @ ''c'')"

text \<open>\<^verbatim>\<open>atol\<close>: white space, a sign, digits; whatever follows is ignored.\<close>

definition c_isspace :: "char \<Rightarrow> bool" where
  "c_isspace c \<longleftrightarrow> c \<in> set [CHR '' '', CHR 0x09, CHR 0x0A, CHR 0x0B, CHR 0x0C, CHR 0x0D]"

definition digits_val :: "string \<Rightarrow> nat" where
  "digits_val s = foldl (\<lambda>a c. 10 * a + digit_val c) 0 s"

definition atol :: "string \<Rightarrow> int" where
  "atol s =
     (case dropWhile c_isspace s of
        [] \<Rightarrow> 0
      | c # cs \<Rightarrow>
          if c = CHR ''-'' then - int (digits_val (takeWhile isdigit cs))
          else if c = CHR ''+'' then int (digits_val (takeWhile isdigit cs))
          else int (digits_val (takeWhile isdigit (c # cs))))"

definition str_count :: "char \<Rightarrow> string \<Rightarrow> nat" where
  "str_count c s = length (filter (\<lambda>x. x = c) s)"

fun money_loop :: "string list \<Rightarrow> int64 \<Rightarrow> int64" where
  "money_loop [] money = money"
| "money_loop (tok # toks) money =
     (let gCount = str_count CHR ''g'' tok; sCount = str_count CHR ''s'' tok;
          cCount = str_count CHR ''c'' tok
      in if gCount + sCount + cCount \<noteq> 1 then 0
         else let amount = word_of_int (atol tok) :: uint64
              in money_loop toks
                   (if gCount = 1 then money + amount * 100 * 100
                    else if sCount = 1 then money + amount * 100
                    else if cCount = 1 then money + amount else money))"

definition MoneyStringToMoney :: "string \<Rightarrow> int64 option" where
  "MoneyStringToMoney moneyString =
     (if \<not> (str_count CHR ''g'' moneyString = 1 \<or> str_count CHR ''s'' moneyString = 1
            \<or> str_count CHR ''c'' moneyString = 1)
      then Some 0
      else map_option (\<lambda>tokens. money_loop tokens 0) (Tokenizer moneyString CHR '' ''))"

section \<open>Escaping and dumps\<close>

fun my_escape_char :: "string \<Rightarrow> char \<Rightarrow> string" where
  "my_escape_char [] c = []"
| "my_escape_char (x # s) c = (if x = c then CHR 0x5C # x # my_escape_char s c else x # my_escape_char s c)"

definition my_escape_string :: "string \<Rightarrow> string" where
  "my_escape_string s =
     foldl my_escape_char s
       [CHR 0x0A, CHR 0x09, CHR 0x0B, CHR 0x08, CHR 0x0D, CHR 0x0C, CHR 0x07, CHR 0x5C, CHR 0x27, CHR 0x22]"

definition hex_digit :: "nat \<Rightarrow> char" where
  "hex_digit d = (if d < 10 then char_of (48 + d) else char_of (55 + d))"

definition hex_byte :: "uint8 \<Rightarrow> string" where
  "hex_byte b = [hex_digit (unat b div 16), hex_digit (unat b mod 16)]"

definition ByteArrayToHexStr :: "uint8 list \<Rightarrow> bool \<Rightarrow> string" where
  "ByteArrayToHexStr bytes reverse = concat (map hex_byte (if reverse then rev bytes else bytes))"

definition IsIPAddrInNetwork :: "uint32 \<Rightarrow> uint32 \<Rightarrow> uint32 \<Rightarrow> bool" where
  "IsIPAddrInNetwork net addr subnetMask \<longleftrightarrow> net AND subnetMask = addr AND subnetMask"

definition RoundToInterval :: "'a::linorder \<Rightarrow> 'a \<Rightarrow> 'a \<Rightarrow> 'a" where
  "RoundToInterval num floor ceil = min (max num floor) ceil"

section \<open>Decimal numbers\<close>

lemma of_char_digit: "d < 10 \<Longrightarrow> of_char (digit_char d) = 48 + d"
  by (simp add: digit_char_def)

lemma isdigit_digit_char [simp]: "d < 10 \<Longrightarrow> isdigit (digit_char d)"
  by (simp add: isdigit_def of_char_digit)

lemma digit_val_digit_char [simp]: "d < 10 \<Longrightarrow> digit_val (digit_char d) = d"
  by (simp add: digit_val_def of_char_digit)

lemma isdigit_dec_str: "c \<in> set (dec_str n) \<Longrightarrow> isdigit c"
proof (induction n rule: dec_str.induct)
  case (1 n)
  then show ?case by (auto simp: dec_str.simps [of n] split: if_splits)
qed

lemma digits_val_dec_str: "digits_val (dec_str n) = n"
proof (induction n rule: dec_str.induct)
  case (1 n)
  then show ?case by (auto simp: dec_str.simps [of n] digits_val_def)
qed

lemma not_digit_not_in_dec: "\<not> isdigit c \<Longrightarrow> c \<notin> set (dec_str n)"
  using isdigit_dec_str by blast

lemma letters_not_digits:
  "\<not> isdigit CHR ''d''" "\<not> isdigit CHR ''h''" "\<not> isdigit CHR ''m''" "\<not> isdigit CHR ''s''"
  "\<not> isdigit CHR ''g''" "\<not> isdigit CHR ''c''" "\<not> isdigit CHR '' ''" "\<not> isdigit CHR 0x00"
  by (simp_all add: isdigit_def)

section \<open>Parsing durations\<close>

lemma tsts_loop_digits:
  assumes "\<forall>c \<in> set ds. isdigit c"
  shows "tsts_loop (ds @ rest) (of_nat b) secs
    = tsts_loop rest (of_nat (foldl (\<lambda>a c. 10 * a + digit_val c) b ds)) secs"
  using assms
proof (induction ds arbitrary: b)
  case (Cons c ds)
  then show ?case using Cons.IH [of "10 * b + digit_val c"] by (simp add: mult.commute)
qed simp

lemma tsts_loop_number:
  assumes "\<not> isdigit c" and "time_multiplier c = Some k"
  shows "tsts_loop (dec_str n @ c # rest) 0 secs = tsts_loop rest 0 (secs + of_nat (n * k))"
  using tsts_loop_digits [of "dec_str n" "c # rest" 0 secs] assms
  by (simp add: isdigit_dec_str digits_val_dec_str [unfolded digits_val_def])

lemmas time_units = letters_not_digits(1-4) time_multiplier_def

lemma tsts_loop_field:
  assumes "\<not> isdigit c" and "time_multiplier c = Some k"
  shows "tsts_loop ((if n \<noteq> 0 then dec_str n @ [c] else []) @ rest) 0 secs
    = tsts_loop rest 0 (secs + of_nat (n * k))"
  using tsts_loop_number [OF assms] by simp

lemma time_fields: "t div DAY * DAY + t mod DAY div HOUR * HOUR + t mod HOUR div MINUTE * MINUTE + t mod MINUTE = t"
proof -
  have h: "t mod DAY mod HOUR = t mod HOUR" and m: "t mod HOUR mod MINUTE = t mod MINUTE"
    by (simp_all add: DAY_def HOUR_def MINUTE_def mod_mod_cancel)
  have "t mod DAY div HOUR * HOUR + t mod HOUR = t mod DAY"
    using div_mult_mod_eq [of "t mod DAY" HOUR] h by simp
  moreover have "t mod HOUR div MINUTE * MINUTE + t mod MINUTE = t mod HOUR"
    using div_mult_mod_eq [of "t mod HOUR" MINUTE] m by simp
  ultimately show ?thesis using div_mult_mod_eq [of t DAY] by linarith
qed

section \<open>The tokenizer\<close>

lemma tokenize_loop_token:
  assumes "sep \<notin> set t" and "CHR 0x00 \<notin> set t"
  shows "tokenize_loop sep cur (t @ rest) = tokenize_loop sep (cur @ t) rest"
  using assms by (induction t arbitrary: cur) auto

lemma tokenize_loop_all:
  assumes "sep \<noteq> CHR 0x00" and "\<forall>t \<in> set (ts @ [l]). sep \<notin> set t \<and> CHR 0x00 \<notin> set t"
  shows "tokenize_loop sep [] (concat (map (\<lambda>t. t @ [sep]) ts) @ l)
    = Some (ts @ (if l = [] then [] else [l]))"
  using assms(2)
proof (induction ts)
  case Nil
  then show ?case using tokenize_loop_token [of sep l "[]" "[]"] assms(1) by simp
next
  case (Cons t ts)
  then show ?case using tokenize_loop_token [of sep t "[]"] by simp
qed

section \<open>Stripping\<close>

text \<open>The reference: each run of invisible characters becomes one space.\<close>

fun squeeze :: "bool \<Rightarrow> string \<Rightarrow> string" where
  "squeeze space [] = []"
| "squeeze space (c # cs) =
     (if invisible c then (if space then squeeze True cs else CHR '' '' # squeeze True cs)
      else c # squeeze False cs)"

lemma strip_loop_squeeze:
  assumes "wpos \<le> pos" and "pos + n = length str"
  shows "let (w, s) = strip_loop n pos wpos space str
    in w \<le> length s \<and> take w s = take wpos str @ squeeze space (drop pos str)"
  using assms
proof (induction n arbitrary: pos wpos space str)
  case (Suc n)
  have d: "drop pos str = str ! pos # drop (Suc pos) str"
    using Suc.prems by (simp add: Cons_nth_drop_Suc)
  have u: "drop (Suc pos) (str[wpos := x]) = drop (Suc pos) str"
    "take (Suc wpos) (str[wpos := x]) = take wpos str @ [x]" for x
    using Suc.prems by (simp_all add: take_Suc_conv_app_nth)
  have v: "take (Suc wpos) str = take wpos str @ [str ! pos]" if "wpos = pos"
    using that Suc.prems by (simp add: take_Suc_conv_app_nth)
  show ?case
    using Suc.prems Suc.IH [of "Suc wpos" "Suc pos" "str[wpos := CHR '' '']" True]
      Suc.IH [of wpos "Suc pos" str True] Suc.IH [of "Suc wpos" "Suc pos" "str[wpos := str ! pos]" False]
      Suc.IH [of "Suc wpos" "Suc pos" str False] u v
    by (auto simp: d Let_def case_prod_unfold)
qed simp

lemma strip_eq: "stripLineInvisibleChars str =
    (let t = squeeze False str in if str_contains ''|TInterface'' t then [] else t)"
  using strip_loop_squeeze [of 0 0 "length str" str False]
  by (auto simp: stripLineInvisibleChars_def Let_def case_prod_unfold)

lemma squeeze_visible: "c \<in> set (squeeze space str) \<Longrightarrow> invisible c \<Longrightarrow> c = CHR '' ''"
  by (induction space str rule: squeeze.induct) (auto split: if_splits)

lemma squeeze_idem: "squeeze space (squeeze space str) = squeeze space str"
  by (induction space str rule: squeeze.induct) (auto simp: invisible_def)

section \<open>Escaping\<close>

lemma my_escape_char_concat: "my_escape_char s c = concat (map (\<lambda>x. if x = c then [CHR 0x5C, x] else [x]) s)"
  by (induction s) auto

text \<open>What one character becomes when it is escaped.\<close>

definition escaped :: "char \<Rightarrow> string" where
  "escaped x =
     (if x \<in> set [CHR 0x0A, CHR 0x09, CHR 0x0B, CHR 0x08, CHR 0x0D, CHR 0x0C, CHR 0x07]
      then [CHR 0x5C, CHR 0x5C, x]
      else if x \<in> set [CHR 0x5C, CHR 0x27, CHR 0x22] then [CHR 0x5C, x] else [x])"

lemma my_escape_char_append: "my_escape_char (s @ t) c = my_escape_char s c @ my_escape_char t c"
  by (induction s) auto

lemma my_escape_string_append: "my_escape_string (s @ t) = my_escape_string s @ my_escape_string t"
  by (simp add: my_escape_string_def my_escape_char_append)

lemma my_escape_string_single: "my_escape_string [x] = escaped x"
  by (auto simp: my_escape_string_def escaped_def)

section \<open>Properties\<close>

text \<open>
  Printing a duration in the short form and parsing it gives the duration back: for every
  64-bit number of seconds, \<^verbatim>\<open>TimeStringToSecs(secsToTimeString(t, true, false))\<close> is \<open>t\<close> at the
  32 bits of the result, so for each duration below \<open>2\<^sup>3\<^sup>2\<close> it is \<open>t\<close> itself.
\<close>

theorem time_string_round_trip:
  "TimeStringToSecs (secsToTimeString t True False) = ucast t"
proof -
  let ?t = "unat t"
  let ?secs = "?t mod MINUTE" and ?mins = "?t mod HOUR div MINUTE"
  let ?hours = "?t mod DAY div HOUR" and ?days = "?t div DAY"
  let ?fld = "\<lambda>n c. if n \<noteq> 0 then dec_str n @ [c] else []"
  have str: "secsToTimeString t True False = ?fld ?days CHR ''d'' @ ?fld ?hours CHR ''h'' @ ?fld ?mins CHR ''m''
      @ (if ?secs \<noteq> 0 \<or> (?days = 0 \<and> ?hours = 0 \<and> ?mins = 0) then dec_str ?secs @ [CHR ''s''] else [])"
    by (simp add: secsToTimeString_def Let_def)
  have last: "tsts_loop (if b then dec_str ?secs @ [CHR ''s''] else []) 0 x = x + of_nat ?secs"
    if "\<not> b \<longrightarrow> ?secs = 0" for b x
    using that tsts_loop_number [of "CHR ''s''" 1 ?secs "[]" x] by (simp add: time_units)
  have "TimeStringToSecs (secsToTimeString t True False)
      = of_nat (?days * DAY) + of_nat (?hours * HOUR) + of_nat (?mins * MINUTE) + of_nat ?secs"
    unfolding str TimeStringToSecs_def
    by (subst tsts_loop_field [of "CHR ''d''" DAY], simp add: time_units, simp add: time_units,
        subst tsts_loop_field [of "CHR ''h''" HOUR], simp add: time_units, simp add: time_units,
        subst tsts_loop_field [of "CHR ''m''" MINUTE], simp add: time_units, simp add: time_units,
        subst last) auto
  also have "\<dots> = of_nat (?days * DAY + ?hours * HOUR + ?mins * MINUTE + ?secs)" by simp
  also have "\<dots> = of_nat ?t" by (simp only: time_fields)
  finally show ?thesis by simp
qed

text \<open>
  C25. \<^verbatim>\<open>stripLineInvisibleChars\<close> computes in place what the reference computes from the whole line
  (each run of spaces, tabs, bells and line breaks becomes one space, and a line with a texture
  link is dropped); the result holds no invisible character but the space, and cleaning it again
  changes nothing.
\<close>

theorem strip_line_correct:
  "stripLineInvisibleChars str =
     (let t = squeeze False str in if str_contains ''|TInterface'' t then [] else t)
   \<and> filter invisible (stripLineInvisibleChars str)
     = filter (\<lambda>c. c = CHR '' '') (stripLineInvisibleChars str)
   \<and> stripLineInvisibleChars (stripLineInvisibleChars str) = stripLineInvisibleChars str"
proof (intro conjI)
  let ?s = "stripLineInvisibleChars str"
  show "?s = (let t = squeeze False str in if str_contains ''|TInterface'' t then [] else t)"
    by (rule strip_eq)
  have "invisible c \<longleftrightarrow> c = CHR '' ''" if "c \<in> set ?s" for c
    using that squeeze_visible [of c False str]
    by (auto simp: strip_eq Let_def invisible_def split: if_splits)
  then show "filter invisible ?s = filter (\<lambda>c. c = CHR '' '') ?s" by (intro filter_cong) auto
  show "stripLineInvisibleChars ?s = ?s"
    by (simp add: strip_eq Let_def squeeze_idem)
qed

text \<open>
  The tokenizer splits at every separator: of any tokens without separator and NUL, each ended
  by the separator, and a last one without it, it gives back exactly these tokens, empty ones
  included, except that an empty last token is dropped.
\<close>

theorem tokenizer_splits:
  assumes "sep \<noteq> CHR 0x00" and "\<forall>t \<in> set (ts @ [l]). sep \<notin> set t \<and> CHR 0x00 \<notin> set t"
  shows "Tokenizer (concat (map (\<lambda>t. t @ [sep]) ts) @ l) sep = Some (ts @ (if l = [] then [] else [l]))"
  unfolding Tokenizer_def by (rule tokenize_loop_all [OF assms])

theorem tokenizer_splits_witness:
  "Tokenizer ''a  bc '' CHR '' '' = Some [''a'', [], ''bc'']"
  using tokenizer_splits [of "CHR '' ''" "[''a'', [], ''bc'']" "[]"] by simp

text \<open>
  The printed and the parsed form of money do not match: \<^verbatim>\<open>MoneyStringToMoney\<close> rejects every
  string that \<^verbatim>\<open>moneyToString\<close> produces (it reads tokens separated by spaces with one unit each,
  while the printer separates the units by commas) and returns 0 for every amount.
\<close>

theorem money_string_not_parsed: "MoneyStringToMoney (moneyToString m) = Some 0"
proof -
  let ?s = "moneyToString m"
  have cnt: "str_count c (dec_str n) = 0" if "\<not> isdigit c" for c n
    using not_digit_not_in_dec [OF that, of n] by (auto simp: str_count_def filter_empty_conv)
  have app: "str_count c (xs @ ys) = str_count c xs + str_count c ys" for c xs ys
    by (simp add: str_count_def)
  have cons: "str_count c (x # xs) = (if x = c then Suc (str_count c xs) else str_count c xs)"
    and nil: "str_count c [] = 0" for c x xs
    by (simp_all add: str_count_def)
  have one: "str_count CHR ''g'' ?s = 1" "str_count CHR ''s'' ?s = 1" "str_count CHR ''c'' ?s = 1"
    by (simp_all add: moneyToString_def Let_def app cons nil cnt letters_not_digits)
  have "CHR '' '' \<notin> set ?s" and "CHR 0x00 \<notin> set ?s"
    by (auto simp: moneyToString_def Let_def letters_not_digits dest!: isdigit_dec_str)
  then have "Tokenizer ?s CHR '' '' = Some [?s]"
    using tokenize_loop_all [of "CHR '' ''" "[]" ?s] one by (auto simp: Tokenizer_def str_count_def)
  with one show ?thesis by (simp add: MoneyStringToMoney_def)
qed

text \<open>
  \<^verbatim>\<open>my_escape_string\<close> works character by character: quotes and backslashes get a backslash, but
  control characters get two, which stand for a backslash and leave the character itself bare.
\<close>

theorem escape_string_per_char: "my_escape_string s = concat (map escaped s)"
proof (induction s)
  case Nil
  then show ?case by (simp add: my_escape_string_def)
next
  case (Cons x s)
  then show ?case
    using my_escape_string_append [of "[x]" s] my_escape_string_single [of x] by simp
qed

end
