(* ===== verification/Channel.thy ===== *)
theory Channel
  imports ByteBuf String_Util
begin

text \<open>
  Chat channels: \<^verbatim>\<open>game/Chat/Channels/Channel.h\<close> and \<^verbatim>\<open>Channel.cpp\<close>, with the account levels of
  \<^verbatim>\<open>game/Accounts/AccountMgr.cpp\<close> they ask.  A channel is a record with the fields of the class;
  \<^verbatim>\<open>playersStore\<close> and \<^verbatim>\<open>bannedStore\<close> are ordered containers, and \<^verbatim>\<open>playersStore[guid]\<close> inserts a
  zeroed entry for a missing key, as \<^verbatim>\<open>std::map\<close> does.  Everything a channel does to the outside
  (packets, database statements, changes of the channel list a player keeps) is appended to the
  log \<open>ch_out\<close>.

  The players, the world configuration and the object accessor are not part of this component:
  they are the record \<open>chan_env\<close>, an argument of every operation that consults them.
\<close>

unbundle bit_operations_syntax

section \<open>Accounts\<close>

definition SEC_MODERATOR :: uint32 where "SEC_MODERATOR = 10"
definition SEC_GAMEMASTER :: uint32 where "SEC_GAMEMASTER = 20"
definition SEC_HEAD_GM :: uint32 where "SEC_HEAD_GM = 30"
definition SEC_ADMINISTRATOR :: uint32 where "SEC_ADMINISTRATOR = 40"
definition SEC_CONSOLE :: uint32 where "SEC_CONSOLE = 50"

definition IsPlayerAccount :: "uint32 \<Rightarrow> bool" where
  "IsPlayerAccount gmlevel \<longleftrightarrow> gmlevel < SEC_MODERATOR"

definition IsModeratorAccount :: "uint32 \<Rightarrow> bool" where
  "IsModeratorAccount gmlevel \<longleftrightarrow> SEC_MODERATOR \<le> gmlevel \<and> gmlevel \<le> SEC_CONSOLE"

definition IsGMAccount :: "uint32 \<Rightarrow> bool" where
  "IsGMAccount gmlevel \<longleftrightarrow> SEC_GAMEMASTER \<le> gmlevel \<and> gmlevel \<le> SEC_CONSOLE"

definition IsHeadGMAccount :: "uint32 \<Rightarrow> bool" where
  "IsHeadGMAccount gmlevel \<longleftrightarrow> SEC_HEAD_GM \<le> gmlevel \<and> gmlevel \<le> SEC_CONSOLE"

definition IsAdminAccount :: "uint32 \<Rightarrow> bool" where
  "IsAdminAccount gmlevel \<longleftrightarrow> SEC_ADMINISTRATOR \<le> gmlevel \<and> gmlevel \<le> SEC_CONSOLE"

definition IsConsoleAccount :: "uint32 \<Rightarrow> bool" where
  "IsConsoleAccount gmlevel \<longleftrightarrow> gmlevel = SEC_CONSOLE"

section \<open>State\<close>

text \<open>What a channel asks of a player.\<close>

record player =
  p_guid :: uint64
  p_name :: string
  p_security :: uint32
  p_team :: uint32
  p_in_group :: bool
  p_gm_visible :: bool
  p_chat_tag :: uint8
  p_can_speak :: bool
  p_can_speak_true :: bool   \<comment> \<open>\<^verbatim>\<open>CanSpeak(true)\<close>\<close>

record chan_env =
  FindPlayer :: "uint64 \<Rightarrow> player option"
  FindPlayerByName :: "string \<Rightarrow> player option"
  GetPlayerNameByGUID :: "uint64 \<Rightarrow> string option"
  HasIgnore :: "player \<Rightarrow> uint64 \<Rightarrow> bool"
  IsVisibleGloballyFor :: "player \<Rightarrow> player \<Rightarrow> bool"
  ALLOW_TWO_SIDE_INTERACTION_CHANNEL :: bool
  SILENTLY_GM_JOIN_TO_CHANNEL :: bool
  RESTRICTED_LFG_CHANNEL :: bool
  GM_LEVEL_IN_WHO_LIST :: uint32

datatype opcode =
    SMSG_CHANNEL_NOTIFY | SMSG_CHANNEL_LIST | SMSG_MESSAGECHAT
  | SMSG_USERLIST_ADD | SMSG_USERLIST_UPDATE | SMSG_USERLIST_REMOVE

record packet =
  pk_opcode :: opcode
  pk_body :: "wire list"

record player_info =
  pi_player :: uint64
  pi_flags :: uint8

datatype chan_out =
    SendPacket uint64 packet                           \<comment> \<open>to the session of a player\<close>
  | UPD_CHANNEL bool bool string string string uint32
  | UPD_CHANNEL_USAGE string uint32
  | INS_CHANNEL string uint32
  | DEL_OLD_CHANNELS uint32
  | JoinedChannel uint64
  | LeftChannel uint64

record channel =
  ch_announce :: bool
  ch_ownership :: bool
  ch_IsSaved :: bool
  ch_flags :: uint8
  ch_channelId :: uint32
  ch_Team :: uint32
  ch_ownerGUID :: uint64
  ch_name :: string
  ch_password :: string
  playersStore :: "(uint64 \<times> player_info) list"
  bannedStore :: "uint64 list"
  ch_out :: "chan_out list"

section \<open>Members\<close>

definition MEMBER_FLAG_OWNER :: uint8 where "MEMBER_FLAG_OWNER = 0x01"
definition MEMBER_FLAG_MODERATOR :: uint8 where "MEMBER_FLAG_MODERATOR = 0x02"
definition MEMBER_FLAG_MUTED :: uint8 where "MEMBER_FLAG_MUTED = 0x08"

definition pi_has :: "uint8 \<Rightarrow> player_info \<Rightarrow> bool" where
  "pi_has flag i \<longleftrightarrow> pi_flags i AND flag \<noteq> 0"

definition pi_set :: "uint8 \<Rightarrow> bool \<Rightarrow> player_info \<Rightarrow> player_info" where
  "pi_set flag state i =
     i\<lparr>pi_flags := (if state then pi_flags i OR flag else pi_flags i AND NOT flag)\<rparr>"

definition IsOwner :: "player_info \<Rightarrow> bool" where
  "IsOwner = pi_has MEMBER_FLAG_OWNER"

definition IsModerator :: "player_info \<Rightarrow> bool" where
  "IsModerator = pi_has MEMBER_FLAG_MODERATOR"

definition IsMuted :: "player_info \<Rightarrow> bool" where
  "IsMuted = pi_has MEMBER_FLAG_MUTED"

definition pi_SetOwner :: "bool \<Rightarrow> player_info \<Rightarrow> player_info" where
  "pi_SetOwner = pi_set MEMBER_FLAG_OWNER"

definition pi_SetModerator :: "bool \<Rightarrow> player_info \<Rightarrow> player_info" where
  "pi_SetModerator = pi_set MEMBER_FLAG_MODERATOR"

definition pi_SetMuted :: "bool \<Rightarrow> player_info \<Rightarrow> player_info" where
  "pi_SetMuted = pi_set MEMBER_FLAG_MUTED"

text \<open>\<^verbatim>\<open>playersStore[guid]\<close>: a missing entry is created, with all fields zero.\<close>

definition zero_info :: player_info where
  "zero_info = \<lparr>pi_player = 0, pi_flags = 0\<rparr>"

definition info_of :: "uint64 \<Rightarrow> channel \<Rightarrow> player_info" where
  "info_of g c = (case map_of (playersStore c) g of None \<Rightarrow> zero_info | Some i \<Rightarrow> i)"

definition touch :: "uint64 \<Rightarrow> channel \<Rightarrow> channel" where
  "touch g c = c\<lparr>playersStore := om_put g (info_of g c) (playersStore c)\<rparr>"

definition modify_info :: "uint64 \<Rightarrow> (player_info \<Rightarrow> player_info) \<Rightarrow> channel \<Rightarrow> channel" where
  "modify_info g f c = c\<lparr>playersStore := om_put g (f (info_of g c)) (playersStore c)\<rparr>"

definition erase_member :: "uint64 \<Rightarrow> channel \<Rightarrow> channel" where
  "erase_member g c = c\<lparr>playersStore := om_del g (playersStore c)\<rparr>"

definition IsOn :: "uint64 \<Rightarrow> channel \<Rightarrow> bool" where
  "IsOn g c \<longleftrightarrow> map_of (playersStore c) g \<noteq> None"

definition IsBanned :: "uint64 \<Rightarrow> channel \<Rightarrow> bool" where
  "IsBanned g c \<longleftrightarrow> g \<in> set (bannedStore c)"

definition GetPlayerFlags :: "uint64 \<Rightarrow> channel \<Rightarrow> uint8" where
  "GetPlayerFlags g c = (case map_of (playersStore c) g of None \<Rightarrow> 0 | Some i \<Rightarrow> pi_flags i)"

definition GetNumPlayers :: "channel \<Rightarrow> uint32" where
  "GetNumPlayers c = of_nat (length (playersStore c))"

definition IsConstant :: "channel \<Rightarrow> bool" where
  "IsConstant c \<longleftrightarrow> ch_channelId c \<noteq> 0"

definition ch_HasFlag :: "uint8 \<Rightarrow> channel \<Rightarrow> bool" where
  "ch_HasFlag flag c \<longleftrightarrow> ch_flags c AND flag \<noteq> 0"

text \<open>\<^verbatim>\<open>std::set\<close> of GUIDs, in ascending order.\<close>

definition guid_insert :: "uint64 \<Rightarrow> uint64 list \<Rightarrow> uint64 list" where
  "guid_insert g bs = (if g \<in> set bs then bs else insort g bs)"

section \<open>Sending\<close>

definition emit :: "chan_out \<Rightarrow> channel \<Rightarrow> channel" where
  "emit x c = c\<lparr>ch_out := ch_out c @ [x]\<rparr>"

definition SendToOne :: "chan_env \<Rightarrow> packet \<Rightarrow> uint64 \<Rightarrow> channel \<Rightarrow> channel" where
  "SendToOne E data who c =
     (case FindPlayer E who of None \<Rightarrow> c | Some p \<Rightarrow> emit (SendPacket (p_guid p) data) c)"

definition SendToAll :: "chan_env \<Rightarrow> packet \<Rightarrow> uint64 \<Rightarrow> channel \<Rightarrow> channel" where
  "SendToAll E data guid c =
     fold (\<lambda>e c'. case FindPlayer E (fst e) of
                    None \<Rightarrow> c'
                  | Some p \<Rightarrow> if guid = 0 \<or> \<not> HasIgnore E p guid
                              then emit (SendPacket (p_guid p) data) c' else c')
       (playersStore c) c"

definition SendToAllButOne :: "chan_env \<Rightarrow> packet \<Rightarrow> uint64 \<Rightarrow> channel \<Rightarrow> channel" where
  "SendToAllButOne E data who c =
     fold (\<lambda>e c'. if fst e \<noteq> who
                  then case FindPlayer E (fst e) of
                         None \<Rightarrow> c'
                       | Some p \<Rightarrow> emit (SendPacket (p_guid p) data) c'
                  else c')
       (playersStore c) c"

section \<open>Packets\<close>

definition MakeNotifyPacket :: "uint8 \<Rightarrow> wire list \<Rightarrow> channel \<Rightarrow> packet" where
  "MakeNotifyPacket notify_type payload c =
     \<lparr>pk_opcode = SMSG_CHANNEL_NOTIFY, pk_body = WU8 notify_type # WStr (ch_name c) # payload\<rparr>"

definition MakeJoined where "MakeJoined guid = MakeNotifyPacket 0x00 [WU64 guid]"
definition MakeLeft where "MakeLeft guid = MakeNotifyPacket 0x01 [WU64 guid]"
definition MakeYouJoined where
  "MakeYouJoined c = MakeNotifyPacket 0x02 [WU8 (ch_flags c), WU32 (ch_channelId c), WU32 0] c"
definition MakeYouLeft where
  "MakeYouLeft c = MakeNotifyPacket 0x03 [WU32 (ch_channelId c), WU8 (if IsConstant c then 1 else 0)] c"
definition MakeWrongPassword where "MakeWrongPassword = MakeNotifyPacket 0x04 []"
definition MakeNotMember where "MakeNotMember = MakeNotifyPacket 0x05 []"
definition MakeNotModerator where "MakeNotModerator = MakeNotifyPacket 0x06 []"
definition MakePasswordChanged where "MakePasswordChanged guid = MakeNotifyPacket 0x07 [WU64 guid]"
definition MakeOwnerChanged where "MakeOwnerChanged guid = MakeNotifyPacket 0x08 [WU64 guid]"
definition MakePlayerNotFound where "MakePlayerNotFound name = MakeNotifyPacket 0x09 [WStr name]"
definition MakeNotOwner where "MakeNotOwner = MakeNotifyPacket 0x0A []"
definition MakeChannelOwner where
  "MakeChannelOwner E c =
     (let name = (case GetPlayerNameByGUID E (ch_ownerGUID c) of
                    None \<Rightarrow> ''PLAYER_NOT_FOUND''
                  | Some n \<Rightarrow> if n = [] then ''PLAYER_NOT_FOUND'' else n)
      in MakeNotifyPacket 0x0B
           [WStr (if IsConstant c \<or> ch_ownerGUID c = 0 then ''Nobody'' else name)] c)"
definition MakeModeChange where
  "MakeModeChange guid oldflags c =
     MakeNotifyPacket 0x0C [WU64 guid, WU8 oldflags, WU8 (GetPlayerFlags guid c)] c"
definition MakeAnnouncementsOn where "MakeAnnouncementsOn guid = MakeNotifyPacket 0x0D [WU64 guid]"
definition MakeAnnouncementsOff where "MakeAnnouncementsOff guid = MakeNotifyPacket 0x0E [WU64 guid]"
definition MakeMuted where "MakeMuted = MakeNotifyPacket 0x11 []"
definition MakePlayerKicked where "MakePlayerKicked bad good = MakeNotifyPacket 0x12 [WU64 bad, WU64 good]"
definition MakeBanned where "MakeBanned = MakeNotifyPacket 0x13 []"
definition MakePlayerBanned where "MakePlayerBanned bad good = MakeNotifyPacket 0x14 [WU64 bad, WU64 good]"
definition MakePlayerUnbanned where "MakePlayerUnbanned bad good = MakeNotifyPacket 0x15 [WU64 bad, WU64 good]"
definition MakePlayerNotBanned where "MakePlayerNotBanned name = MakeNotifyPacket 0x16 [WStr name]"
definition MakePlayerAlreadyMember where "MakePlayerAlreadyMember guid = MakeNotifyPacket 0x17 [WU64 guid]"
definition MakeInvite where "MakeInvite guid = MakeNotifyPacket 0x18 [WU64 guid]"
definition MakeInviteWrongFaction where "MakeInviteWrongFaction = MakeNotifyPacket 0x19 []"
definition MakeWrongFaction where "MakeWrongFaction = MakeNotifyPacket 0x1A []"
definition MakeInvalidName where "MakeInvalidName = MakeNotifyPacket 0x1B []"
definition MakeNotModerated where "MakeNotModerated = MakeNotifyPacket 0x1C []"
definition MakePlayerInvited where "MakePlayerInvited name = MakeNotifyPacket 0x1D [WStr name]"
definition MakePlayerInviteBanned where "MakePlayerInviteBanned name = MakeNotifyPacket 0x1E [WStr name]"
definition MakeThrottled where "MakeThrottled = MakeNotifyPacket 0x1F []"
definition MakeNotInArea where "MakeNotInArea = MakeNotifyPacket 0x20 []"
definition MakeNotInLfg where "MakeNotInLfg = MakeNotifyPacket 0x21 []"
definition MakeVoiceOn where "MakeVoiceOn guid = MakeNotifyPacket 0x22 [WU64 guid]"
definition MakeVoiceOff where "MakeVoiceOff guid = MakeNotifyPacket 0x23 [WU64 guid]"

definition JoinNotify :: "chan_env \<Rightarrow> uint64 \<Rightarrow> channel \<Rightarrow> channel" where
  "JoinNotify E guid c =
     (let data = \<lparr>pk_opcode = (if IsConstant c then SMSG_USERLIST_ADD else SMSG_USERLIST_UPDATE),
                  pk_body = [WU64 guid, WU8 (GetPlayerFlags guid c), WU8 (ch_flags c),
                             WU32 (GetNumPlayers c), WStr (ch_name c)]\<rparr>
      in if IsConstant c then SendToAllButOne E data guid c else SendToAll E data 0 c)"

definition LeaveNotify :: "chan_env \<Rightarrow> uint64 \<Rightarrow> channel \<Rightarrow> channel" where
  "LeaveNotify E guid c =
     (let data = \<lparr>pk_opcode = SMSG_USERLIST_REMOVE,
                  pk_body = [WU64 guid, WU8 (ch_flags c), WU32 (GetNumPlayers c), WStr (ch_name c)]\<rparr>
      in if IsConstant c then SendToAllButOne E data guid c else SendToAll E data 0 c)"

section \<open>The database\<close>

text \<open>\<^verbatim>\<open>banlist << (*iter) << ' '\<close> for each banned GUID.\<close>

definition ban_list_str :: "uint64 list \<Rightarrow> string" where
  "ban_list_str bs = concat (map (\<lambda>g. dec_str (unat g) @ [CHR '' '']) bs)"

definition UpdateChannelInDB :: "channel \<Rightarrow> channel" where
  "UpdateChannelInDB c =
     (if ch_IsSaved c
      then emit (UPD_CHANNEL (ch_announce c) (ch_ownership c) (ch_password c)
                   (ban_list_str (bannedStore c)) (ch_name c) (ch_Team c)) c
      else c)"

definition UpdateChannelUseageInDB :: "channel \<Rightarrow> channel" where
  "UpdateChannelUseageInDB c = emit (UPD_CHANNEL_USAGE (ch_name c) (ch_Team c)) c"

text \<open>\<open>duration\<close> is the option \<^verbatim>\<open>CONFIG_PRESERVE_CUSTOM_CHANNEL_DURATION\<close>, in days.\<close>

definition CleanOldChannelsInDB :: "uint32 \<Rightarrow> chan_out list" where
  "CleanOldChannelsInDB duration =
     (if 0 < duration then [DEL_OLD_CHANNELS (duration * of_nat DAY)] else [])"

definition ch_SetPassword :: "string \<Rightarrow> channel \<Rightarrow> channel" where
  "ch_SetPassword npassword c = c\<lparr>ch_password := npassword\<rparr>"

definition ch_SetAnnounce :: "bool \<Rightarrow> channel \<Rightarrow> channel" where
  "ch_SetAnnounce nannounce c = c\<lparr>ch_announce := nannounce\<rparr>"

definition ch_SetOwnership :: "bool \<Rightarrow> channel \<Rightarrow> channel" where
  "ch_SetOwnership ownership c = c\<lparr>ch_ownership := ownership\<rparr>"

section \<open>Construction\<close>

definition CHANNEL_FLAG_CUSTOM :: uint8 where "CHANNEL_FLAG_CUSTOM = 0x01"
definition CHANNEL_FLAG_TRADE :: uint8 where "CHANNEL_FLAG_TRADE = 0x04"
definition CHANNEL_FLAG_NOT_LFG :: uint8 where "CHANNEL_FLAG_NOT_LFG = 0x08"
definition CHANNEL_FLAG_GENERAL :: uint8 where "CHANNEL_FLAG_GENERAL = 0x10"
definition CHANNEL_FLAG_CITY :: uint8 where "CHANNEL_FLAG_CITY = 0x20"
definition CHANNEL_FLAG_LFG :: uint8 where "CHANNEL_FLAG_LFG = 0x40"

definition CHANNEL_DBC_FLAG_TRADE :: uint32 where "CHANNEL_DBC_FLAG_TRADE = 0x00008"
definition CHANNEL_DBC_FLAG_CITY_ONLY2 :: uint32 where "CHANNEL_DBC_FLAG_CITY_ONLY2 = 0x00020"
definition CHANNEL_DBC_FLAG_LFG :: uint32 where "CHANNEL_DBC_FLAG_LFG = 0x40000"

text \<open>A row of \<^verbatim>\<open>CHAR_SEL_CHANNEL\<close>; the list of banned players may be null.\<close>

record channel_row =
  row_announce :: bool
  row_ownership :: bool
  row_password :: string
  row_banned :: "string option"

definition load_banned :: "string list \<Rightarrow> uint64 list" where
  "load_banned tokens =
     fold (\<lambda>t bs. let g = word_of_int (atol t) in if g \<noteq> 0 then guid_insert g bs else bs) tokens []"

text \<open>
  \<^verbatim>\<open>ch\<close> is the entry of the channel store for the id, \<open>preserve\<close> the option to keep custom channels
  in the database, and \<open>row\<close> what the database has.
\<close>

definition Channel_new ::
  "uint32 option \<Rightarrow> bool \<Rightarrow> channel_row option \<Rightarrow> string \<Rightarrow> uint32 \<Rightarrow> uint32 \<Rightarrow> channel" where
  "Channel_new ch preserve row name channelId team =
     (let c = \<lparr>ch_announce = True, ch_ownership = True, ch_IsSaved = False, ch_flags = 0,
               ch_channelId = channelId, ch_Team = team, ch_ownerGUID = 0, ch_name = name,
               ch_password = [], playersStore = [], bannedStore = [], ch_out = []\<rparr>
      in case ch of
           Some dbc \<Rightarrow>
             c\<lparr>ch_announce := False, ch_ownership := False,
               ch_flags := CHANNEL_FLAG_GENERAL
                 OR (if dbc AND CHANNEL_DBC_FLAG_TRADE \<noteq> 0 then CHANNEL_FLAG_TRADE else 0)
                 OR (if dbc AND CHANNEL_DBC_FLAG_CITY_ONLY2 \<noteq> 0 then CHANNEL_FLAG_CITY else 0)
                 OR (if dbc AND CHANNEL_DBC_FLAG_LFG \<noteq> 0 then CHANNEL_FLAG_LFG else CHANNEL_FLAG_NOT_LFG)\<rparr>
         | None \<Rightarrow>
             let c1 = c\<lparr>ch_flags := CHANNEL_FLAG_CUSTOM\<rparr>
             in if \<not> preserve then c1
                else (case row of
                        Some r \<Rightarrow>
                          c1\<lparr>ch_announce := row_announce r, ch_ownership := row_ownership r,
                             ch_password := row_password r,
                             bannedStore := (case row_banned r of
                                               None \<Rightarrow> []
                                             | Some s \<Rightarrow> load_banned (the (Tokenizer s CHR '' '')))\<rparr>
                      | None \<Rightarrow> emit (INS_CHANNEL name team) c1)\<lparr>ch_IsSaved := True\<rparr>)"

section \<open>Ownership and modes\<close>

definition SetOwner :: "chan_env \<Rightarrow> uint64 \<Rightarrow> bool \<Rightarrow> channel \<Rightarrow> channel" where
  "SetOwner E guid exclaim c =
     (let c1 = (if ch_ownerGUID c \<noteq> 0
                then case map_of (playersStore c) (ch_ownerGUID c) of
                       None \<Rightarrow> c
                     | Some i \<Rightarrow> c\<lparr>playersStore := om_put (ch_ownerGUID c) (pi_SetOwner False i) (playersStore c)\<rparr>
                else c);
          c2 = c1\<lparr>ch_ownerGUID := guid\<rparr>
      in if guid = 0 then c2
         else let oldFlag = GetPlayerFlags guid c2;
                  c3 = modify_info guid (pi_SetModerator True) c2;
                  c4 = modify_info guid (pi_SetOwner True) c3;
                  c5 = SendToAll E (MakeModeChange guid oldFlag c4) 0 c4;
                  c6 = (if exclaim then SendToAll E (MakeOwnerChanged guid c5) 0 c5 else c5)
              in UpdateChannelInDB c6)"

text \<open>\<^verbatim>\<open>SetModerator(guid, set)\<close> and \<^verbatim>\<open>SetMute(guid, set)\<close>\<close>

definition set_member_mode ::
  "chan_env \<Rightarrow> (player_info \<Rightarrow> bool) \<Rightarrow> (bool \<Rightarrow> player_info \<Rightarrow> player_info) \<Rightarrow> uint64 \<Rightarrow> bool \<Rightarrow>
   channel \<Rightarrow> channel" where
  "set_member_mode E has change guid state c =
     (let c1 = touch guid c
      in if has (info_of guid c1) \<noteq> state
         then let oldFlag = GetPlayerFlags guid c1;
                  c2 = modify_info guid (change state) c1
              in SendToAll E (MakeModeChange guid oldFlag c2) 0 c2
         else c1)"

definition SetModerator :: "chan_env \<Rightarrow> uint64 \<Rightarrow> bool \<Rightarrow> channel \<Rightarrow> channel" where
  "SetModerator E = set_member_mode E IsModerator pi_SetModerator"

definition SetMute :: "chan_env \<Rightarrow> uint64 \<Rightarrow> bool \<Rightarrow> channel \<Rightarrow> channel" where
  "SetMute E = set_member_mode E IsMuted pi_SetMuted"

section \<open>Leaving and joining\<close>

definition announced :: "chan_env \<Rightarrow> player \<Rightarrow> channel \<Rightarrow> bool" where
  "announced E pl c \<longleftrightarrow>
     ch_announce c \<and> (\<not> IsGMAccount (p_security pl) \<or> \<not> SILENTLY_GM_JOIN_TO_CHANNEL E)"

definition LeaveChannel :: "chan_env \<Rightarrow> player \<Rightarrow> bool \<Rightarrow> channel \<Rightarrow> channel" where
  "LeaveChannel E pl send c =
     (let guid = p_guid pl
      in if \<not> IsOn guid c then (if send then SendToOne E (MakeNotMember c) guid c else c)
         else
          let c1 = (if send
                    then emit (LeftChannel guid) (SendToOne E (MakeYouLeft c) guid c)
                    else c);
              changeowner = IsOwner (info_of guid c1);
              c2 = erase_member guid c1;
              c3 = (if announced E pl c2 then SendToAll E (MakeLeft guid c2) 0 c2 else c2);
              c4 = LeaveNotify E guid c3
          in if IsConstant c4 then c4
             else
              let c5 = UpdateChannelUseageInDB c4
              in if changeowner \<and> ch_ownership c5 \<and> playersStore c5 \<noteq> []
                 then let newowner = pi_player (snd (hd (playersStore c5)));
                          c6 = modify_info newowner (pi_SetModerator True) c5
                      in SetOwner E newowner True c6
                 else c5)"

text \<open>\<^verbatim>\<open>JoinChannel\<close>: the part after the checks, and the whole.\<close>

definition admit :: "chan_env \<Rightarrow> player \<Rightarrow> channel \<Rightarrow> channel" where
  "admit E pl c =
     (let guid = p_guid pl;
          c1 = emit (JoinedChannel guid) c;
          c2 = (if announced E pl c1 then SendToAll E (MakeJoined guid c1) 0 c1 else c1);
          c3 = c2\<lparr>playersStore := om_put guid \<lparr>pi_player = guid, pi_flags = 0\<rparr> (playersStore c2)\<rparr>;
          c4 = SendToOne E (MakeYouJoined c3) guid c3;
          c5 = JoinNotify E guid c4
      in if IsConstant c5 then c5
         else
          let c6 = (if playersStore c5 \<noteq> [] then UpdateChannelUseageInDB c5 else c5)
          in if ch_ownerGUID c6 = 0 \<and> ch_ownership c6
             then modify_info guid (pi_SetModerator True)
                    (SetOwner E guid (1 < length (playersStore c6)) c6)
             else c6)"

definition JoinChannel :: "chan_env \<Rightarrow> player \<Rightarrow> string \<Rightarrow> channel \<Rightarrow> channel" where
  "JoinChannel E pl pass c =
     (let guid = p_guid pl
      in if ch_name c = ''gmfeed'' \<and> IsPlayerAccount (p_security pl) then LeaveChannel E pl True c
         else if IsOn guid c
         then (if \<not> IsConstant c then SendToOne E (MakePlayerAlreadyMember guid c) guid c else c)
         else if IsBanned guid c then SendToOne E (MakeBanned c) guid c
         else if ch_password c \<noteq> [] \<and> pass \<noteq> ch_password c then SendToOne E (MakeWrongPassword c) guid c
         else if ch_HasFlag CHANNEL_FLAG_LFG c \<and> RESTRICTED_LFG_CHANNEL E
                 \<and> IsPlayerAccount (p_security pl) \<and> p_in_group pl
         then SendToOne E (MakeNotInLfg c) guid c
         else admit E pl c)"

section \<open>Moderation\<close>

definition may_moderate :: "player \<Rightarrow> channel \<Rightarrow> bool" where
  "may_moderate pl c \<longleftrightarrow> IsModerator (info_of (p_guid pl) c) \<or> IsGMAccount (p_security pl)"

text \<open>The ban and the notice of a removal, before the victim is erased.\<close>

definition ban_and_notify ::
  "chan_env \<Rightarrow> uint64 \<Rightarrow> uint64 \<Rightarrow> bool \<Rightarrow> bool \<Rightarrow> channel \<Rightarrow> channel" where
  "ban_and_notify E good victim ban notify c =
     (if ban \<and> \<not> IsBanned victim c
      then let d = UpdateChannelInDB (c\<lparr>bannedStore := guid_insert victim (bannedStore c)\<rparr>)
           in if notify then SendToAll E (MakePlayerBanned victim good d) 0 d else d
      else if notify then SendToAll E (MakePlayerKicked victim good c) 0 c
      else c)"

definition KickOrBan :: "chan_env \<Rightarrow> player \<Rightarrow> string \<Rightarrow> bool \<Rightarrow> channel \<Rightarrow> channel" where
  "KickOrBan E pl badname ban c =
     (let good = p_guid pl; gm = IsGMAccount (p_security pl)
      in if \<not> IsOn good c then SendToOne E (MakeNotMember c) good c
         else if \<not> may_moderate pl c then SendToOne E (MakeNotModerator c) good c
         else
          let bad = FindPlayerByName E badname;
              victim = (case bad of None \<Rightarrow> 0 | Some b \<Rightarrow> p_guid b)
          in if victim = 0 \<or> \<not> IsOn victim c then SendToOne E (MakePlayerNotFound badname c) good c
             else
              let changeowner = (ch_ownerGUID c = victim)
              in if \<not> gm \<and> changeowner \<and> good \<noteq> ch_ownerGUID c then SendToOne E (MakeNotOwner c) good c
                 else
                  let notify = (\<not> (gm \<and> SILENTLY_GM_JOIN_TO_CHANNEL E));
                      c1 = ban_and_notify E good victim ban notify c;
                      c2 = emit (LeftChannel victim) (erase_member victim c1)
                  in if changeowner \<and> ch_ownership c2 \<and> playersStore c2 \<noteq> []
                     then SetOwner E good True (modify_info good (pi_SetModerator True) c2)
                     else c2)"

definition UnBan :: "chan_env \<Rightarrow> player \<Rightarrow> string \<Rightarrow> channel \<Rightarrow> channel" where
  "UnBan E pl badname c =
     (let good = p_guid pl
      in if \<not> IsOn good c then SendToOne E (MakeNotMember c) good c
         else if \<not> may_moderate pl c then SendToOne E (MakeNotModerator c) good c
         else
          let victim = (case FindPlayerByName E badname of None \<Rightarrow> 0 | Some b \<Rightarrow> p_guid b)
          in if victim = 0 \<or> \<not> IsBanned victim c then SendToOne E (MakePlayerNotFound badname c) good c
             else let c1 = c\<lparr>bannedStore := filter (\<lambda>g. g \<noteq> victim) (bannedStore c)\<rparr>
                  in UpdateChannelInDB (SendToAll E (MakePlayerUnbanned victim good c1) 0 c1))"

definition Password :: "chan_env \<Rightarrow> player \<Rightarrow> string \<Rightarrow> channel \<Rightarrow> channel" where
  "Password E pl pass c =
     (let guid = p_guid pl
      in if \<not> IsOn guid c then SendToOne E (MakeNotMember c) guid c
         else if \<not> may_moderate pl c then SendToOne E (MakeNotModerator c) guid c
         else let c1 = c\<lparr>ch_password := pass\<rparr>
              in UpdateChannelInDB (SendToAll E (MakePasswordChanged guid c1) 0 c1))"

definition SetMode :: "chan_env \<Rightarrow> player \<Rightarrow> string \<Rightarrow> bool \<Rightarrow> bool \<Rightarrow> channel \<Rightarrow> channel" where
  "SetMode E pl p2n md state c =
     (let guid = p_guid pl; gm = IsGMAccount (p_security pl)
      in if \<not> IsOn guid c then SendToOne E (MakeNotMember c) guid c
         else if \<not> may_moderate pl c then SendToOne E (MakeNotModerator c) guid c
         else if guid = ch_ownerGUID c \<and> p2n = p_name pl \<and> md then c
         else case FindPlayerByName E p2n of
                None \<Rightarrow> SendToOne E (MakePlayerNotFound p2n c) guid c
              | Some newp \<Rightarrow>
                  let victim = p_guid newp
                  in if victim = 0 \<or> \<not> IsOn victim c
                        \<or> ((\<not> gm \<or> \<not> IsGMAccount (p_security newp)) \<and> p_team pl \<noteq> p_team newp
                            \<and> \<not> ALLOW_TWO_SIDE_INTERACTION_CHANNEL E)
                     then SendToOne E (MakePlayerNotFound p2n c) guid c
                     else if ch_ownerGUID c = victim \<and> ch_ownerGUID c \<noteq> guid
                     then SendToOne E (MakeNotOwner c) guid c
                     else if md then SetModerator E victim state c
                     else SetMute E victim state c)"

definition SetOwner_by ::
  "chan_env \<Rightarrow> player \<Rightarrow> string \<Rightarrow> channel \<Rightarrow> channel" where
  "SetOwner_by E pl newname c =
     (let guid = p_guid pl
      in if \<not> IsOn guid c then SendToOne E (MakeNotMember c) guid c
         else if \<not> IsGMAccount (p_security pl) \<and> guid \<noteq> ch_ownerGUID c
         then SendToOne E (MakeNotOwner c) guid c
         else case FindPlayerByName E newname of
                None \<Rightarrow> SendToOne E (MakePlayerNotFound newname c) guid c
              | Some newp \<Rightarrow>
                  let victim = p_guid newp
                  in if victim = 0 \<or> \<not> IsOn victim c
                        \<or> (p_team newp \<noteq> p_team pl \<and> \<not> ALLOW_TWO_SIDE_INTERACTION_CHANNEL E)
                     then SendToOne E (MakePlayerNotFound newname c) guid c
                     else SetOwner E victim True (modify_info victim (pi_SetModerator True) c))"

definition SendWhoOwner :: "chan_env \<Rightarrow> uint64 \<Rightarrow> channel \<Rightarrow> channel" where
  "SendWhoOwner E guid c =
     SendToOne E (if IsOn guid c then MakeChannelOwner E c else MakeNotMember c) guid c"

definition Announce :: "chan_env \<Rightarrow> player \<Rightarrow> channel \<Rightarrow> channel" where
  "Announce E pl c =
     (let guid = p_guid pl
      in if \<not> IsOn guid c then SendToOne E (MakeNotMember c) guid c
         else if \<not> may_moderate pl c then SendToOne E (MakeNotModerator c) guid c
         else let c1 = c\<lparr>ch_announce := \<not> ch_announce c\<rparr>
              in UpdateChannelInDB (SendToAll E
                   (if ch_announce c1 then MakeAnnouncementsOn guid c1 else MakeAnnouncementsOff guid c1) 0 c1))"

section \<open>Listing and talking\<close>

text \<open>
  The number of listed members is written over a placeholder once they are known: the fourth
  item of the packet.
\<close>

definition listed :: "chan_env \<Rightarrow> player \<Rightarrow> uint64 \<Rightarrow> bool" where
  "listed E pl g =
     (case FindPlayer E g of
        None \<Rightarrow> False
      | Some m \<Rightarrow> (\<not> IsPlayerAccount (p_security pl) \<or> p_security m \<le> GM_LEVEL_IN_WHO_LIST E)
                  \<and> IsVisibleGloballyFor E m pl)"

definition ch_List :: "chan_env \<Rightarrow> player \<Rightarrow> channel \<Rightarrow> channel" where
  "ch_List E pl c =
     (let guid = p_guid pl
      in if \<not> IsOn guid c then SendToOne E (MakeNotMember c) guid c
         else
          let start = [WU8 1, WStr (ch_name c), WU8 (ch_flags c)];
              (data, count) =
                fold (\<lambda>e (d, n). if listed E pl (fst e)
                                 then (d @ [WU64 (fst e), WU8 (pi_flags (snd e))], n + 1) else (d, n))
                  (playersStore c) (start @ [WU32 0], 0 :: uint32)
          in SendToOne E \<lparr>pk_opcode = SMSG_CHANNEL_LIST, pk_body = data[length start := WU32 count]\<rparr> guid c)"

definition chat_packet :: "chan_env \<Rightarrow> uint32 \<Rightarrow> uint64 \<Rightarrow> string \<Rightarrow> channel \<Rightarrow> packet" where
  "chat_packet E lang guid what c =
     \<lparr>pk_opcode = SMSG_MESSAGECHAT,
      pk_body = [WU8 0x11, WU32 lang, WU64 guid, WU32 0, WStr (ch_name c), WU64 guid,
                 WU32 (of_nat (length what + 1)), WStr what,
                 WU8 (case FindPlayer E guid of None \<Rightarrow> 0 | Some p \<Rightarrow> p_chat_tag p)]\<rparr>"

definition Say :: "chan_env \<Rightarrow> uint64 \<Rightarrow> string \<Rightarrow> uint32 \<Rightarrow> channel \<Rightarrow> bool \<times> channel" where
  "Say E guid what lang c =
     (if what = [] then (False, c)
      else let lang1 = (if ALLOW_TWO_SIDE_INTERACTION_CHANNEL E then 0 else lang)
           in if \<not> IsOn guid c then (False, SendToOne E (MakeNotMember c) guid c)
              else if IsMuted (info_of guid c) then (False, SendToOne E (MakeMuted c) guid c)
              else let data = chat_packet E lang1 guid what c
                   in case FindPlayer E guid of
                        None \<Rightarrow> (True, c)
                      | Some p \<Rightarrow>
                          if p_can_speak p \<and> \<not> p_can_speak_true p
                          then (False, emit (SendPacket (p_guid p) data) c)
                          else (True, SendToAll E data (if \<not> IsModerator (info_of guid c) then guid else 0) c))"

definition CarbonCopy :: "chan_env \<Rightarrow> uint64 \<Rightarrow> string \<Rightarrow> channel \<Rightarrow> channel" where
  "CarbonCopy E guid what c =
     (if what = [] \<or> ch_name c \<noteq> ''gmfeed'' then c
      else let data = chat_packet E 0 guid what c; c1 = touch guid c
           in SendToAll E data (if \<not> IsModerator (info_of guid c1) then guid else 0) c1)"

definition Invite :: "chan_env \<Rightarrow> player \<Rightarrow> string \<Rightarrow> channel \<Rightarrow> channel" where
  "Invite E pl newname c =
     (let guid = p_guid pl
      in if \<not> IsOn guid c then SendToOne E (MakeNotMember c) guid c
         else case FindPlayerByName E newname of
                None \<Rightarrow> SendToOne E (MakePlayerNotFound newname c) guid c
              | Some newp \<Rightarrow>
                  if \<not> p_gm_visible newp then SendToOne E (MakePlayerNotFound newname c) guid c
                  else if IsBanned (p_guid newp) c then SendToOne E (MakePlayerInviteBanned newname c) guid c
                  else if p_team newp \<noteq> p_team pl \<and> \<not> ALLOW_TWO_SIDE_INTERACTION_CHANNEL E
                  then SendToOne E (MakeInviteWrongFaction c) guid c
                  else if IsOn (p_guid newp) c
                  then SendToOne E (MakePlayerAlreadyMember (p_guid newp) c) guid c
                  else let c1 = (if \<not> HasIgnore E newp guid
                                 then SendToOne E (MakeInvite guid c) (p_guid newp) c else c)
                       in SendToOne E (MakePlayerInvited (p_name newp) c1) guid c1)"

end
