(* ===== verification/Channel_Props.thy ===== *)
theory Channel_Props
  imports Channel
begin

text \<open>
  The chat channel of theory Channel: what its operations keep (an ordered store of members, a
  single owner), who may join, who may moderate, that a ban list survives the database, and what
  goes wrong when an owner removes himself.
\<close>

unbundle bit_operations_syntax

named_theorems ch_simps \<open>effects of the channel primitives on each field\<close>

section \<open>Sending changes the log only\<close>

lemma fold_log:
  assumes "\<And>e c. f e c = c\<lparr>ch_out := ch_out c @ g e\<rparr>"
  shows "fold f es c = c\<lparr>ch_out := ch_out c @ concat (map g es)\<rparr>"
  by (induction es arbitrary: c) (simp_all add: assms)

lemma SendToAll_log: "\<exists>xs. SendToAll E d g c = c\<lparr>ch_out := ch_out c @ xs\<rparr>"
proof -
  let ?g = "\<lambda>e. case FindPlayer E (fst e) of None \<Rightarrow> []
    | Some p \<Rightarrow> if g = 0 \<or> \<not> HasIgnore E p g then [SendPacket (p_guid p) d] else []"
  have "SendToAll E d g c = c\<lparr>ch_out := ch_out c @ concat (map ?g (playersStore c))\<rparr>"
    unfolding SendToAll_def by (rule fold_log) (auto simp: emit_def split: option.splits)
  then show ?thesis by blast
qed

lemma SendToAllButOne_log: "\<exists>xs. SendToAllButOne E d g c = c\<lparr>ch_out := ch_out c @ xs\<rparr>"
proof -
  let ?g = "\<lambda>e. if fst e \<noteq> g then (case FindPlayer E (fst e) of None \<Rightarrow> []
    | Some p \<Rightarrow> [SendPacket (p_guid p) d]) else []"
  have "SendToAllButOne E d g c = c\<lparr>ch_out := ch_out c @ concat (map ?g (playersStore c))\<rparr>"
    unfolding SendToAllButOne_def by (rule fold_log) (auto simp: emit_def split: option.splits)
  then show ?thesis by blast
qed

lemma SendToOne_log: "\<exists>xs. SendToOne E d g c = c\<lparr>ch_out := ch_out c @ xs\<rparr>"
  by (cases "FindPlayer E g") (auto simp: SendToOne_def emit_def intro: exI [of _ "[]"])

text \<open>The state of a channel without its log.\<close>

definition core :: "channel \<Rightarrow> channel" where
  "core c = c\<lparr>ch_out := []\<rparr>"

lemma core_update [ch_simps]: "core (c\<lparr>ch_out := xs\<rparr>) = core c"
  by (simp add: core_def)

lemma core_SendToAll [simp, ch_simps]: "core (SendToAll E d g c) = core c"
  using SendToAll_log [of E d g c] by (auto simp: core_def)

lemma core_SendToAllButOne [simp, ch_simps]: "core (SendToAllButOne E d g c) = core c"
  using SendToAllButOne_log [of E d g c] by (auto simp: core_def)

lemma core_SendToOne [simp, ch_simps]: "core (SendToOne E d g c) = core c"
  using SendToOne_log [of E d g c] by (auto simp: core_def)

lemma core_emit [simp, ch_simps]: "core (emit x c) = core c"
  by (simp add: core_def emit_def)

lemma core_UpdateChannelInDB [simp, ch_simps]: "core (UpdateChannelInDB c) = core c"
  by (simp add: UpdateChannelInDB_def)

lemma core_UpdateChannelUseageInDB [simp, ch_simps]: "core (UpdateChannelUseageInDB c) = core c"
  by (simp add: UpdateChannelUseageInDB_def)

lemma core_JoinNotify [simp, ch_simps]: "core (JoinNotify E g c) = core c"
  by (simp add: JoinNotify_def Let_def)

lemma core_LeaveNotify [simp, ch_simps]: "core (LeaveNotify E g c) = core c"
  by (simp add: LeaveNotify_def Let_def)

text \<open>The fields read through the core.\<close>

lemma core_fields:
  "playersStore (core c) = playersStore c" "ch_ownerGUID (core c) = ch_ownerGUID c"
  "bannedStore (core c) = bannedStore c" "ch_ownership (core c) = ch_ownership c"
  "ch_channelId (core c) = ch_channelId c" "ch_name (core c) = ch_name c"
  by (simp_all add: core_def)

lemma core_eqD:
  assumes "core c = core d"
  shows "playersStore c = playersStore d" "ch_ownerGUID c = ch_ownerGUID d"
    "bannedStore c = bannedStore d" "ch_ownership c = ch_ownership d"
    "ch_channelId c = ch_channelId d" "ch_name c = ch_name d"
  using assms core_fields by metis+

lemmas sent_fields [simp] =
  core_eqD [OF core_SendToAll] core_eqD [OF core_SendToAllButOne] core_eqD [OF core_SendToOne]
  core_eqD [OF core_emit] core_eqD [OF core_UpdateChannelInDB] core_eqD [OF core_UpdateChannelUseageInDB]
  core_eqD [OF core_JoinNotify] core_eqD [OF core_LeaveNotify]

lemma modify_fields [simp]:
  "playersStore (modify_info g f c) = om_put g (f (info_of g c)) (playersStore c)"
  "ch_ownerGUID (modify_info g f c) = ch_ownerGUID c" "bannedStore (modify_info g f c) = bannedStore c"
  "playersStore (touch g c) = om_put g (info_of g c) (playersStore c)"
  "ch_ownerGUID (touch g c) = ch_ownerGUID c" "bannedStore (touch g c) = bannedStore c"
  "playersStore (erase_member g c) = om_del g (playersStore c)"
  "ch_ownerGUID (erase_member g c) = ch_ownerGUID c" "ch_ownership (erase_member g c) = ch_ownership c" "bannedStore (erase_member g c) = bannedStore c"
  by (simp_all add: modify_info_def touch_def erase_member_def)

section \<open>Member flags\<close>

lemma and_bit_0: "x AND 1 \<noteq> 0 \<longleftrightarrow> bit (x :: uint8) 0"
  using bit_iff_and_push_bit_not_eq_0 [of x 0] by simp

lemma IsOwner_bit: "IsOwner i \<longleftrightarrow> bit (pi_flags i) 0"
  by (simp add: IsOwner_def pi_has_def MEMBER_FLAG_OWNER_def and_bit_0)

lemma IsModerator_bit: "IsModerator i \<longleftrightarrow> bit (pi_flags i) 1"
  using bit_iff_and_push_bit_not_eq_0 [of "pi_flags i" 1]
  by (simp add: IsModerator_def pi_has_def MEMBER_FLAG_MODERATOR_def)

lemma IsOwner_set [simp]:
  "IsOwner (pi_SetModerator b i) = IsOwner i" "IsOwner (pi_SetMuted b i) = IsOwner i"
  "IsOwner (pi_SetOwner b i) = b"
  by (simp_all add: IsOwner_bit pi_SetModerator_def pi_SetMuted_def pi_SetOwner_def pi_set_def
      MEMBER_FLAG_MODERATOR_def MEMBER_FLAG_MUTED_def MEMBER_FLAG_OWNER_def bit_simps)

lemma IsModerator_set [simp]:
  "IsModerator (pi_SetModerator b i) = b" "IsModerator (pi_SetOwner b i) = IsModerator i"
  by (simp_all add: IsModerator_bit pi_SetModerator_def pi_SetOwner_def pi_set_def
      MEMBER_FLAG_MODERATOR_def MEMBER_FLAG_OWNER_def bit_simps)

lemma zero_info_flags [simp]: "\<not> IsOwner zero_info" "\<not> IsModerator zero_info"
  by (simp_all add: IsOwner_bit IsModerator_bit zero_info_def)

section \<open>The invariant\<close>

definition ch_inv :: "channel \<Rightarrow> bool" where
  "ch_inv c \<longleftrightarrow> om_ok (playersStore c) \<and> sorted (bannedStore c) \<and> distinct (bannedStore c)
     \<and> (\<forall>g i. map_of (playersStore c) g = Some i \<longrightarrow> IsOwner i \<longrightarrow> g = ch_ownerGUID c \<and> g \<noteq> 0)"

lemma ch_inv_core: "ch_inv (core c) = ch_inv c"
  by (simp add: ch_inv_def core_fields)

lemma ch_inv_cong: "core c = core d \<Longrightarrow> ch_inv c = ch_inv d"
  by (metis ch_inv_core)

lemmas ch_inv_sent [simp] =
  ch_inv_cong [OF core_SendToAll] ch_inv_cong [OF core_SendToAllButOne] ch_inv_cong [OF core_SendToOne]
  ch_inv_cong [OF core_emit] ch_inv_cong [OF core_UpdateChannelInDB]
  ch_inv_cong [OF core_UpdateChannelUseageInDB] ch_inv_cong [OF core_JoinNotify]
  ch_inv_cong [OF core_LeaveNotify]

lemma ch_inv_fields [simp]:
  "ch_inv (c\<lparr>ch_password := p\<rparr>) = ch_inv c" "ch_inv (c\<lparr>ch_announce := a\<rparr>) = ch_inv c"
  "ch_inv (ch_SetPassword p c) = ch_inv c" "ch_inv (ch_SetAnnounce a c) = ch_inv c"
  "ch_inv (ch_SetOwnership a c) = ch_inv c"
  by (simp_all add: ch_inv_def ch_SetPassword_def ch_SetAnnounce_def ch_SetOwnership_def)

lemma owner_info: "ch_inv c \<Longrightarrow> IsOwner (info_of g c) \<Longrightarrow> g = ch_ownerGUID c \<and> g \<noteq> 0"
  by (auto simp: ch_inv_def info_of_def split: option.splits)

lemma ch_inv_modify:
  assumes "ch_inv c" and "\<And>i. IsOwner (f i) = IsOwner i"
  shows "ch_inv (modify_info g f c)"
  using assms owner_info [OF assms(1), of g] by (auto simp: ch_inv_def split: if_splits)

lemma ch_inv_touch: "ch_inv c \<Longrightarrow> ch_inv (touch g c)"
  using owner_info [of c g] by (auto simp: ch_inv_def split: if_splits)

lemma ch_inv_erase: "ch_inv c \<Longrightarrow> ch_inv (erase_member g c)"
  by (auto simp: ch_inv_def split: if_splits)

lemma ch_inv_SetOwner:
  assumes "ch_inv c"
  shows "ch_inv (SetOwner E g ex c)"
proof -
  let ?o = "ch_ownerGUID c"
  define c1 where "c1 = (if ?o \<noteq> 0
    then case map_of (playersStore c) ?o of None \<Rightarrow> c
         | Some i \<Rightarrow> c\<lparr>playersStore := om_put ?o (pi_SetOwner False i) (playersStore c)\<rparr> else c)"
  have ord: "om_ok (playersStore c1)" "bannedStore c1 = bannedStore c"
    using assms by (auto simp: c1_def ch_inv_def split: option.splits)
  have none: "\<not> IsOwner i" if "map_of (playersStore c1) h = Some i" for h i
    using that assms by (auto simp: c1_def ch_inv_def split: option.splits if_splits)
  let ?c4 = "modify_info g (pi_SetOwner True) (modify_info g (pi_SetModerator True) (c1\<lparr>ch_ownerGUID := g\<rparr>))"
  show ?thesis
  proof (cases "g = 0")
    case True
    then have "SetOwner E g ex c = c1\<lparr>ch_ownerGUID := 0\<rparr>"
      by (simp add: SetOwner_def c1_def Let_def)
    moreover have "ch_inv (c1\<lparr>ch_ownerGUID := 0\<rparr>)"
      using ord none assms by (auto simp: ch_inv_def)
    ultimately show ?thesis by simp
  next
    case False
    have "core (SetOwner E g ex c) = core ?c4"
      using False by (simp add: SetOwner_def c1_def [symmetric] Let_def)
    moreover have "ch_inv ?c4"
      using False ord none assms by (auto simp: ch_inv_def)
    ultimately show ?thesis by (metis ch_inv_cong)
  qed
qed

lemma ch_inv_set_member_mode:
  assumes "ch_inv c" and "\<And>b i. IsOwner (change b i) = IsOwner i"
  shows "ch_inv (set_member_mode E has change g b c)"
  using ch_inv_modify [OF ch_inv_touch [OF assms(1)], of "change b" g g] ch_inv_touch [OF assms(1)]
    assms(2)
  by (simp add: set_member_mode_def Let_def)

lemma ch_inv_LeaveChannel: "ch_inv c \<Longrightarrow> ch_inv (LeaveChannel E pl send c)"
  unfolding LeaveChannel_def Let_def
  by (auto intro!: ch_inv_SetOwner ch_inv_modify ch_inv_erase)

text \<open>A new member joins a channel, in terms of the core.\<close>

definition with_member :: "uint64 \<Rightarrow> channel \<Rightarrow> channel" where
  "with_member g c = c\<lparr>playersStore := om_put g \<lparr>pi_player = g, pi_flags = 0\<rparr> (playersStore c)\<rparr>"

lemma core_with_member: "core c = core d \<Longrightarrow> core (with_member g c) = core (with_member g d)"
proof -
  assume eq: "core c = core d"
  have "core (with_member g c) = with_member g (core c)" for c by (simp add: core_def with_member_def)
  with eq show ?thesis by simp
qed

lemma IsConstant_cong: "core c = core d \<Longrightarrow> IsConstant c = IsConstant d"
  unfolding IsConstant_def by (drule core_eqD(5)) simp

lemma admit_core:
  "\<exists>d. core d = core (with_member (p_guid pl) c) \<and>
     admit E pl c = (if \<not> IsConstant c \<and> ch_ownerGUID c = 0 \<and> ch_ownership c
       then modify_info (p_guid pl) (pi_SetModerator True)
              (SetOwner E (p_guid pl) (1 < length (playersStore d)) d)
       else d)"
proof -
  let ?g = "p_guid pl"
  define c1 where "c1 = emit (JoinedChannel ?g) c"
  define c2 where "c2 = (if announced E pl c1 then SendToAll E (MakeJoined ?g c1) 0 c1 else c1)"
  define c3 where "c3 = with_member ?g c2"
  define c5 where "c5 = JoinNotify E ?g (SendToOne E (MakeYouJoined c3) ?g c3)"
  define c6 where "c6 = (if playersStore c5 \<noteq> [] then UpdateChannelUseageInDB c5 else c5)"
  have "core c2 = core c" by (simp add: c2_def c1_def)
  then have core3: "core c3 = core (with_member ?g c)" unfolding c3_def by (rule core_with_member)
  then have core5: "core c5 = core (with_member ?g c)" by (simp add: c5_def)
  then have core6: "core c6 = core (with_member ?g c)" by (simp add: c6_def)
  have f: "IsConstant c5 = IsConstant c" "ch_ownerGUID c6 = ch_ownerGUID c" "ch_ownership c6 = ch_ownership c"
    using IsConstant_cong [OF core5] core_eqD [OF core6] by (simp_all add: with_member_def IsConstant_def)
  have "admit E pl c = (if IsConstant c5 then c5 else if ch_ownerGUID c6 = 0 \<and> ch_ownership c6
      then modify_info ?g (pi_SetModerator True) (SetOwner E ?g (1 < length (playersStore c6)) c6) else c6)"
    unfolding admit_def Let_def c6_def c5_def c3_def c2_def c1_def with_member_def by (rule refl)
  then show ?thesis
    using f core5 core6 by (intro exI [of _ "if IsConstant c then c5 else c6"]) simp
qed

lemma ch_inv_admit:
  assumes "ch_inv c"
  shows "ch_inv (admit E pl c)"
proof -
  obtain d where d: "core d = core (with_member (p_guid pl) c)"
    and a: "admit E pl c = (if \<not> IsConstant c \<and> ch_ownerGUID c = 0 \<and> ch_ownership c
       then modify_info (p_guid pl) (pi_SetModerator True)
              (SetOwner E (p_guid pl) (1 < length (playersStore d)) d)
       else d)"
    using admit_core by blast
  have "ch_inv (with_member (p_guid pl) c)"
    using assms by (auto simp: with_member_def ch_inv_def IsOwner_bit split: if_splits)
  with d have "ch_inv d" using ch_inv_cong by blast
  then show ?thesis unfolding a by (simp add: ch_inv_modify ch_inv_SetOwner)
qed

lemma ch_inv_JoinChannel: "ch_inv c \<Longrightarrow> ch_inv (JoinChannel E pl pass c)"
  unfolding JoinChannel_def Let_def by (simp add: ch_inv_LeaveChannel ch_inv_admit)

lemma ch_inv_bans:
  "ch_inv c \<Longrightarrow> ch_inv (c\<lparr>bannedStore := guid_insert g (bannedStore c)\<rparr>)"
  "ch_inv c \<Longrightarrow> ch_inv (c\<lparr>bannedStore := filter P (bannedStore c)\<rparr>)"
  by (auto simp: ch_inv_def guid_insert_def sorted_insort distinct_insort sorted_filter
      intro: sorted_filter [where f = id, simplified])

lemma ban_and_notify_fields [simp]:
  "playersStore (ban_and_notify E good g ban n c) = playersStore c"
  "ch_ownership (ban_and_notify E good g ban n c) = ch_ownership c"
  "ban \<Longrightarrow> IsBanned g (ban_and_notify E good g ban n c)"
  by (simp_all add: ban_and_notify_def Let_def IsBanned_def guid_insert_def set_insort_key)

lemma ch_inv_ban_and_notify [simp]: "ch_inv c \<Longrightarrow> ch_inv (ban_and_notify E good g ban n c)"
  by (simp add: ban_and_notify_def Let_def ch_inv_bans)

lemma ch_inv_KickOrBan: "ch_inv c \<Longrightarrow> ch_inv (KickOrBan E pl name ban c)"
  unfolding KickOrBan_def Let_def
  by (auto intro!: ch_inv_SetOwner ch_inv_modify ch_inv_erase)

lemma ch_inv_UnBan: "ch_inv c \<Longrightarrow> ch_inv (UnBan E pl name c)"
  unfolding UnBan_def Let_def by (auto intro!: ch_inv_bans)

lemma ch_inv_Password: "ch_inv c \<Longrightarrow> ch_inv (Password E pl pass c)"
  unfolding Password_def Let_def by auto

lemma ch_inv_SetMode: "ch_inv c \<Longrightarrow> ch_inv (SetMode E pl name md b c)"
  unfolding SetMode_def Let_def SetModerator_def SetMute_def
  by (auto intro!: ch_inv_set_member_mode split: option.splits)

lemma ch_inv_SetOwner_by: "ch_inv c \<Longrightarrow> ch_inv (SetOwner_by E pl name c)"
  unfolding SetOwner_by_def Let_def by (auto intro!: ch_inv_SetOwner ch_inv_modify split: option.splits)

lemma ch_inv_Announce: "ch_inv c \<Longrightarrow> ch_inv (Announce E pl c)"
  unfolding Announce_def Let_def by auto

lemma ch_inv_CarbonCopy: "ch_inv c \<Longrightarrow> ch_inv (CarbonCopy E g what c)"
  unfolding CarbonCopy_def Let_def by (auto intro: ch_inv_touch)

section \<open>Sequences of operations\<close>

datatype ch_op =
    OpJoin player string | OpLeave player bool | OpKickOrBan player string bool | OpUnBan player string
  | OpPassword player string | OpSetMode player string bool bool | OpSetOwner player string
  | OpWhoOwner uint64 | OpList player | OpAnnounce player | OpSay uint64 string uint32
  | OpCarbonCopy uint64 string | OpInvite player string
  | OpSetPassword string | OpSetAnnounce bool | OpSetOwnership bool

fun ch_apply :: "chan_env \<Rightarrow> ch_op \<Rightarrow> channel \<Rightarrow> channel" where
  "ch_apply E (OpJoin pl pass) c = JoinChannel E pl pass c"
| "ch_apply E (OpLeave pl send) c = LeaveChannel E pl send c"
| "ch_apply E (OpKickOrBan pl name ban) c = KickOrBan E pl name ban c"
| "ch_apply E (OpUnBan pl name) c = UnBan E pl name c"
| "ch_apply E (OpPassword pl pass) c = Password E pl pass c"
| "ch_apply E (OpSetMode pl name md b) c = SetMode E pl name md b c"
| "ch_apply E (OpSetOwner pl name) c = SetOwner_by E pl name c"
| "ch_apply E (OpWhoOwner g) c = SendWhoOwner E g c"
| "ch_apply E (OpList pl) c = ch_List E pl c"
| "ch_apply E (OpAnnounce pl) c = Announce E pl c"
| "ch_apply E (OpSay g what lang) c = snd (Say E g what lang c)"
| "ch_apply E (OpCarbonCopy g what) c = CarbonCopy E g what c"
| "ch_apply E (OpInvite pl name) c = Invite E pl name c"
| "ch_apply E (OpSetPassword pass) c = ch_SetPassword pass c"
| "ch_apply E (OpSetAnnounce b) c = ch_SetAnnounce b c"
| "ch_apply E (OpSetOwnership b) c = ch_SetOwnership b c"

lemma core_quiet:
  "core (SendWhoOwner E g c) = core c" "core (ch_List E pl c) = core c"
  "core (snd (Say E g what lang c)) = core c" "core (Invite E pl name c) = core c"
  by (auto simp: SendWhoOwner_def ch_List_def Say_def Invite_def Let_def case_prod_unfold split: option.splits)

lemma ch_inv_apply: "ch_inv c \<Longrightarrow> ch_inv (ch_apply E x c)"
  by (cases x) (simp_all add: ch_inv_JoinChannel ch_inv_LeaveChannel ch_inv_KickOrBan ch_inv_UnBan
      ch_inv_Password ch_inv_SetMode ch_inv_SetOwner_by ch_inv_Announce ch_inv_CarbonCopy
      ch_inv_cong [OF core_quiet(1)] ch_inv_cong [OF core_quiet(2)] ch_inv_cong [OF core_quiet(3)]
      ch_inv_cong [OF core_quiet(4)])

lemma ch_inv_run: "ch_inv c \<Longrightarrow> ch_inv (fold (\<lambda>(E, x). ch_apply E x) xs c)"
  by (induction xs arbitrary: c) (auto simp: ch_inv_apply)

lemma guid_insert_ok:
  "sorted bs \<Longrightarrow> distinct bs \<Longrightarrow> sorted (guid_insert g bs) \<and> distinct (guid_insert g bs)"
  by (simp add: guid_insert_def sorted_insort distinct_insort)

lemma load_banned_ok: "sorted (load_banned ts) \<and> distinct (load_banned ts)"
proof -
  have "sorted bs \<and> distinct bs \<Longrightarrow>
    (let r = fold (\<lambda>t bs. let g = word_of_int (atol t) in if g \<noteq> 0 then guid_insert g bs else bs) ts bs
     in sorted r \<and> distinct r)" for bs
    by (induction ts arbitrary: bs) (auto simp: Let_def guid_insert_ok)
  from this [of "[]"] show ?thesis by (simp add: load_banned_def Let_def)
qed

lemma ch_inv_new: "ch_inv (Channel_new ch preserve row name cid team)"
  using load_banned_ok
  by (auto simp: Channel_new_def ch_inv_def emit_def Let_def split: option.splits)

section \<open>Effects on the membership\<close>

lemma IsOn_cong: "core c = core d \<Longrightarrow> IsOn g c = IsOn g d"
  unfolding IsOn_def by (drule core_eqD(1)) simp

lemma info_of_cong: "core c = core d \<Longrightarrow> info_of g c = info_of g d"
  unfolding info_of_def by (drule core_eqD(1)) simp

lemma IsOn_modify [simp]:
  "IsOn g (modify_info h f c) \<longleftrightarrow> g = h \<or> IsOn g c" "IsOn g (erase_member h c) \<longleftrightarrow> g \<noteq> h \<and> IsOn g c"
  "IsOn g (with_member h c) \<longleftrightarrow> g = h \<or> IsOn g c"
  by (auto simp: IsOn_def with_member_def)

lemma info_of_modify [simp]:
  "info_of g (modify_info h f c) = (if g = h then f (info_of h c) else info_of g c)"
  by (simp add: info_of_def)

text \<open>The store after the first half of \<^verbatim>\<open>SetOwner\<close>: the old owner has lost the owner flag.\<close>

definition unowned :: "channel \<Rightarrow> channel" where
  "unowned c =
     (if ch_ownerGUID c \<noteq> 0
      then case map_of (playersStore c) (ch_ownerGUID c) of
             None \<Rightarrow> c
           | Some i \<Rightarrow> c\<lparr>playersStore := om_put (ch_ownerGUID c) (pi_SetOwner False i) (playersStore c)\<rparr>
      else c)"

lemma SetOwner_core:
  assumes "g \<noteq> 0"
  shows "core (SetOwner E g ex c) = core (modify_info g (pi_SetOwner True)
    (modify_info g (pi_SetModerator True) ((unowned c)\<lparr>ch_ownerGUID := g\<rparr>)))"
  using assms by (simp add: SetOwner_def unowned_def [symmetric] Let_def)

lemma IsOn_unowned [simp]: "IsOn g ((unowned c)\<lparr>ch_ownerGUID := x\<rparr>) = IsOn g c"
  by (auto simp: IsOn_def unowned_def split: option.splits)

lemma info_of_unowned:
  "pi_player (info_of g ((unowned c)\<lparr>ch_ownerGUID := x\<rparr>)) = pi_player (info_of g c)"
  by (auto simp: info_of_def unowned_def pi_SetOwner_def pi_set_def split: option.splits)

lemma SetOwner_effect:
  assumes "g \<noteq> 0"
  shows "ch_ownerGUID (SetOwner E g ex c) = g" and "IsOwner (info_of g (SetOwner E g ex c))"
    and "IsModerator (info_of g (SetOwner E g ex c))"
    and "pi_player (info_of g (SetOwner E g ex c)) = pi_player (info_of g c)"
    and "IsOn h (SetOwner E g ex c) \<longleftrightarrow> h = g \<or> IsOn h c"
    and "bannedStore (SetOwner E g ex c) = bannedStore c"
proof -
  note core = SetOwner_core [OF assms, of E ex c]
  have pl: "pi_player (pi_SetOwner b i) = pi_player i" "pi_player (pi_SetModerator b i) = pi_player i" for b i
    by (simp_all add: pi_SetOwner_def pi_SetModerator_def pi_set_def)
  show "ch_ownerGUID (SetOwner E g ex c) = g" using core_eqD(2) [OF core] by simp
  show "bannedStore (SetOwner E g ex c) = bannedStore c"
    using core_eqD(3) [OF core] by (simp add: unowned_def split: option.splits)
  show "IsOwner (info_of g (SetOwner E g ex c))" and "IsModerator (info_of g (SetOwner E g ex c))"
    and "pi_player (info_of g (SetOwner E g ex c)) = pi_player (info_of g c)"
    unfolding info_of_cong [OF core] by (simp_all add: pl info_of_unowned)
  show "IsOn h (SetOwner E g ex c) \<longleftrightarrow> h = g \<or> IsOn h c"
    unfolding IsOn_cong [OF core] by auto
qed

lemma IsOn_SetOwner: "IsOn h (SetOwner E g ex c) \<longleftrightarrow> (h = g \<and> g \<noteq> 0) \<or> IsOn h c"
proof (cases "g = 0")
  case True
  then have "SetOwner E g ex c = (unowned c)\<lparr>ch_ownerGUID := 0\<rparr>"
    by (simp add: SetOwner_def unowned_def [symmetric] Let_def)
  with True show ?thesis by simp
next
  case False
  then show ?thesis using SetOwner_effect(5) by simp
qed

lemma IsOn_admit: "IsOn h (admit E pl c) \<longleftrightarrow> h = p_guid pl \<or> IsOn h c"
proof -
  obtain d where d: "core d = core (with_member (p_guid pl) c)"
    and a: "admit E pl c = (if \<not> IsConstant c \<and> ch_ownerGUID c = 0 \<and> ch_ownership c
       then modify_info (p_guid pl) (pi_SetModerator True)
              (SetOwner E (p_guid pl) (1 < length (playersStore d)) d)
       else d)"
    using admit_core by blast
  have "IsOn h d \<longleftrightarrow> h = p_guid pl \<or> IsOn h c" for h using IsOn_cong [OF d] by simp
  then show ?thesis unfolding a by (auto simp: IsOn_SetOwner)
qed

lemma LeaveChannel_core:
  assumes "IsOn (p_guid pl) c"
  shows "\<exists>d. core d = core (erase_member (p_guid pl) c) \<and>
    LeaveChannel E pl send c =
      (if \<not> IsConstant c \<and> IsOwner (info_of (p_guid pl) c) \<and> ch_ownership c \<and> playersStore d \<noteq> []
       then let n = pi_player (snd (hd (playersStore d)))
            in SetOwner E n True (modify_info n (pi_SetModerator True) d)
       else d)"
proof -
  let ?g = "p_guid pl"
  define c1 where "c1 = (if send then emit (LeftChannel ?g) (SendToOne E (MakeYouLeft c) ?g c) else c)"
  define c2 where "c2 = erase_member ?g c1"
  define c3 where "c3 = (if announced E pl c2 then SendToAll E (MakeLeft ?g c2) 0 c2 else c2)"
  define c4 where "c4 = LeaveNotify E ?g c3"
  define c5 where "c5 = UpdateChannelUseageInDB c4"
  have core1: "core c1 = core c" by (simp add: c1_def)
  have "core (erase_member g x) = erase_member g (core x)" for g x
    by (simp add: core_def erase_member_def)
  with core1 have core2: "core c2 = core (erase_member ?g c)" by (simp add: c2_def)
  then have core4: "core c4 = core (erase_member ?g c)" by (simp add: c4_def c3_def)
  then have core5: "core c5 = core (erase_member ?g c)" by (simp add: c5_def)
  have f: "IsConstant c4 = IsConstant c" "ch_ownership c5 = ch_ownership c"
    using IsConstant_cong [OF core4] core_eqD(4) [OF core5]
    by (simp_all add: erase_member_def IsConstant_def)
  have "LeaveChannel E pl send c = (if IsConstant c4 then c4
      else if IsOwner (info_of ?g c1) \<and> ch_ownership c5 \<and> playersStore c5 \<noteq> []
      then SetOwner E (pi_player (snd (hd (playersStore c5)))) True
             (modify_info (pi_player (snd (hd (playersStore c5)))) (pi_SetModerator True) c5)
      else c5)"
    unfolding LeaveChannel_def Let_def c5_def c4_def c3_def c2_def c1_def
    using assms by simp
  then show ?thesis
    using f core4 core5 info_of_cong [OF core1]
    by (intro exI [of _ "if IsConstant c then c4 else c5"]) (simp add: Let_def)
qed

section \<open>Guards\<close>

lemma guarded_ops:
  assumes "\<not> (IsOn (p_guid pl) c \<and> may_moderate pl c)"
  shows "core (KickOrBan E pl name ban c) = core c" and "core (UnBan E pl name c) = core c"
    and "core (Password E pl pass c) = core c" and "core (SetMode E pl name md b c) = core c"
    and "core (Announce E pl c) = core c"
proof -
  consider "\<not> IsOn (p_guid pl) c" | "IsOn (p_guid pl) c" "\<not> may_moderate pl c" using assms by blast
  note cs = this
  show "core (KickOrBan E pl name ban c) = core c" by (cases rule: cs) (simp_all add: KickOrBan_def)
  show "core (UnBan E pl name c) = core c" by (cases rule: cs) (simp_all add: UnBan_def)
  show "core (Password E pl pass c) = core c" by (cases rule: cs) (simp_all add: Password_def)
  show "core (SetMode E pl name md b c) = core c" by (cases rule: cs) (simp_all add: SetMode_def)
  show "core (Announce E pl c) = core c" by (cases rule: cs) (simp_all add: Announce_def)
qed

lemma owner_protected:
  assumes "\<not> IsGMAccount (p_security pl)" and "p_guid pl \<noteq> ch_ownerGUID c"
    and "map_option p_guid (FindPlayerByName E name) = Some (ch_ownerGUID c)"
  shows "core (KickOrBan E pl name ban c) = core c" and "core (SetMode E pl name md b c) = core c"
proof -
  obtain p where p: "FindPlayerByName E name = Some p" "p_guid p = ch_ownerGUID c" using assms(3) by auto
  show "core (KickOrBan E pl name ban c) = core c"
    using assms(1,2) p by (simp add: KickOrBan_def Let_def)
  show "core (SetMode E pl name md b c) = core c"
    using assms(1,2) p by (simp add: SetMode_def Let_def)
qed

section \<open>The list of banned players in the database\<close>

lemma atol_dec_str: "atol (dec_str n) = int n"
proof -
  obtain c cs where d: "dec_str n = c # cs"
    by (cases "dec_str n") (auto simp: dec_str.simps [of n] split: if_splits)
  have digits: "\<forall>x \<in> set (dec_str n). isdigit x" by (simp add: isdigit_dec_str)
  with d have "isdigit c" by simp
  then have "\<not> c_isspace c" and "c \<noteq> CHR ''-''" and "c \<noteq> CHR ''+''"
    by (auto simp: c_isspace_def isdigit_def)
  moreover have "takeWhile isdigit (dec_str n) = dec_str n" using digits by (simp add: takeWhile_eq_all_conv)
  ultimately show ?thesis
    using d digits_val_dec_str [of n] by (simp add: atol_def)
qed

lemma guid_insert_end: "\<forall>x \<in> set bs. x < g \<Longrightarrow> guid_insert g bs = bs @ [g]"
  by (induction bs) (auto simp: guid_insert_def split: if_splits)

lemma load_ban_list:
  assumes "sorted bs" and "distinct bs" and "0 \<notin> set bs"
  shows "load_banned (map (\<lambda>g. dec_str (unat g)) bs) = bs"
  unfolding load_banned_def using assms
proof (induction bs rule: rev_induct)
  case (snoc g bs)
  have "x < g" if "x \<in> set bs" for x
    using snoc.prems that by (auto simp: sorted_append order_less_le)
  with snoc show ?case by (auto simp: sorted_append atol_dec_str guid_insert_end Let_def)
qed simp

lemma tokens_of_ban_list: "Tokenizer (ban_list_str bs) CHR '' '' = Some (map (\<lambda>g. dec_str (unat g)) bs)"
proof -
  have "ban_list_str bs = concat (map (\<lambda>t. t @ [CHR '' '']) (map (\<lambda>g. dec_str (unat g)) bs))"
    by (simp add: ban_list_str_def comp_def)
  moreover have "\<forall>t \<in> set (map (\<lambda>g. dec_str (unat g)) bs @ [[]]). CHR '' '' \<notin> set t \<and> CHR 0x00 \<notin> set t"
    using not_digit_not_in_dec letters_not_digits by auto
  ultimately show ?thesis
    using tokenize_loop_all [of "CHR '' ''" "map (\<lambda>g. dec_str (unat g)) bs" "[]"]
    by (simp add: Tokenizer_def)
qed

section \<open>Properties\<close>

text \<open>
  C6. In every channel that is created by the constructor and then used by any players, in any
  surroundings, through any sequence of operations: the members are stored in order without
  duplicates, the banned players too, and at most one member carries the owner flag, the one
  \<^verbatim>\<open>_ownerGUID\<close> names.
\<close>

theorem channel_invariant:
  fixes xs :: "(chan_env \<times> ch_op) list" and ch preserve row name cid team
  defines "c \<equiv> fold (\<lambda>(E, x). ch_apply E x) xs (Channel_new ch preserve row name cid team)"
  shows "om_ok (playersStore c) \<and> sorted (bannedStore c) \<and> distinct (bannedStore c)
    \<and> {g. IsOn g c \<and> IsOwner (info_of g c)} \<subseteq> {ch_ownerGUID c} - {0}"
proof -
  have inv: "ch_inv c" unfolding c_def by (rule ch_inv_run [OF ch_inv_new])
  then have "{g. IsOn g c \<and> IsOwner (info_of g c)} \<subseteq> {ch_ownerGUID c} - {0}"
    using owner_info by blast
  with inv show ?thesis unfolding ch_inv_def by blast
qed

text \<open>
  C26. A player who is not on a channel becomes a member by \<^verbatim>\<open>JoinChannel\<close> exactly when he may: he is
  not kept out of the game masters' channel, not banned, gives the right password if there is
  one, and is not kept out of the group channel; nobody else's membership changes.
\<close>

theorem join_admits_exactly:
  assumes "\<not> IsOn (p_guid pl) c"
  shows "(IsOn (p_guid pl) (JoinChannel E pl pass c) \<longleftrightarrow>
      \<not> (ch_name c = ''gmfeed'' \<and> IsPlayerAccount (p_security pl)) \<and> \<not> IsBanned (p_guid pl) c
      \<and> (ch_password c = [] \<or> pass = ch_password c)
      \<and> \<not> (ch_HasFlag CHANNEL_FLAG_LFG c \<and> RESTRICTED_LFG_CHANNEL E
            \<and> IsPlayerAccount (p_security pl) \<and> p_in_group pl))
    \<and> (g \<noteq> p_guid pl \<longrightarrow> IsOn g (JoinChannel E pl pass c) = IsOn g c)"
proof -
  have leave: "core (LeaveChannel E pl True c) = core c"
    using assms by (simp add: LeaveChannel_def Let_def)
  show ?thesis
    using assms
    by (simp add: JoinChannel_def Let_def IsOn_admit IsOn_cong [OF leave] IsOn_cong [OF core_SendToOne])
qed

definition sample_player :: player where
  "sample_player = \<lparr>p_guid = 1, p_name = ''a'', p_security = 0, p_team = 469, p_in_group = False,
     p_gm_visible = True, p_chat_tag = 0, p_can_speak = True, p_can_speak_true = True\<rparr>"

definition sample_env :: chan_env where
  "sample_env = \<lparr>FindPlayer = (\<lambda>_. None), FindPlayerByName = (\<lambda>n. if n = ''a'' then Some sample_player else None),
     GetPlayerNameByGUID = (\<lambda>_. None), HasIgnore = (\<lambda>_ _. False), IsVisibleGloballyFor = (\<lambda>_ _. True),
     ALLOW_TWO_SIDE_INTERACTION_CHANNEL = False, SILENTLY_GM_JOIN_TO_CHANNEL = False,
     RESTRICTED_LFG_CHANNEL = False, GM_LEVEL_IN_WHO_LIST = 0\<rparr>"

text \<open>A custom channel whose owner is the player 1, with the player 2 as another member.\<close>

definition sample_channel :: channel where
  "sample_channel = \<lparr>ch_announce = True, ch_ownership = True, ch_IsSaved = False, ch_flags = 1,
     ch_channelId = 0, ch_Team = 469, ch_ownerGUID = 1, ch_name = ''x'', ch_password = [],
     playersStore = [(1, \<lparr>pi_player = 1, pi_flags = 3\<rparr>), (2, \<lparr>pi_player = 2, pi_flags = 0\<rparr>)],
     bannedStore = [], ch_out = []\<rparr>"

theorem join_admits_exactly_witness:
  "IsOn 1 (JoinChannel sample_env sample_player [] (Channel_new None False None ''x'' 0 469))"
proof -
  let ?c = "Channel_new None False None ''x'' 0 469"
  have "\<not> IsOn (p_guid sample_player) ?c" by (simp add: Channel_new_def IsOn_def)
  from join_admits_exactly [OF this, of sample_env "[]" 1] show ?thesis
    by (simp add: Channel_new_def IsBanned_def sample_env_def sample_player_def)
qed

text \<open>
  C27. Moderation is guarded: for a player who is not on the channel, or who is neither a moderator
  nor a game master, none of \<^verbatim>\<open>KickOrBan\<close>, \<^verbatim>\<open>UnBan\<close>, \<^verbatim>\<open>Password\<close>, \<^verbatim>\<open>SetMode\<close> and \<^verbatim>\<open>Announce\<close> changes
  the state of the channel (they only answer); and a moderator who is neither the owner nor a
  game master can neither kick or ban the owner nor change his mode.
\<close>

theorem moderation_guarded:
  "(\<not> (IsOn (p_guid pl) c \<and> may_moderate pl c) \<longrightarrow>
      core (KickOrBan E pl name ban c) = core c \<and> core (UnBan E pl name c) = core c
      \<and> core (Password E pl pass c) = core c \<and> core (SetMode E pl name md b c) = core c
      \<and> core (Announce E pl c) = core c)
   \<and> (\<not> IsGMAccount (p_security pl) \<and> p_guid pl \<noteq> ch_ownerGUID c
        \<and> map_option p_guid (FindPlayerByName E name) = Some (ch_ownerGUID c) \<longrightarrow>
      core (KickOrBan E pl name ban c) = core c \<and> core (SetMode E pl name md b c) = core c)"
  using guarded_ops [of pl c] owner_protected [of pl c E name] by blast

theorem moderation_guarded_witness:
  "core (KickOrBan sample_env (sample_player\<lparr>p_guid := 2\<rparr>) ''a'' True sample_channel) = core sample_channel"
proof -
  have "\<not> may_moderate (sample_player\<lparr>p_guid := 2\<rparr>) sample_channel"
    by (simp add: may_moderate_def info_of_def sample_channel_def sample_player_def IsModerator_bit
        IsGMAccount_def SEC_GAMEMASTER_def)
  then show ?thesis
    using moderation_guarded [of "sample_player\<lparr>p_guid := 2\<rparr>" sample_channel] by blast
qed

text \<open>
  An owner who kicks or bans himself is not removed while others are on the channel: he is put
  back as its owner (\<^verbatim>\<open>playersStore[newowner]\<close> re-creates the erased entry, with player 0), although
  he is told to have left, and after a ban he is on the list of banned players as well.
\<close>

theorem self_kick_keeps_owner:
  fixes ban :: bool
  assumes "ch_ownerGUID c = p_guid pl" and "p_guid pl \<noteq> 0" and "IsOn (p_guid pl) c"
    and "may_moderate pl c" and "map_option p_guid (FindPlayerByName E name) = Some (p_guid pl)"
    and "ch_ownership c" and "IsOn other c" and "other \<noteq> p_guid pl"
  defines "c' \<equiv> KickOrBan E pl name ban c"
  shows "IsOn (p_guid pl) c' \<and> ch_ownerGUID c' = p_guid pl \<and> IsOwner (info_of (p_guid pl) c')
    \<and> pi_player (info_of (p_guid pl) c') = 0 \<and> (ban \<longrightarrow> IsBanned (p_guid pl) c')"
proof -
  let ?g = "p_guid pl"
  obtain b where b: "FindPlayerByName E name = Some b" "p_guid b = ?g" using assms(5) by auto
  define c1 where "c1 = ban_and_notify E ?g ?g ban
    (\<not> (IsGMAccount (p_security pl) \<and> SILENTLY_GM_JOIN_TO_CHANNEL E)) c"
  have c1: "playersStore c1 = playersStore c" "ch_ownership c1" "ban \<longrightarrow> IsBanned ?g c1"
    using assms(6) by (simp_all add: c1_def)
  then have c': "c' = (if om_del ?g (playersStore c1) \<noteq> []
      then SetOwner E ?g True (modify_info ?g (pi_SetModerator True) (emit (LeftChannel ?g) (erase_member ?g c1)))
      else emit (LeftChannel ?g) (erase_member ?g c1))"
    unfolding c'_def KickOrBan_def using assms(1-4,6) b by (simp add: Let_def c1_def)
  let ?c2 = "emit (LeftChannel ?g) (erase_member ?g c1)"
  have "other \<in> fst ` set (playersStore ?c2)"
    using assms(7,8) c1(1) by (auto simp: IsOn_def om_del_def map_of_eq_None_iff)
  then have c'2: "c' = SetOwner E ?g True (modify_info ?g (pi_SetModerator True) ?c2)"
    using c' by auto
  have "pi_player (info_of ?g (modify_info ?g (pi_SetModerator True) ?c2)) = 0"
    by (simp add: pi_SetModerator_def pi_set_def) (simp add: info_of_def zero_info_def)
  moreover have "ban \<longrightarrow> IsBanned ?g c'"
    using c1(3) unfolding c'2 IsBanned_def SetOwner_effect(6) [OF assms(2)] by simp
  ultimately show ?thesis
    using SetOwner_effect [OF assms(2), where E = E and ex = True
        and c = "modify_info ?g (pi_SetModerator True) ?c2"]
    unfolding c'2 by simp
qed

theorem self_kick_keeps_owner_witness:
  "IsOn 1 (KickOrBan sample_env sample_player ''a'' True sample_channel)
   \<and> IsBanned 1 (KickOrBan sample_env sample_player ''a'' True sample_channel)"
  using self_kick_keeps_owner [of sample_channel sample_player sample_env "''a''" 2 True]
  by (simp add: sample_channel_def sample_player_def sample_env_def IsOn_def may_moderate_def
      info_of_def IsModerator_bit)

text \<open>
  C28. What \<^verbatim>\<open>UpdateChannelInDB\<close> writes, the constructor reads back: a saved custom channel that is
  created again from its row has the same announce and ownership settings, password and banned
  players (whose GUIDs are not 0 and fit the signed numbers that \<^verbatim>\<open>atol\<close> reads).
\<close>

theorem saved_channel_reloads:
  assumes "sorted (bannedStore c)" and "distinct (bannedStore c)"
    and "\<forall>g \<in> set (bannedStore c). 0 < g \<and> g < 2 ^ 63"
    and "ch_out (UpdateChannelInDB c) = ch_out c @ [UPD_CHANNEL ann own pass bans nam team]"
  defines "c' \<equiv> Channel_new None True (Some \<lparr>row_announce = ann, row_ownership = own, row_password = pass,
                row_banned = Some bans\<rparr>) nam 0 team"
  shows "ch_announce c' = ch_announce c \<and> ch_ownership c' = ch_ownership c
    \<and> ch_password c' = ch_password c \<and> bannedStore c' = bannedStore c \<and> ch_name c' = ch_name c
    \<and> ch_Team c' = ch_Team c"
proof -
  have "UPD_CHANNEL ann own pass bans nam team = UPD_CHANNEL (ch_announce c) (ch_ownership c)
      (ch_password c) (ban_list_str (bannedStore c)) (ch_name c) (ch_Team c)"
    using assms(4) by (simp add: UpdateChannelInDB_def emit_def split: if_splits)
  moreover have "load_banned (the (Tokenizer (ban_list_str (bannedStore c)) CHR '' '')) = bannedStore c"
    using assms(1-3) load_ban_list [of "bannedStore c"] tokens_of_ban_list [of "bannedStore c"] by auto
  ultimately show ?thesis by (simp add: c'_def Channel_new_def Let_def)
qed

theorem saved_channel_reloads_witness:
  "bannedStore (Channel_new None True (Some \<lparr>row_announce = True, row_ownership = True, row_password = [],
     row_banned = Some (ban_list_str [7, 12])\<rparr>) ''x'' 0 469) = [7, 12]"
  using saved_channel_reloads [of "sample_channel\<lparr>bannedStore := [7, 12], ch_IsSaved := True\<rparr>" True True
      "[]" "ban_list_str [7, 12]" "''x''" 469]
  by (simp add: UpdateChannelInDB_def emit_def sample_channel_def)

text \<open>
  Ownership passes on: when the owner of a custom channel leaves it and others stay, he is
  no longer on it, and the first of the remaining members is its owner, flagged as owner and as
  moderator.
\<close>

theorem owner_leaves_successor:
  fixes E :: chan_env and send :: bool
  assumes "IsOn (p_guid pl) c" and "IsOwner (info_of (p_guid pl) c)" and "\<not> IsConstant c"
    and "ch_ownership c" and "om_del (p_guid pl) (playersStore c) = (g, i) # rest"
    and "pi_player i = g" and "g \<noteq> 0"
  defines "c' \<equiv> LeaveChannel E pl send c"
  shows "\<not> IsOn (p_guid pl) c' \<and> ch_ownerGUID c' = g \<and> IsOn g c'
    \<and> IsOwner (info_of g c') \<and> IsModerator (info_of g c')"
proof -
  obtain d where d: "core d = core (erase_member (p_guid pl) c)"
    and l: "c' = (if \<not> IsConstant c \<and> IsOwner (info_of (p_guid pl) c) \<and> ch_ownership c \<and> playersStore d \<noteq> []
       then let n = pi_player (snd (hd (playersStore d)))
            in SetOwner E n True (modify_info n (pi_SetModerator True) d) else d)"
    using LeaveChannel_core [OF assms(1)] unfolding c'_def by blast
  have st: "playersStore d = (g, i) # rest" using core_eqD(1) [OF d] assms(5) by simp
  then have c': "c' = SetOwner E g True (modify_info g (pi_SetModerator True) d)"
    using l assms(2-4,6) by (simp add: Let_def)
  have "(g, i) \<in> set (om_del (p_guid pl) (playersStore c))" by (simp only: assms(5)) simp
  then have "g \<noteq> p_guid pl" by (simp add: om_del_def)
  moreover have "\<not> IsOn (p_guid pl) d" using IsOn_cong [OF d] by simp
  ultimately show ?thesis
    unfolding c' using SetOwner_effect [OF assms(7)] by simp
qed

theorem owner_leaves_successor_witness:
  "ch_ownerGUID (LeaveChannel sample_env sample_player True sample_channel) = 2"
  using owner_leaves_successor [of sample_player sample_channel 2 "\<lparr>pi_player = 2, pi_flags = 0\<rparr>" "[]" sample_env True]
  by (simp add: sample_channel_def sample_player_def IsOn_def info_of_def IsOwner_bit IsConstant_def om_del_def)

end
