(* ===== verification/Float32.thy ===== *)
theory Float32
  imports Prelude
begin

text \<open>
  The C++ arithmetic on \<^verbatim>\<open>float\<close> and \<^verbatim>\<open>int32\<close> that the game rules use: IEEE binary32 values
  with the operations rounded to nearest, ties to even (the default mode, without excess
  precision), and the conversions between \<^verbatim>\<open>float\<close> and \<^verbatim>\<open>int32\<close>.  A finite value is an integer
  mantissa and an exponent, not necessarily normalised; the sign of zero is not kept, since no
  modelled code can observe it.
\<close>

section \<open>Signed 32-bit integers\<close>

text \<open>An \<^verbatim>\<open>int32\<close> is an \<^typ>\<open>int\<close> in its range; sums are wrapped by \<open>s32\<close>.\<close>

definition s32 :: "int \<Rightarrow> int" where
  "s32 x = signed_take_bit 31 x"

lemma s32_range: "- 2147483648 \<le> s32 x \<and> s32 x < 2147483648"
  using signed_take_bit_int_greater_eq_minus_exp [of 31 x]
    signed_take_bit_int_less_exp [of 31 x]
  by (simp add: s32_def)

lemma s32_id [simp]: "- 2147483648 \<le> x \<Longrightarrow> x < 2147483648 \<Longrightarrow> s32 x = x"
  by (simp add: s32_def signed_take_bit_int_eq_self)

lemma s32_idem [simp]: "s32 (s32 x) = s32 x"
  by (simp add: s32_def)

lemma s32_add_left [simp]: "s32 (s32 x + y) = s32 (x + y)"
  by (metis s32_def signed_take_bit_add signed_take_bit_signed_take_bit min.idem)

lemma s32_add_right [simp]: "s32 (x + s32 y) = s32 (x + y)"
  by (metis add.commute s32_add_left)

text \<open>A difference that is added back is undone, wrapped or not.\<close>

lemma s32_sub_add: "s32 (b + s32 (x - b)) = s32 x"
  by simp

section \<open>binary32\<close>

datatype float32 = Fin int int | Inf bool | NaN

text \<open>The number of binary digits.\<close>

fun nbits :: "nat \<Rightarrow> nat" where
  "nbits n = (if n = 0 then 0 else Suc (nbits (n div 2)))"

declare nbits.simps [simp del]

lemma nbits_0 [simp]: "nbits 0 = 0"
  by (simp add: nbits.simps)

lemma nbits_le: "n < 2 ^ k \<Longrightarrow> nbits n \<le> k"
proof (induction n arbitrary: k rule: nbits.induct)
  case (1 n)
  show ?case
  proof (cases "n = 0")
    case True
    then show ?thesis by simp
  next
    case False
    with "1.prems" obtain k' where k: "k = Suc k'" by (cases k) auto
    with "1.prems" have "n div 2 < 2 ^ k'" by auto
    with "1.IH" [OF False] k False show ?thesis by (simp add: nbits.simps [of n])
  qed
qed

text \<open>\<open>m / 2\<^sup>k\<close> rounded to the nearest integer, a tie to the even one.\<close>

definition rne :: "int \<Rightarrow> nat \<Rightarrow> int" where
  "rne m k =
     (let q = m div 2 ^ k; r = m mod 2 ^ k
      in if 2 * r < 2 ^ k then q
         else if 2 ^ k < 2 * r then q + 1
         else if even q then q else q + 1)"

text \<open>The float nearest to \<open>m * 2\<^sup>e\<close>: 24 bits of precision, exponents from -149, overflow at \<open>2\<^sup>1\<^sup>2\<^sup>8\<close>.\<close>

definition f_round :: "int \<Rightarrow> int \<Rightarrow> float32" where
  "f_round m e =
     (let e1 = max (- 149) (e + int (nbits (nat \<bar>m\<bar>)) - 24);
          m2 = (if e1 \<le> e then m else rne m (nat (e1 - e)));
          e2 = (if e1 \<le> e then e else e1)
      in if 128 < int (nbits (nat \<bar>m2\<bar>)) + e2 then Inf (m2 < 0) else Fin m2 e2)"

definition f_of_int :: "int \<Rightarrow> float32" where
  "f_of_int n = f_round n 0"

fun f_neg_sign :: "float32 \<Rightarrow> bool" where
  "f_neg_sign (Fin m e) = (m < 0)"
| "f_neg_sign (Inf s) = s"
| "f_neg_sign NaN = False"

fun f_is_zero :: "float32 \<Rightarrow> bool" where
  "f_is_zero (Fin m e) = (m = 0)"
| "f_is_zero _ = False"

fun f_mul :: "float32 \<Rightarrow> float32 \<Rightarrow> float32" where
  "f_mul (Fin m e) (Fin n f) = f_round (m * n) (e + f)"
| "f_mul NaN y = NaN"
| "f_mul x NaN = NaN"
| "f_mul x y = (if f_is_zero x \<or> f_is_zero y then NaN else Inf (f_neg_sign x \<noteq> f_neg_sign y))"

fun f_add :: "float32 \<Rightarrow> float32 \<Rightarrow> float32" where
  "f_add (Fin m e) (Fin n f) =
     (let k = min e f in f_round (m * 2 ^ nat (e - k) + n * 2 ^ nat (f - k)) k)"
| "f_add NaN y = NaN"
| "f_add x NaN = NaN"
| "f_add (Inf s) (Inf t) = (if s = t then Inf s else NaN)"
| "f_add (Inf s) (Fin n f) = Inf s"
| "f_add (Fin m e) (Inf t) = Inf t"

text \<open>
  The conversion to \<^verbatim>\<open>int32\<close> drops the fraction.  Values out of range, undefined in C++, give the
  indefinite integer \<open>-2\<^sup>3\<^sup>1\<close> of the x86 conversion instruction.
\<close>

definition int_or_indef :: "int \<Rightarrow> int" where
  "int_or_indef n = (if - 2147483648 \<le> n \<and> n < 2147483648 then n else - 2147483648)"

fun f_to_int32 :: "float32 \<Rightarrow> int" where
  "f_to_int32 (Fin m e) =
     int_or_indef (if 0 \<le> e then m * 2 ^ nat e else sgn m * (\<bar>m\<bar> div 2 ^ nat (- e)))"
| "f_to_int32 _ = - 2147483648"

text \<open>\<^verbatim>\<open>int32(floor(x))\<close>.\<close>

fun f_floor_int32 :: "float32 \<Rightarrow> int" where
  "f_floor_int32 (Fin m e) = int_or_indef (if 0 \<le> e then m * 2 ^ nat e else m div 2 ^ nat (- e))"
| "f_floor_int32 _ = - 2147483648"

text \<open>
  Division: the quotient is computed to more bits than are kept, and a bit that says whether the
  division is exact is put behind it, so that \<open>f_round\<close> rounds the true quotient.
\<close>

definition quot_bits :: "int \<Rightarrow> int \<Rightarrow> nat \<Rightarrow> int" where
  "quot_bits m n s = sgn m * sgn n *
     (2 * (\<bar>m\<bar> * 2 ^ s div \<bar>n\<bar>) + (if \<bar>m\<bar> * 2 ^ s mod \<bar>n\<bar> = 0 then 0 else 1))"

fun f_div :: "float32 \<Rightarrow> float32 \<Rightarrow> float32" where
  "f_div (Fin m e) (Fin n f) =
     (if n = 0 then (if m = 0 then NaN else Inf (m < 0))
      else let s = 27 + nbits (nat \<bar>n\<bar>) in f_round (quot_bits m n s) (e - f - int s - 1))"
| "f_div NaN y = NaN"
| "f_div x NaN = NaN"
| "f_div (Inf s) (Inf t) = NaN"
| "f_div (Inf s) (Fin n f) = Inf (s \<noteq> (n < 0))"
| "f_div (Fin m e) (Inf t) = Fin 0 0"

text \<open>
  The conversions to unsigned integers drop the fraction.  Values out of range, undefined in C++,
  give what the x86-64 instruction sequences for them give: \<^verbatim>\<open>uint32\<close> is the low half of the 64-bit
  conversion.
\<close>

fun f_trunc :: "float32 \<Rightarrow> int option" where
  "f_trunc (Fin m e) = Some (if 0 \<le> e then m * 2 ^ nat e else sgn m * (\<bar>m\<bar> div 2 ^ nat (- e)))"
| "f_trunc _ = None"

definition f_to_uint64 :: "float32 \<Rightarrow> uint64" where
  "f_to_uint64 x = (case f_trunc x of
     Some n \<Rightarrow> if - (2 ^ 63) \<le> n \<and> n < 2 ^ 64 then word_of_int n else 2 ^ 63
   | None \<Rightarrow> 2 ^ 63)"

definition f_to_uint32 :: "float32 \<Rightarrow> uint32" where
  "f_to_uint32 x = (case f_trunc x of
     Some n \<Rightarrow> if - (2 ^ 63) \<le> n \<and> n < 2 ^ 63 then word_of_int n else 0
   | None \<Rightarrow> 0)"

lemma int_or_indef_range: "- 2147483648 \<le> int_or_indef n \<and> int_or_indef n < 2147483648"
  by (simp add: int_or_indef_def)

lemma f_to_int32_range: "- 2147483648 \<le> f_to_int32 x \<and> f_to_int32 x < 2147483648"
  by (cases x) (simp_all add: int_or_indef_range)

lemma f_floor_int32_range: "- 2147483648 \<le> f_floor_int32 x \<and> f_floor_int32 x < 2147483648"
  by (cases x) (simp_all add: int_or_indef_range)

subsection \<open>Exact results\<close>

text \<open>A value with at most 24 significant bits is not rounded.\<close>

lemma f_round_exact:
  assumes "\<bar>m\<bar> < 2 ^ 24" and "- 149 \<le> e" and "e \<le> 104"
  shows "f_round m e = Fin m e"
proof -
  from assms(1) have "nat \<bar>m\<bar> < 2 ^ 24" by (simp add: nat_less_iff)
  then have "nbits (nat \<bar>m\<bar>) \<le> 24" by (rule nbits_le)
  with assms(2,3) show ?thesis by (simp add: f_round_def)
qed

lemma f_of_int_exact: "\<bar>n\<bar> < 2 ^ 24 \<Longrightarrow> f_of_int n = Fin n 0"
  by (simp add: f_of_int_def f_round_exact)

text \<open>\<^verbatim>\<open>floor(float(n) * 1.0f + 0.5f)\<close> is \<open>n\<close> for every \<open>n\<close> of at most 23 bits.\<close>

lemma round_half_up_exact:
  assumes "\<bar>n\<bar> < 2 ^ 23"
  shows "f_floor_int32 (f_add (f_mul (f_of_int n) (Fin 1 0)) (Fin 1 (- 1))) = n"
proof -
  have small: "\<bar>n\<bar> < 2 ^ 24" "\<bar>n * 2 + 1\<bar> < 2 ^ 24" using assms by auto
  have "f_add (f_mul (f_of_int n) (Fin 1 0)) (Fin 1 (- 1)) = f_round (n * 2 + 1) (- 1)"
    using small(1) by (simp add: f_of_int_exact f_round_exact)
  also have "\<dots> = Fin (n * 2 + 1) (- 1)" using small(2) by (simp add: f_round_exact)
  finally show ?thesis using assms by (auto simp: int_or_indef_def)
qed

end
