(* ===== verification/Reputation.thy ===== *)
theory Reputation
  imports ByteBuf Float32
begin

text \<open>
  The reputation of a player with the factions of the world: \<^verbatim>\<open>game/Reputation/ReputationMgr.h\<close>
  and \<^verbatim>\<open>ReputationMgr.cpp\<close>, with the loader of the spillover templates of
  \<^verbatim>\<open>game/Globals/ObjectMgr.cpp\<close>.  A \<^verbatim>\<open>FactionState*\<close> always points into the map \<^verbatim>\<open>_factions\<close>, so
  an operation on such a pointer takes the key of the entry.  Packets sent to the player and the
  notifications of the player object (quests, achievements) are appended to \<open>rm_out\<close>; the
  statements of a transaction are returned.

  The stores of the client data files, the player's race and class, the rates of the world
  configuration and the script hook, which may change the amount of a gain, are the record
  \<open>rep_env\<close>.
\<close>

unbundle bit_operations_syntax

section \<open>Data\<close>

datatype rep_rank =
    REP_HATED | REP_HOSTILE | REP_UNFRIENDLY | REP_NEUTRAL
  | REP_FRIENDLY | REP_HONORED | REP_REVERED | REP_EXALTED

fun rank_num :: "rep_rank \<Rightarrow> nat" where
  "rank_num REP_HATED = 0"
| "rank_num REP_HOSTILE = 1"
| "rank_num REP_UNFRIENDLY = 2"
| "rank_num REP_NEUTRAL = 3"
| "rank_num REP_FRIENDLY = 4"
| "rank_num REP_HONORED = 5"
| "rank_num REP_REVERED = 6"
| "rank_num REP_EXALTED = 7"

instantiation rep_rank :: linorder
begin

definition less_eq_rep_rank :: "rep_rank \<Rightarrow> rep_rank \<Rightarrow> bool" where
  "less_eq_rep_rank a b \<longleftrightarrow> rank_num a \<le> rank_num b"

definition less_rep_rank :: "rep_rank \<Rightarrow> rep_rank \<Rightarrow> bool" where
  "less_rep_rank a b \<longleftrightarrow> rank_num a < rank_num b"

instance
proof
  fix a b :: rep_rank
  assume "a \<le> b" and "b \<le> a"
  then show "a = b" by (cases a; cases b) (simp_all add: less_eq_rep_rank_def)
qed (auto simp: less_eq_rep_rank_def less_rep_rank_def)

end

text \<open>The arrays of four of \<^verbatim>\<open>FactionEntry\<close> are lists of length four.\<close>

record faction_entry =
  fe_ID :: uint32
  fe_reputationListID :: int
  fe_BaseRepRaceMask :: "uint32 list"
  fe_BaseRepClassMask :: "uint32 list"
  fe_BaseRepValue :: "int list"
  fe_ReputationFlags :: "uint32 list"
  fe_team :: uint32
  fe_spilloverRateIn :: float32
  fe_spilloverRateOut :: float32
  fe_spilloverMaxRankIn :: uint32

definition CanHaveReputation :: "faction_entry \<Rightarrow> bool" where
  "CanHaveReputation e \<longleftrightarrow> 0 \<le> fe_reputationListID e"

definition FACTION_FLAG_VISIBLE :: uint8 where "FACTION_FLAG_VISIBLE = 0x01"
definition FACTION_FLAG_AT_WAR :: uint8 where "FACTION_FLAG_AT_WAR = 0x02"
definition FACTION_FLAG_HIDDEN :: uint8 where "FACTION_FLAG_HIDDEN = 0x04"
definition FACTION_FLAG_INVISIBLE_FORCED :: uint8 where "FACTION_FLAG_INVISIBLE_FORCED = 0x08"
definition FACTION_FLAG_PEACE_FORCED :: uint8 where "FACTION_FLAG_PEACE_FORCED = 0x10"
definition FACTION_FLAG_INACTIVE :: uint8 where "FACTION_FLAG_INACTIVE = 0x20"
definition FACTION_FLAG_SPECIAL :: uint8 where "FACTION_FLAG_SPECIAL = 0x80"

record faction_state =
  fs_ID :: uint32
  fs_ReputationListID :: uint32
  fs_Standing :: int
  fs_Flags :: uint8
  fs_needSend :: bool
  fs_needSave :: bool

text \<open>\<^verbatim>\<open>faction[i]\<close>, \<^verbatim>\<open>faction_rate[i]\<close>, \<^verbatim>\<open>faction_rank[i]\<close> for each of the five \<open>i\<close>.\<close>

type_synonym spillover_template = "(uint32 \<times> float32 \<times> uint32) list"

record rep_env =
  NumFactionRows :: nat
  LookupFaction :: "uint32 \<Rightarrow> faction_entry option"
  GetRepSpilloverTemplate :: "uint32 \<Rightarrow> spillover_template option"
  GetFactionTeamList :: "uint32 \<Rightarrow> uint32 list option"
  RATE_REPUTATION_GAIN :: float32
  rp_raceMask :: uint32
  rp_classMask :: uint32
  rp_GUIDLow :: uint32
  rp_Loading :: bool
  OnReputationChange :: "uint32 \<Rightarrow> int \<Rightarrow> bool \<Rightarrow> int"

datatype rep_opcode =
    SMSG_SET_FORCED_REACTIONS | SMSG_SET_FACTION_STANDING | SMSG_INITIALIZE_FACTIONS
  | SMSG_SET_FACTION_VISIBLE | SMSG_SET_FACTION_NOT_VISIBLE

datatype rep_criteria =
    KNOWN_FACTIONS | GAIN_REPUTATION | GAIN_EXALTED_REPUTATION
  | GAIN_REVERED_REPUTATION | GAIN_HONORED_REPUTATION

datatype rep_out =
    SendDirectMessage rep_opcode "wire list"
  | ReputationChanged uint32
  | UpdateAchievementCriteria rep_criteria uint32

datatype rep_stmt =
    DEL_CHAR_REPUTATION_BY_FACTION uint32 uint16
  | INS_CHAR_REPUTATION_BY_FACTION uint32 uint16 int uint16

datatype rep_error = NullFactionEntry

record reputation_mgr =
  rm_factions :: "(uint32 \<times> faction_state) list"
  rm_forcedReactions :: "(uint32 \<times> rep_rank) list"
  rm_visibleFactionCount :: uint8
  rm_honoredFactionCount :: uint8
  rm_reveredFactionCount :: uint8
  rm_exaltedFactionCount :: uint8
  rm_sendFactionIncreased :: bool
  rm_out :: "rep_out list"

definition ReputationMgr_new :: reputation_mgr where
  "ReputationMgr_new =
     \<lparr>rm_factions = [], rm_forcedReactions = [], rm_visibleFactionCount = 0,
      rm_honoredFactionCount = 0, rm_reveredFactionCount = 0, rm_exaltedFactionCount = 0,
      rm_sendFactionIncreased = False, rm_out = []\<rparr>"

definition rm_emit :: "rep_out list \<Rightarrow> reputation_mgr \<Rightarrow> reputation_mgr" where
  "rm_emit xs m = m\<lparr>rm_out := rm_out m @ xs\<rparr>"

text \<open>Signed values travel as their 32-bit patterns.\<close>

definition u32 :: "int \<Rightarrow> uint32" where
  "u32 n = word_of_int n"

section \<open>Ranks\<close>

definition PointsInRank :: "int list" where
  "PointsInRank = [36000, 3000, 3000, 3000, 6000, 12000, 21000, 1000]"

definition Reputation_Cap :: int where "Reputation_Cap = 42999"
definition Reputation_Bottom :: int where "Reputation_Bottom = - 42000"

definition ReputationToRank :: "int \<Rightarrow> rep_rank" where
  "ReputationToRank standing =
     (if 42000 \<le> standing then REP_EXALTED
      else if 21000 < standing then REP_REVERED
      else if 9000 < standing then REP_HONORED
      else if 3000 < standing then REP_FRIENDLY
      else if 0 \<le> standing then REP_NEUTRAL
      else if - 3000 \<le> standing then REP_UNFRIENDLY
      else if - 6000 \<le> standing then REP_HOSTILE
      else REP_HATED)"

section \<open>Accessors\<close>

definition GetState_id :: "uint32 \<Rightarrow> reputation_mgr \<Rightarrow> faction_state option" where
  "GetState_id k m = map_of (rm_factions m) k"

definition GetState :: "faction_entry \<Rightarrow> reputation_mgr \<Rightarrow> faction_state option" where
  "GetState e m =
     (if CanHaveReputation e then GetState_id (u32 (fe_reputationListID e)) m else None)"

text \<open>The index of the race and class masks that match the player.\<close>

definition base_slot_matches :: "rep_env \<Rightarrow> faction_entry \<Rightarrow> nat \<Rightarrow> bool" where
  "base_slot_matches E e i \<longleftrightarrow>
     (fe_BaseRepRaceMask e ! i AND rp_raceMask E \<noteq> 0 \<or>
        fe_BaseRepRaceMask e ! i = 0 \<and> fe_BaseRepClassMask e ! i \<noteq> 0) \<and>
     (fe_BaseRepClassMask e ! i AND rp_classMask E \<noteq> 0 \<or> fe_BaseRepClassMask e ! i = 0)"

definition GetBaseReputation :: "rep_env \<Rightarrow> faction_entry option \<Rightarrow> int" where
  "GetBaseReputation E oe =
     (case oe of None \<Rightarrow> 0
      | Some e \<Rightarrow> case find (base_slot_matches E e) [0, 1, 2, 3] of
                   None \<Rightarrow> 0 | Some i \<Rightarrow> fe_BaseRepValue e ! i)"

definition GetDefaultStateFlags :: "rep_env \<Rightarrow> faction_entry option \<Rightarrow> uint32" where
  "GetDefaultStateFlags E oe =
     (case oe of None \<Rightarrow> 0
      | Some e \<Rightarrow> case find (base_slot_matches E e) [0, 1, 2, 3] of
                   None \<Rightarrow> 0 | Some i \<Rightarrow> fe_ReputationFlags e ! i)"

definition GetReputation :: "rep_env \<Rightarrow> faction_entry option \<Rightarrow> reputation_mgr \<Rightarrow> int" where
  "GetReputation E oe m =
     (case oe of None \<Rightarrow> 0
      | Some e \<Rightarrow> case GetState e m of
                   None \<Rightarrow> 0
                 | Some s \<Rightarrow> s32 (GetBaseReputation E oe + fs_Standing s))"

definition GetReputation_id :: "rep_env \<Rightarrow> uint32 \<Rightarrow> reputation_mgr \<Rightarrow> int" where
  "GetReputation_id E faction_id m =
     (case LookupFaction E faction_id of None \<Rightarrow> 0 | Some e \<Rightarrow> GetReputation E (Some e) m)"

definition GetRank :: "rep_env \<Rightarrow> faction_entry option \<Rightarrow> reputation_mgr \<Rightarrow> rep_rank" where
  "GetRank E oe m = ReputationToRank (GetReputation E oe m)"

definition GetBaseRank :: "rep_env \<Rightarrow> faction_entry option \<Rightarrow> rep_rank" where
  "GetBaseRank E oe = ReputationToRank (GetBaseReputation E oe)"

definition IsAtWar :: "faction_entry option \<Rightarrow> reputation_mgr \<Rightarrow> bool" where
  "IsAtWar oe m =
     (case oe of None \<Rightarrow> False
      | Some e \<Rightarrow> case GetState e m of
                   None \<Rightarrow> False | Some s \<Rightarrow> fs_Flags s AND FACTION_FLAG_AT_WAR \<noteq> 0)"

definition IsAtWar_id :: "rep_env \<Rightarrow> uint32 \<Rightarrow> reputation_mgr \<Rightarrow> bool" where
  "IsAtWar_id E faction_id m =
     (case LookupFaction E faction_id of None \<Rightarrow> False | Some e \<Rightarrow> IsAtWar (Some e) m)"

text \<open>\<^verbatim>\<open>Player::GetReputationRank\<close>; an unknown faction has rank neutral.\<close>

definition GetReputationRank :: "rep_env \<Rightarrow> uint32 \<Rightarrow> reputation_mgr \<Rightarrow> rep_rank" where
  "GetReputationRank E faction m = GetRank E (LookupFaction E faction) m"

definition GetForcedRankIfAny :: "uint32 \<Rightarrow> reputation_mgr \<Rightarrow> rep_rank option" where
  "GetForcedRankIfAny faction m = map_of (rm_forcedReactions m) faction"

section \<open>Senders\<close>

definition ApplyForceReaction :: "uint32 \<Rightarrow> rep_rank \<Rightarrow> bool \<Rightarrow> reputation_mgr \<Rightarrow> reputation_mgr" where
  "ApplyForceReaction faction_id rank apply_it m =
     m\<lparr>rm_forcedReactions :=
         (if apply_it then om_put faction_id rank (rm_forcedReactions m)
          else om_del faction_id (rm_forcedReactions m))\<rparr>"

definition SendForceReactions :: "reputation_mgr \<Rightarrow> reputation_mgr" where
  "SendForceReactions m =
     rm_emit [SendDirectMessage SMSG_SET_FORCED_REACTIONS
       (WU32 (of_nat (length (rm_forcedReactions m))) #
        concat (map (\<lambda>e. [WU32 (fst e), WU32 (of_nat (rank_num (snd e)))]) (rm_forcedReactions m)))] m"

text \<open>
  \<^verbatim>\<open>SendState\<close> reports the given state first and then every other state that still has to be
  sent; \<^verbatim>\<open>count\<close> is put in front once it is known.
\<close>

definition other_pending :: "faction_state \<Rightarrow> (uint32 \<times> faction_state) list \<Rightarrow> faction_state list" where
  "other_pending s fs =
     filter (\<lambda>t. fs_needSend t \<and> fs_ReputationListID t \<noteq> fs_ReputationListID s) (map snd fs)"

definition mark_sent :: "faction_state \<Rightarrow> faction_state" where
  "mark_sent t = (if fs_needSend t then t\<lparr>fs_needSend := False\<rparr> else t)"

definition SendState :: "faction_state \<Rightarrow> reputation_mgr \<Rightarrow> reputation_mgr" where
  "SendState s m =
     (let os = other_pending s (rm_factions m)
      in rm_emit [SendDirectMessage SMSG_SET_FACTION_STANDING
           (WF32 0 # WU8 (if rm_sendFactionIncreased m then 1 else 0) #
            WU32 (1 + of_nat (length os)) #
            concat (map (\<lambda>t. [WU32 (fs_ReputationListID t), WU32 (u32 (fs_Standing t))]) (s # os)))]
         (m\<lparr>rm_sendFactionIncreased := False,
            rm_factions := map (\<lambda>e. (fst e, mark_sent (snd e))) (rm_factions m)\<rparr>))"

text \<open>
  The counter \<^verbatim>\<open>a\<close> is a \<^verbatim>\<open>uint32\<close> that is only compared for inequality, so the padding before the
  entry \<open>k\<close> has \<open>k - a\<close> elements, modulo \<open>2\<^sup>3\<^sup>2\<close>.
\<close>

definition absent_fields :: "uint32 \<Rightarrow> uint32 \<Rightarrow> wire list" where
  "absent_fields a k = concat (replicate (unat (k - a)) [WU8 0, WU32 0])"

fun initial_fields :: "uint32 \<Rightarrow> (uint32 \<times> faction_state) list \<Rightarrow> wire list" where
  "initial_fields a [] = absent_fields a 256"
| "initial_fields a (e # es) =
     absent_fields a (fst e) @ [WU8 (fs_Flags (snd e)), WU32 (u32 (fs_Standing (snd e)))] @
     initial_fields (fst e + 1) es"

definition SendInitialReputations :: "reputation_mgr \<Rightarrow> reputation_mgr" where
  "SendInitialReputations m =
     rm_emit [SendDirectMessage SMSG_INITIALIZE_FACTIONS
                (WU32 256 # initial_fields 0 (rm_factions m))]
       (m\<lparr>rm_factions := map (\<lambda>e. (fst e, (snd e)\<lparr>fs_needSend := False\<rparr>)) (rm_factions m)\<rparr>)"

definition SendStates :: "reputation_mgr \<Rightarrow> reputation_mgr" where
  "SendStates m =
     fold (\<lambda>k m'. case map_of (rm_factions m') k of None \<Rightarrow> m' | Some s \<Rightarrow> SendState s m')
       (map fst (rm_factions m)) m"

definition SendVisible :: "rep_env \<Rightarrow> faction_state \<Rightarrow> bool \<Rightarrow> reputation_mgr \<Rightarrow> reputation_mgr" where
  "SendVisible E s visible m =
     (if rp_Loading E then m
      else rm_emit [SendDirectMessage
              (if visible then SMSG_SET_FACTION_VISIBLE else SMSG_SET_FACTION_NOT_VISIBLE)
              [WU32 (fs_ReputationListID s)]] m)"


section \<open>Modifiers\<close>

definition UpdateRankCounters :: "rep_rank \<Rightarrow> rep_rank \<Rightarrow> reputation_mgr \<Rightarrow> reputation_mgr" where
  "UpdateRankCounters old_rank new_rank m =
     (let dec = (\<lambda>r c. if r \<le> old_rank then c - 1 else c :: uint8);
          inc = (\<lambda>r c. if r \<le> new_rank then c + 1 else c :: uint8)
      in m\<lparr>rm_exaltedFactionCount := inc REP_EXALTED (dec REP_EXALTED (rm_exaltedFactionCount m)),
           rm_reveredFactionCount := inc REP_REVERED (dec REP_REVERED (rm_reveredFactionCount m)),
           rm_honoredFactionCount := inc REP_HONORED (dec REP_HONORED (rm_honoredFactionCount m))\<rparr>)"

definition has_flag :: "uint8 \<Rightarrow> faction_state \<Rightarrow> bool" where
  "has_flag f s \<longleftrightarrow> fs_Flags s AND f \<noteq> 0"

definition forced_hidden :: "faction_state \<Rightarrow> bool" where
  "forced_hidden s \<longleftrightarrow> has_flag (FACTION_FLAG_INVISIBLE_FORCED OR FACTION_FLAG_HIDDEN) s"

text \<open>The new value of the state and whether it changed, for \<^verbatim>\<open>SetVisible(FactionState*)\<close>.\<close>

definition becomes_visible :: "faction_state \<Rightarrow> bool" where
  "becomes_visible s \<longleftrightarrow>
     \<not> (forced_hidden s \<and> \<not> has_flag FACTION_FLAG_SPECIAL s) \<and> \<not> has_flag FACTION_FLAG_VISIBLE s"

definition SetVisible_state :: "rep_env \<Rightarrow> uint32 \<Rightarrow> reputation_mgr \<Rightarrow> reputation_mgr" where
  "SetVisible_state E k m =
     (case map_of (rm_factions m) k of
        None \<Rightarrow> m
      | Some s \<Rightarrow>
          if becomes_visible s then
            let s' = s\<lparr>fs_Flags := fs_Flags s OR FACTION_FLAG_VISIBLE,
                       fs_needSend := True, fs_needSave := True\<rparr>
            in SendVisible E s' True
                 (m\<lparr>rm_factions := om_put k s' (rm_factions m),
                    rm_visibleFactionCount := rm_visibleFactionCount m + 1\<rparr>)
          else m)"

definition SetVisible_entry :: "rep_env \<Rightarrow> faction_entry \<Rightarrow> reputation_mgr \<Rightarrow> reputation_mgr" where
  "SetVisible_entry E e m =
     (if fe_reputationListID e < 0 then m
      else SetVisible_state E (u32 (fe_reputationListID e)) m)"

text \<open>The argument is the field \<^verbatim>\<open>faction\<close> of the faction template.\<close>

definition SetVisible_template :: "rep_env \<Rightarrow> uint32 \<Rightarrow> reputation_mgr \<Rightarrow> reputation_mgr" where
  "SetVisible_template E faction m =
     (if faction = 0 then m
      else case LookupFaction E faction of
             None \<Rightarrow> m
           | Some e \<Rightarrow>
               if fe_BaseRepRaceMask e ! 1 AND rp_raceMask E \<noteq> 0 \<and>
                  fe_BaseRepValue e ! 1 = Reputation_Bottom
               then m else SetVisible_entry E e m)"

definition SetAtWar_state :: "bool \<Rightarrow> faction_state \<Rightarrow> faction_state" where
  "SetAtWar_state atWar s =
     (if atWar \<and> has_flag FACTION_FLAG_PEACE_FORCED s then s
      else if has_flag FACTION_FLAG_AT_WAR s = atWar then s
      else s\<lparr>fs_Flags := (if atWar then fs_Flags s OR FACTION_FLAG_AT_WAR
                          else fs_Flags s AND NOT FACTION_FLAG_AT_WAR),
             fs_needSend := True, fs_needSave := True\<rparr>)"

definition SetInactive_state :: "bool \<Rightarrow> faction_state \<Rightarrow> faction_state" where
  "SetInactive_state inactive s =
     (if inactive \<and> (forced_hidden s \<or> \<not> has_flag FACTION_FLAG_VISIBLE s) then s
      else if has_flag FACTION_FLAG_INACTIVE s = inactive then s
      else s\<lparr>fs_Flags := (if inactive then fs_Flags s OR FACTION_FLAG_INACTIVE
                          else fs_Flags s AND NOT FACTION_FLAG_INACTIVE),
             fs_needSend := True, fs_needSave := True\<rparr>)"

text \<open>An update of the state that a pointer refers to.\<close>

definition upd_state ::
  "uint32 \<Rightarrow> (faction_state \<Rightarrow> faction_state) \<Rightarrow> reputation_mgr \<Rightarrow> reputation_mgr" where
  "upd_state k f m =
     (case map_of (rm_factions m) k of
        None \<Rightarrow> m | Some s \<Rightarrow> m\<lparr>rm_factions := om_put k (f s) (rm_factions m)\<rparr>)"

definition SetAtWar :: "uint32 \<Rightarrow> bool \<Rightarrow> reputation_mgr \<Rightarrow> reputation_mgr" where
  "SetAtWar repListID on m =
     (case map_of (rm_factions m) repListID of
        None \<Rightarrow> m
      | Some s \<Rightarrow> if forced_hidden s then m else upd_state repListID (SetAtWar_state on) m)"

definition SetInactive :: "uint32 \<Rightarrow> bool \<Rightarrow> reputation_mgr \<Rightarrow> reputation_mgr" where
  "SetInactive repListID on m = upd_state repListID (SetInactive_state on) m"

section \<open>Changing a standing\<close>

text \<open>The amount of a gain after the rate of the realm: \<^verbatim>\<open>floor((float)standing * rate + 0.5f)\<close>.\<close>

definition rate_gain :: "rep_env \<Rightarrow> int \<Rightarrow> int" where
  "rate_gain E standing =
     f_floor_int32 (f_add (f_mul (f_of_int standing) (RATE_REPUTATION_GAIN E)) (Fin 1 (- 1)))"

definition clamp_standing :: "int \<Rightarrow> int" where
  "clamp_standing standing =
     (if Reputation_Cap < standing then Reputation_Cap
      else if standing < Reputation_Bottom then Reputation_Bottom else standing)"

definition target_standing :: "rep_env \<Rightarrow> int \<Rightarrow> int \<Rightarrow> int \<Rightarrow> bool \<Rightarrow> int" where
  "target_standing E BaseRep cur standing incremental =
     clamp_standing (if incremental then s32 (rate_gain E standing + s32 (cur + BaseRep)) else standing)"

definition SetOneFactionReputation ::
  "rep_env \<Rightarrow> faction_entry \<Rightarrow> int \<Rightarrow> bool \<Rightarrow> reputation_mgr \<Rightarrow> bool \<times> reputation_mgr" where
  "SetOneFactionReputation E e standing incremental m =
     (let k = u32 (fe_reputationListID e)
      in case map_of (rm_factions m) k of
           None \<Rightarrow> (False, m)
         | Some s \<Rightarrow>
             let BaseRep = GetBaseReputation E (Some e);
                 st = target_standing E BaseRep (fs_Standing s) standing incremental;
                 old_rank = ReputationToRank (s32 (fs_Standing s + BaseRep));
                 new_rank = ReputationToRank st;
                 m1 = upd_state k (\<lambda>t. t\<lparr>fs_Standing := s32 (st - BaseRep),
                                         fs_needSend := True, fs_needSave := True\<rparr>) m;
                 m2 = SetVisible_state E k m1;
                 m3 = (if new_rank \<le> REP_HOSTILE then upd_state k (SetAtWar_state True) m2 else m2);
                 m4 = (if old_rank < new_rank then m3\<lparr>rm_sendFactionIncreased := True\<rparr> else m3);
                 m5 = UpdateRankCounters old_rank new_rank m4
             in (True, rm_emit
                  [ReputationChanged (fe_ID e),
                   UpdateAchievementCriteria KNOWN_FACTIONS (fe_ID e),
                   UpdateAchievementCriteria GAIN_REPUTATION (fe_ID e),
                   UpdateAchievementCriteria GAIN_EXALTED_REPUTATION (fe_ID e),
                   UpdateAchievementCriteria GAIN_REVERED_REPUTATION (fe_ID e),
                   UpdateAchievementCriteria GAIN_HONORED_REPUTATION (fe_ID e)] m5))"

text \<open>
  Spillover by a template of the database.  \<^verbatim>\<open>LookupEntry\<close> may return null, which
  \<^verbatim>\<open>SetOneFactionReputation\<close> dereferences.
\<close>

definition spill_template_one ::
  "rep_env \<Rightarrow> int \<Rightarrow> bool \<Rightarrow> uint32 \<times> float32 \<times> uint32 \<Rightarrow> reputation_mgr
     \<Rightarrow> rep_error + reputation_mgr" where
  "spill_template_one E standing incremental t m =
     (case t of (faction, rate, rank) \<Rightarrow>
        if faction \<noteq> 0 \<and> rank_num (GetReputationRank E faction m) \<le> unat rank
        then case LookupFaction E faction of
               None \<Rightarrow> Inl NullFactionEntry
             | Some e \<Rightarrow>
                 let spilloverRep = f_to_int32 (f_mul (f_of_int standing) rate)
                 in Inr (snd (SetOneFactionReputation E e spilloverRep incremental m))
        else Inr m)"

text \<open>
  Spillover to a list of factions.  Entries are compared by address in the code, that is by id:
  the store has one entry per id.
\<close>

definition spill_list_one ::
  "rep_env \<Rightarrow> faction_entry \<Rightarrow> float32 \<Rightarrow> bool \<Rightarrow> uint32 \<Rightarrow> bool \<times> reputation_mgr
     \<Rightarrow> bool \<times> reputation_mgr" where
  "spill_list_one E e repOut incremental i rm =
     (case rm of (res, m) \<Rightarrow>
        case LookupFaction E i of
          None \<Rightarrow> (res, m)
        | Some c \<Rightarrow>
            if fe_ID c = fe_ID e \<or>
               unat (fe_spilloverMaxRankIn c) < rank_num (GetRank E (Some c) m)
            then (res, m)
            else let spilloverRep = f_to_int32 (f_mul repOut (fe_spilloverRateIn c))
                 in if spilloverRep \<noteq> 0 \<or> \<not> incremental
                    then SetOneFactionReputation E c spilloverRep incremental m
                    else (res, m))"

text \<open>The spillover that comes from the data files: the list, the amount and the new state.\<close>

definition spill_dbc ::
  "rep_env \<Rightarrow> faction_entry \<Rightarrow> int \<Rightarrow> bool \<Rightarrow> reputation_mgr \<Rightarrow> bool \<times> reputation_mgr" where
  "spill_dbc E e standing incremental m =
     (let out0 = f_of_int standing;
          flist0 = GetFactionTeamList E (fe_ID e);
          (flist, repOut, m1) =
            (if flist0 = None \<and> fe_team e \<noteq> 0 \<and> \<not> f_is_zero (fe_spilloverRateOut e)
             then let out1 = f_mul out0 (fe_spilloverRateOut e)
                  in case LookupFaction E (fe_team e) of
                       None \<Rightarrow> (flist0, out1, m)
                     | Some parent \<Rightarrow>
                         (case map_of (rm_factions m) (u32 (fe_reputationListID parent)) of
                            None \<Rightarrow> (GetFactionTeamList E (fe_team e), out1, m)
                          | Some ps \<Rightarrow>
                              if has_flag FACTION_FLAG_SPECIAL ps
                              then (flist0, out1,
                                    snd (SetOneFactionReputation E parent (f_to_int32 out1) incremental m))
                              else (GetFactionTeamList E (fe_team e), out1, m))
             else (flist0, out0, m))
      in case flist of
           None \<Rightarrow> (False, m1)
         | Some l \<Rightarrow> fold (spill_list_one E e repOut incremental) l (False, m1))"

definition SetReputation_full ::
  "rep_env \<Rightarrow> faction_entry \<Rightarrow> int \<Rightarrow> bool \<Rightarrow> reputation_mgr \<Rightarrow> rep_error + (bool \<times> reputation_mgr)" where
  "SetReputation_full E e standing0 incremental m =
     (let standing = OnReputationChange E (fe_ID e) standing0 incremental;
          k = u32 (fe_reputationListID e)
      in bind_res
           (case GetRepSpilloverTemplate E (fe_ID e) of
              Some t \<Rightarrow> bind_res (iter_res (spill_template_one E standing incremental) t m)
                          (\<lambda>m'. Inr (False, m'))
            | None \<Rightarrow> Inr (spill_dbc E e standing incremental m))
           (\<lambda>(res, m1).
              case map_of (rm_factions m1) k of
                None \<Rightarrow> Inr (res, m1)
              | Some _ \<Rightarrow>
                  let (res2, m2) = SetOneFactionReputation E e standing incremental m1
                  in Inr (res2, case map_of (rm_factions m2) k of
                                  None \<Rightarrow> m2 | Some s \<Rightarrow> SendState s m2)))"

definition SetReputation where
  "SetReputation E e standing m = SetReputation_full E e standing False m"

definition ModifyReputation where
  "ModifyReputation E e standing m = SetReputation_full E e standing True m"

section \<open>Creation, loading and saving\<close>

definition new_faction :: "rep_env \<Rightarrow> faction_entry \<Rightarrow> faction_state" where
  "new_faction E e =
     \<lparr>fs_ID = fe_ID e, fs_ReputationListID = u32 (fe_reputationListID e), fs_Standing = 0,
      fs_Flags = ucast (GetDefaultStateFlags E (Some e)), fs_needSend = True, fs_needSave = True\<rparr>"

definition init_faction :: "rep_env \<Rightarrow> uint32 \<Rightarrow> reputation_mgr \<Rightarrow> reputation_mgr" where
  "init_faction E i m =
     (case LookupFaction E i of
        None \<Rightarrow> m
      | Some e \<Rightarrow>
          if 0 \<le> fe_reputationListID e then
            let s = new_faction E e;
                m1 = (if has_flag FACTION_FLAG_VISIBLE s
                      then m\<lparr>rm_visibleFactionCount := rm_visibleFactionCount m + 1\<rparr> else m);
                m2 = UpdateRankCounters REP_HOSTILE (GetBaseRank E (Some e)) m1
            in m2\<lparr>rm_factions := om_put (fs_ReputationListID s) s (rm_factions m2)\<rparr>
          else m)"

definition Initialize :: "rep_env \<Rightarrow> reputation_mgr \<Rightarrow> reputation_mgr" where
  "Initialize E m =
     fold (init_faction E) (map of_nat [1..<NumFactionRows E])
       (m\<lparr>rm_factions := [], rm_visibleFactionCount := 0, rm_honoredFactionCount := 0,
          rm_reveredFactionCount := 0, rm_exaltedFactionCount := 0,
          rm_sendFactionIncreased := False\<rparr>)"

record rep_row =
  row_faction :: uint16
  row_standing :: int
  row_flags :: uint16

text \<open>\<^verbatim>\<open>_factions[id]\<close> creates a missing entry with all fields zero.\<close>

definition zero_state :: faction_state where
  "zero_state = \<lparr>fs_ID = 0, fs_ReputationListID = 0, fs_Standing = 0, fs_Flags = 0,
                 fs_needSend = False, fs_needSave = False\<rparr>"

definition touch_state :: "uint32 \<Rightarrow> reputation_mgr \<Rightarrow> reputation_mgr" where
  "touch_state k m = m\<lparr>rm_factions := om_insert k zero_state (rm_factions m)\<rparr>"

definition row_has :: "rep_row \<Rightarrow> uint8 \<Rightarrow> bool" where
  "row_has r f \<longleftrightarrow> row_flags r AND ucast f \<noteq> 0"

definition load_row :: "rep_env \<Rightarrow> rep_row \<Rightarrow> reputation_mgr \<Rightarrow> reputation_mgr" where
  "load_row E r m =
     (case LookupFaction E (ucast (row_faction r)) of
        None \<Rightarrow> m
      | Some e \<Rightarrow>
          if 0 \<le> fe_reputationListID e then
            let k = u32 (fe_reputationListID e);
                m1 = upd_state k (\<lambda>s. s\<lparr>fs_Standing := row_standing r\<rparr>) (touch_state k m);
                BaseRep = GetBaseReputation E (Some e);
                m2 = UpdateRankCounters (ReputationToRank BaseRep)
                       (ReputationToRank (s32 (BaseRep + row_standing r))) m1;
                m3 = (if row_has r FACTION_FLAG_VISIBLE then SetVisible_state E k m2 else m2);
                m4 = (if row_has r FACTION_FLAG_INACTIVE
                      then upd_state k (SetInactive_state True) m3 else m3);
                m5 = upd_state k (\<lambda>s.
                       if row_has r FACTION_FLAG_AT_WAR then SetAtWar_state True s
                       else if has_flag FACTION_FLAG_VISIBLE s then SetAtWar_state False s else s) m4;
                m6 = (if GetRank E (Some e) m5 \<le> REP_HOSTILE
                      then upd_state k (SetAtWar_state True) m5 else m5)
            in upd_state k (\<lambda>s. if ucast (fs_Flags s) = row_flags r
                                then s\<lparr>fs_needSend := False, fs_needSave := False\<rparr> else s) m6
          else m)"

definition LoadFromDB :: "rep_env \<Rightarrow> rep_row list \<Rightarrow> reputation_mgr \<Rightarrow> reputation_mgr" where
  "LoadFromDB E rows m = fold (load_row E) rows (Initialize E m)"

definition save_stmts :: "rep_env \<Rightarrow> faction_state \<Rightarrow> rep_stmt list" where
  "save_stmts E s =
     (if fs_needSave s
      then [DEL_CHAR_REPUTATION_BY_FACTION (rp_GUIDLow E) (ucast (fs_ID s)),
            INS_CHAR_REPUTATION_BY_FACTION (rp_GUIDLow E) (ucast (fs_ID s))
              (fs_Standing s) (ucast (fs_Flags s))]
      else [])"

definition mark_saved :: "faction_state \<Rightarrow> faction_state" where
  "mark_saved s = (if fs_needSave s then s\<lparr>fs_needSave := False\<rparr> else s)"

definition SaveToDB :: "rep_env \<Rightarrow> reputation_mgr \<Rightarrow> rep_stmt list \<times> reputation_mgr" where
  "SaveToDB E m =
     (concat (map (save_stmts E \<circ> snd) (rm_factions m)),
      m\<lparr>rm_factions := map (\<lambda>e. (fst e, mark_saved (snd e))) (rm_factions m)\<rparr>)"

section \<open>The spillover templates\<close>

text \<open>
  A row of \<^verbatim>\<open>reputation_spillover_template\<close>: the faction and five triples of faction, rate and
  rank.  The loop that checks the triples only logs; its \<^verbatim>\<open>continue\<close> goes to the next triple.
\<close>

type_synonym spillover_row = "uint16 \<times> (uint16 \<times> float32 \<times> uint8) list"

definition row_template :: "spillover_row \<Rightarrow> spillover_template" where
  "row_template r = map (\<lambda>(f, rate, rank). (ucast f, rate, ucast rank)) (snd r)"

definition load_spillover_row ::
  "rep_env \<Rightarrow> spillover_row \<Rightarrow> (uint32 \<rightharpoonup> spillover_template) \<Rightarrow> (uint32 \<rightharpoonup> spillover_template)" where
  "load_spillover_row E r st =
     (case LookupFaction E (ucast (fst r)) of
        None \<Rightarrow> st
      | Some e \<Rightarrow>
          if fe_team e = 0 then st
          else if \<exists>t \<in> set (row_template r). fst t \<noteq> 0 \<and> LookupFaction E (fst t) = None then st
          else st(ucast (fst r) \<mapsto> row_template r))"

definition LoadReputationSpilloverTemplate ::
  "rep_env \<Rightarrow> spillover_row list \<Rightarrow> (uint32 \<rightharpoonup> spillover_template)" where
  "LoadReputationSpilloverTemplate E rows = fold (load_spillover_row E) rows Map.empty"

end
