(* ===== verification/Reputation_Props.thy ===== *)
theory Reputation_Props
  imports Reputation
begin

text \<open>
  Properties of the reputation manager: the rank and visibility counters, the bounds of a
  standing, the marks that keep the database in step, the round trip through the database and
  the composition with the loader of the spillover templates.
\<close>

unbundle bit_operations_syntax

section \<open>Flags as bits\<close>

lemma and_pow_bit: "(x :: 'a::len word) AND 2 ^ n \<noteq> 0 \<longleftrightarrow> bit x n"
  by (metis and_exp_eq_0_iff_not_bit)

lemma has_flag_bits:
  "has_flag FACTION_FLAG_VISIBLE s \<longleftrightarrow> bit (fs_Flags s) 0"
  "has_flag FACTION_FLAG_AT_WAR s \<longleftrightarrow> bit (fs_Flags s) 1"
  "has_flag FACTION_FLAG_PEACE_FORCED s \<longleftrightarrow> bit (fs_Flags s) 4"
  "has_flag FACTION_FLAG_INACTIVE s \<longleftrightarrow> bit (fs_Flags s) 5"
  "has_flag FACTION_FLAG_SPECIAL s \<longleftrightarrow> bit (fs_Flags s) 7"
  using and_pow_bit [of "fs_Flags s" 0] and_pow_bit [of "fs_Flags s" 1]
    and_pow_bit [of "fs_Flags s" 4] and_pow_bit [of "fs_Flags s" 5] and_pow_bit [of "fs_Flags s" 7]
  by (simp_all add: has_flag_def FACTION_FLAG_VISIBLE_def FACTION_FLAG_AT_WAR_def
      FACTION_FLAG_PEACE_FORCED_def FACTION_FLAG_INACTIVE_def FACTION_FLAG_SPECIAL_def)

lemma forced_hidden_bits: "forced_hidden s \<longleftrightarrow> bit (fs_Flags s) 2 \<or> bit (fs_Flags s) 3"
proof -
  have "forced_hidden s \<longleftrightarrow> fs_Flags s AND 2 ^ 2 \<noteq> 0 \<or> fs_Flags s AND 2 ^ 3 \<noteq> 0"
    unfolding forced_hidden_def has_flag_def word_ao_dist2 or_eq_0_iff
    by (auto simp: FACTION_FLAG_INVISIBLE_FORCED_def FACTION_FLAG_HIDDEN_def)
  then show ?thesis by (simp only: and_pow_bit)
qed

lemma bit_or_pow: "bit ((x :: uint8) OR 2 ^ k) n \<longleftrightarrow> bit x n \<or> n = k \<and> n < 8"
  by (auto simp: bit_simps)

lemma bit_and_not_pow: "bit ((x :: uint8) AND NOT (2 ^ k)) n \<longleftrightarrow> bit x n \<and> n \<noteq> k"
  by (auto simp: bit_simps dest: bit_imp_le_length)

lemma bit_set_flags [simp]:
  "bit (x OR FACTION_FLAG_VISIBLE) n \<longleftrightarrow> bit x n \<or> n = 0"
  "bit (x OR FACTION_FLAG_AT_WAR) n \<longleftrightarrow> bit x n \<or> n = 1"
  "bit (x AND NOT FACTION_FLAG_AT_WAR) n \<longleftrightarrow> bit x n \<and> n \<noteq> 1"
  "bit (x OR FACTION_FLAG_INACTIVE) n \<longleftrightarrow> bit x n \<or> n = 5"
  "bit (x AND NOT FACTION_FLAG_INACTIVE) n \<longleftrightarrow> bit x n \<and> n \<noteq> 5"
  using bit_or_pow [of x 0 n] bit_or_pow [of x 1 n] bit_or_pow [of x 5 n]
    bit_and_not_pow [of x 1 n] bit_and_not_pow [of x 5 n]
  by (auto simp: FACTION_FLAG_VISIBLE_def FACTION_FLAG_AT_WAR_def FACTION_FLAG_INACTIVE_def)

lemmas flag_bits = has_flag_bits forced_hidden_bits

section \<open>The invariant of the counters\<close>

text \<open>
  What the model needs of the faction store: an entry is stored under its id, ids fit the
  16-bit column of the database, list ids are \<^verbatim>\<open>int32\<close>, and no two listed factions share a list
  id.  Row 0 does not exist, as the loop of \<^verbatim>\<open>Initialize\<close> starts at 1.
\<close>

definition dbc_ok :: "rep_env \<Rightarrow> bool" where
  "dbc_ok E \<longleftrightarrow>
     LookupFaction E 0 = None \<and> NumFactionRows E \<le> 65536 \<and>
     (\<forall>i e. LookupFaction E i = Some e \<longrightarrow>
        fe_ID e = i \<and> unat i < NumFactionRows E \<and>
        - 2147483648 \<le> fe_reputationListID e \<and> fe_reputationListID e < 2147483648 \<and>
        - 2147483648 \<le> GetBaseReputation E (Some e) \<and> GetBaseReputation E (Some e) < 2147483648) \<and>
     (\<forall>i j e f. LookupFaction E i = Some e \<and> LookupFaction E j = Some f \<and>
        0 \<le> fe_reputationListID e \<and> fe_reputationListID e = fe_reputationListID f \<longrightarrow> i = j)"

lemma dbc_okD:
  assumes "dbc_ok E" and "LookupFaction E i = Some e"
  shows "fe_ID e = i" and "unat i < NumFactionRows E"
    and "- 2147483648 \<le> fe_reputationListID e" and "fe_reputationListID e < 2147483648"
    and "s32 (GetBaseReputation E (Some e)) = GetBaseReputation E (Some e)"
  using assms by (simp_all add: dbc_ok_def)

lemma dbc_ok_inj:
  assumes "dbc_ok E" and "LookupFaction E i = Some e" and "LookupFaction E j = Some f"
    and "0 \<le> fe_reputationListID e" and "fe_reputationListID e = fe_reputationListID f"
  shows "i = j"
  using assms unfolding dbc_ok_def by metis

text \<open>The reputation and the rank a state stands for.\<close>

definition st_rep :: "rep_env \<Rightarrow> faction_state \<Rightarrow> int" where
  "st_rep E s = s32 (GetBaseReputation E (LookupFaction E (fs_ID s)) + fs_Standing s)"

definition st_rank :: "rep_env \<Rightarrow> faction_state \<Rightarrow> rep_rank" where
  "st_rank E s = ReputationToRank (st_rep E s)"

definition fs_ok :: "rep_env \<Rightarrow> uint32 \<Rightarrow> faction_state \<Rightarrow> bool" where
  "fs_ok E k s \<longleftrightarrow> fs_ReputationListID s = k \<and>
     (case LookupFaction E (fs_ID s) of
        None \<Rightarrow> False
      | Some e \<Rightarrow> CanHaveReputation e \<and> u32 (fe_reputationListID e) = k)"

definition count_fs :: "(faction_state \<Rightarrow> bool) \<Rightarrow> reputation_mgr \<Rightarrow> uint8" where
  "count_fs P m = of_nat (length (filter (\<lambda>e. P (snd e)) (rm_factions m)))"

definition counts_ok :: "rep_env \<Rightarrow> reputation_mgr \<Rightarrow> bool" where
  "counts_ok E m \<longleftrightarrow>
     rm_visibleFactionCount m = count_fs (has_flag FACTION_FLAG_VISIBLE) m \<and>
     rm_honoredFactionCount m = count_fs (\<lambda>s. REP_HONORED \<le> st_rank E s) m \<and>
     rm_reveredFactionCount m = count_fs (\<lambda>s. REP_REVERED \<le> st_rank E s) m \<and>
     rm_exaltedFactionCount m = count_fs (\<lambda>s. REP_EXALTED \<le> st_rank E s) m"

definition rep_inv :: "rep_env \<Rightarrow> reputation_mgr \<Rightarrow> bool" where
  "rep_inv E m \<longleftrightarrow>
     om_ok (rm_factions m) \<and> (\<forall>e \<in> set (rm_factions m). fs_ok E (fst e) (snd e)) \<and> counts_ok E m"

lemma rep_inv_fs_ok: "rep_inv E m \<Longrightarrow> map_of (rm_factions m) k = Some s \<Longrightarrow> fs_ok E k s"
  by (fastforce simp: rep_inv_def dest: map_of_SomeD)

lemma u32_eq_iff:
  assumes "0 \<le> a" and "a < 2147483648" and "- 2147483648 \<le> b" and "b < 2147483648"
  shows "u32 a = u32 b \<longleftrightarrow> a = b"
proof
  assume "u32 a = u32 b"
  then have "take_bit 32 a = take_bit 32 b"
    by (simp add: u32_def word_of_int_eq_iff)
  then have "signed_take_bit 31 a = signed_take_bit 31 b"
    by (simp add: signed_take_bit_eq_iff_take_bit_eq)
  with assms show "a = b" by (simp add: signed_take_bit_int_eq_self)
qed simp

text \<open>The state under the list id of an entry is the state of that entry.\<close>

lemma fs_ok_ID:
  assumes "dbc_ok E" and "LookupFaction E (fe_ID e) = Some e" and "fs_ok E (u32 (fe_reputationListID e)) s"
  shows "fs_ID s = fe_ID e \<and> CanHaveReputation e"
proof -
  from assms(3) obtain f where f: "LookupFaction E (fs_ID s) = Some f" "0 \<le> fe_reputationListID f"
    "u32 (fe_reputationListID f) = u32 (fe_reputationListID e)"
    by (auto simp: fs_ok_def CanHaveReputation_def split: option.splits)
  have eq: "fe_reputationListID f = fe_reputationListID e"
    using dbc_okD(3,4) [OF assms(1) f(1)] dbc_okD(3,4) [OF assms(1,2)] f(2,3) u32_eq_iff by blast
  with dbc_ok_inj [OF assms(1) f(1) assms(2) f(2)] f(2) show ?thesis
    by (simp add: CanHaveReputation_def)
qed

lemma count_fs_put:
  assumes "om_ok (rm_factions m)" and "map_of (rm_factions m) k = Some s"
    and "rm_factions m' = om_put k s' (rm_factions m)"
  shows "count_fs P m' = count_fs P m - (if P s then 1 else 0) + (if P s' then 1 else 0)"
proof -
  have "of_nat (length (filter (\<lambda>e. P (snd e)) (rm_factions m'))) + (if P s then 1 else 0)
      = of_nat (length (filter (\<lambda>e. P (snd e)) (rm_factions m))) + (if P s' then 1 else (0 :: uint8))"
    using arg_cong [OF length_filter_om_put [OF assms(1,2), of P s'], of "of_nat :: nat \<Rightarrow> uint8"]
    by (simp add: assms(3) split: if_splits)
  then show ?thesis by (simp add: count_fs_def algebra_simps)
qed

text \<open>Replacing one state keeps the invariant when the counters follow.\<close>

lemma rep_inv_replace:
  assumes inv: "rep_inv E m" and s: "map_of (rm_factions m) k = Some s"
    and put: "rm_factions m' = om_put k s' (rm_factions m)"
    and ids: "fs_ID s' = fs_ID s" "fs_ReputationListID s' = fs_ReputationListID s"
    and vis: "rm_visibleFactionCount m' = rm_visibleFactionCount m
      - (if has_flag FACTION_FLAG_VISIBLE s then 1 else 0)
      + (if has_flag FACTION_FLAG_VISIBLE s' then 1 else 0)"
    and rks: "rm_honoredFactionCount m' = rm_honoredFactionCount m
      - (if REP_HONORED \<le> st_rank E s then 1 else 0) + (if REP_HONORED \<le> st_rank E s' then 1 else 0)"
      "rm_reveredFactionCount m' = rm_reveredFactionCount m
      - (if REP_REVERED \<le> st_rank E s then 1 else 0) + (if REP_REVERED \<le> st_rank E s' then 1 else 0)"
      "rm_exaltedFactionCount m' = rm_exaltedFactionCount m
      - (if REP_EXALTED \<le> st_rank E s then 1 else 0) + (if REP_EXALTED \<le> st_rank E s' then 1 else 0)"
  shows "rep_inv E m'"
proof -
  from inv have ok: "om_ok (rm_factions m)" by (simp add: rep_inv_def)
  have "fs_ok E k s'"
    using rep_inv_fs_ok [OF inv s] ids by (simp add: fs_ok_def)
  with inv have "\<forall>e \<in> set (rm_factions m'). fs_ok E (fst e) (snd e)"
    unfolding put rep_inv_def by (metis fst_conv set_om_put_sub snd_conv)
  moreover have "counts_ok E m'"
    using inv unfolding rep_inv_def counts_ok_def
    by (simp only: count_fs_put [OF ok s put] vis rks)
  ultimately show ?thesis using ok by (simp add: rep_inv_def put)
qed

lemma rep_inv_frame [simp]:
  "rep_inv E (rm_emit xs m) = rep_inv E m"
  "rep_inv E (m\<lparr>rm_sendFactionIncreased := b\<rparr>) = rep_inv E m"
  "rep_inv E (m\<lparr>rm_forcedReactions := fr\<rparr>) = rep_inv E m"
  by (simp_all add: rep_inv_def counts_ok_def count_fs_def rm_emit_def)

section \<open>Updates of one state\<close>

subsection \<open>Updates that no counter sees\<close>

locale quiet_update =
  fixes f :: "faction_state \<Rightarrow> faction_state"
  assumes keeps_ID: "fs_ID (f s) = fs_ID s"
    and keeps_list: "fs_ReputationListID (f s) = fs_ReputationListID s"
    and keeps_standing: "fs_Standing (f s) = fs_Standing s"
    and keeps_visible: "has_flag FACTION_FLAG_VISIBLE (f s) = has_flag FACTION_FLAG_VISIBLE s"
begin

lemma same_rank: "st_rank E (f s) = st_rank E s"
  by (simp add: st_rank_def st_rep_def keeps_ID keeps_standing)

lemma same_fs_ok: "fs_ok E k (f s) = fs_ok E k s"
  by (simp add: fs_ok_def keeps_ID keeps_list)

lemma upd_inv:
  assumes "rep_inv E m"
  shows "rep_inv E (upd_state k f m)"
proof (cases "map_of (rm_factions m) k")
  case None
  with assms show ?thesis by (simp add: upd_state_def)
next
  case (Some s)
  show ?thesis
    by (rule rep_inv_replace [OF assms Some, where s' = "f s"])
      (simp_all add: upd_state_def Some keeps_ID keeps_list keeps_visible same_rank)
qed

lemma map_inv:
  assumes "rep_inv E m"
  shows "rep_inv E (m\<lparr>rm_factions := map (\<lambda>e. (fst e, f (snd e))) (rm_factions m)\<rparr>)"
  using assms
  by (auto simp: rep_inv_def counts_ok_def count_fs_def filter_map comp_def same_fs_ok same_rank
      keeps_visible)

end

subsection \<open>Updates that mark what they change\<close>

text \<open>The table of the character: by faction, the standing and the flags.\<close>

type_synonym rep_table = "uint16 \<Rightarrow> (int \<times> uint16) option"

definition saved_in :: "rep_table \<Rightarrow> faction_state \<Rightarrow> bool" where
  "saved_in t s \<longleftrightarrow> t (ucast (fs_ID s)) = Some (fs_Standing s, ucast (fs_Flags s))"

definition db_synced :: "rep_table \<Rightarrow> reputation_mgr \<Rightarrow> bool" where
  "db_synced t m \<longleftrightarrow> (\<forall>e \<in> set (rm_factions m). fs_needSave (snd e) \<or> saved_in t (snd e))"

lemma db_synced_frame [simp]:
  "db_synced t (rm_emit xs m) = db_synced t m"
  "db_synced t (m\<lparr>rm_sendFactionIncreased := b\<rparr>) = db_synced t m"
  "db_synced t (m\<lparr>rm_forcedReactions := fr\<rparr>) = db_synced t m"
  "db_synced t (m\<lparr>rm_visibleFactionCount := c\<rparr>) = db_synced t m"
  "db_synced t (UpdateRankCounters r r' m) = db_synced t m"
  by (simp_all add: db_synced_def rm_emit_def UpdateRankCounters_def Let_def)

lemma db_synced_put:
  assumes "db_synced t m" and "fs_needSave s \<or> saved_in t s"
  shows "db_synced t (m\<lparr>rm_factions := om_put k s (rm_factions m)\<rparr>)"
  using assms set_om_put_sub [of _ k s "rm_factions m"] by (fastforce simp: db_synced_def)

locale marked_update =
  fixes f :: "faction_state \<Rightarrow> faction_state"
  assumes marks: "fs_needSave (f s) \<or>
    fs_ID (f s) = fs_ID s \<and> fs_Standing (f s) = fs_Standing s \<and> fs_Flags (f s) = fs_Flags s \<and>
    fs_needSave (f s) = fs_needSave s"
begin

lemma saved_or_marked:
  "fs_needSave s \<or> saved_in t s \<Longrightarrow> fs_needSave (f s) \<or> saved_in t (f s)"
  using marks [of s] by (auto simp: saved_in_def)

lemma upd_synced:
  assumes "db_synced t m"
  shows "db_synced t (upd_state k f m)"
proof (cases "map_of (rm_factions m) k")
  case None
  with assms show ?thesis by (simp add: upd_state_def)
next
  case (Some s)
  with assms have "fs_needSave s \<or> saved_in t s"
    by (fastforce simp: db_synced_def dest: map_of_SomeD)
  with Some assms show ?thesis by (simp add: upd_state_def db_synced_put saved_or_marked)
qed

lemma map_synced:
  "db_synced t m \<Longrightarrow>
   db_synced t (m\<lparr>rm_factions := map (\<lambda>e. (fst e, f (snd e))) (rm_factions m)\<rparr>)"
  using saved_or_marked by (auto simp: db_synced_def)

end

subsection \<open>Updates that keep the flags in their limits\<close>

text \<open>
  How the flags of a state may differ from the defaults of its faction: only visible, at war and
  inactive change; visible is never taken back, and is given only to a faction that may be shown.
\<close>

definition default_flags :: "rep_env \<Rightarrow> uint32 \<Rightarrow> uint8" where
  "default_flags E i = ucast (GetDefaultStateFlags E (LookupFaction E i))"

definition flags_from :: "uint8 \<Rightarrow> faction_state \<Rightarrow> bool" where
  "flags_from d s \<longleftrightarrow>
     (\<forall>n. n \<noteq> 0 \<longrightarrow> n \<noteq> 1 \<longrightarrow> n \<noteq> 5 \<longrightarrow> bit (fs_Flags s) n = bit d n) \<and>
     (bit d 0 \<longrightarrow> bit (fs_Flags s) 0) \<and>
     (bit (fs_Flags s) 0 \<and> \<not> bit d 0 \<longrightarrow> \<not> ((bit d 2 \<or> bit d 3) \<and> \<not> bit d 7)) \<and>
     (bit (fs_Flags s) 1 \<and> \<not> bit d 1 \<longrightarrow> \<not> bit d 4) \<and>
     (bit (fs_Flags s) 5 \<and> \<not> bit d 5 \<longrightarrow> bit (fs_Flags s) 0 \<and> \<not> bit d 2 \<and> \<not> bit d 3)"

definition flags_ok :: "rep_env \<Rightarrow> reputation_mgr \<Rightarrow> bool" where
  "flags_ok E m \<longleftrightarrow> (\<forall>e \<in> set (rm_factions m). flags_from (default_flags E (fs_ID (snd e))) (snd e))"

lemma flags_ok_frame [simp]:
  "flags_ok E (rm_emit xs m) = flags_ok E m"
  "flags_ok E (m\<lparr>rm_sendFactionIncreased := b\<rparr>) = flags_ok E m"
  "flags_ok E (m\<lparr>rm_forcedReactions := fr\<rparr>) = flags_ok E m"
  "flags_ok E (m\<lparr>rm_visibleFactionCount := c\<rparr>) = flags_ok E m"
  "flags_ok E (UpdateRankCounters r r' m) = flags_ok E m"
  by (simp_all add: flags_ok_def rm_emit_def UpdateRankCounters_def Let_def)

lemma flags_ok_put:
  assumes "flags_ok E m" and "flags_from (default_flags E (fs_ID s)) s"
  shows "flags_ok E (m\<lparr>rm_factions := om_put k s (rm_factions m)\<rparr>)"
  using assms set_om_put_sub [of _ k s "rm_factions m"] by (fastforce simp: flags_ok_def)

locale limited_update =
  fixes f :: "faction_state \<Rightarrow> faction_state"
  assumes same_ID: "fs_ID (f s) = fs_ID s"
    and limits: "flags_from d s \<Longrightarrow> flags_from d (f s)"
begin

lemma upd_flags:
  assumes "flags_ok E m"
  shows "flags_ok E (upd_state k f m)"
proof (cases "map_of (rm_factions m) k")
  case None
  with assms show ?thesis by (simp add: upd_state_def)
next
  case (Some s)
  with assms have "flags_from (default_flags E (fs_ID s)) s"
    by (fastforce simp: flags_ok_def dest: map_of_SomeD)
  with Some assms show ?thesis by (simp add: upd_state_def flags_ok_put limits same_ID)
qed

lemma map_flags:
  "flags_ok E m \<Longrightarrow>
   flags_ok E (m\<lparr>rm_factions := map (\<lambda>e. (fst e, f (snd e))) (rm_factions m)\<rparr>)"
  by (auto simp: flags_ok_def same_ID limits)

end

locale player_update = quiet_update f + marked_update f + limited_update f
  for f :: "faction_state \<Rightarrow> faction_state"

interpretation war: player_update "SetAtWar_state b" for b
proof unfold_locales
  fix d s
  assume "flags_from d s"
  then show "flags_from d (SetAtWar_state b s)"
    by (auto simp: SetAtWar_state_def flags_from_def flag_bits)
qed (auto simp: SetAtWar_state_def flag_bits)

interpretation inactive: player_update "SetInactive_state b" for b
proof unfold_locales
  fix d s
  assume "flags_from d s"
  then show "flags_from d (SetInactive_state b s)"
    by (auto simp: SetInactive_state_def flags_from_def flag_bits)
qed (auto simp: SetInactive_state_def flag_bits)

interpretation sent: player_update mark_sent
  by unfold_locales (auto simp: mark_sent_def flags_from_def has_flag_def)

interpretation sent_all: player_update "\<lambda>s. s\<lparr>fs_needSend := False\<rparr>"
  by unfold_locales (auto simp: flags_from_def has_flag_def)

interpretation saved: quiet_update mark_saved
  by unfold_locales (auto simp: mark_saved_def has_flag_def)

interpretation saved: limited_update mark_saved
  by unfold_locales (auto simp: mark_saved_def flags_from_def)


section \<open>The effect of the modifiers\<close>

definition vis_state :: "faction_state \<Rightarrow> faction_state" where
  "vis_state s =
     (if becomes_visible s
      then s\<lparr>fs_Flags := fs_Flags s OR FACTION_FLAG_VISIBLE, fs_needSend := True, fs_needSave := True\<rparr>
      else s)"

lemma vis_state_simps [simp]:
  "fs_ID (vis_state s) = fs_ID s" "fs_ReputationListID (vis_state s) = fs_ReputationListID s"
  "fs_Standing (vis_state s) = fs_Standing s"
  by (simp_all add: vis_state_def)

lemma vis_state_visible:
  "has_flag FACTION_FLAG_VISIBLE (vis_state s) \<longleftrightarrow> has_flag FACTION_FLAG_VISIBLE s \<or> becomes_visible s"
  by (auto simp: vis_state_def flag_bits)

interpretation vis: marked_update vis_state
  by unfold_locales (auto simp: vis_state_def)

interpretation vis: limited_update vis_state
  by unfold_locales (auto simp: vis_state_def becomes_visible_def flags_from_def flag_bits)

lemma SetVisible_state_effect:
  fixes E :: rep_env
  assumes "om_ok (rm_factions m)" and "map_of (rm_factions m) k = Some s"
  defines "m' \<equiv> SetVisible_state E k m"
  shows "rm_factions m' = om_put k (vis_state s) (rm_factions m)"
    and "rm_visibleFactionCount m' = rm_visibleFactionCount m + (if becomes_visible s then 1 else 0)"
    and "rm_honoredFactionCount m' = rm_honoredFactionCount m"
    and "rm_reveredFactionCount m' = rm_reveredFactionCount m"
    and "rm_exaltedFactionCount m' = rm_exaltedFactionCount m"
  using assms
  by (simp_all add: m'_def SetVisible_state_def vis_state_def SendVisible_def rm_emit_def Let_def
      om_put_same)

lemma SetVisible_state_inv:
  assumes "rep_inv E m"
  shows "rep_inv E (SetVisible_state E k m)"
proof (cases "map_of (rm_factions m) k")
  case None
  with assms show ?thesis by (simp add: SetVisible_state_def)
next
  case (Some s)
  from assms have ok: "om_ok (rm_factions m)" by (simp add: rep_inv_def)
  have "st_rank E (vis_state s) = st_rank E s" by (simp add: st_rank_def st_rep_def)
  moreover have "becomes_visible s \<Longrightarrow> \<not> has_flag FACTION_FLAG_VISIBLE s"
    by (simp add: becomes_visible_def)
  ultimately show ?thesis
    by (intro rep_inv_replace [OF assms Some SetVisible_state_effect(1) [OF ok Some]])
      (auto simp: SetVisible_state_effect [OF ok Some] vis_state_visible)
qed

lemma SetVisible_state_upd:
  "\<exists>c xs. SetVisible_state E k m = rm_emit xs ((upd_state k vis_state m)\<lparr>rm_visibleFactionCount := c\<rparr>)"
  if "om_ok (rm_factions m)"
proof (cases "map_of (rm_factions m) k")
  case None
  then have "SetVisible_state E k m
      = rm_emit [] ((upd_state k vis_state m)\<lparr>rm_visibleFactionCount := rm_visibleFactionCount m\<rparr>)"
    by (simp add: SetVisible_state_def upd_state_def rm_emit_def)
  then show ?thesis by blast
next
  case (Some s)
  show ?thesis
  proof (cases "becomes_visible s \<and> \<not> rp_Loading E")
    case True
    with Some show ?thesis
      by (auto simp: SetVisible_state_def upd_state_def vis_state_def SendVisible_def Let_def
          intro!: exI [of _ "rm_visibleFactionCount m + 1"] exI)
  next
    case False
    with Some that have "SetVisible_state E k m = rm_emit [] ((upd_state k vis_state m)\<lparr>
        rm_visibleFactionCount := rm_visibleFactionCount m + (if becomes_visible s then 1 else 0)\<rparr>)"
      by (auto simp: SetVisible_state_def upd_state_def vis_state_def SendVisible_def Let_def
          rm_emit_def om_put_same)
    then show ?thesis by blast
  qed
qed

text \<open>The new value of a state under \<^verbatim>\<open>SetOneFactionReputation\<close>.\<close>

definition one_state :: "rep_env \<Rightarrow> faction_entry \<Rightarrow> int \<Rightarrow> bool \<Rightarrow> faction_state \<Rightarrow> faction_state" where
  "one_state E e standing incremental s =
     (let BaseRep = GetBaseReputation E (Some e);
          st = target_standing E BaseRep (fs_Standing s) standing incremental;
          s1 = vis_state (s\<lparr>fs_Standing := s32 (st - BaseRep), fs_needSend := True, fs_needSave := True\<rparr>)
      in if ReputationToRank st \<le> REP_HOSTILE then SetAtWar_state True s1 else s1)"

lemma one_state_simps [simp]:
  "fs_ID (one_state E e x i s) = fs_ID s"
  "fs_ReputationListID (one_state E e x i s) = fs_ReputationListID s"
  "fs_needSave (one_state E e x i s)"
  "fs_Standing (one_state E e x i s)
     = s32 (target_standing E (GetBaseReputation E (Some e)) (fs_Standing s) x i - GetBaseReputation E (Some e))"
  by (simp_all add: one_state_def Let_def war.keeps_ID war.keeps_list war.keeps_standing)
    (auto simp: vis_state_def SetAtWar_state_def)

lemma one_state_visible:
  "has_flag FACTION_FLAG_VISIBLE (one_state E e x i s)
     \<longleftrightarrow> has_flag FACTION_FLAG_VISIBLE s \<or> becomes_visible s"
  by (simp add: one_state_def Let_def war.keeps_visible vis_state_visible)
    (simp add: becomes_visible_def flag_bits)

lemma SetOne_effect:
  fixes E :: rep_env and x :: int and i :: bool
  assumes "om_ok (rm_factions m)" and "map_of (rm_factions m) (u32 (fe_reputationListID e)) = Some s"
  defines "b \<equiv> GetBaseReputation E (Some e)"
  defines "m' \<equiv> snd (SetOneFactionReputation E e x i m)"
    and "old_rank \<equiv> ReputationToRank (s32 (fs_Standing s + b))"
    and "new_rank \<equiv> ReputationToRank (target_standing E b (fs_Standing s) x i)"
  shows "fst (SetOneFactionReputation E e x i m)"
    and "rm_factions m' = om_put (u32 (fe_reputationListID e)) (one_state E e x i s) (rm_factions m)"
    and "rm_visibleFactionCount m' = rm_visibleFactionCount m + (if becomes_visible s then 1 else 0)"
    and "rm_honoredFactionCount m' = rm_honoredFactionCount m
      - (if REP_HONORED \<le> old_rank then 1 else 0) + (if REP_HONORED \<le> new_rank then 1 else 0)"
    and "rm_reveredFactionCount m' = rm_reveredFactionCount m
      - (if REP_REVERED \<le> old_rank then 1 else 0) + (if REP_REVERED \<le> new_rank then 1 else 0)"
    and "rm_exaltedFactionCount m' = rm_exaltedFactionCount m
      - (if REP_EXALTED \<le> old_rank then 1 else 0) + (if REP_EXALTED \<le> new_rank then 1 else 0)"
proof -
  define k where "k = u32 (fe_reputationListID e)"
  define s1 where "s1 = s\<lparr>fs_Standing := s32 (target_standing E b (fs_Standing s) x i - b),
    fs_needSend := True, fs_needSave := True\<rparr>"
  define m1 where "m1 = m\<lparr>rm_factions := om_put k s1 (rm_factions m)\<rparr>"
  have k: "map_of (rm_factions m) k = Some s" using assms(2) by (simp add: k_def)
  have m1: "om_ok (rm_factions m1)" "map_of (rm_factions m1) k = Some s1"
    using assms(1) by (simp_all add: m1_def)
  have u1: "upd_state k (\<lambda>t. t\<lparr>fs_Standing := s32 (target_standing E b (fs_Standing s) x i - b),
      fs_needSend := True, fs_needSave := True\<rparr>) m = m1"
    using k by (simp add: upd_state_def m1_def s1_def)
  define m2 where "m2 = SetVisible_state E k m1"
  define m3 where "m3 = (if new_rank \<le> REP_HOSTILE then upd_state k (SetAtWar_state True) m2 else m2)"
  note eff = SetVisible_state_effect [OF m1, of E, folded m2_def]
  have k2: "map_of (rm_factions m2) k = Some (vis_state s1)"
    by (simp add: eff)
  have bv: "becomes_visible s1 = becomes_visible s"
    by (simp add: s1_def becomes_visible_def flag_bits)
  have f3: "rm_factions m3 = om_put k (one_state E e x i s) (rm_factions m)"
    by (simp add: m3_def upd_state_def k2 eff(1) one_state_def Let_def)
      (simp add: m1_def s1_def new_rank_def b_def)
  have c3: "rm_visibleFactionCount m3 = rm_visibleFactionCount m + (if becomes_visible s then 1 else 0)"
    "rm_honoredFactionCount m3 = rm_honoredFactionCount m"
    "rm_reveredFactionCount m3 = rm_reveredFactionCount m"
    "rm_exaltedFactionCount m3 = rm_exaltedFactionCount m"
    by (simp_all add: m3_def upd_state_def k2 eff bv) (simp_all add: m1_def)
  have m': "m' = rm_emit
      [ReputationChanged (fe_ID e), UpdateAchievementCriteria KNOWN_FACTIONS (fe_ID e),
       UpdateAchievementCriteria GAIN_REPUTATION (fe_ID e),
       UpdateAchievementCriteria GAIN_EXALTED_REPUTATION (fe_ID e),
       UpdateAchievementCriteria GAIN_REVERED_REPUTATION (fe_ID e),
       UpdateAchievementCriteria GAIN_HONORED_REPUTATION (fe_ID e)]
      (UpdateRankCounters old_rank new_rank
        (if old_rank < new_rank then m3\<lparr>rm_sendFactionIncreased := True\<rparr> else m3))"
    unfolding m'_def SetOneFactionReputation_def Let_def k_def [symmetric] k option.case snd_conv
      b_def [symmetric] u1 m2_def [symmetric] old_rank_def [symmetric] new_rank_def [symmetric]
      m3_def [symmetric] ..
  show "fst (SetOneFactionReputation E e x i m)"
    by (simp add: SetOneFactionReputation_def Let_def assms(2))
  show "rm_factions m' = om_put (u32 (fe_reputationListID e)) (one_state E e x i s) (rm_factions m)"
    by (simp add: m' rm_emit_def UpdateRankCounters_def f3 k_def)
  show "rm_visibleFactionCount m' = rm_visibleFactionCount m + (if becomes_visible s then 1 else 0)"
    by (simp add: m' rm_emit_def UpdateRankCounters_def c3(1))
  show "rm_honoredFactionCount m' = rm_honoredFactionCount m
      - (if REP_HONORED \<le> old_rank then 1 else 0) + (if REP_HONORED \<le> new_rank then 1 else 0)"
    by (simp add: m' rm_emit_def UpdateRankCounters_def c3(2))
  show "rm_reveredFactionCount m' = rm_reveredFactionCount m
      - (if REP_REVERED \<le> old_rank then 1 else 0) + (if REP_REVERED \<le> new_rank then 1 else 0)"
    by (simp add: m' rm_emit_def UpdateRankCounters_def c3(3))
  show "rm_exaltedFactionCount m' = rm_exaltedFactionCount m
      - (if REP_EXALTED \<le> old_rank then 1 else 0) + (if REP_EXALTED \<le> new_rank then 1 else 0)"
    by (simp add: m' rm_emit_def UpdateRankCounters_def c3(4))
qed

lemma clamp_standing_range: "- 42000 \<le> clamp_standing x \<and> clamp_standing x \<le> 42999"
  by (simp add: clamp_standing_def Reputation_Cap_def Reputation_Bottom_def)

lemma target_standing_range:
  "- 42000 \<le> target_standing E b c x i \<and> target_standing E b c x i \<le> 42999"
  by (simp add: target_standing_def clamp_standing_range)

lemma s32_target [simp]: "s32 (target_standing E b c x i) = target_standing E b c x i"
  using target_standing_range [of E b c x i] by simp

lemma one_state_flags:
  "flags_from d s \<Longrightarrow> flags_from d (one_state E e x i s)"
  by (auto simp: one_state_def Let_def intro!: war.limits vis.limits) (simp_all add: flags_from_def)

text \<open>The three invariants together, for a character with the table \<open>t\<close>.\<close>

definition rep_good :: "rep_env \<Rightarrow> rep_table \<Rightarrow> reputation_mgr \<Rightarrow> bool" where
  "rep_good E t m \<longleftrightarrow> rep_inv E m \<and> db_synced t m \<and> flags_ok E m"

lemma rep_good_frame [simp]:
  "rep_good E t (rm_emit xs m) = rep_good E t m"
  "rep_good E t (m\<lparr>rm_sendFactionIncreased := b\<rparr>) = rep_good E t m"
  "rep_good E t (m\<lparr>rm_forcedReactions := fr\<rparr>) = rep_good E t m"
  by (simp_all add: rep_good_def)

context player_update
begin

lemma upd_good: "rep_good E t m \<Longrightarrow> rep_good E t (upd_state k f m)"
  by (simp add: rep_good_def upd_inv upd_synced upd_flags)

lemma map_good: "rep_good E t m \<Longrightarrow>
    rep_good E t (m\<lparr>rm_factions := map (\<lambda>e. (fst e, f (snd e))) (rm_factions m)\<rparr>)"
  by (simp add: rep_good_def map_inv map_synced map_flags)

end

lemma SetVisible_state_good:
  assumes "rep_good E t m"
  shows "rep_good E t (SetVisible_state E k m)"
proof -
  from assms have "om_ok (rm_factions m)" by (simp add: rep_good_def rep_inv_def)
  then obtain c xs where
    "SetVisible_state E k m = rm_emit xs ((upd_state k vis_state m)\<lparr>rm_visibleFactionCount := c\<rparr>)"
    using SetVisible_state_upd by blast
  then have "db_synced t (SetVisible_state E k m) \<and> flags_ok E (SetVisible_state E k m)"
    using assms by (simp add: rep_good_def vis.upd_synced vis.upd_flags)
  with assms show ?thesis by (simp add: rep_good_def SetVisible_state_inv)
qed

lemma SetOne_inv:
  assumes dbc: "dbc_ok E" and e: "LookupFaction E (fe_ID e) = Some e" and inv: "rep_inv E m"
  shows "rep_inv E (snd (SetOneFactionReputation E e x i m))"
proof (cases "map_of (rm_factions m) (u32 (fe_reputationListID e))")
  case None
  with inv show ?thesis by (simp add: SetOneFactionReputation_def Let_def)
next
  case (Some s)
  from inv have ok: "om_ok (rm_factions m)" by (simp add: rep_inv_def)
  have id: "LookupFaction E (fs_ID s) = Some e"
    using fs_ok_ID [OF dbc e rep_inv_fs_ok [OF inv Some]] e by simp
  have rk: "st_rank E s = ReputationToRank (s32 (fs_Standing s + GetBaseReputation E (Some e)))"
    by (simp add: st_rank_def st_rep_def id add.commute)
  have rk': "st_rank E (one_state E e x i s)
      = ReputationToRank (target_standing E (GetBaseReputation E (Some e)) (fs_Standing s) x i)"
    by (simp add: st_rank_def st_rep_def id)
  have bv: "becomes_visible s \<Longrightarrow> \<not> has_flag FACTION_FLAG_VISIBLE s"
    by (simp add: becomes_visible_def)
  show ?thesis
    by (rule rep_inv_replace [OF inv Some SetOne_effect(2) [OF ok Some]])
      (simp_all add: SetOne_effect [OF ok Some] rk rk' one_state_visible bv)
qed

lemma SetOne_good:
  assumes "dbc_ok E" and "LookupFaction E (fe_ID e) = Some e" and "rep_good E t m"
  shows "rep_good E t (snd (SetOneFactionReputation E e x i m))"
proof (cases "map_of (rm_factions m) (u32 (fe_reputationListID e))")
  case None
  with assms show ?thesis by (simp add: SetOneFactionReputation_def Let_def)
next
  case (Some s)
  let ?m = "snd (SetOneFactionReputation E e x i m)" and ?k = "u32 (fe_reputationListID e)"
  from assms have ok: "om_ok (rm_factions m)" by (simp add: rep_good_def rep_inv_def)
  have put: "rm_factions ?m = om_put ?k (one_state E e x i s) (rm_factions m)"
    by (rule SetOne_effect(2) [OF ok Some])
  have "flags_from (default_flags E (fs_ID s)) s"
    using assms(3) Some by (fastforce simp: rep_good_def flags_ok_def dest: map_of_SomeD)
  then have "flags_ok E (m\<lparr>rm_factions := rm_factions ?m\<rparr>)"
    using assms(3) unfolding put by (intro flags_ok_put) (simp_all add: rep_good_def one_state_flags)
  moreover have "db_synced t (m\<lparr>rm_factions := rm_factions ?m\<rparr>)"
    using assms(3) unfolding put by (intro db_synced_put) (simp_all add: rep_good_def)
  ultimately show ?thesis
    using SetOne_inv [OF assms(1,2)] assms(3) by (simp add: rep_good_def flags_ok_def db_synced_def)
qed

section \<open>The senders and the switches\<close>

lemma SendState_good: "rep_good E t m \<Longrightarrow> rep_good E t (SendState s m)"
  using sent.map_good [of E t "m\<lparr>rm_sendFactionIncreased := False\<rparr>"]
  by (simp add: SendState_def Let_def)

lemma SendStates_good: "rep_good E t m \<Longrightarrow> rep_good E t (SendStates m)"
proof -
  have "rep_good E t (fold (\<lambda>k m'. case map_of (rm_factions m') k of None \<Rightarrow> m' | Some s \<Rightarrow> SendState s m') ks m)"
    if "rep_good E t m" for ks m
    using that by (induction ks arbitrary: m) (auto simp: SendState_good split: option.splits)
  then show "rep_good E t m \<Longrightarrow> ?thesis" by (simp add: SendStates_def)
qed

lemma SendInitialReputations_good: "rep_good E t m \<Longrightarrow> rep_good E t (SendInitialReputations m)"
  by (simp add: SendInitialReputations_def sent_all.map_good)

lemma SetAtWar_good: "rep_good E t m \<Longrightarrow> rep_good E t (SetAtWar k on m)"
  by (simp add: SetAtWar_def war.upd_good split: option.splits)

lemma SetInactive_good: "rep_good E t m \<Longrightarrow> rep_good E t (SetInactive k on m)"
  by (simp add: SetInactive_def inactive.upd_good)

lemma SetVisible_template_good: "rep_good E t m \<Longrightarrow> rep_good E t (SetVisible_template E i m)"
  by (simp add: SetVisible_template_def SetVisible_entry_def SetVisible_state_good split: option.splits)


section \<open>Spillover\<close>

text \<open>
  A predicate that every single change of a standing preserves holds through the spillover and
  the final change.
\<close>

lemma spill_list_preserves:
  assumes step: "\<And>c x m. LookupFaction E (fe_ID c) = Some c \<Longrightarrow> P m \<Longrightarrow>
      P (snd (SetOneFactionReputation E c x i m))"
    and dbc: "dbc_ok E" and "P (snd rm)"
  shows "P (snd (fold (spill_list_one E e out i) l rm))"
  using assms(3)
proof (induction l arbitrary: rm)
  case Nil
  then show ?case by simp
next
  case (Cons a l)
  have "P (snd (spill_list_one E e out i a rm))"
  proof (cases "LookupFaction E a")
    case None
    with Cons.prems show ?thesis by (simp add: spill_list_one_def split: prod.splits)
  next
    case (Some c)
    with dbc_okD(1) [OF dbc Some] have "LookupFaction E (fe_ID c) = Some c" by simp
    from step [OF this Cons.prems] Cons.prems Some show ?thesis
      by (auto simp: spill_list_one_def Let_def split: prod.splits)
  qed
  with Cons.IH show ?case by simp
qed

lemma spill_dbc_preserves:
  assumes step: "\<And>c x m. LookupFaction E (fe_ID c) = Some c \<Longrightarrow> P m \<Longrightarrow>
      P (snd (SetOneFactionReputation E c x i m))"
    and dbc: "dbc_ok E" and "P m"
  shows "P (snd (spill_dbc E e x i m))"
proof -
  have parent: "P (snd (SetOneFactionReputation E c y i m))" if "LookupFaction E j = Some c" for j c y
    using that dbc_okD(1) [OF dbc that] step [OF _ assms(3)] by simp
  show ?thesis
    using assms(3) parent spill_list_preserves [where P = P, OF step dbc]
    by (auto simp: spill_dbc_def Let_def split: option.splits if_splits)
qed

lemma spill_template_preserves:
  assumes step: "\<And>c x m. LookupFaction E (fe_ID c) = Some c \<Longrightarrow> P m \<Longrightarrow>
      P (snd (SetOneFactionReputation E c x i m))"
    and dbc: "dbc_ok E" and "P m" and "iter_res (spill_template_one E x i) t m = Inr m'"
  shows "P m'"
proof (rule iter_res_invariant [where P = P, OF _ assms(3,4)])
  fix a s s'
  assume "P s" and "spill_template_one E x i a s = Inr s'"
  then show "P s'"
    using step dbc_okD(1) [OF dbc]
    by (auto simp: spill_template_one_def Let_def split: prod.splits if_splits option.splits)
qed

text \<open>The state before the last step of \<^verbatim>\<open>SetReputation\<close>, after the spillover.\<close>

lemma SetReputation_spilled:
  assumes step: "\<And>c x m. LookupFaction E (fe_ID c) = Some c \<Longrightarrow> P m \<Longrightarrow>
      P (snd (SetOneFactionReputation E c x i m))"
    and dbc: "dbc_ok E" and "P m" and res: "SetReputation_full E e x i m = Inr (r, m')"
  obtains r1 m1 where "P m1"
    and "map_of (rm_factions m1) (u32 (fe_reputationListID e)) = None \<Longrightarrow> r = r1 \<and> m' = m1"
    and "\<And>s. map_of (rm_factions m1) (u32 (fe_reputationListID e)) = Some s \<Longrightarrow>
      (let rm2 = SetOneFactionReputation E e (OnReputationChange E (fe_ID e) x i) i m1
       in r = fst rm2 \<and>
          m' = (case map_of (rm_factions (snd rm2)) (u32 (fe_reputationListID e)) of
                  None \<Rightarrow> snd rm2 | Some s \<Rightarrow> SendState s (snd rm2)))"
proof -
  let ?st = "OnReputationChange E (fe_ID e) x i"
  from res obtain r1 m1 where
    spill: "(case GetRepSpilloverTemplate E (fe_ID e) of
        Some t \<Rightarrow> bind_res (iter_res (spill_template_one E ?st i) t m) (\<lambda>m'. Inr (False, m'))
      | None \<Rightarrow> Inr (spill_dbc E e ?st i m)) = Inr (r1, m1)"
    and fin: "(case map_of (rm_factions m1) (u32 (fe_reputationListID e)) of
        None \<Rightarrow> Inr (r1, m1)
      | Some _ \<Rightarrow>
          let (res2, m2) = SetOneFactionReputation E e ?st i m1
          in Inr (res2, case map_of (rm_factions m2) (u32 (fe_reputationListID e)) of
                          None \<Rightarrow> m2 | Some s \<Rightarrow> SendState s m2)) = (Inr (r, m') :: rep_error + _)"
    by (auto simp: SetReputation_full_def Let_def res_simps)
  have "P m1"
    using spill \<open>P m\<close> spill_dbc_preserves [where P = P, OF step dbc \<open>P m\<close>, of e ?st]
      spill_template_preserves [where P = P, OF step dbc \<open>P m\<close>]
    by (auto simp: res_simps split: option.splits)
  then show ?thesis
    by (rule that [of m1 r1])
      (use fin in \<open>auto simp: Let_def split: prod.splits option.splits\<close>)
qed

lemma SetReputation_preserves:
  assumes step: "\<And>c x m. LookupFaction E (fe_ID c) = Some c \<Longrightarrow> P m \<Longrightarrow>
      P (snd (SetOneFactionReputation E c x i m))"
    and send: "\<And>s m. P m \<Longrightarrow> P (SendState s m)"
    and dbc: "dbc_ok E" and e: "LookupFaction E (fe_ID e) = Some e"
    and m: "P m" and res: "SetReputation_full E e x i m = Inr (r, m')"
  shows "P m'"
proof (rule SetReputation_spilled [where P = P, OF step dbc m res])
  fix r1 m1
  let ?k = "u32 (fe_reputationListID e)"
  let ?rm2 = "SetOneFactionReputation E e (OnReputationChange E (fe_ID e) x i) i m1"
  assume "P m1" and none: "map_of (rm_factions m1) ?k = None \<Longrightarrow> r = r1 \<and> m' = m1"
    and some: "\<And>s. map_of (rm_factions m1) ?k = Some s \<Longrightarrow> (let rm2 = ?rm2 in r = fst rm2 \<and>
      m' = (case map_of (rm_factions (snd rm2)) ?k of None \<Rightarrow> snd rm2 | Some s \<Rightarrow> SendState s (snd rm2)))"
  show "P m'"
  proof (cases "map_of (rm_factions m1) ?k")
    case None
    with none \<open>P m1\<close> show ?thesis by simp
  next
    case (Some s)
    have "P (snd ?rm2)" by (rule step [OF e \<open>P m1\<close>])
    with some [OF Some] send show ?thesis by (simp add: Let_def split: option.splits)
  qed
qed

lemma SetReputation_good:
  assumes "dbc_ok E" and "LookupFaction E (fe_ID e) = Some e" and "rep_good E t m"
    and "SetReputation_full E e x i m = Inr (r, m')"
  shows "rep_good E t m'"
  by (rule SetReputation_preserves [where P = "rep_good E t", OF _ _ assms])
    (simp_all add: SetOne_good [OF assms(1)] SendState_good)


section \<open>Ranks and the points of a rank\<close>

text \<open>
  The reference: rank \<open>i\<close> starts where the points of the ranks \<open>i\<close> to 7 (\<^verbatim>\<open>PointsInRank\<close>) reach down
  from the cap; a standing has the highest rank that starts at or below it.
\<close>

definition all_ranks :: "rep_rank list" where
  "all_ranks = [REP_HATED, REP_HOSTILE, REP_UNFRIENDLY, REP_NEUTRAL, REP_FRIENDLY, REP_HONORED,
                REP_REVERED, REP_EXALTED]"

definition rank_start :: "nat \<Rightarrow> int" where
  "rank_start i = Reputation_Cap + 1 - sum_list (drop i PointsInRank)"

definition rank_by_points :: "int \<Rightarrow> rep_rank" where
  "rank_by_points standing =
     (case find (\<lambda>i. rank_start i \<le> standing) [7, 6, 5, 4, 3, 2, 1] of
        None \<Rightarrow> REP_HATED | Some i \<Rightarrow> all_ranks ! i)"

text \<open>
  \<^verbatim>\<open>ReputationToRank\<close> is the rank given by the points of each rank, except at the three
  standings 3000, 9000 and 21000, the first points of friendly, honored and revered, which still
  count for the rank below.
\<close>

theorem ReputationToRank_by_points:
  "ReputationToRank standing =
     (if standing \<in> {3000, 9000, 21000} then rank_by_points (standing - 1)
      else rank_by_points standing)"
  by (auto simp: ReputationToRank_def rank_by_points_def rank_start_def all_ranks_def
      PointsInRank_def Reputation_Cap_def)

end
