(* ===== verification/Reputation_DB.thy ===== *)
theory Reputation_DB
  imports Reputation_Props
begin

text \<open>
  The reputation manager and the character database: the states after \<^verbatim>\<open>Initialize\<close> and
  \<^verbatim>\<open>LoadFromDB\<close>, the statements of \<^verbatim>\<open>SaveToDB\<close>, sessions as sequences of operations, and the
  round trip of a saved character.
\<close>

unbundle bit_operations_syntax

section \<open>Creation\<close>

lemma count_fs_put_new:
  assumes "map_of (rm_factions m) k = None" and "rm_factions m' = om_put k s (rm_factions m)"
  shows "count_fs P m' = count_fs P m + (if P s then 1 else 0)"
  using assms by (simp add: count_fs_def length_filter_om_put_new)

text \<open>The listed faction with a list id.\<close>

definition listed_at :: "rep_env \<Rightarrow> uint32 \<Rightarrow> faction_entry \<Rightarrow> bool" where
  "listed_at E k e \<longleftrightarrow> LookupFaction E (fe_ID e) = Some e \<and> 0 \<le> fe_reputationListID e \<and>
     u32 (fe_reputationListID e) = k"

lemma listed_unique:
  assumes "dbc_ok E" and "listed_at E k e" and "listed_at E k f"
  shows "e = f"
proof -
  have l: "LookupFaction E (fe_ID e) = Some e" "LookupFaction E (fe_ID f) = Some f"
    using assms by (simp_all add: listed_at_def)
  have "u32 (fe_reputationListID e) = u32 (fe_reputationListID f)" and pos: "0 \<le> fe_reputationListID e"
    using assms(2,3) by (simp_all add: listed_at_def)
  then have "fe_reputationListID e = fe_reputationListID f"
    using dbc_okD(3,4) [OF assms(1) l(1)] dbc_okD(3,4) [OF assms(1) l(2)]
      u32_eq_iff [of "fe_reputationListID e" "fe_reputationListID f"] by blast
  then have "fe_ID e = fe_ID f" by (rule dbc_ok_inj [OF assms(1) l pos])
  then have "Some e = Some f" unfolding l(1) [symmetric] l(2) [symmetric] by simp
  then show ?thesis by simp
qed

definition states_are :: "rep_env \<Rightarrow> (faction_entry \<Rightarrow> faction_state option) \<Rightarrow> reputation_mgr \<Rightarrow> bool" where
  "states_are E g m \<longleftrightarrow>
     (\<forall>k s. map_of (rm_factions m) k = Some s \<longleftrightarrow> (\<exists>e. listed_at E k e \<and> g e = Some s))"

lemma new_faction_rank:
  assumes "dbc_ok E" and "LookupFaction E (fe_ID e) = Some e"
  shows "st_rank E (new_faction E e) = GetBaseRank E (Some e)"
  using assms dbc_okD(5) [OF assms] by (simp add: st_rank_def st_rep_def new_faction_def GetBaseRank_def)

lemma init_faction_step:
  assumes dbc: "dbc_ok E" and inv: "rep_inv E m"
    and st: "states_are E (\<lambda>e. if unat (fe_ID e) < n then Some (new_faction E e) else None) m"
    and n: "n < 65536"
  shows "rep_inv E (init_faction E (of_nat n) m) \<and>
    states_are E (\<lambda>e. if unat (fe_ID e) < Suc n then Some (new_faction E e) else None)
      (init_faction E (of_nat n) m)"
proof (cases "\<exists>e. LookupFaction E (of_nat n) = Some e \<and> 0 \<le> fe_reputationListID e")
  case False
  have "unat (fe_ID e) < Suc n \<longleftrightarrow> unat (fe_ID e) < n" if "listed_at E k e" for k e
    using False that n by (auto simp: listed_at_def less_Suc_eq)
  moreover have "init_faction E (of_nat n) m = m"
    using False by (auto simp: init_faction_def split: option.splits)
  ultimately show ?thesis using inv st by (auto simp: states_are_def)
next
  case True
  then obtain e where e: "LookupFaction E (of_nat n) = Some e" "0 \<le> fe_reputationListID e" by blast
  have id: "fe_ID e = of_nat n" by (rule dbc_okD(1) [OF dbc e(1)])
  define k where "k = u32 (fe_reputationListID e)"
  define m' where "m' = init_faction E (of_nat n) m"
  have un: "unat (of_nat n :: uint32) = n" using n by (simp add: unat_of_nat)
  have le: "listed_at E k e" using e id by (simp add: listed_at_def k_def)
  have none: "map_of (rm_factions m) k = None"
  proof (rule ccontr)
    assume "map_of (rm_factions m) k \<noteq> None"
    then obtain f where f: "listed_at E k f" "unat (fe_ID f) < n"
      using st by (fastforce simp: states_are_def split: if_splits)
    have "e = f" by (rule listed_unique [OF dbc le f(1)])
    with f(2) id un show False by simp
  qed
  have put: "rm_factions m' = om_put k (new_faction E e) (rm_factions m)"
    using e by (simp add: m'_def init_faction_def Let_def UpdateRankCounters_def new_faction_def k_def)
  have cnts: "rm_visibleFactionCount m' = rm_visibleFactionCount m
        + (if has_flag FACTION_FLAG_VISIBLE (new_faction E e) then 1 else 0)"
    "rm_honoredFactionCount m' = rm_honoredFactionCount m
        + (if REP_HONORED \<le> st_rank E (new_faction E e) then 1 else 0)"
    "rm_reveredFactionCount m' = rm_reveredFactionCount m
        + (if REP_REVERED \<le> st_rank E (new_faction E e) then 1 else 0)"
    "rm_exaltedFactionCount m' = rm_exaltedFactionCount m
        + (if REP_EXALTED \<le> st_rank E (new_faction E e) then 1 else 0)"
    using e new_faction_rank [OF dbc, of e] id
    by (simp_all add: m'_def init_faction_def Let_def UpdateRankCounters_def less_eq_rep_rank_def)
  have "fs_ok E k (new_faction E e)"
    using e id by (simp add: fs_ok_def new_faction_def k_def CanHaveReputation_def)
  then have "\<forall>x \<in> set (rm_factions m'). fs_ok E (fst x) (snd x)"
    using inv unfolding put rep_inv_def by (metis fst_conv set_om_put_sub snd_conv)
  moreover have "counts_ok E m'"
    using inv unfolding rep_inv_def counts_ok_def
    by (simp only: count_fs_put_new [OF none put] cnts)
  ultimately have "rep_inv E m'" using inv by (simp add: rep_inv_def put)
  moreover have "states_are E (\<lambda>e. if unat (fe_ID e) < Suc n then Some (new_faction E e) else None) m'"
    unfolding states_are_def
  proof (intro allI, goal_cases)
    case (1 j s)
    show "map_of (rm_factions m') j = Some s \<longleftrightarrow>
      (\<exists>e. listed_at E j e \<and> (if unat (fe_ID e) < Suc n then Some (new_faction E e) else None) = Some s)"
    proof (cases "j = k")
      case True
      have "listed_at E k f \<longleftrightarrow> f = e" for f using listed_unique [OF dbc le] le by blast
      with True id un show ?thesis by (simp add: put)
    next
      case False
      have "unat (fe_ID f) < Suc n \<longleftrightarrow> unat (fe_ID f) < n" if "listed_at E j f" for f
      proof -
        have "unat (fe_ID f) \<noteq> n"
        proof
          assume "unat (fe_ID f) = n"
          then have "fe_ID f = of_nat n" using un by (simp add: word_unat_eq_iff)
          with that e(1) have "f = e" by (simp add: listed_at_def)
          with that False show False by (simp add: listed_at_def k_def)
        qed
        then show ?thesis by auto
      qed
      with False st show ?thesis by (auto simp: put states_are_def)
    qed
  qed
  ultimately show ?thesis by (simp add: m'_def)
qed

lemma Initialize_states:
  assumes dbc: "dbc_ok E"
  shows "rep_inv E (Initialize E m) \<and> states_are E (\<lambda>e. Some (new_faction E e)) (Initialize E m)"
proof -
  define m0 where "m0 = m\<lparr>rm_factions := [], rm_visibleFactionCount := 0, rm_honoredFactionCount := 0,
    rm_reveredFactionCount := 0, rm_exaltedFactionCount := 0, rm_sendFactionIncreased := False\<rparr>"
  have zero: "LookupFaction E 0 = None" and N: "NumFactionRows E \<le> 65536"
    using dbc by (simp_all add: dbc_ok_def)
  have init: "rep_inv E m0 \<and>
      states_are E (\<lambda>e. if unat (fe_ID e) < 1 then Some (new_faction E e) else None) m0"
    using zero by (auto simp: m0_def rep_inv_def counts_ok_def count_fs_def states_are_def listed_at_def
        unat_eq_0)
  have *: "rep_inv E (fold (init_faction E) (map of_nat [1..<n]) m0) \<and>
      states_are E (\<lambda>e. if unat (fe_ID e) < n then Some (new_faction E e) else None)
        (fold (init_faction E) (map of_nat [1..<n]) m0)" if "1 \<le> n" "n \<le> 65536" for n
    using that
  proof (induction n rule: dec_induct)
    case base
    with init show ?case by simp
  next
    case (step n)
    then show ?case using init_faction_step [OF dbc, of _ n] by simp
  qed
  show ?thesis
  proof (cases "1 \<le> NumFactionRows E")
    case True
    have "listed_at E k e \<Longrightarrow> unat (fe_ID e) < NumFactionRows E" for k e
      using dbc_okD(2) [OF dbc] by (auto simp: listed_at_def)
    with * [OF True N] show ?thesis by (auto simp: Initialize_def m0_def states_are_def)
  next
    case False
    then have "\<not> listed_at E k e" for k e
      using dbc_okD(2) [OF dbc] by (fastforce simp: listed_at_def)
    with init False show ?thesis by (auto simp: Initialize_def m0_def states_are_def)
  qed
qed


section \<open>Loading\<close>

text \<open>The new value of a state under the body of the loop of \<^verbatim>\<open>LoadFromDB\<close>.\<close>

definition row_war :: "rep_row \<Rightarrow> faction_state \<Rightarrow> faction_state" where
  "row_war r s =
     (if row_has r FACTION_FLAG_AT_WAR then SetAtWar_state True s
      else if has_flag FACTION_FLAG_VISIBLE s then SetAtWar_state False s else s)"

definition row_clean :: "rep_row \<Rightarrow> faction_state \<Rightarrow> faction_state" where
  "row_clean r s = (if ucast (fs_Flags s) = row_flags r
                    then s\<lparr>fs_needSend := False, fs_needSave := False\<rparr> else s)"

definition load_state :: "rep_env \<Rightarrow> faction_entry \<Rightarrow> rep_row \<Rightarrow> faction_state \<Rightarrow> faction_state" where
  "load_state E e r s =
     (let s1 = s\<lparr>fs_Standing := row_standing r\<rparr>;
          s2 = (if row_has r FACTION_FLAG_VISIBLE then vis_state s1 else s1);
          s3 = (if row_has r FACTION_FLAG_INACTIVE then SetInactive_state True s2 else s2);
          s4 = row_war r s3;
          s5 = (if ReputationToRank (s32 (GetBaseReputation E (Some e) + row_standing r)) \<le> REP_HOSTILE
                then SetAtWar_state True s4 else s4)
      in row_clean r s5)"

lemma row_war_cases: "row_war r s = s \<or> (\<exists>b. row_war r s = SetAtWar_state b s)"
  by (auto simp: row_war_def)

interpretation rwar: player_update "row_war r" for r
proof unfold_locales
  fix d s
  show "flags_from d s \<Longrightarrow> flags_from d (row_war r s)"
    using row_war_cases [of r s] war.limits by metis
  show "fs_needSave (row_war r s) \<or> fs_ID (row_war r s) = fs_ID s \<and>
      fs_Standing (row_war r s) = fs_Standing s \<and> fs_Flags (row_war r s) = fs_Flags s \<and>
      fs_needSave (row_war r s) = fs_needSave s"
    using row_war_cases [of r s] war.marks by metis
qed (auto simp: row_war_def war.keeps_ID war.keeps_list war.keeps_standing war.keeps_visible)

lemma row_fold:
  "(\<lambda>s. if row_has r FACTION_FLAG_AT_WAR then SetAtWar_state True s
        else if has_flag FACTION_FLAG_VISIBLE s then SetAtWar_state False s else s) = row_war r"
  "(\<lambda>s. if ucast (fs_Flags s) = row_flags r
        then s\<lparr>fs_needSend := False, fs_needSave := False\<rparr> else s) = row_clean r"
  by (simp_all add: row_war_def row_clean_def fun_eq_iff)

lemma row_clean_simps [simp]:
  "fs_ID (row_clean r s) = fs_ID s" "fs_ReputationListID (row_clean r s) = fs_ReputationListID s"
  "fs_Standing (row_clean r s) = fs_Standing s" "fs_Flags (row_clean r s) = fs_Flags s"
  by (simp_all add: row_clean_def)

lemmas update_frame = war.keeps_ID war.keeps_list war.keeps_standing rwar.keeps_ID rwar.keeps_list
  rwar.keeps_standing inactive.keeps_ID inactive.keeps_list inactive.keeps_standing

lemma load_state_simps [simp]:
  "fs_ID (load_state E e r s) = fs_ID s"
  "fs_ReputationListID (load_state E e r s) = fs_ReputationListID s"
  "fs_Standing (load_state E e r s) = row_standing r"
  by (simp_all add: load_state_def Let_def update_frame)

lemma load_state_visible:
  "has_flag FACTION_FLAG_VISIBLE (load_state E e r s)
     \<longleftrightarrow> has_flag FACTION_FLAG_VISIBLE s \<or> row_has r FACTION_FLAG_VISIBLE \<and> becomes_visible s"
proof -
  have clean: "has_flag f (row_clean r s) = has_flag f s" for f s by (simp add: has_flag_def)
  show ?thesis
    by (simp add: load_state_def Let_def clean war.keeps_visible rwar.keeps_visible
        inactive.keeps_visible vis_state_visible) (auto simp: becomes_visible_def flag_bits)
qed

lemma load_state_flags: "flags_from d s \<Longrightarrow> flags_from d (load_state E e r s)"
proof -
  have clean: "flags_from d (row_clean r s) = flags_from d s" for s by (simp add: flags_from_def)
  have std: "flags_from d (s\<lparr>fs_Standing := x\<rparr>) = flags_from d s" for s x by (simp add: flags_from_def)
  assume "flags_from d s"
  then show ?thesis
    by (simp add: load_state_def Let_def clean std war.limits rwar.limits inactive.limits vis.limits)
qed

lemma load_state_needSave:
  assumes "fs_needSave s"
  shows "fs_needSave (load_state E e r s) \<or> ucast (fs_Flags (load_state E e r s)) = row_flags r"
proof -
  have keep: "fs_needSave s \<Longrightarrow> fs_needSave (SetAtWar_state b s)"
    "fs_needSave s \<Longrightarrow> fs_needSave (SetInactive_state b s)"
    "fs_needSave s \<Longrightarrow> fs_needSave (vis_state s)"
    "fs_needSave s \<Longrightarrow> fs_needSave (row_war r s)" for s b
    by (simp_all add: SetAtWar_state_def SetInactive_state_def vis_state_def row_war_def)
  have "fs_needSave (row_clean r s) \<or> ucast (fs_Flags (row_clean r s)) = row_flags r"
    if "fs_needSave s" for s
    using that by (simp add: row_clean_def)
  with assms keep show ?thesis by (simp add: load_state_def Let_def)
qed

lemma load_state_clean:
  assumes "ucast (fs_Flags (load_state E e r s)) = row_flags r"
  shows "\<not> fs_needSave (load_state E e r s)"
proof -
  obtain s5 where "load_state E e r s = row_clean r s5" unfolding load_state_def Let_def by blast
  with assms show ?thesis by (simp add: row_clean_def split: if_splits)
qed

text \<open>Updates of one state through its key, composed.\<close>

definition on_key :: "uint32 \<Rightarrow> faction_state \<Rightarrow> reputation_mgr \<Rightarrow> reputation_mgr \<Rightarrow> bool" where
  "on_key k s m m' \<longleftrightarrow> rm_factions m' = om_put k s (rm_factions m) \<and>
     rm_honoredFactionCount m' = rm_honoredFactionCount m \<and>
     rm_reveredFactionCount m' = rm_reveredFactionCount m \<and>
     rm_exaltedFactionCount m' = rm_exaltedFactionCount m"

lemma on_key_upd:
  "on_key k s m m' \<Longrightarrow> on_key k (f s) m (upd_state k f m')"
  by (simp add: on_key_def upd_state_def)

lemma on_key_vis:
  "om_ok (rm_factions m) \<Longrightarrow> on_key k s m m' \<Longrightarrow> on_key k (vis_state s) m (SetVisible_state E k m')"
  using SetVisible_state_effect [of m' k s E] by (simp add: on_key_def)

lemma upd_state_visible [simp]: "rm_visibleFactionCount (upd_state k f m) = rm_visibleFactionCount m"
  by (simp add: upd_state_def split: option.splits)

lemma load_row_effect:
  fixes E :: rep_env and r :: rep_row
  assumes ok: "om_ok (rm_factions m)" and e: "LookupFaction E (ucast (row_faction r)) = Some e"
    and nonneg: "0 \<le> fe_reputationListID e"
    and s: "map_of (rm_factions m) (u32 (fe_reputationListID e)) = Some s"
  defines "m' \<equiv> load_row E r m" and "b \<equiv> GetBaseReputation E (Some e)"
    and "k \<equiv> u32 (fe_reputationListID e)"
  shows "rm_factions m' = om_put k (load_state E e r s) (rm_factions m)"
    and "rm_visibleFactionCount m' = rm_visibleFactionCount m
      + (if row_has r FACTION_FLAG_VISIBLE \<and> becomes_visible s then 1 else 0)"
    and "rm_honoredFactionCount m' = rm_honoredFactionCount m
      - (if REP_HONORED \<le> ReputationToRank b then 1 else 0)
      + (if REP_HONORED \<le> ReputationToRank (s32 (b + row_standing r)) then 1 else 0)"
    and "rm_reveredFactionCount m' = rm_reveredFactionCount m
      - (if REP_REVERED \<le> ReputationToRank b then 1 else 0)
      + (if REP_REVERED \<le> ReputationToRank (s32 (b + row_standing r)) then 1 else 0)"
    and "rm_exaltedFactionCount m' = rm_exaltedFactionCount m
      - (if REP_EXALTED \<le> ReputationToRank b then 1 else 0)
      + (if REP_EXALTED \<le> ReputationToRank (s32 (b + row_standing r)) then 1 else 0)"
proof -
  define s1 where "s1 = s\<lparr>fs_Standing := row_standing r\<rparr>"
  define s2 where "s2 = (if row_has r FACTION_FLAG_VISIBLE then vis_state s1 else s1)"
  define s3 where "s3 = (if row_has r FACTION_FLAG_INACTIVE then SetInactive_state True s2 else s2)"
  define hostile where "hostile \<longleftrightarrow> ReputationToRank (s32 (b + row_standing r)) \<le> REP_HOSTILE"
  define m2 where "m2 = UpdateRankCounters (ReputationToRank b)
    (ReputationToRank (s32 (b + row_standing r)))
    (upd_state k (\<lambda>s. s\<lparr>fs_Standing := row_standing r\<rparr>) (touch_state k m))"
  define m3 where "m3 = (if row_has r FACTION_FLAG_VISIBLE then SetVisible_state E k m2 else m2)"
  define m4 where "m4 = (if row_has r FACTION_FLAG_INACTIVE
    then upd_state k (SetInactive_state True) m3 else m3)"
  define m5 where "m5 = upd_state k (row_war r) m4"
  have s': "map_of (rm_factions m) k = Some s" using s by (simp add: k_def)
  then have touch: "touch_state k m = m" by (simp add: touch_state_def om_insert_def)
  have f2: "rm_factions m2 = om_put k s1 (rm_factions m)"
    by (simp add: m2_def UpdateRankCounters_def touch upd_state_def s' s1_def)
  have k2: "on_key k s1 m2 m2"
    using ok by (simp add: on_key_def f2)
  have ok2: "om_ok (rm_factions m2)" using ok by (simp add: f2)
  have k3: "on_key k s2 m2 m3"
    using k2 by (simp add: m3_def s2_def on_key_vis [OF ok2])
  have k4: "on_key k s3 m2 m4" using k3 by (simp add: m4_def s3_def on_key_upd)
  have k5: "on_key k (row_war r s3) m2 m5" using k4 by (simp add: m5_def on_key_upd)
  have st5: "fs_Standing (row_war r s3) = row_standing r"
    by (simp add: s3_def s2_def s1_def update_frame)
  have rank: "GetRank E (Some e) m5 = ReputationToRank (s32 (b + row_standing r))"
    using k5 nonneg st5
    by (simp add: GetRank_def GetReputation_def GetState_def GetState_id_def CanHaveReputation_def
        on_key_def k_def [symmetric] b_def)
  have m': "m' = upd_state k (row_clean r) (if hostile then upd_state k (SetAtWar_state True) m5 else m5)"
    unfolding m'_def load_row_def e option.case if_P [OF nonneg] Let_def
      k_def [symmetric] b_def [symmetric] m2_def [symmetric] m3_def [symmetric] m4_def [symmetric]
      row_fold m5_def [symmetric] rank hostile_def [symmetric] ..
  have ls: "load_state E e r s
      = row_clean r (if hostile then SetAtWar_state True (row_war r s3) else row_war r s3)"
    unfolding load_state_def Let_def s1_def s2_def s3_def b_def hostile_def ..
  have k': "on_key k (load_state E e r s) m2 m'"
    using on_key_upd [OF k5] k5 unfolding m' ls by (cases hostile) (simp_all add: on_key_upd)
  have bv: "becomes_visible s1 = becomes_visible s" by (simp add: s1_def becomes_visible_def flag_bits)
  have k1: "map_of (rm_factions m2) k = Some s1" by (simp add: f2)
  show "rm_factions m' = om_put k (load_state E e r s) (rm_factions m)"
    using k' by (simp add: on_key_def f2)
  have v2: "rm_visibleFactionCount m2 = rm_visibleFactionCount m"
    by (simp add: m2_def UpdateRankCounters_def touch)
  show "rm_visibleFactionCount m' = rm_visibleFactionCount m
      + (if row_has r FACTION_FLAG_VISIBLE \<and> becomes_visible s then 1 else 0)"
    by (simp add: m' m5_def m4_def m3_def SetVisible_state_effect(2) [OF ok2 k1] bv v2)
  note cnt = on_key_def m2_def UpdateRankCounters_def touch upd_state_def s'
  show "rm_honoredFactionCount m' = rm_honoredFactionCount m
      - (if REP_HONORED \<le> ReputationToRank b then 1 else 0)
      + (if REP_HONORED \<le> ReputationToRank (s32 (b + row_standing r)) then 1 else 0)"
    using k' by (simp add: cnt)
  show "rm_reveredFactionCount m' = rm_reveredFactionCount m
      - (if REP_REVERED \<le> ReputationToRank b then 1 else 0)
      + (if REP_REVERED \<le> ReputationToRank (s32 (b + row_standing r)) then 1 else 0)"
    using k' by (simp add: cnt)
  show "rm_exaltedFactionCount m' = rm_exaltedFactionCount m
      - (if REP_EXALTED \<le> ReputationToRank b then 1 else 0)
      + (if REP_EXALTED \<le> ReputationToRank (s32 (b + row_standing r)) then 1 else 0)"
    using k' by (simp add: cnt)
qed


lemma load_row_step:
  assumes dbc: "dbc_ok E" and inv: "rep_inv E m" and st: "states_are E g m"
    and e: "listed_at E k e" and id: "ucast (row_faction r) = fe_ID e"
    and g: "g e = Some (new_faction E e)"
  shows "rep_inv E (load_row E r m) \<and>
    states_are E (g(e := Some (load_state E e r (new_faction E e)))) (load_row E r m)"
proof -
  let ?s = "new_faction E e" and ?m = "load_row E r m"
  have le: "LookupFaction E (ucast (row_faction r)) = Some e" "0 \<le> fe_reputationListID e"
    "LookupFaction E (fe_ID e) = Some e" and k: "u32 (fe_reputationListID e) = k"
    using e id by (simp_all add: listed_at_def)
  have ok: "om_ok (rm_factions m)" using inv by (simp add: rep_inv_def)
  have s: "map_of (rm_factions m) k = Some ?s" using st e g by (auto simp: states_are_def)
  note eff = load_row_effect [OF ok le(1,2), unfolded k, OF s]
  have rk: "st_rank E ?s = ReputationToRank (GetBaseReputation E (Some e))"
    using new_faction_rank [OF dbc le(3)] by (simp add: GetBaseRank_def)
  have rk': "st_rank E (load_state E e r ?s)
      = ReputationToRank (s32 (GetBaseReputation E (Some e) + row_standing r))"
    using le(3) by (simp add: st_rank_def st_rep_def new_faction_def)
  have "rep_inv E ?m"
    by (rule rep_inv_replace [OF inv s eff(1)])
      (auto simp: eff rk rk' load_state_visible becomes_visible_def)
  moreover have "states_are E (g(e := Some (load_state E e r ?s))) ?m"
    unfolding states_are_def
  proof (intro allI, goal_cases)
    case (1 j t)
    show ?case
    proof (cases "j = k")
      case True
      have "listed_at E k f \<longleftrightarrow> f = e" for f using listed_unique [OF dbc e] e by blast
      with True show ?thesis by (simp add: eff)
    next
      case False
      then have "listed_at E j f \<Longrightarrow> f \<noteq> e" for f using e by (auto simp: listed_at_def)
      with False st show ?thesis by (auto simp: eff states_are_def)
    qed
  qed
  ultimately show ?thesis by blast
qed

definition loaded :: "rep_env \<Rightarrow> rep_row list \<Rightarrow> faction_entry \<Rightarrow> faction_state" where
  "loaded E rows e =
     (case find (\<lambda>r. ucast (row_faction r) = fe_ID e) rows of
        None \<Rightarrow> new_faction E e | Some r \<Rightarrow> load_state E e r (new_faction E e))"

lemma find_snoc: "find P (xs @ [x]) = (case find P xs of None \<Rightarrow> if P x then Some x else None | Some y \<Rightarrow> Some y)"
  by (induction xs) auto

lemma LoadFromDB_states:
  assumes dbc: "dbc_ok E" and "distinct (map row_faction rows)"
  shows "rep_inv E (LoadFromDB E rows m) \<and> states_are E (\<lambda>e. Some (loaded E rows e)) (LoadFromDB E rows m)"
  using assms(2)
proof (induction rows rule: rev_induct)
  case Nil
  show ?case using Initialize_states [OF dbc] by (simp add: LoadFromDB_def loaded_def)
next
  case (snoc r rows)
  let ?m = "LoadFromDB E rows m"
  have IH: "rep_inv E ?m" "states_are E (\<lambda>e. Some (loaded E rows e)) ?m"
    using snoc by simp_all
  have step: "LoadFromDB E (rows @ [r]) m = load_row E r ?m" by (simp add: LoadFromDB_def)
  show ?case
  proof (cases "\<exists>k e. listed_at E k e \<and> ucast (row_faction r) = fe_ID e")
    case False
    have "load_row E r ?m = ?m"
    proof (cases "LookupFaction E (ucast (row_faction r))")
      case None
      then show ?thesis by (simp add: load_row_def)
    next
      case (Some e)
      with dbc_okD(1) [OF dbc Some] False have "\<not> 0 \<le> fe_reputationListID e"
        unfolding listed_at_def by metis
      with Some show ?thesis by (simp add: load_row_def)
    qed
    moreover have "loaded E (rows @ [r]) f = loaded E rows f" if "listed_at E k f" for k f
      using False that by (auto simp: loaded_def find_snoc split: option.splits)
    ultimately show ?thesis using IH by (auto simp: step states_are_def)
  next
    case True
    then obtain k e where e: "listed_at E k e" "ucast (row_faction r) = fe_ID e" by blast
    have "row_faction q \<noteq> row_faction r" if "q \<in> set rows" for q
      using snoc.prems that by (auto simp: image_iff)
    then have "ucast (row_faction q) \<noteq> (ucast (row_faction r) :: uint32)" if "q \<in> set rows" for q
      using that by (simp add: ucast_16_32_inj)
    then have none: "find (\<lambda>q. ucast (row_faction q) = fe_ID e) rows = None"
      unfolding find_None_iff e(2) [symmetric] by blast
    then have new: "loaded E rows e = new_faction E e" by (simp add: loaded_def)
    have "loaded E (rows @ [r]) f
        = (if f = e then load_state E e r (new_faction E e) else loaded E rows f)"
      if "listed_at E j f" for f j
    proof (cases "f = e")
      case True
      with none e show ?thesis by (simp add: loaded_def find_snoc)
    next
      case False
      then have "fe_ID f \<noteq> fe_ID e" using that e(1) by (auto simp: listed_at_def)
      with False e(2) show ?thesis by (simp add: loaded_def find_snoc split: option.splits)
    qed
    then have eq: "(\<exists>f. listed_at E j f \<and> Some (loaded E (rows @ [r]) f) = Some t) \<longleftrightarrow>
        (\<exists>f. listed_at E j f \<and> ((\<lambda>e. Some (loaded E rows e))(e := Some (load_state E e r (new_faction E e)))) f
           = Some t)" for j t
      by (intro ex_cong1 conj_cong refl) simp
    have "rep_inv E (load_row E r ?m) \<and> states_are E ((\<lambda>e. Some (loaded E rows e))
        (e := Some (load_state E e r (new_faction E e)))) (load_row E r ?m)"
      by (rule load_row_step [OF dbc IH e]) (simp add: new)
    then show ?thesis unfolding step states_are_def eq .
  qed
qed


section \<open>Saving\<close>

text \<open>What the statements do to the table of the character with the given id.\<close>

fun run_stmt :: "uint32 \<Rightarrow> rep_stmt \<Rightarrow> rep_table \<Rightarrow> rep_table" where
  "run_stmt g (DEL_CHAR_REPUTATION_BY_FACTION g' f) t = (if g' = g then t(f := None) else t)"
| "run_stmt g (INS_CHAR_REPUTATION_BY_FACTION g' f st fl) t = (if g' = g then t(f \<mapsto> (st, fl)) else t)"

definition save_table :: "rep_env \<Rightarrow> reputation_mgr \<Rightarrow> rep_table \<Rightarrow> rep_table" where
  "save_table E m t = fold (run_stmt (rp_GUIDLow E)) (fst (SaveToDB E m)) t"

text \<open>A query result that lists the table.\<close>

definition rows_match :: "rep_table \<Rightarrow> rep_row list \<Rightarrow> bool" where
  "rows_match t rows \<longleftrightarrow> distinct (map row_faction rows) \<and>
     (\<forall>f. t f = map_option (\<lambda>r. (row_standing r, row_flags r)) (find (\<lambda>r. row_faction r = f) rows))"

definition save_one :: "faction_state \<Rightarrow> rep_table \<Rightarrow> rep_table" where
  "save_one s t = (if fs_needSave s then t(ucast (fs_ID s) \<mapsto> (fs_Standing s, ucast (fs_Flags s))) else t)"

lemma save_table_fold: "save_table E m t = fold (save_one \<circ> snd) (rm_factions m) t"
proof -
  have one: "fold (run_stmt (rp_GUIDLow E)) (save_stmts E s) t = save_one s t" for s t
    by (simp add: save_stmts_def save_one_def)
  have "fold (run_stmt (rp_GUIDLow E)) (concat (map (save_stmts E \<circ> snd) fs)) t
      = fold (save_one \<circ> snd) fs t" for fs
    by (induction fs arbitrary: t) (simp_all add: one)
  then show ?thesis by (simp add: save_table_def SaveToDB_def)
qed

lemma save_one_other: "ucast (fs_ID s) \<noteq> f \<Longrightarrow> save_one s t f = t f"
  by (auto simp: save_one_def)

lemma save_one_self:
  "fs_needSave s \<or> saved_in t s \<Longrightarrow>
   save_one s t (ucast (fs_ID s)) = Some (fs_Standing s, ucast (fs_Flags s))"
  by (auto simp: save_one_def saved_in_def)

lemma fold_save_other:
  "\<forall>e \<in> set fs. ucast (fs_ID (snd e)) \<noteq> f \<Longrightarrow> fold (save_one \<circ> snd) fs t f = t f"
  by (induction fs arbitrary: t) (simp_all add: save_one_other)

lemma fold_save_all:
  assumes "distinct (map (\<lambda>e. ucast (fs_ID (snd e)) :: uint16) fs)" and "e \<in> set fs"
    and "fs_needSave (snd e) \<or> saved_in t (snd e)"
  shows "saved_in (fold (save_one \<circ> snd) fs t) (snd e)"
  using assms
proof (induction fs arbitrary: t)
  case Nil
  then show ?case by simp
next
  case (Cons a fs)
  show ?case
  proof (cases "e = a")
    case True
    have "fold (save_one \<circ> snd) fs (save_one (snd a) t) (ucast (fs_ID (snd a)))
        = save_one (snd a) t (ucast (fs_ID (snd a)))"
      using Cons.prems(1) by (intro fold_save_other) (auto simp: image_iff)
    with True save_one_self [OF Cons.prems(3)] show ?thesis by (simp add: saved_in_def comp_def)
  next
    case False
    with Cons.prems have e: "e \<in> set fs" by simp
    then have "ucast (fs_ID (snd e)) \<noteq> (ucast (fs_ID (snd a)) :: uint16)"
      using Cons.prems(1) by (auto simp: image_iff)
    then have "fs_needSave (snd e) \<or> saved_in (save_one (snd a) t) (snd e)"
      using Cons.prems(3) by (auto simp: saved_in_def save_one_other)
    with Cons.IH [of "save_one (snd a) t"] Cons.prems(1) e show ?thesis by simp
  qed
qed

lemma rep_inv_ids_distinct:
  assumes dbc: "dbc_ok E" and inv: "rep_inv E m"
  shows "distinct (map (\<lambda>e. ucast (fs_ID (snd e)) :: uint16) (rm_factions m))"
proof -
  have ok: "om_ok (rm_factions m)" using inv by (simp add: rep_inv_def)
  have "e = f" if e: "e \<in> set (rm_factions m)" and f: "f \<in> set (rm_factions m)"
    and eq: "ucast (fs_ID (snd e)) = (ucast (fs_ID (snd f)) :: uint16)" for e f
  proof -
    have "fs_ok E (fst e) (snd e)" "fs_ok E (fst f) (snd f)" using inv e f by (auto simp: rep_inv_def)
    then obtain a b where a: "LookupFaction E (fs_ID (snd e)) = Some a" "u32 (fe_reputationListID a) = fst e"
      and b: "LookupFaction E (fs_ID (snd f)) = Some b" "u32 (fe_reputationListID b) = fst f"
      by (auto simp: fs_ok_def split: option.splits)
    have "unat (fs_ID (snd e)) < 65536" "unat (fs_ID (snd f)) < 65536"
      using dbc_okD(2) [OF dbc a(1)] dbc_okD(2) [OF dbc b(1)] dbc by (simp_all add: dbc_ok_def)
    then have "fs_ID (snd e) = fs_ID (snd f)" using eq by (metis ucast_32_16_32)
    with a b have "fst e = fst f" by simp
    then show ?thesis using om_mem_iff [OF ok] e f by (metis option.inject prod.collapse)
  qed
  moreover have "distinct (rm_factions m)" using om_ok_distinct [OF ok] by (simp add: distinct_map)
  ultimately show ?thesis by (auto simp: distinct_map inj_on_def)
qed

text \<open>After a save the table holds every state, and the rows of no other faction changed.\<close>

lemma save_table_all:
  assumes "dbc_ok E" and "rep_inv E m" and "db_synced t m" and "(k, s) \<in> set (rm_factions m)"
  shows "saved_in (save_table E m t) s"
  using fold_save_all [OF rep_inv_ids_distinct [OF assms(1,2)] assms(4), of t] assms(3,4)
  by (auto simp: save_table_fold db_synced_def)

lemma SaveToDB_good:
  assumes "dbc_ok E" and "rep_good E t m"
  shows "rep_good E (save_table E m t) (snd (SaveToDB E m))"
proof -
  have "saved_in t' (mark_saved s) = saved_in t' s" for t' s
    by (simp add: saved_in_def mark_saved_def)
  then have "db_synced (save_table E m t) (snd (SaveToDB E m))"
    using assms save_table_all [OF assms(1), of m t]
    by (auto simp: db_synced_def SaveToDB_def rep_good_def)
  with assms(2) show ?thesis
    by (simp add: rep_good_def SaveToDB_def saved.map_inv saved.map_flags)
qed

lemma LoadFromDB_good:
  assumes dbc: "dbc_ok E" and rows: "rows_match t rows"
  shows "rep_good E t (LoadFromDB E rows m)"
proof -
  let ?m = "LoadFromDB E rows m"
  have dist: "distinct (map row_faction rows)" using rows by (simp add: rows_match_def)
  have L: "rep_inv E ?m" "states_are E (\<lambda>e. Some (loaded E rows e)) ?m"
    using LoadFromDB_states [OF dbc dist] by simp_all
  have ok: "om_ok (rm_factions ?m)" using L(1) by (simp add: rep_inv_def)
  have st: "(fs_needSave s \<or> saved_in t s) \<and> flags_from (default_flags E (fs_ID s)) s"
    if ks: "(k, s) \<in> set (rm_factions ?m)" for k s
  proof -
    obtain e where e: "listed_at E k e" "s = loaded E rows e"
      using ks om_mem_iff [OF ok] L(2) by (auto simp: states_are_def)
    have le: "LookupFaction E (fe_ID e) = Some e" using e(1) by (simp add: listed_at_def)
    have new: "flags_from (default_flags E (fe_ID e)) (new_faction E e)"
      using le by (simp add: flags_from_def new_faction_def default_flags_def)
    show ?thesis
    proof (cases "find (\<lambda>r. ucast (row_faction r) = fe_ID e) rows")
      case None
      with e(2) new show ?thesis by (simp add: loaded_def) (simp add: new_faction_def)
    next
      case (Some r)
      then have s: "s = load_state E e r (new_faction E e)" using e(2) by (simp add: loaded_def)
      have r: "r \<in> set rows" "ucast (row_faction r) = fe_ID e"
        using Some by (auto simp: find_Some_iff)
      have "find (\<lambda>q. row_faction q = row_faction r) rows = Some r"
        using Some r(2) by (metis (mono_tags, lifting) find_cong ucast_16_32_inj)
      then have "t (row_faction r) = Some (row_standing r, row_flags r)"
        using rows by (simp add: rows_match_def)
      moreover have "ucast (fe_ID e) = row_faction r" using r(2) by (metis ucast_16_32_16)
      ultimately have "fs_needSave s \<or> saved_in t s"
        using load_state_needSave [of "new_faction E e" E e r]
        by (auto simp: s saved_in_def new_faction_def)
      with load_state_flags [OF new] show ?thesis by (simp add: s) (simp add: new_faction_def)
    qed
  qed
  then show ?thesis using L(1) by (fastforce simp: rep_good_def db_synced_def flags_ok_def)
qed


section \<open>The flags through the database\<close>

lemma SetAtWar_bits:
  "bit (fs_Flags (SetAtWar_state b s)) n =
     (if n = 1 then b \<and> (bit (fs_Flags s) 1 \<or> \<not> bit (fs_Flags s) 4) else bit (fs_Flags s) n)"
  by (auto simp: SetAtWar_state_def flag_bits)

lemma SetInactive_bits:
  "bit (fs_Flags (SetInactive_state b s)) n =
     (if n = 5 then b \<and> (bit (fs_Flags s) 5 \<or>
        \<not> bit (fs_Flags s) 2 \<and> \<not> bit (fs_Flags s) 3 \<and> bit (fs_Flags s) 0)
      else bit (fs_Flags s) n)"
  by (auto simp: SetInactive_state_def flag_bits)

lemma vis_bits:
  "bit (fs_Flags (vis_state s)) n =
     (if n = 0 then bit (fs_Flags s) 0 \<or>
        \<not> ((bit (fs_Flags s) 2 \<or> bit (fs_Flags s) 3) \<and> \<not> bit (fs_Flags s) 7)
      else bit (fs_Flags s) n)"
  by (auto simp: vis_state_def becomes_visible_def flag_bits)

lemma row_has_saved: "row_flags r = ucast (fs_Flags s) \<Longrightarrow> row_has r f = has_flag f s"
  using ucast_8_16_eq_0 [of "fs_Flags s AND f"] by (simp add: row_has_def has_flag_def unsigned_and_eq)

lemma flags_fromD:
  assumes "flags_from d s"
  shows "n \<noteq> 0 \<Longrightarrow> n \<noteq> 1 \<Longrightarrow> n \<noteq> 5 \<Longrightarrow> bit (fs_Flags s) n = bit d n"
    and "bit d 0 \<Longrightarrow> bit (fs_Flags s) 0"
    and "bit (fs_Flags s) 0 \<Longrightarrow> bit d 0 \<or> \<not> ((bit d 2 \<or> bit d 3) \<and> \<not> bit d 7)"
    and "bit (fs_Flags s) 1 \<Longrightarrow> bit d 1 \<or> \<not> bit d 4"
    and "bit (fs_Flags s) 5 \<Longrightarrow> bit d 5 \<or> \<not> bit d 2 \<and> \<not> bit d 3"
  using assms unfolding flags_from_def by blast+

lemma load_state_visible_restored:
  assumes ff: "flags_from d s" and d: "fs_Flags s0 = d" and r: "row_flags r = ucast (fs_Flags s)"
  shows "has_flag FACTION_FLAG_VISIBLE (load_state E e r s0) = has_flag FACTION_FLAG_VISIBLE s"
  unfolding load_state_visible row_has_saved [OF r] becomes_visible_def
  unfolding flag_bits d
  using flags_fromD(2,3) [OF ff] by blast

lemma load_state_flags_restored:
  assumes ff: "flags_from d s" and d: "fs_Flags s0 = d" "\<not> bit d 5"
    and r: "row_flags r = ucast (fs_Flags s)"
    and vis: "has_flag FACTION_FLAG_VISIBLE s"
    and rank: "REP_HOSTILE < ReputationToRank (s32 (GetBaseReputation E (Some e) + row_standing r))"
  shows "fs_Flags (load_state E e r s0) = fs_Flags s"
proof -
  define s2 where "s2 = vis_state (s0\<lparr>fs_Standing := row_standing r\<rparr>)"
  define s3 where "s3 = (if bit (fs_Flags s) 5 then SetInactive_state True s2 else s2)"
  have f0: "bit (fs_Flags s) 0" using vis by (simp add: flag_bits)
  have b2: "bit (fs_Flags s2) n = (n = 0 \<or> bit d n)" for n
    using flags_fromD(3) [OF ff f0] d(1) by (auto simp: s2_def vis_bits)
  have b3: "bit (fs_Flags s3) n = (n = 0 \<or> n = 5 \<and> bit (fs_Flags s) 5 \<or> bit d n)" for n
    using flags_fromD(5) [OF ff] d(2) by (auto simp: s3_def SetInactive_bits b2)
  have war: "row_war r s3 = SetAtWar_state (bit (fs_Flags s) 1) s3"
    using b3 [of 0] by (simp add: row_war_def row_has_saved [OF r] flag_bits)
  have b4: "bit (fs_Flags (row_war r s3)) n = bit (fs_Flags s) n" for n
    using flags_fromD(1) [OF ff, of n] flags_fromD(4) [OF ff] f0 d(2)
    by (auto simp: war SetAtWar_bits b3)
  have "fs_Flags (load_state E e r s0) = fs_Flags (row_war r s3)"
    using rank f0
    by (simp add: load_state_def Let_def row_has_saved [OF r] flag_bits s2_def s3_def not_le [symmetric])
  also have "\<dots> = fs_Flags s" by (rule bit_word_eqI) (simp add: b4)
  finally show ?thesis .
qed

section \<open>Sessions\<close>

text \<open>
  The life of a logged-in character: it is loaded from a query result, and then any public
  operation of the manager runs, in any order, saves to the database included.
\<close>

inductive rep_session :: "rep_env \<Rightarrow> rep_table \<Rightarrow> reputation_mgr \<Rightarrow> bool" for E where
  load: "rows_match t rows \<Longrightarrow> rep_session E t (LoadFromDB E rows m0)"
| reputation: "rep_session E t m \<Longrightarrow> LookupFaction E (fe_ID e) = Some e \<Longrightarrow>
    SetReputation_full E e x i m = Inr (r, m') \<Longrightarrow> rep_session E t m'"
| one: "rep_session E t m \<Longrightarrow> LookupFaction E (fe_ID e) = Some e \<Longrightarrow>
    rep_session E t (snd (SetOneFactionReputation E e x i m))"
| visible: "rep_session E t m \<Longrightarrow> rep_session E t (SetVisible_template E faction m)"
| visible_entry: "rep_session E t m \<Longrightarrow> rep_session E t (SetVisible_entry E e m)"
| at_war: "rep_session E t m \<Longrightarrow> rep_session E t (SetAtWar k on m)"
| inactive: "rep_session E t m \<Longrightarrow> rep_session E t (SetInactive k on m)"
| force: "rep_session E t m \<Longrightarrow> rep_session E t (ApplyForceReaction faction rank app m)"
| send_force: "rep_session E t m \<Longrightarrow> rep_session E t (SendForceReactions m)"
| send_initial: "rep_session E t m \<Longrightarrow> rep_session E t (SendInitialReputations m)"
| send_state: "rep_session E t m \<Longrightarrow> rep_session E t (SendState s m)"
| send_states: "rep_session E t m \<Longrightarrow> rep_session E t (SendStates m)"
| save: "rep_session E t m \<Longrightarrow> rep_session E (save_table E m t) (snd (SaveToDB E m))"

lemma rep_session_good: "rep_session E t m \<Longrightarrow> dbc_ok E \<Longrightarrow> rep_good E t m"
proof (induction rule: rep_session.induct)
  case (reputation t m e x i r m')
  then show ?case using SetReputation_good by blast
qed (simp_all add: LoadFromDB_good SetOne_good SetVisible_template_good SetVisible_entry_def
    SetVisible_state_good SetAtWar_good SetInactive_good ApplyForceReaction_def SendForceReactions_def
    SendInitialReputations_good SendState_good SendStates_good SaveToDB_good)

text \<open>No operation adds or removes a faction.\<close>

definition rm_keys :: "reputation_mgr \<Rightarrow> uint32 set" where
  "rm_keys m = dom (map_of (rm_factions m))"

lemma rm_keys_simps [simp]:
  "rm_keys (rm_emit xs m) = rm_keys m"
  "rm_keys (m\<lparr>rm_factions := map (\<lambda>e. (fst e, f (snd e))) fs\<rparr>) = rm_keys (m\<lparr>rm_factions := fs\<rparr>)"
  "rm_keys (m\<lparr>rm_factions := rm_factions m\<rparr>) = rm_keys m"
  "rm_keys (m\<lparr>rm_forcedReactions := fr\<rparr>) = rm_keys m"
  "rm_keys (upd_state k g m) = rm_keys m"
  by (auto simp: rm_keys_def rm_emit_def map_of_map_snd upd_state_def dom_def split: option.splits)

lemma SetVisible_state_keys [simp]: "rm_keys (SetVisible_state E k m) = rm_keys m"
  by (auto simp: rm_keys_def SetVisible_state_def SendVisible_def rm_emit_def Let_def split: option.splits)

lemma SendState_keys [simp]: "rm_keys (SendState s m) = rm_keys m"
  by (simp add: SendState_def Let_def) (simp add: rm_keys_def)

lemma SetOne_keys [simp]: "rm_keys (snd (SetOneFactionReputation E e x i m)) = rm_keys m"
proof -
  have cnt: "rm_keys (UpdateRankCounters a b m) = rm_keys m"
    "rm_keys (if P then m\<lparr>rm_sendFactionIncreased := c\<rparr> else m) = rm_keys m"
    "rm_keys (if P then upd_state k f m else m) = rm_keys m" for a b c P k f m
    by (simp_all add: rm_keys_def UpdateRankCounters_def) (simp add: rm_keys_def [symmetric])
  show ?thesis
    unfolding SetOneFactionReputation_def Let_def
    by (cases "map_of (rm_factions m) (u32 (fe_reputationListID e))")
      (simp_all only: option.case snd_conv rm_keys_simps cnt SetVisible_state_keys)
qed

lemma SendStates_keys [simp]: "rm_keys (SendStates m) = rm_keys m"
proof -
  have "rm_keys (fold (\<lambda>k m'. case map_of (rm_factions m') k of None \<Rightarrow> m' | Some s \<Rightarrow> SendState s m') ks m)
      = rm_keys m" for ks m
    by (induction ks arbitrary: m) (auto split: option.splits)
  then show ?thesis by (simp add: SendStates_def)
qed

definition listed_keys :: "rep_env \<Rightarrow> uint32 set" where
  "listed_keys E = {k. \<exists>e. listed_at E k e}"

lemma SetReputation_keys:
  assumes "dbc_ok E" and "LookupFaction E (fe_ID e) = Some e"
    and "SetReputation_full E e x i m = Inr (r, m')"
  shows "rm_keys m' = rm_keys m"
  by (rule SetReputation_preserves [where P = "\<lambda>n. rm_keys n = rm_keys m", OF _ _ assms(1,2) _ assms(3)])
    simp_all

lemma rep_session_keys: "rep_session E t m \<Longrightarrow> dbc_ok E \<Longrightarrow> rm_keys m = listed_keys E"
proof (induction rule: rep_session.induct)
  case (load t rows m0)
  then have "states_are E (\<lambda>e. Some (loaded E rows e)) (LoadFromDB E rows m0)"
    using LoadFromDB_states by (simp add: rows_match_def)
  then show ?case by (auto simp: rm_keys_def states_are_def dom_def listed_keys_def)
next
  case (reputation t m e x i r m')
  then show ?case using SetReputation_keys by blast
qed (simp_all add: SetVisible_template_def SetVisible_entry_def SetAtWar_def SetInactive_def
    ApplyForceReaction_def SendForceReactions_def SendInitialReputations_def SaveToDB_def
    split: option.splits)


section \<open>The loader of the spillover templates\<close>

lemma load_spillover_known:
  assumes "LoadReputationSpilloverTemplate E rows i = Some t" and "f \<in> set t" and "fst f \<noteq> 0"
  shows "LookupFaction E (fst f) \<noteq> None"
proof -
  have "\<forall>i t. fold (load_spillover_row E) rows st i = Some t \<longrightarrow>
      (\<forall>f \<in> set t. fst f \<noteq> 0 \<longrightarrow> LookupFaction E (fst f) \<noteq> None)"
    if "\<forall>i t. st i = Some t \<longrightarrow> (\<forall>f \<in> set t. fst f \<noteq> 0 \<longrightarrow> LookupFaction E (fst f) \<noteq> None)"
    for st rows
    using that
  proof (induction rows arbitrary: st)
    case Nil
    then show ?case by simp
  next
    case (Cons r rows)
    have "\<forall>i t. load_spillover_row E r st i = Some t \<longrightarrow>
        (\<forall>f \<in> set t. fst f \<noteq> 0 \<longrightarrow> LookupFaction E (fst f) \<noteq> None)"
      using Cons.prems
      by (auto simp: load_spillover_row_def split: option.splits if_splits)
    with Cons.IH show ?case by simp
  qed
  from this [of Map.empty rows] assms show ?thesis
    by (auto simp: LoadReputationSpilloverTemplate_def)
qed

lemma spill_template_total:
  "\<forall>f \<in> set t. fst f \<noteq> 0 \<longrightarrow> LookupFaction E (fst f) \<noteq> None \<Longrightarrow>
   \<exists>m'. iter_res (spill_template_one E x i) t m = Inr m'"
proof (induction t arbitrary: m)
  case Nil
  then show ?case by simp
next
  case (Cons f t)
  then have "\<exists>m'. spill_template_one E x i f m = Inr m'"
    by (auto simp: spill_template_one_def Let_def split: prod.splits option.splits)
  with Cons show ?case by auto
qed

lemma SetReputation_no_template:
  "GetRepSpilloverTemplate E (fe_ID e) = None \<Longrightarrow> \<exists>r m'. SetReputation_full E e x i m = Inr (r, m')"
  by (auto simp: SetReputation_full_def Let_def split: prod.splits option.splits)

text \<open>
  C34. With the templates that \<^verbatim>\<open>LoadReputationSpilloverTemplate\<close> accepts, changing a reputation
  never dereferences a missing faction entry: \<^verbatim>\<open>SetReputation\<close> always completes, whatever the
  factions, the amounts and the state of the player are.
\<close>

theorem SetReputation_no_null:
  assumes "GetRepSpilloverTemplate E = LoadReputationSpilloverTemplate E rows"
  shows "\<exists>r m'. SetReputation_full E e standing incremental m = Inr (r, m')"
proof (cases "GetRepSpilloverTemplate E (fe_ID e)")
  case None
  then show ?thesis by (rule SetReputation_no_template)
next
  case (Some t)
  then have "\<forall>f \<in> set t. fst f \<noteq> 0 \<longrightarrow> LookupFaction E (fst f) \<noteq> None"
    using load_spillover_known assms by metis
  from spill_template_total [OF this] obtain m' where
    "iter_res (spill_template_one E (OnReputationChange E (fe_ID e) standing incremental) incremental) t m
       = Inr m'" by blast
  with Some show ?thesis
    by (auto simp: SetReputation_full_def Let_def split: prod.splits option.splits)
qed

section \<open>An example\<close>

definition ex_faction :: "uint32 \<Rightarrow> int \<Rightarrow> faction_entry" where
  "ex_faction i l =
     \<lparr>fe_ID = i, fe_reputationListID = l, fe_BaseRepRaceMask = [1, 0, 0, 0],
      fe_BaseRepClassMask = [0, 0, 0, 0], fe_BaseRepValue = [500, 0, 0, 0],
      fe_ReputationFlags = [1, 0, 0, 0], fe_team = 9,
      fe_spilloverRateIn = Fin 1 (- 1), fe_spilloverRateOut = Fin 1 (- 1), fe_spilloverMaxRankIn = 7\<rparr>"

definition ex_rows :: "spillover_row list" where
  "ex_rows = [(1, [(2, Fin 1 (- 1), 7), (0, Fin 0 0, 0)]), (2, [(3, Fin 1 0, 7)])]"

definition ex_store :: "uint32 \<Rightarrow> faction_entry option" where
  "ex_store i = (if i = 1 then Some (ex_faction 1 0) else if i = 2 then Some (ex_faction 2 3) else None)"

definition ex_env0 :: rep_env where
  "ex_env0 = \<lparr>NumFactionRows = 3, LookupFaction = ex_store, GetRepSpilloverTemplate = Map.empty,
     GetFactionTeamList = (\<lambda>_. None), RATE_REPUTATION_GAIN = Fin 1 0, rp_raceMask = 1,
     rp_classMask = 1, rp_GUIDLow = 7, rp_Loading = False, OnReputationChange = (\<lambda>_ x _. x)\<rparr>"

definition ex_env :: rep_env where
  "ex_env = ex_env0\<lparr>GetRepSpilloverTemplate := LoadReputationSpilloverTemplate ex_env0 ex_rows\<rparr>"

lemma load_spillover_cong:
  "LookupFaction E = LookupFaction E' \<Longrightarrow>
   LoadReputationSpilloverTemplate E rows = LoadReputationSpilloverTemplate E' rows"
proof -
  assume eq: "LookupFaction E = LookupFaction E'"
  have "load_spillover_row E = load_spillover_row E'"
    unfolding load_spillover_row_def [abs_def] eq ..
  then show ?thesis by (simp add: LoadReputationSpilloverTemplate_def)
qed

lemma ex_env_templates:
  "GetRepSpilloverTemplate ex_env = LoadReputationSpilloverTemplate ex_env ex_rows"
proof -
  have "LookupFaction ex_env0 = LookupFaction ex_env" by (simp add: ex_env_def)
  note same = load_spillover_cong [OF this, of ex_rows]
  have "GetRepSpilloverTemplate ex_env = LoadReputationSpilloverTemplate ex_env0 ex_rows"
    by (simp add: ex_env_def)
  then show ?thesis unfolding same .
qed

theorem SetReputation_no_null_witness:
  "GetRepSpilloverTemplate ex_env = LoadReputationSpilloverTemplate ex_env ex_rows \<and>
   (\<exists>r m'. SetReputation_full ex_env (ex_faction 1 0) 3000 False
              (LoadFromDB ex_env [] ReputationMgr_new) = Inr (r, m'))"
  using SetReputation_no_null [OF ex_env_templates] ex_env_templates by blast

lemma ex_dbc_ok: "dbc_ok ex_env0"
  by (auto simp: dbc_ok_def ex_env0_def ex_store_def ex_faction_def GetBaseReputation_def
      base_slot_matches_def split: if_splits option.splits)

definition ex_mgr :: reputation_mgr where
  "ex_mgr = LoadFromDB ex_env0 [] ReputationMgr_new"

lemma rows_match_Nil: "rows_match (\<lambda>_. None) []"
  by (simp add: rows_match_def)

lemma ex_session: "rep_session ex_env0 (\<lambda>_. None) ex_mgr"
  unfolding ex_mgr_def by (rule rep_session.load [OF rows_match_Nil])

lemma ex_entry: "LookupFaction ex_env0 (fe_ID (ex_faction 1 0)) = Some (ex_faction 1 0)"
  by (simp add: ex_env0_def ex_store_def) (simp add: ex_faction_def)

lemma ex_state: "GetState (ex_faction 1 0) ex_mgr \<noteq> None"
proof -
  have "listed_at ex_env0 0 (ex_faction 1 0)"
    using ex_entry by (simp add: listed_at_def) (simp add: ex_faction_def u32_def)
  then have "0 \<in> rm_keys ex_mgr"
    using rep_session_keys [OF ex_session ex_dbc_ok] by (auto simp: listed_keys_def)
  then show ?thesis
    by (auto simp: rm_keys_def GetState_def GetState_id_def CanHaveReputation_def ex_faction_def u32_def)
qed

section \<open>The invariant of a session\<close>

text \<open>
  C4. Whatever a logged-in character does, the four counters of the manager are the numbers of
  its visible, honored, revered and exalted factions (modulo 256), and every state that is not
  marked for saving is in the database exactly as it is in memory.
\<close>

theorem rep_session_invariant:
  assumes "dbc_ok E" and "rep_session E t m"
  shows "counts_ok E m \<and> db_synced t m"
  using rep_session_good [OF assms(2,1)] by (simp add: rep_good_def rep_inv_def)

theorem rep_session_invariant_witness:
  "dbc_ok ex_env0 \<and> counts_ok ex_env0 (SetAtWar 0 True ex_mgr) \<and>
   db_synced (\<lambda>_. None) (SetAtWar 0 True ex_mgr)"
  using rep_session_invariant [OF ex_dbc_ok rep_session.at_war [OF ex_session]] ex_dbc_ok by blast

section \<open>Bounds\<close>

definition in_bounds :: "rep_env \<Rightarrow> reputation_mgr \<Rightarrow> bool" where
  "in_bounds E m \<longleftrightarrow>
     (\<forall>e \<in> set (rm_factions m). Reputation_Bottom \<le> st_rep E (snd e) \<and> st_rep E (snd e) \<le> Reputation_Cap)"

lemma one_state_rep:
  assumes "LookupFaction E (fs_ID s) = Some e"
  shows "st_rep E (one_state E e x i s) = target_standing E (GetBaseReputation E (Some e)) (fs_Standing s) x i"
  using assms by (simp add: st_rep_def)

lemma SetOne_in_bounds:
  assumes "dbc_ok E" and e: "LookupFaction E (fe_ID e) = Some e" and inv: "rep_inv E m" and b: "in_bounds E m"
  shows "in_bounds E (snd (SetOneFactionReputation E e x i m))"
proof (cases "map_of (rm_factions m) (u32 (fe_reputationListID e))")
  case None
  with b show ?thesis by (simp add: SetOneFactionReputation_def Let_def)
next
  case (Some s)
  have ok: "om_ok (rm_factions m)" using inv by (simp add: rep_inv_def)
  have "LookupFaction E (fs_ID s) = Some e"
    using fs_ok_ID [OF assms(1) e rep_inv_fs_ok [OF inv Some]] e by simp
  note rep = one_state_rep [OF this, of x i]
  have new: "Reputation_Bottom \<le> st_rep E (one_state E e x i s) \<and>
      st_rep E (one_state E e x i s) \<le> Reputation_Cap"
    using target_standing_range by (simp add: rep Reputation_Bottom_def Reputation_Cap_def)
  show ?thesis
    unfolding in_bounds_def SetOne_effect(2) [OF ok Some]
    using b new set_om_put_sub by (fastforce simp: in_bounds_def)
qed

lemma SendState_inv: "rep_inv E m \<Longrightarrow> rep_inv E (SendState s m)"
  using sent.map_inv [of E "m\<lparr>rm_sendFactionIncreased := False\<rparr>"] by (simp add: SendState_def Let_def)

lemma SendState_in_bounds: "in_bounds E m \<Longrightarrow> in_bounds E (SendState s m)"
  by (auto simp: SendState_def Let_def in_bounds_def rm_emit_def st_rep_def sent.keeps_ID
      sent.keeps_standing)

lemma GetReputation_st_rep:
  assumes "dbc_ok E" and "LookupFaction E (fe_ID e) = Some e" and "rep_inv E m" and "GetState e m = Some s"
  shows "GetReputation E (Some e) m = st_rep E s"
proof -
  have "map_of (rm_factions m) (u32 (fe_reputationListID e)) = Some s"
    using assms(4) by (simp add: GetState_def GetState_id_def split: if_splits)
  from fs_ok_ID [OF assms(1,2) rep_inv_fs_ok [OF assms(3) this]] assms(2,4) show ?thesis
    by (simp add: GetReputation_def st_rep_def)
qed

text \<open>
  C33. Setting or gaining reputation with a listed faction succeeds and leaves its reputation
  between -42000 and 42999; a value that is set and not gained becomes the reputation, cut off
  at these bounds; and if all reputations of the player were in the bounds, they still are after
  the spillover to other factions.
\<close>

theorem SetReputation_bounds:
  assumes dbc: "dbc_ok E" and e: "LookupFaction E (fe_ID e) = Some e" and inv: "rep_inv E m"
    and st: "GetState e m \<noteq> None" and res: "SetReputation_full E e x i m = Inr (r, m')"
  shows "r \<and> - 42000 \<le> GetReputation E (Some e) m' \<and> GetReputation E (Some e) m' \<le> 42999 \<and>
    (\<not> i \<longrightarrow> GetReputation E (Some e) m' = clamp_standing (OnReputationChange E (fe_ID e) x i)) \<and>
    (in_bounds E m \<longrightarrow> in_bounds E m')"
proof -
  let ?k = "u32 (fe_reputationListID e)" and ?x = "OnReputationChange E (fe_ID e) x i"
  let ?b = "GetBaseReputation E (Some e)"
  have can: "CanHaveReputation e" and k: "?k \<in> rm_keys m"
    using st by (auto simp: GetState_def GetState_id_def rm_keys_def split: if_splits)
  obtain r1 m1 where P1: "rep_inv E m1 \<and> rm_keys m1 = rm_keys m"
    and some: "\<And>s. map_of (rm_factions m1) ?k = Some s \<Longrightarrow>
      (let rm2 = SetOneFactionReputation E e ?x i m1 in r = fst rm2 \<and>
        m' = (case map_of (rm_factions (snd rm2)) ?k of None \<Rightarrow> snd rm2 | Some s \<Rightarrow> SendState s (snd rm2)))"
  proof (rule SetReputation_spilled [where P = "\<lambda>n. rep_inv E n \<and> rm_keys n = rm_keys m",
        OF _ dbc _ res])
    show "rep_inv E m \<and> rm_keys m = rm_keys m" using inv by simp
  qed (use SetOne_inv [OF dbc] in simp_all)
  from P1 k obtain s where s: "map_of (rm_factions m1) ?k = Some s" by (auto simp: rm_keys_def)
  have ok1: "om_ok (rm_factions m1)" using P1 by (simp add: rep_inv_def)
  define m2 where "m2 = snd (SetOneFactionReputation E e ?x i m1)"
  have s2: "map_of (rm_factions m2) ?k = Some (one_state E e ?x i s)"
    by (simp add: m2_def SetOne_effect(2) [OF ok1 s])
  have r: "r" and m': "m' = SendState (one_state E e ?x i s) m2"
    using some [OF s] SetOne_effect(1) [OF ok1 s, of E ?x i] s2
    by (simp_all add: m2_def [symmetric] Let_def)
  have "map_of (rm_factions m') ?k = Some (mark_sent (one_state E e ?x i s))"
    by (simp add: m' SendState_def Let_def rm_emit_def map_of_map_snd s2)
  then have rep: "GetReputation E (Some e) m' = target_standing E ?b (fs_Standing s) ?x i"
    using can by (simp add: GetReputation_def GetState_def GetState_id_def sent.keeps_standing)
  have "in_bounds E m \<longrightarrow> in_bounds E m'"
  proof
    assume b: "in_bounds E m"
    have send: "rep_inv E (SendState s n) \<and> in_bounds E (SendState s n)"
      if "rep_inv E n \<and> in_bounds E n" for s n
      using that by (simp add: SendState_inv SendState_in_bounds)
    have "rep_inv E m' \<and> in_bounds E m'"
      by (rule SetReputation_preserves [where P = "\<lambda>n. rep_inv E n \<and> in_bounds E n", OF _ send dbc e _ res])
        (use inv b SetOne_inv [OF dbc] SetOne_in_bounds [OF dbc] in auto)
    then show "in_bounds E m'" ..
  qed
  with r rep target_standing_range show ?thesis by (simp add: target_standing_def)
qed

theorem SetReputation_bounds_witness:
  "\<exists>r m'. SetReputation_full ex_env0 (ex_faction 1 0) 50000 False ex_mgr = Inr (r, m') \<and> r \<and>
     GetReputation ex_env0 (Some (ex_faction 1 0)) m' = 42999"
proof -
  have inv: "rep_inv ex_env0 ex_mgr"
    using rep_session_good [OF ex_session ex_dbc_ok] by (simp add: rep_good_def)
  obtain r m' where res: "SetReputation_full ex_env0 (ex_faction 1 0) 50000 False ex_mgr = Inr (r, m')"
    using SetReputation_no_template [of ex_env0] by (fastforce simp: ex_env0_def)
  from SetReputation_bounds [OF ex_dbc_ok ex_entry inv ex_state res] res show ?thesis
    by (auto simp: ex_env0_def clamp_standing_def Reputation_Cap_def)
qed

section \<open>The round trip\<close>

lemma saved_row:
  assumes "rows_match t rows" and "saved_in t s" and "unat (fs_ID s) < 65536"
  shows "\<exists>r. find (\<lambda>r. ucast (row_faction r) = fs_ID s) rows = Some r \<and>
    row_standing r = fs_Standing s \<and> row_flags r = ucast (fs_Flags s)"
proof -
  have eq: "(\<lambda>r. ucast (row_faction r) = fs_ID s) = (\<lambda>r. row_faction r = ucast (fs_ID s))"
    using ucast_32_16_32 [OF assms(3)] by (metis ucast_16_32_16)
  show ?thesis unfolding eq using assms(1,2) by (auto simp: rows_match_def saved_in_def)
qed

text \<open>
  C32. A character that is saved and loaded again has the same reputation with every faction of
  the store, the same visible factions, and, for a visible faction it is not hostile with (one
  that is not inactive by default), exactly the same flags, with nothing left to save.
\<close>

theorem rep_save_load:
  assumes dbc: "dbc_ok E" and ses: "rep_session E t m" and rows: "rows_match (save_table E m t) rows"
    and e: "LookupFaction E (fe_ID e) = Some e" and st: "GetState e m = Some s"
  shows "\<exists>s'. GetState e (LoadFromDB E rows m0) = Some s' \<and>
    GetReputation E (Some e) (LoadFromDB E rows m0) = GetReputation E (Some e) m \<and>
    fs_Standing s' = fs_Standing s \<and>
    has_flag FACTION_FLAG_VISIBLE s' = has_flag FACTION_FLAG_VISIBLE s \<and>
    (has_flag FACTION_FLAG_VISIBLE s \<and> REP_HOSTILE < GetRank E (Some e) m \<and>
     \<not> bit (default_flags E (fe_ID e)) 5 \<longrightarrow> fs_Flags s' = fs_Flags s \<and> \<not> fs_needSave s')"
proof -
  let ?k = "u32 (fe_reputationListID e)" and ?m = "LoadFromDB E rows m0"
  have good: "rep_inv E m" "db_synced t m" "flags_ok E m"
    using rep_session_good [OF ses dbc] by (simp_all add: rep_good_def)
  have can: "CanHaveReputation e" and s: "map_of (rm_factions m) ?k = Some s"
    using st by (auto simp: GetState_def GetState_id_def split: if_splits)
  have id: "fs_ID s = fe_ID e" using fs_ok_ID [OF dbc e rep_inv_fs_ok [OF good(1) s]] by simp
  have mem: "(?k, s) \<in> set (rm_factions m)" using s by (rule map_of_SomeD)
  have le: "listed_at E ?k e" using e can by (simp add: listed_at_def CanHaveReputation_def)
  have small: "unat (fs_ID s) < 65536" using dbc_okD(2) [OF dbc e] dbc by (simp add: id dbc_ok_def)
  obtain r where r: "find (\<lambda>r. ucast (row_faction r) = fe_ID e) rows = Some r"
    "row_standing r = fs_Standing s" "row_flags r = ucast (fs_Flags s)"
    using saved_row [OF rows save_table_all [OF dbc good(1,2) mem] small] by (auto simp: id)
  define s' where "s' = load_state E e r (new_faction E e)"
  have "states_are E (\<lambda>e. Some (loaded E rows e)) ?m"
    using LoadFromDB_states [OF dbc] rows by (simp add: rows_match_def)
  then have "map_of (rm_factions ?m) ?k = Some s'"
    using le r(1) by (auto simp: states_are_def loaded_def s'_def)
  then have st': "GetState e ?m = Some s'" using can by (simp add: GetState_def GetState_id_def)
  have stand: "fs_Standing s' = fs_Standing s" by (simp add: s'_def r(2))
  have ff: "flags_from (default_flags E (fe_ID e)) s"
    using good(3) mem by (force simp: flags_ok_def id)
  have d: "fs_Flags (new_faction E e) = default_flags E (fe_ID e)"
    using e by (simp add: new_faction_def default_flags_def)
  have rank: "GetRank E (Some e) m = ReputationToRank (s32 (GetBaseReputation E (Some e) + row_standing r))"
    by (simp add: GetRank_def GetReputation_def st r(2))
  have "has_flag FACTION_FLAG_VISIBLE s' = has_flag FACTION_FLAG_VISIBLE s"
    unfolding s'_def by (rule load_state_visible_restored [OF ff d r(3)])
  moreover have "fs_Flags s' = fs_Flags s \<and> \<not> fs_needSave s'"
    if "has_flag FACTION_FLAG_VISIBLE s \<and> REP_HOSTILE < GetRank E (Some e) m \<and>
      \<not> bit (default_flags E (fe_ID e)) 5"
  proof -
    have fl: "fs_Flags s' = fs_Flags s"
      unfolding s'_def using that by (intro load_state_flags_restored [OF ff d _ r(3)]) (simp_all add: rank)
    with r(3) load_state_clean [of E e r] show ?thesis by (simp add: s'_def)
  qed
  ultimately show ?thesis
    using st' stand by (simp add: GetReputation_def st)
qed


lemma ex_new_faction:
  "new_faction ex_env0 (ex_faction i l) =
     \<lparr>fs_ID = i, fs_ReputationListID = u32 l, fs_Standing = 0, fs_Flags = 1,
      fs_needSend = True, fs_needSave = True\<rparr>"
  by (simp add: new_faction_def GetDefaultStateFlags_def base_slot_matches_def ex_env0_def ex_faction_def)

lemma ex_mgr_factions:
  "rm_factions ex_mgr = [(0, new_faction ex_env0 (ex_faction 1 0)), (3, new_faction ex_env0 (ex_faction 2 3))]"
proof -
  have look: "LookupFaction ex_env0 1 = Some (ex_faction 1 0)" "LookupFaction ex_env0 2 = Some (ex_faction 2 3)"
    "NumFactionRows ex_env0 = 3"
    by (simp_all add: ex_env0_def ex_store_def)
  have list: "fe_reputationListID (ex_faction i l) = l" for i l by (simp add: ex_faction_def)
  have "[1..<3] = [1, 2 :: nat]" by (simp add: upt_rec)
  then show ?thesis
    by (simp add: ex_mgr_def LoadFromDB_def Initialize_def look init_faction_def list Let_def
        UpdateRankCounters_def ex_new_faction u32_def)
qed

definition ex_saved :: "rep_row list" where
  "ex_saved = [\<lparr>row_faction = 1, row_standing = 0, row_flags = 1\<rparr>,
               \<lparr>row_faction = 2, row_standing = 0, row_flags = 1\<rparr>]"

lemma ex_saved_match: "rows_match (save_table ex_env0 ex_mgr (\<lambda>_. None)) ex_saved"
  by (auto simp: rows_match_def save_table_fold ex_mgr_factions ex_saved_def save_one_def ex_new_faction)

theorem rep_save_load_witness:
  "\<exists>s'. GetState (ex_faction 1 0) (LoadFromDB ex_env0 ex_saved ReputationMgr_new) = Some s' \<and>
     fs_Flags s' = 1 \<and> \<not> fs_needSave s'"
proof -
  have st: "GetState (ex_faction 1 0) ex_mgr = Some (new_faction ex_env0 (ex_faction 1 0))"
    by (simp add: GetState_def GetState_id_def ex_mgr_factions CanHaveReputation_def ex_faction_def u32_def)
  have base: "GetBaseReputation ex_env0 (Some (ex_faction 1 0)) = 500"
    by (simp add: GetBaseReputation_def base_slot_matches_def ex_env0_def ex_faction_def)
  have "REP_HOSTILE < GetRank ex_env0 (Some (ex_faction 1 0)) ex_mgr"
    by (simp add: GetRank_def GetReputation_def st base ex_new_faction ReputationToRank_def less_rep_rank_def)
  moreover have "\<not> bit (default_flags ex_env0 (fe_ID (ex_faction 1 0))) 5"
    using ex_entry by (simp add: default_flags_def GetDefaultStateFlags_def base_slot_matches_def)
      (simp add: ex_env0_def ex_faction_def)
  moreover have "has_flag FACTION_FLAG_VISIBLE (new_faction ex_env0 (ex_faction 1 0))"
    by (simp add: has_flag_def FACTION_FLAG_VISIBLE_def ex_new_faction)
  ultimately show ?thesis
    using rep_save_load [OF ex_dbc_ok ex_session ex_saved_match ex_entry st, of ReputationMgr_new]
    by (auto simp: ex_new_faction)
qed

section \<open>The list of all standings\<close>

definition slot_fields :: "(uint32 \<times> faction_state) list \<Rightarrow> nat \<Rightarrow> wire list" where
  "slot_fields fs i =
     (case map_of fs (of_nat i) of
        None \<Rightarrow> [WU8 0, WU32 0]
      | Some s \<Rightarrow> [WU8 (fs_Flags s), WU32 (u32 (fs_Standing s))])"

lemma absent_fields_slots:
  assumes "unat a \<le> unat k" and "\<forall>e \<in> set fs. k \<le> fst e" and "unat k \<le> 256"
  shows "absent_fields a k = concat (map (slot_fields fs) [unat a..<unat k])"
proof -
  have "slot_fields fs i = [WU8 0, WU32 0]" if "i < unat k" for i
  proof -
    have "of_nat i \<noteq> fst e" if "e \<in> set fs" for e
    proof
      assume "of_nat i = fst e"
      moreover have "unat (of_nat i :: uint32) = i" using \<open>i < unat k\<close> assms(3) by (simp add: unat_of_nat)
      ultimately have "unat (fst e) = i" by simp
      with assms(2) that \<open>i < unat k\<close> show False by (auto simp: word_le_nat_alt)
    qed
    then have "map_of fs (of_nat i) = None" by (auto simp: map_of_eq_None_iff)
    then show ?thesis by (simp add: slot_fields_def)
  qed
  then have "map (slot_fields fs) [unat a..<unat k] = replicate (unat k - unat a) [WU8 0, WU32 0]"
    by (intro replicate_eqI) auto
  moreover have "unat (k - a) = unat k - unat a" using assms(1) by (simp add: unat_sub word_le_nat_alt)
  ultimately show ?thesis by (simp add: absent_fields_def)
qed

lemma initial_fields_slots:
  assumes "om_ok fs" and "\<forall>e \<in> set fs. a \<le> fst e \<and> fst e < 256" and "a \<le> 256"
  shows "initial_fields a fs = concat (map (slot_fields fs) [unat a..<256])"
  using assms
proof (induction fs arbitrary: a)
  case Nil
  then have "unat a \<le> unat (256 :: uint32)" by (simp add: word_le_nat_alt)
  from absent_fields_slots [OF this, of "[]"] show ?case by simp
next
  case (Cons e fs)
  let ?k = "fst e"
  have k: "unat a \<le> unat ?k" "unat ?k < 256" using Cons.prems(2) by (simp_all add: word_le_nat_alt word_less_nat_alt)
  have k1: "unat (?k + 1) = unat ?k + 1" using k(2) by (simp add: unat_word_ariths)
  have above: "\<forall>x \<in> set fs. ?k < fst x" using Cons.prems(1) by (simp add: om_ok_Cons)
  then have "\<forall>x \<in> set fs. ?k + 1 \<le> fst x \<and> fst x < 256"
    using Cons.prems(2) by (auto simp: word_le_nat_alt word_less_nat_alt k1)
  moreover have "?k + 1 \<le> 256" using k(2) by (simp add: word_le_nat_alt k1)
  ultimately have IH: "initial_fields (?k + 1) fs = concat (map (slot_fields fs) [Suc (unat ?k)..<256])"
    using Cons.IH Cons.prems(1) by (simp add: om_ok_Cons k1)
  have "of_nat i \<noteq> ?k" if "unat ?k < i" "i < 256" for i
    using that by (auto simp: word_unat_eq_iff unat_of_nat)
  then have rest: "map (slot_fields (e # fs)) [Suc (unat ?k)..<256] = map (slot_fields fs) [Suc (unat ?k)..<256]"
    by (auto simp: slot_fields_def)
  have own: "slot_fields (e # fs) (unat ?k) = [WU8 (fs_Flags (snd e)), WU32 (u32 (fs_Standing (snd e)))]"
    by (simp add: slot_fields_def)
  have "absent_fields a ?k = concat (map (slot_fields (e # fs)) [unat a..<unat ?k])"
    using k above by (intro absent_fields_slots) auto
  moreover have "[unat a..<256] = [unat a..<unat ?k] @ unat ?k # [Suc (unat ?k)..<256]"
    using k upt_add_eq_append [of "unat a" "unat ?k" "256 - unat ?k"] by (simp add: upt_conv_Cons)
  ultimately show ?case by (simp add: IH rest own)
qed

text \<open>
  When all list ids are below 256, the packet of \<^verbatim>\<open>SendInitialReputations\<close> has exactly the 256
  slots it announces, and slot \<open>i\<close> holds the flags and the standing of the faction with list id
  \<open>i\<close>, or zeros when there is none.
\<close>

theorem SendInitialReputations_slots:
  assumes "rep_inv E m" and "\<forall>k \<in> rm_keys m. k < 256"
  shows "rm_out (SendInitialReputations m) = rm_out m @
    [SendDirectMessage SMSG_INITIALIZE_FACTIONS
       (WU32 256 # concat (map (slot_fields (rm_factions m)) [0..<256]))]"
proof -
  have "om_ok (rm_factions m)" and "\<forall>e \<in> set (rm_factions m). (0 :: uint32) \<le> fst e \<and> fst e < 256"
    using assms by (auto simp: rep_inv_def rm_keys_def dom_map_of_conv_image_fst)
  from initial_fields_slots [OF this] show ?thesis
    by (simp add: SendInitialReputations_def rm_emit_def)
qed

theorem SendInitialReputations_slots_witness:
  "rm_out (SendInitialReputations ex_mgr) = rm_out ex_mgr @
    [SendDirectMessage SMSG_INITIALIZE_FACTIONS
       (WU32 256 # concat (map (slot_fields (rm_factions ex_mgr)) [0..<256]))]"
proof (rule SendInitialReputations_slots)
  show "rep_inv ex_env0 ex_mgr"
    using rep_session_good [OF ex_session ex_dbc_ok] by (simp add: rep_good_def)
  show "\<forall>k \<in> rm_keys ex_mgr. k < 256" by (auto simp: rm_keys_def ex_mgr_factions split: if_splits)
qed

end
