(* ===== verification/Calendar.thy ===== *)
theory Calendar
  imports ByteBuf String_Util
begin

text \<open>
  The in-game calendar: \<^verbatim>\<open>game/Calendar/CalendarMgr.h\<close> and \<^verbatim>\<open>CalendarMgr.cpp\<close>, and the packet
  handlers of \<^verbatim>\<open>game/Handlers/CalendarHandler.cpp\<close> that change it.  Events and invites are heap
  objects in the code, and their destructors give their ids back to the manager; here the stores
  hold the objects themselves and a \<^verbatim>\<open>delete\<close> is the release of the id.

  \<^verbatim>\<open>_events\<close> is a \<^verbatim>\<open>std::set\<close> of pointers, ordered by address: \<open>cal_events\<close> is the list of the events
  in that order, and an insertion takes the position the allocated address has as an argument.
  Packets, mails and database statements are appended to \<open>cal_out\<close>; the statements of a
  transaction are logged where they are appended to it.  Players, guilds and the clock are the
  record \<open>cal_env\<close>.
\<close>

unbundle bit_operations_syntax

section \<open>Data\<close>

definition CALENDAR_FLAG_INVITES_LOCKED :: uint32 where "CALENDAR_FLAG_INVITES_LOCKED = 0x010"
definition CALENDAR_FLAG_WITHOUT_INVITES :: uint32 where "CALENDAR_FLAG_WITHOUT_INVITES = 0x040"
definition CALENDAR_FLAG_GUILD_EVENT :: uint32 where "CALENDAR_FLAG_GUILD_EVENT = 0x400"

definition CALENDAR_RANK_PLAYER :: uint32 where "CALENDAR_RANK_PLAYER = 0"

definition CALENDAR_SENDTYPE_GET :: uint8 where "CALENDAR_SENDTYPE_GET = 0"
definition CALENDAR_SENDTYPE_ADD :: uint8 where "CALENDAR_SENDTYPE_ADD = 1"
definition CALENDAR_SENDTYPE_COPY :: uint8 where "CALENDAR_SENDTYPE_COPY = 2"

definition CALENDAR_STATUS_INVITED :: uint32 where "CALENDAR_STATUS_INVITED = 0"
definition CALENDAR_STATUS_SIGNED_UP :: uint32 where "CALENDAR_STATUS_SIGNED_UP = 6"
definition CALENDAR_STATUS_NOT_SIGNED_UP :: uint32 where "CALENDAR_STATUS_NOT_SIGNED_UP = 7"
definition CALENDAR_STATUS_TENTATIVE :: uint32 where "CALENDAR_STATUS_TENTATIVE = 8"
definition CALENDAR_STATUS_REMOVED :: uint32 where "CALENDAR_STATUS_REMOVED = 9"

definition CALENDAR_ERROR_OTHER_INVITES_EXCEEDED :: uint32 where "CALENDAR_ERROR_OTHER_INVITES_EXCEEDED = 4"
definition CALENDAR_ERROR_EVENT_INVALID :: uint32 where "CALENDAR_ERROR_EVENT_INVALID = 6"
definition CALENDAR_ERROR_GUILD_PLAYER_NOT_IN_GUILD :: uint32 where "CALENDAR_ERROR_GUILD_PLAYER_NOT_IN_GUILD = 9"
definition CALENDAR_ERROR_ALREADY_INVITED_TO_EVENT_S :: uint32 where "CALENDAR_ERROR_ALREADY_INVITED_TO_EVENT_S = 10"
definition CALENDAR_ERROR_PLAYER_NOT_FOUND :: uint32 where "CALENDAR_ERROR_PLAYER_NOT_FOUND = 11"
definition CALENDAR_ERROR_NOT_ALLIED :: uint32 where "CALENDAR_ERROR_NOT_ALLIED = 12"
definition CALENDAR_ERROR_IGNORING_YOU_S :: uint32 where "CALENDAR_ERROR_IGNORING_YOU_S = 13"
definition CALENDAR_ERROR_EVENT_LOCKED :: uint32 where "CALENDAR_ERROR_EVENT_LOCKED = 21"
definition CALENDAR_ERROR_DELETE_CREATOR_FAILED :: uint32 where "CALENDAR_ERROR_DELETE_CREATOR_FAILED = 22"
definition CALENDAR_ERROR_NO_INVITE :: uint32 where "CALENDAR_ERROR_NO_INVITE = 29"
definition CALENDAR_ERROR_NO_GUILD_INVITES :: uint32 where "CALENDAR_ERROR_NO_GUILD_INVITES = 38"

definition CALENDAR_MAX_INVITES :: uint32 where "CALENDAR_MAX_INVITES = 100"

text \<open>The time stamp 01/01/2000 00:00:00, which means no response yet.\<close>

definition DEFAULT_RESPONSE_TIME :: int where "DEFAULT_RESPONSE_TIME = 946684800"

record cal_invite =
  iv_id :: uint64
  iv_event :: uint64
  iv_invitee :: uint64
  iv_sender :: uint64
  iv_statusTime :: int
  iv_status :: uint32
  iv_rank :: uint32
  iv_text :: string

record cal_event =
  ev_id :: uint64
  ev_creator :: uint64
  ev_guildId :: uint32
  ev_type :: uint32
  ev_dungeonId :: uint32
  ev_time :: int
  ev_flags :: uint32
  ev_tz :: int
  ev_title :: string
  ev_description :: string

definition CalendarInvite_copy :: "cal_invite \<Rightarrow> uint64 \<Rightarrow> uint64 \<Rightarrow> cal_invite" where
  "CalendarInvite_copy i inviteId eventId = i\<lparr>iv_id := inviteId, iv_event := eventId\<rparr>"

definition CalendarEvent_copy :: "cal_event \<Rightarrow> uint64 \<Rightarrow> cal_event" where
  "CalendarEvent_copy e eventId = e\<lparr>ev_id := eventId\<rparr>"

definition IsGuildEvent :: "cal_event \<Rightarrow> bool" where
  "IsGuildEvent e \<longleftrightarrow> ev_flags e AND CALENDAR_FLAG_GUILD_EVENT \<noteq> 0"

definition IsGuildAnnouncement :: "cal_event \<Rightarrow> bool" where
  "IsGuildAnnouncement e \<longleftrightarrow> ev_flags e AND CALENDAR_FLAG_WITHOUT_INVITES \<noteq> 0"

record cal_player =
  cp_guid :: uint64
  cp_level :: uint8
  cp_guildId :: uint32
  cp_team :: uint32

text \<open>
  \<open>char_by_name\<close> is the row of \<^verbatim>\<open>CHAR_SEL_GUID_RACE_ACC_BY_NAME\<close>: the GUID and, from the race, the
  team; \<open>social_flags\<close> the flags the invitee has for the player, if any.
\<close>

record cal_env =
  cal_FindPlayer :: "uint64 \<Rightarrow> cal_player option"
  cal_FindPlayerByName :: "string \<Rightarrow> cal_player option"
  GetLevelFromDB :: "uint64 \<Rightarrow> uint8"
  GetGuildIdFromDB :: "uint64 \<Rightarrow> uint32"
  GetGuildGUID :: "uint32 \<Rightarrow> uint64 option"
  char_by_name :: "string \<Rightarrow> (uint64 \<times> uint32) option"
  social_flags :: "uint64 \<Rightarrow> uint64 \<Rightarrow> uint8 option"
  ALLOW_TWO_SIDE_INTERACTION_CALENDAR :: bool
  cal_localtime :: "int \<Rightarrow> tm"
  cal_now :: int

datatype cal_opcode =
    SMSG_CALENDAR_EVENT_INVITE | SMSG_CALENDAR_EVENT_UPDATED_ALERT | SMSG_CALENDAR_EVENT_STATUS
  | SMSG_CALENDAR_EVENT_REMOVED_ALERT | SMSG_CALENDAR_EVENT_INVITE_REMOVED
  | SMSG_CALENDAR_EVENT_MODERATOR_STATUS_ALERT | SMSG_CALENDAR_EVENT_INVITE_ALERT
  | SMSG_CALENDAR_SEND_EVENT | SMSG_CALENDAR_EVENT_INVITE_REMOVED_ALERT
  | SMSG_CALENDAR_CLEAR_PENDING_ACTION | SMSG_CALENDAR_COMMAND_RESULT | SMSG_CALENDAR_SEND_NUM_PENDING

text \<open>The rows of \<^verbatim>\<open>calendar_events\<close> and \<^verbatim>\<open>calendar_invites\<close>, without their ids.\<close>

record event_row =
  er_creator :: uint32
  er_title :: string
  er_description :: string
  er_type :: uint8
  er_dungeon :: uint32
  er_eventtime :: uint32
  er_flags :: uint32
  er_time2 :: uint32

record invite_row =
  ir_event :: uint64
  ir_invitee :: uint32
  ir_sender :: uint32
  ir_status :: uint8
  ir_statustime :: uint32
  ir_rank :: uint8
  ir_text :: string

datatype cal_out =
    ToPlayer uint64 cal_opcode "wire list"
  | ToGuild uint32 cal_opcode "wire list"
  | SendMailTo uint64 string string
  | REP_CALENDAR_EVENT uint64 event_row
  | DEL_CALENDAR_EVENT uint64
  | REP_CALENDAR_INVITE uint64 invite_row
  | DEL_CALENDAR_INVITE uint64

record calendar =
  cal_events :: "cal_event list"
  cal_invites :: "(uint64 \<times> cal_invite list) list"
  cal_freeEventIds :: "uint64 list"
  cal_freeInviteIds :: "uint64 list"
  cal_maxEventId :: uint64
  cal_maxInviteId :: uint64
  cal_out :: "cal_out list"

definition cal_emit :: "cal_out list \<Rightarrow> calendar \<Rightarrow> calendar" where
  "cal_emit xs c = c\<lparr>cal_out := cal_out c @ xs\<rparr>"

section \<open>Ids\<close>

definition FreeEventId :: "uint64 \<Rightarrow> calendar \<Rightarrow> calendar" where
  "FreeEventId i c =
     (if i = cal_maxEventId c then c\<lparr>cal_maxEventId := cal_maxEventId c - 1\<rparr>
      else c\<lparr>cal_freeEventIds := cal_freeEventIds c @ [i]\<rparr>)"

definition GetFreeEventId :: "calendar \<Rightarrow> uint64 \<times> calendar" where
  "GetFreeEventId c =
     (case cal_freeEventIds c of
        [] \<Rightarrow> (cal_maxEventId c + 1, c\<lparr>cal_maxEventId := cal_maxEventId c + 1\<rparr>)
      | i # is \<Rightarrow> (i, c\<lparr>cal_freeEventIds := is\<rparr>))"

definition FreeInviteId :: "uint64 \<Rightarrow> calendar \<Rightarrow> calendar" where
  "FreeInviteId i c =
     (if i = cal_maxInviteId c then c\<lparr>cal_maxInviteId := cal_maxInviteId c - 1\<rparr>
      else c\<lparr>cal_freeInviteIds := cal_freeInviteIds c @ [i]\<rparr>)"

definition GetFreeInviteId :: "calendar \<Rightarrow> uint64 \<times> calendar" where
  "GetFreeInviteId c =
     (case cal_freeInviteIds c of
        [] \<Rightarrow> (cal_maxInviteId c + 1, c\<lparr>cal_maxInviteId := cal_maxInviteId c + 1\<rparr>)
      | i # is \<Rightarrow> (i, c\<lparr>cal_freeInviteIds := is\<rparr>))"

section \<open>Lookups\<close>

definition GetEvent :: "uint64 \<Rightarrow> calendar \<Rightarrow> cal_event option" where
  "GetEvent i c = find (\<lambda>e. ev_id e = i) (cal_events c)"

definition all_invites :: "calendar \<Rightarrow> cal_invite list" where
  "all_invites c = concat (map snd (cal_invites c))"

definition GetInvite :: "uint64 \<Rightarrow> calendar \<Rightarrow> cal_invite option" where
  "GetInvite i c = find (\<lambda>v. iv_id v = i) (all_invites c)"

text \<open>\<^verbatim>\<open>_invites[eventId]\<close>, which inserts an empty vector for a missing key.\<close>

definition invites_of :: "uint64 \<Rightarrow> calendar \<Rightarrow> cal_invite list" where
  "invites_of i c = (case map_of (cal_invites c) i of None \<Rightarrow> [] | Some vs \<Rightarrow> vs)"

definition put_invites :: "uint64 \<Rightarrow> cal_invite list \<Rightarrow> calendar \<Rightarrow> calendar" where
  "put_invites i vs c = c\<lparr>cal_invites := om_put i vs (cal_invites c)\<rparr>"

definition touch_invites :: "uint64 \<Rightarrow> calendar \<Rightarrow> calendar" where
  "touch_invites i c = put_invites i (invites_of i c) c"

definition GetPlayerInvites :: "uint64 \<Rightarrow> calendar \<Rightarrow> cal_invite list" where
  "GetPlayerInvites guid c = filter (\<lambda>v. iv_invitee v = guid) (all_invites c)"

text \<open>The result is a set of pointers and so in the order of \<^verbatim>\<open>_events\<close>.\<close>

definition GetPlayerEvents :: "cal_env \<Rightarrow> uint64 \<Rightarrow> calendar \<Rightarrow> cal_event list" where
  "GetPlayerEvents E guid c =
     filter (\<lambda>e. (\<exists>kv \<in> set (cal_invites c). (\<exists>v \<in> set (snd kv). iv_invitee v = guid) \<and>
                     GetEvent (fst kv) c = Some e) \<or>
                 (case cal_FindPlayer E guid of None \<Rightarrow> False | Some p \<Rightarrow> ev_guildId e = cp_guildId p))
       (cal_events c)"

definition GetPlayerNumPending :: "uint64 \<Rightarrow> calendar \<Rightarrow> uint32" where
  "GetPlayerNumPending guid c =
     of_nat (length (filter (\<lambda>v. iv_status v \<in> {CALENDAR_STATUS_INVITED, CALENDAR_STATUS_TENTATIVE,
                                   CALENDAR_STATUS_NOT_SIGNED_UP}) (GetPlayerInvites guid c)))"

section \<open>Packets\<close>

definition pack_guid :: "uint64 \<Rightarrow> wire list" where
  "pack_guid g = (case pack_guid_loop 0 g 0 [] of (mk, out) \<Rightarrow> map WU8 (mk # out))"

definition packed_time :: "cal_env \<Rightarrow> int \<Rightarrow> wire" where
  "packed_time E t = WU32 (packed_date (cal_localtime E t))"

definition wbool :: "bool \<Rightarrow> wire" where
  "wbool b = WU8 (if b then 1 else 0)"

definition guild_guid :: "cal_env \<Rightarrow> uint32 \<Rightarrow> wire" where
  "guild_guid E g = WU64 (case GetGuildGUID E g of None \<Rightarrow> 0 | Some x \<Rightarrow> x)"

definition player_level :: "cal_env \<Rightarrow> uint64 \<Rightarrow> uint8" where
  "player_level E g = (case cal_FindPlayer E g of Some p \<Rightarrow> cp_level p | None \<Rightarrow> GetLevelFromDB E g)"

definition send_direct :: "cal_env \<Rightarrow> uint64 \<Rightarrow> cal_opcode \<Rightarrow> wire list \<Rightarrow> calendar \<Rightarrow> calendar" where
  "send_direct E guid op body c =
     (case cal_FindPlayer E guid of None \<Rightarrow> c | Some p \<Rightarrow> cal_emit [ToPlayer (cp_guid p) op body] c)"

definition SendPacketToAllEventRelatives ::
  "cal_env \<Rightarrow> cal_opcode \<Rightarrow> wire list \<Rightarrow> cal_event \<Rightarrow> calendar \<Rightarrow> calendar" where
  "SendPacketToAllEventRelatives E op body e c =
     (let c1 = (if (IsGuildEvent e \<or> IsGuildAnnouncement e) \<and> GetGuildGUID E (ev_guildId e) \<noteq> None
                then cal_emit [ToGuild (ev_guildId e) op body] c else c)
      in fold (\<lambda>v c'. case cal_FindPlayer E (iv_invitee v) of
                        None \<Rightarrow> c'
                      | Some p \<Rightarrow> if \<not> IsGuildEvent e \<or> cp_guildId p \<noteq> ev_guildId e
                                  then cal_emit [ToPlayer (cp_guid p) op body] c' else c')
           (invites_of (ev_id e) c1) (touch_invites (ev_id e) c1))"

definition SendCalendarEventInvite :: "cal_env \<Rightarrow> cal_invite \<Rightarrow> calendar \<Rightarrow> calendar" where
  "SendCalendarEventInvite E v c =
     (let body = pack_guid (iv_invitee v) @
            [WU64 (iv_event v), WU64 (iv_id v), WU8 (player_level E (iv_invitee v)),
             WU8 (ucast (iv_status v)), wbool (iv_statusTime v \<noteq> DEFAULT_RESPONSE_TIME)] @
            (if iv_statusTime v \<noteq> DEFAULT_RESPONSE_TIME then [packed_time E (iv_statusTime v)] else []) @
            [wbool (iv_sender v \<noteq> iv_invitee v)]
      in case GetEvent (iv_event v) c of
           None \<Rightarrow> send_direct E (iv_sender v) SMSG_CALENDAR_EVENT_INVITE body c
         | Some e \<Rightarrow> if ev_creator e \<noteq> iv_invitee v
                     then SendPacketToAllEventRelatives E SMSG_CALENDAR_EVENT_INVITE body e c else c)"

definition SendCalendarEventUpdateAlert :: "cal_env \<Rightarrow> cal_event \<Rightarrow> int \<Rightarrow> calendar \<Rightarrow> calendar" where
  "SendCalendarEventUpdateAlert E e oldEventTime c =
     SendPacketToAllEventRelatives E SMSG_CALENDAR_EVENT_UPDATED_ALERT
       [WU8 1, WU64 (ev_id e), packed_time E oldEventTime, WU32 (ev_flags e), packed_time E (ev_time e),
        WU8 (ucast (ev_type e)), WI32 (ev_dungeonId e), WStr (ev_title e), WStr (ev_description e),
        WU8 0, WU32 CALENDAR_MAX_INVITES, WU32 0] e c"

definition SendCalendarEventStatus :: "cal_env \<Rightarrow> cal_event \<Rightarrow> cal_invite \<Rightarrow> calendar \<Rightarrow> calendar" where
  "SendCalendarEventStatus E e v c =
     SendPacketToAllEventRelatives E SMSG_CALENDAR_EVENT_STATUS
       (pack_guid (iv_invitee v) @
        [WU64 (ev_id e), packed_time E (ev_time e), WU32 (ev_flags e), WU8 (ucast (iv_status v)),
         WU8 (ucast (iv_rank v)), packed_time E (iv_statusTime v)]) e c"

definition SendCalendarEventRemovedAlert :: "cal_env \<Rightarrow> cal_event \<Rightarrow> calendar \<Rightarrow> calendar" where
  "SendCalendarEventRemovedAlert E e c =
     SendPacketToAllEventRelatives E SMSG_CALENDAR_EVENT_REMOVED_ALERT
       [WU8 1, WU64 (ev_id e), packed_time E (ev_time e)] e c"

definition SendCalendarEventInviteRemove ::
  "cal_env \<Rightarrow> cal_event \<Rightarrow> cal_invite \<Rightarrow> uint32 \<Rightarrow> calendar \<Rightarrow> calendar" where
  "SendCalendarEventInviteRemove E e v flags c =
     SendPacketToAllEventRelatives E SMSG_CALENDAR_EVENT_INVITE_REMOVED
       (pack_guid (iv_invitee v) @ [WU64 (iv_event v), WU32 flags, WU8 1]) e c"

definition SendCalendarEventModeratorStatusAlert ::
  "cal_env \<Rightarrow> cal_event \<Rightarrow> cal_invite \<Rightarrow> calendar \<Rightarrow> calendar" where
  "SendCalendarEventModeratorStatusAlert E e v c =
     SendPacketToAllEventRelatives E SMSG_CALENDAR_EVENT_MODERATOR_STATUS_ALERT
       (pack_guid (iv_invitee v) @ [WU64 (iv_event v), WU8 (ucast (iv_rank v)), WU8 1]) e c"

definition SendCalendarEventInviteAlert ::
  "cal_env \<Rightarrow> cal_event \<Rightarrow> cal_invite \<Rightarrow> calendar \<Rightarrow> calendar" where
  "SendCalendarEventInviteAlert E e v c =
     (let body = [WU64 (ev_id e), WStr (ev_title e), packed_time E (ev_time e), WU32 (ev_flags e),
            WU32 (ev_type e), WI32 (ev_dungeonId e), WU64 (iv_id v), guild_guid E (ev_guildId e),
            WU8 (ucast (iv_status v)), WU8 (ucast (iv_rank v))] @
            pack_guid (ev_creator e) @ pack_guid (iv_sender v)
      in if IsGuildEvent e \<or> IsGuildAnnouncement e
         then if GetGuildGUID E (ev_guildId e) \<noteq> None
              then cal_emit [ToGuild (ev_guildId e) SMSG_CALENDAR_EVENT_INVITE_ALERT body] c else c
         else send_direct E (iv_invitee v) SMSG_CALENDAR_EVENT_INVITE_ALERT body c)"

definition SendCalendarEvent :: "cal_env \<Rightarrow> uint64 \<Rightarrow> cal_event \<Rightarrow> uint8 \<Rightarrow> calendar \<Rightarrow> calendar" where
  "SendCalendarEvent E guid e sendType c =
     (case cal_FindPlayer E guid of
        None \<Rightarrow> c
      | Some p \<Rightarrow>
          cal_emit [ToPlayer (cp_guid p) SMSG_CALENDAR_SEND_EVENT
            ([WU8 sendType] @ pack_guid (ev_creator e) @
             [WU64 (ev_id e), WStr (ev_title e), WStr (ev_description e), WU8 (ucast (ev_type e)),
              WU8 0, WU32 CALENDAR_MAX_INVITES, WI32 (ev_dungeonId e), WU32 (ev_flags e),
              packed_time E (ev_time e), packed_time E (ev_tz e), guild_guid E (ev_guildId e),
              WU32 (of_nat (length (invites_of (ev_id e) c)))] @
             concat (map (\<lambda>v.
               let g = iv_invitee v;
                   gid = (case cal_FindPlayer E g of Some q \<Rightarrow> cp_guildId q | None \<Rightarrow> GetGuildIdFromDB E g)
               in pack_guid g @
                  [WU8 (player_level E g), WU8 (ucast (iv_status v)), WU8 (ucast (iv_rank v)),
                   wbool (IsGuildEvent e \<and> ev_guildId e = gid), WU64 (iv_id v),
                   packed_time E (iv_statusTime v), WStr (iv_text v)]) (invites_of (ev_id e) c)))]
            (touch_invites (ev_id e) c))"

definition SendCalendarEventInviteRemoveAlert ::
  "cal_env \<Rightarrow> uint64 \<Rightarrow> cal_event \<Rightarrow> uint32 \<Rightarrow> calendar \<Rightarrow> calendar" where
  "SendCalendarEventInviteRemoveAlert E guid e status c =
     send_direct E guid SMSG_CALENDAR_EVENT_INVITE_REMOVED_ALERT
       [WU64 (ev_id e), packed_time E (ev_time e), WU32 (ev_flags e), WU8 (ucast status)] c"

definition SendCalendarClearPendingAction :: "cal_env \<Rightarrow> uint64 \<Rightarrow> calendar \<Rightarrow> calendar" where
  "SendCalendarClearPendingAction E guid c = send_direct E guid SMSG_CALENDAR_CLEAR_PENDING_ACTION [] c"

definition SendCalendarCommandResult ::
  "cal_env \<Rightarrow> uint64 \<Rightarrow> uint32 \<Rightarrow> string option \<Rightarrow> calendar \<Rightarrow> calendar" where
  "SendCalendarCommandResult E guid err param c =
     send_direct E guid SMSG_CALENDAR_COMMAND_RESULT
       [WU32 0, WU8 0,
        (if err \<in> {CALENDAR_ERROR_OTHER_INVITES_EXCEEDED, CALENDAR_ERROR_ALREADY_INVITED_TO_EVENT_S,
                   CALENDAR_ERROR_IGNORING_YOU_S} then WCStr param else WU8 0),
        WU32 err] c"


section \<open>Storing\<close>

text \<open>\<^verbatim>\<open>uint32(time_t)\<close> keeps the low 32 bits; an enumerator is stored in eight.\<close>

definition event_row_of :: "cal_event \<Rightarrow> event_row" where
  "event_row_of e =
     \<lparr>er_creator = ucast (ev_creator e), er_title = ev_title e, er_description = ev_description e,
      er_type = ucast (ev_type e), er_dungeon = ev_dungeonId e, er_eventtime = word_of_int (ev_time e),
      er_flags = ev_flags e, er_time2 = word_of_int (ev_tz e)\<rparr>"

definition invite_row_of :: "cal_invite \<Rightarrow> invite_row" where
  "invite_row_of v =
     \<lparr>ir_event = iv_event v, ir_invitee = ucast (iv_invitee v), ir_sender = ucast (iv_sender v),
      ir_status = ucast (iv_status v), ir_statustime = word_of_int (iv_statusTime v),
      ir_rank = ucast (iv_rank v), ir_text = iv_text v\<rparr>"

definition UpdateEvent :: "cal_event \<Rightarrow> calendar \<Rightarrow> calendar" where
  "UpdateEvent e c = cal_emit [REP_CALENDAR_EVENT (ev_id e) (event_row_of e)] c"

definition UpdateInvite :: "cal_invite \<Rightarrow> calendar \<Rightarrow> calendar" where
  "UpdateInvite v c = cal_emit [REP_CALENDAR_INVITE (iv_id v) (invite_row_of v)] c"

definition insert_at :: "nat \<Rightarrow> 'a \<Rightarrow> 'a list \<Rightarrow> 'a list" where
  "insert_at n x xs = take n xs @ x # drop n xs"

definition cal_AddEvent :: "cal_env \<Rightarrow> nat \<Rightarrow> cal_event \<Rightarrow> uint8 \<Rightarrow> calendar \<Rightarrow> calendar" where
  "cal_AddEvent E at e sendType c =
     SendCalendarEvent E (ev_creator e) e sendType
       (UpdateEvent e (c\<lparr>cal_events := insert_at at e (cal_events c)\<rparr>))"

definition AddInvite :: "cal_env \<Rightarrow> cal_event \<Rightarrow> cal_invite \<Rightarrow> calendar \<Rightarrow> calendar" where
  "AddInvite E e v c =
     (let c1 = (if \<not> IsGuildAnnouncement e then SendCalendarEventInvite E v c else c);
          c2 = (if \<not> IsGuildEvent e \<or> iv_invitee v = ev_creator e
                then SendCalendarEventInviteAlert E e v c1 else c1)
      in if \<not> IsGuildAnnouncement e
         then UpdateInvite v (put_invites (iv_event v) (invites_of (iv_event v) c2 @ [v]) c2)
         else c2)"

section \<open>Removing\<close>

definition BuildCalendarMailSubject :: "cal_event \<Rightarrow> uint64 \<Rightarrow> string" where
  "BuildCalendarMailSubject e remover = dec_str (unat remover) @ '':'' @ ev_title e"

definition BuildCalendarMailBody :: "cal_env \<Rightarrow> cal_event \<Rightarrow> string" where
  "BuildCalendarMailBody E e = dec_str (unat (packed_date (cal_localtime E (ev_time e))))"

text \<open>The body of the loop over the invites of a removed event; deleting the invite frees its id.\<close>

definition remove_event_invite ::
  "cal_env \<Rightarrow> cal_event \<Rightarrow> uint64 \<Rightarrow> cal_invite \<Rightarrow> calendar \<Rightarrow> calendar" where
  "remove_event_invite E e remover v c =
     FreeInviteId (iv_id v)
       (cal_emit (DEL_CALENDAR_INVITE (iv_id v) #
          (if remover \<noteq> 0 \<and> iv_invitee v \<noteq> remover
           then [SendMailTo (iv_invitee v) (BuildCalendarMailSubject e remover) (BuildCalendarMailBody E e)]
           else [])) c)"

text \<open>Erasing the first element with a property.\<close>

fun erase_first :: "('a \<Rightarrow> bool) \<Rightarrow> 'a list \<Rightarrow> 'a list" where
  "erase_first P [] = []"
| "erase_first P (x # xs) = (if P x then xs else x # erase_first P xs)"

definition RemoveEvent :: "cal_env \<Rightarrow> uint64 \<Rightarrow> uint64 \<Rightarrow> calendar \<Rightarrow> calendar" where
  "RemoveEvent E eventId remover c =
     (case GetEvent eventId c of
        None \<Rightarrow> SendCalendarCommandResult E remover CALENDAR_ERROR_EVENT_INVALID None c
      | Some e \<Rightarrow>
          let c1 = SendCalendarEventRemovedAlert E e c;
              c2 = fold (remove_event_invite E e remover) (invites_of eventId c1) c1;
              c3 = c2\<lparr>cal_invites := om_del eventId (cal_invites c2)\<rparr>;
              c4 = FreeEventId eventId (cal_emit [DEL_CALENDAR_EVENT eventId] c3)
          in c4\<lparr>cal_events := erase_first (\<lambda>x. ev_id x = eventId) (cal_events c4)\<rparr>)"

definition RemoveInvite :: "cal_env \<Rightarrow> uint64 \<Rightarrow> uint64 \<Rightarrow> calendar \<Rightarrow> calendar" where
  "RemoveInvite E inviteId eventId c =
     (case GetEvent eventId c of
        None \<Rightarrow> c
      | Some e \<Rightarrow>
          let c0 = touch_invites eventId c
          in case find (\<lambda>v. iv_id v = inviteId) (invites_of eventId c0) of
               None \<Rightarrow> c0
             | Some v \<Rightarrow>
                 let c1 = cal_emit [DEL_CALENDAR_INVITE inviteId] c0;
                     c2 = (if \<not> IsGuildEvent e
                           then SendCalendarEventInviteRemoveAlert E (iv_invitee v) e
                                  CALENDAR_STATUS_REMOVED c1
                           else c1);
                     c3 = FreeInviteId inviteId (SendCalendarEventInviteRemove E e v (ev_flags e) c2)
                 in put_invites eventId
                      (erase_first (\<lambda>v. iv_id v = inviteId) (invites_of eventId c3)) c3)"

text \<open>
  The loops over \<^verbatim>\<open>_events\<close> that remove events.  The iterator points to the element \<open>n\<close>, and \<open>k\<close>
  elements are left.  \<^verbatim>\<open>RemoveEvent\<close> erases the first event with the id; when that is the element
  of the iterator, the increment that follows is undefined.
\<close>

datatype cal_error = InvalidIterator

definition first_index :: "uint64 \<Rightarrow> calendar \<Rightarrow> nat" where
  "first_index i c = length (takeWhile (\<lambda>e. ev_id e \<noteq> i) (cal_events c))"

fun remove_events_loop ::
  "cal_env \<Rightarrow> (cal_event \<Rightarrow> bool) \<Rightarrow> uint64 \<Rightarrow> nat \<Rightarrow> nat \<Rightarrow> calendar \<Rightarrow> cal_error + calendar" where
  "remove_events_loop E P remover 0 n c = Inr c"
| "remove_events_loop E P remover (Suc k) n c =
     (let e = cal_events c ! n
      in if P e
         then if first_index (ev_id e) c = n then Inl InvalidIterator
              else remove_events_loop E P remover k n (RemoveEvent E (ev_id e) remover c)
         else remove_events_loop E P remover k (Suc n) c)"

definition RemoveAllPlayerEventsAndInvites ::
  "cal_env \<Rightarrow> uint64 \<Rightarrow> calendar \<Rightarrow> cal_error + calendar" where
  "RemoveAllPlayerEventsAndInvites E guid c =
     bind_res (remove_events_loop E (\<lambda>e. ev_creator e = guid) 0 (length (cal_events c)) 0 c)
       (\<lambda>c1. Inr (fold (\<lambda>v. RemoveInvite E (iv_id v) (iv_event v)) (GetPlayerInvites guid c1) c1))"

definition RemovePlayerGuildEventsAndSignups ::
  "cal_env \<Rightarrow> uint64 \<Rightarrow> uint32 \<Rightarrow> calendar \<Rightarrow> cal_error + calendar" where
  "RemovePlayerGuildEventsAndSignups E guid guildId c =
     bind_res (remove_events_loop E
         (\<lambda>e. ev_creator e = guid \<and> (IsGuildEvent e \<or> IsGuildAnnouncement e)) guid
         (length (cal_events c)) 0 c)
       (\<lambda>c1. Inr (fold (\<lambda>v c'. case GetEvent (iv_event v) c' of
                       None \<Rightarrow> c'
                     | Some e \<Rightarrow> if IsGuildEvent e \<and> ev_guildId e = guildId
                                 then RemoveInvite E (iv_id v) (iv_event v) c' else c')
                    (GetPlayerInvites guid c1) c1))"

section \<open>Loading\<close>

definition load_event :: "cal_env \<Rightarrow> uint64 \<Rightarrow> event_row \<Rightarrow> cal_event" where
  "load_event E i r =
     \<lparr>ev_id = i, ev_creator = ucast (er_creator r),
      ev_guildId = (if er_flags r AND CALENDAR_FLAG_GUILD_EVENT \<noteq> 0 \<or>
                       er_flags r AND CALENDAR_FLAG_WITHOUT_INVITES \<noteq> 0
                    then GetGuildIdFromDB E (ucast (er_creator r)) else 0),
      ev_type = ucast (er_type r), ev_dungeonId = er_dungeon r, ev_time = uint (er_eventtime r),
      ev_flags = er_flags r, ev_tz = uint (er_time2 r), ev_title = er_title r,
      ev_description = er_description r\<rparr>"

definition load_invite :: "uint64 \<Rightarrow> invite_row \<Rightarrow> cal_invite" where
  "load_invite i r =
     \<lparr>iv_id = i, iv_event = ir_event r, iv_invitee = ucast (ir_invitee r), iv_sender = ucast (ir_sender r),
      iv_statusTime = uint (ir_statustime r), iv_status = ucast (ir_status r), iv_rank = ucast (ir_rank r),
      iv_text = ir_text r\<rparr>"

definition load_event_row :: "cal_env \<Rightarrow> nat \<times> uint64 \<times> event_row \<Rightarrow> calendar \<Rightarrow> calendar" where
  "load_event_row E r c =
     (case r of (at, i, er) \<Rightarrow>
        c\<lparr>cal_events := insert_at at (load_event E i er) (cal_events c),
          cal_maxEventId := max (cal_maxEventId c) i\<rparr>)"

definition load_invite_row :: "uint64 \<times> invite_row \<Rightarrow> calendar \<Rightarrow> calendar" where
  "load_invite_row r c =
     (let v = load_invite (fst r) (snd r)
      in (put_invites (iv_event v) (invites_of (iv_event v) c @ [v]) c)
           \<lparr>cal_maxInviteId := max (cal_maxInviteId c) (iv_id v)\<rparr>)"

definition free_event_ids :: "calendar \<Rightarrow> uint64 list" where
  "free_event_ids c =
     filter (\<lambda>i. GetEvent i c = None) (map of_nat [1..<unat (cal_maxEventId c)])"

definition free_invite_ids :: "calendar \<Rightarrow> uint64 list" where
  "free_invite_ids c =
     filter (\<lambda>i. GetInvite i c = None) (map of_nat [1..<unat (cal_maxInviteId c)])"

text \<open>The stores are empty when the server starts.  An event row comes with the place of its address.\<close>

definition CalendarMgr_new :: calendar where
  "CalendarMgr_new =
     \<lparr>cal_events = [], cal_invites = [], cal_freeEventIds = [], cal_freeInviteIds = [],
      cal_maxEventId = 0, cal_maxInviteId = 0, cal_out = []\<rparr>"

definition cal_LoadFromDB ::
  "cal_env \<Rightarrow> (nat \<times> uint64 \<times> event_row) list \<Rightarrow> (uint64 \<times> invite_row) list \<Rightarrow> calendar \<Rightarrow> calendar" where
  "cal_LoadFromDB E erows irows c =
     (let c1 = fold (load_event_row E) erows (c\<lparr>cal_maxEventId := 0, cal_maxInviteId := 0\<rparr>);
          c2 = fold load_invite_row irows c1;
          c3 = c2\<lparr>cal_freeEventIds := cal_freeEventIds c2 @ free_event_ids c2\<rparr>
      in c3\<lparr>cal_freeInviteIds := cal_freeInviteIds c3 @ free_invite_ids c3\<rparr>)"


section \<open>Packet handlers\<close>

text \<open>
  The arguments are the values read from the packet and the player of the session.  Reads that
  fail end a handler before it does anything, except the invite list of a new event, whose
  result is an argument.
\<close>

definition in_the_past :: "cal_env \<Rightarrow> uint32 \<Rightarrow> bool" where
  "in_the_past E t \<longleftrightarrow> uint t < cal_now E - 86400"

definition HandleCalendarGetEvent :: "cal_env \<Rightarrow> uint64 \<Rightarrow> uint64 \<Rightarrow> calendar \<Rightarrow> calendar" where
  "HandleCalendarGetEvent E guid eventId c =
     (case GetEvent eventId c of
        Some e \<Rightarrow> SendCalendarEvent E guid e CALENDAR_SENDTYPE_GET c
      | None \<Rightarrow> SendCalendarCommandResult E guid CALENDAR_ERROR_EVENT_INVALID None c)"

record add_event_args =
  ae_title :: string
  ae_description :: string
  ae_type :: uint8
  ae_dungeonId :: uint32
  ae_time :: uint32
  ae_tz :: uint32
  ae_flags :: uint32

definition new_event :: "uint64 \<Rightarrow> uint64 \<Rightarrow> uint32 \<Rightarrow> add_event_args \<Rightarrow> cal_event" where
  "new_event i guid guildId a =
     \<lparr>ev_id = i, ev_creator = guid, ev_guildId = guildId, ev_type = ucast (ae_type a),
      ev_dungeonId = ae_dungeonId a, ev_time = uint (ae_time a), ev_flags = ae_flags a,
      ev_tz = uint (ae_tz a), ev_title = ae_title a, ev_description = ae_description a\<rparr>"

definition add_event_invite ::
  "cal_env \<Rightarrow> uint64 \<Rightarrow> cal_event \<Rightarrow> uint64 \<times> uint8 \<times> uint8 \<Rightarrow> calendar \<Rightarrow> calendar" where
  "add_event_invite E guid e r c =
     (case r of (invitee, status, rank) \<Rightarrow>
        let (i, c1) = GetFreeInviteId c
        in AddInvite E e
             \<lparr>iv_id = i, iv_event = ev_id e, iv_invitee = invitee, iv_sender = guid,
              iv_statusTime = DEFAULT_RESPONSE_TIME, iv_status = ucast status, iv_rank = ucast rank,
              iv_text = []\<rparr> c1)"

text \<open>
  The invite of a guild announcement is a local object with the id 0, whose destructor frees that
  id at the end of the block.  \<open>rd\<close> is what the invite list reads as: at most 100 entries, or the
  exception that is thrown again after the new event was deleted.
\<close>

definition HandleCalendarAddEvent ::
  "cal_env \<Rightarrow> uint64 \<Rightarrow> add_event_args \<Rightarrow> bb_error + (uint64 \<times> uint8 \<times> uint8) list \<Rightarrow> nat
     \<Rightarrow> calendar \<Rightarrow> bb_error option \<times> calendar" where
  "HandleCalendarAddEvent E guid a rd at c =
     (if in_the_past E (ae_time a) then (None, c)
      else
        let (i, c1) = GetFreeEventId c;
            e0 = new_event i guid 0 a;
            e = (if IsGuildEvent e0 \<or> IsGuildAnnouncement e0
                 then case cal_FindPlayer E guid of
                        None \<Rightarrow> e0 | Some p \<Rightarrow> e0\<lparr>ev_guildId := cp_guildId p\<rparr>
                 else e0)
        in if IsGuildAnnouncement e
           then let c2 = FreeInviteId 0
                      (AddInvite E e
                        \<lparr>iv_id = 0, iv_event = i, iv_invitee = 0, iv_sender = guid,
                         iv_statusTime = DEFAULT_RESPONSE_TIME, iv_status = CALENDAR_STATUS_NOT_SIGNED_UP,
                         iv_rank = CALENDAR_RANK_PLAYER, iv_text = []\<rparr> c1)
                in (None, cal_AddEvent E at e CALENDAR_SENDTYPE_ADD c2)
           else case rd of
                  Inl err \<Rightarrow> (Some err, FreeEventId i c1)
                | Inr rs \<Rightarrow>
                    (None, cal_AddEvent E at e CALENDAR_SENDTYPE_ADD (fold (add_event_invite E guid e) rs c1)))"

text \<open>A change through the pointer that \<^verbatim>\<open>GetEvent\<close> or \<^verbatim>\<open>GetInvite\<close> returns.\<close>

fun upd_first :: "('a \<Rightarrow> bool) \<Rightarrow> ('a \<Rightarrow> 'a) \<Rightarrow> 'a list \<Rightarrow> 'a list" where
  "upd_first P f [] = []"
| "upd_first P f (x # xs) = (if P x then f x # xs else x # upd_first P f xs)"

fun upd_first_in :: "('a \<Rightarrow> bool) \<Rightarrow> ('a \<Rightarrow> 'a) \<Rightarrow> ('k \<times> 'a list) list \<Rightarrow> ('k \<times> 'a list) list" where
  "upd_first_in P f [] = []"
| "upd_first_in P f (kv # m) =
     (if \<exists>x \<in> set (snd kv). P x then (fst kv, upd_first P f (snd kv)) # m
      else kv # upd_first_in P f m)"

definition set_event :: "uint64 \<Rightarrow> (cal_event \<Rightarrow> cal_event) \<Rightarrow> calendar \<Rightarrow> calendar" where
  "set_event i f c = c\<lparr>cal_events := upd_first (\<lambda>e. ev_id e = i) f (cal_events c)\<rparr>"

definition set_invite :: "uint64 \<Rightarrow> (cal_invite \<Rightarrow> cal_invite) \<Rightarrow> calendar \<Rightarrow> calendar" where
  "set_invite i f c = c\<lparr>cal_invites := upd_first_in (\<lambda>v. iv_id v = i) f (cal_invites c)\<rparr>"

definition change_event :: "add_event_args \<Rightarrow> cal_event \<Rightarrow> cal_event" where
  "change_event a e =
     e\<lparr>ev_type := ucast (ae_type a), ev_flags := ae_flags a, ev_time := uint (ae_time a),
       ev_tz := uint (ae_tz a), ev_dungeonId := ae_dungeonId a, ev_title := ae_title a,
       ev_description := ae_description a\<rparr>"

definition HandleCalendarUpdateEvent ::
  "cal_env \<Rightarrow> uint64 \<Rightarrow> uint64 \<Rightarrow> add_event_args \<Rightarrow> calendar \<Rightarrow> calendar" where
  "HandleCalendarUpdateEvent E guid eventId a c =
     (if in_the_past E (ae_time a) then c
      else case GetEvent eventId c of
             None \<Rightarrow> SendCalendarCommandResult E guid CALENDAR_ERROR_EVENT_INVALID None c
           | Some e \<Rightarrow>
               SendCalendarEventUpdateAlert E (change_event a e) (ev_time e)
                 (UpdateEvent (change_event a e) (set_event eventId (change_event a) c)))"

definition HandleCalendarRemoveEvent :: "cal_env \<Rightarrow> uint64 \<Rightarrow> uint64 \<Rightarrow> calendar \<Rightarrow> calendar" where
  "HandleCalendarRemoveEvent E guid eventId c = RemoveEvent E eventId guid c"

definition copy_event_invite :: "cal_env \<Rightarrow> cal_event \<Rightarrow> cal_invite \<Rightarrow> calendar \<Rightarrow> calendar" where
  "copy_event_invite E e v c =
     (let (i, c1) = GetFreeInviteId c in AddInvite E e (CalendarInvite_copy v i (ev_id e)) c1)"

definition HandleCalendarCopyEvent ::
  "cal_env \<Rightarrow> uint64 \<Rightarrow> uint64 \<Rightarrow> uint32 \<Rightarrow> nat \<Rightarrow> calendar \<Rightarrow> calendar" where
  "HandleCalendarCopyEvent E guid eventId eventTime at c =
     (if in_the_past E eventTime then c
      else case GetEvent eventId c of
             None \<Rightarrow> SendCalendarCommandResult E guid CALENDAR_ERROR_EVENT_INVALID None c
           | Some oldEvent \<Rightarrow>
               let (i, c1) = GetFreeEventId c;
                   newEvent = (CalendarEvent_copy oldEvent i)\<lparr>ev_time := uint eventTime\<rparr>;
                   c2 = cal_AddEvent E at newEvent CALENDAR_SENDTYPE_COPY c1
               in fold (copy_event_invite E newEvent) (invites_of eventId c2) (touch_invites eventId c2))"

definition SOCIAL_FLAG_IGNORED :: uint8 where "SOCIAL_FLAG_IGNORED = 0x02"

definition find_invitee :: "cal_env \<Rightarrow> string \<Rightarrow> uint64 \<times> uint32 \<times> uint32" where
  "find_invitee E name =
     (case cal_FindPlayerByName E name of
        Some p \<Rightarrow> (cp_guid p, cp_team p, cp_guildId p)
      | None \<Rightarrow> case char_by_name E name of
                  Some (g, team) \<Rightarrow> (g, team, GetGuildIdFromDB E g)
                | None \<Rightarrow> (0, 0, 0))"

definition new_invite :: "uint64 \<Rightarrow> uint64 \<Rightarrow> uint64 \<Rightarrow> uint64 \<Rightarrow> int \<Rightarrow> uint32 \<Rightarrow> cal_invite" where
  "new_invite i eventId invitee sender t status =
     \<lparr>iv_id = i, iv_event = eventId, iv_invitee = invitee, iv_sender = sender, iv_statusTime = t,
      iv_status = status, iv_rank = CALENDAR_RANK_PLAYER, iv_text = []\<rparr>"

definition HandleCalendarEventInvite ::
  "cal_env \<Rightarrow> cal_player \<Rightarrow> uint64 \<Rightarrow> uint64 \<Rightarrow> string \<Rightarrow> bool \<Rightarrow> bool \<Rightarrow> calendar \<Rightarrow> calendar" where
  "HandleCalendarEventInvite E p eventId inviteId name isPreInvite isGuildEvent c =
     (let (inviteeGuid, inviteeTeam, inviteeGuildId) = find_invitee E name;
          err = (\<lambda>n. SendCalendarCommandResult E (cp_guid p) n None c)
      in if inviteeGuid = 0 then err CALENDAR_ERROR_PLAYER_NOT_FOUND
         else if cp_team p \<noteq> inviteeTeam \<and> \<not> ALLOW_TWO_SIDE_INTERACTION_CALENDAR E
         then err CALENDAR_ERROR_NOT_ALLIED
         else if (case social_flags E inviteeGuid (cp_guid p) of
                    None \<Rightarrow> False | Some f \<Rightarrow> f AND SOCIAL_FLAG_IGNORED \<noteq> 0)
         then SendCalendarCommandResult E (cp_guid p) CALENDAR_ERROR_IGNORING_YOU_S (Some name) c
         else if \<not> isPreInvite
         then case GetEvent eventId c of
                None \<Rightarrow> err CALENDAR_ERROR_EVENT_INVALID
              | Some e \<Rightarrow>
                  if IsGuildEvent e \<and> ev_guildId e = inviteeGuildId
                  then err CALENDAR_ERROR_NO_GUILD_INVITES
                  else let (i, c1) = GetFreeInviteId c
                       in AddInvite E e (new_invite i eventId inviteeGuid (cp_guid p)
                            DEFAULT_RESPONSE_TIME CALENDAR_STATUS_INVITED) c1
         else if isGuildEvent \<and> inviteeGuildId = cp_guildId p
         then err CALENDAR_ERROR_NO_GUILD_INVITES
         else SendCalendarEventInvite E (new_invite inviteId 0 inviteeGuid (cp_guid p)
                DEFAULT_RESPONSE_TIME CALENDAR_STATUS_INVITED) c)"

definition HandleCalendarEventSignup ::
  "cal_env \<Rightarrow> cal_player \<Rightarrow> uint64 \<Rightarrow> bool \<Rightarrow> calendar \<Rightarrow> calendar" where
  "HandleCalendarEventSignup E p eventId tentative c =
     (case GetEvent eventId c of
        None \<Rightarrow> SendCalendarCommandResult E (cp_guid p) CALENDAR_ERROR_EVENT_INVALID None c
      | Some e \<Rightarrow>
          if IsGuildEvent e \<and> ev_guildId e \<noteq> cp_guildId p
          then SendCalendarCommandResult E (cp_guid p) CALENDAR_ERROR_GUILD_PLAYER_NOT_IN_GUILD None c
          else let status = (if tentative then CALENDAR_STATUS_TENTATIVE else CALENDAR_STATUS_SIGNED_UP);
                   (i, c1) = GetFreeInviteId c
               in SendCalendarClearPendingAction E (cp_guid p)
                    (AddInvite E e (new_invite i eventId (cp_guid p) (cp_guid p) (cal_now E) status) c1))"

definition HandleCalendarEventRsvp ::
  "cal_env \<Rightarrow> uint64 \<Rightarrow> uint64 \<Rightarrow> uint64 \<Rightarrow> uint32 \<Rightarrow> calendar \<Rightarrow> calendar" where
  "HandleCalendarEventRsvp E guid eventId inviteId status c =
     (case GetEvent eventId c of
        None \<Rightarrow> SendCalendarCommandResult E guid CALENDAR_ERROR_EVENT_INVALID None c
      | Some e \<Rightarrow>
          if status \<noteq> CALENDAR_STATUS_REMOVED \<and> ev_flags e AND CALENDAR_FLAG_INVITES_LOCKED \<noteq> 0
          then SendCalendarCommandResult E guid CALENDAR_ERROR_EVENT_LOCKED None c
          else case GetInvite inviteId c of
                 None \<Rightarrow> SendCalendarCommandResult E guid CALENDAR_ERROR_NO_INVITE None c
               | Some v \<Rightarrow>
                   let f = (\<lambda>v. v\<lparr>iv_status := status, iv_statusTime := cal_now E\<rparr>)
                   in SendCalendarClearPendingAction E guid
                        (SendCalendarEventStatus E e (f v)
                          (UpdateInvite (f v) (set_invite inviteId f c))))"

definition HandleCalendarEventRemoveInvite ::
  "cal_env \<Rightarrow> uint64 \<Rightarrow> uint64 \<Rightarrow> uint64 \<Rightarrow> uint64 \<Rightarrow> calendar \<Rightarrow> calendar" where
  "HandleCalendarEventRemoveInvite E guid invitee inviteId eventId c =
     (case GetEvent eventId c of
        None \<Rightarrow> SendCalendarCommandResult E guid CALENDAR_ERROR_NO_INVITE None c
      | Some e \<Rightarrow>
          if ev_creator e = invitee
          then SendCalendarCommandResult E guid CALENDAR_ERROR_DELETE_CREATOR_FAILED None c
          else RemoveInvite E inviteId eventId c)"

definition HandleCalendarEventStatus ::
  "cal_env \<Rightarrow> uint64 \<Rightarrow> uint64 \<Rightarrow> uint64 \<Rightarrow> uint64 \<Rightarrow> uint8 \<Rightarrow> calendar \<Rightarrow> calendar" where
  "HandleCalendarEventStatus E guid invitee eventId inviteId status c =
     (case GetEvent eventId c of
        None \<Rightarrow> SendCalendarCommandResult E guid CALENDAR_ERROR_EVENT_INVALID None c
      | Some e \<Rightarrow>
          case GetInvite inviteId c of
            None \<Rightarrow> SendCalendarCommandResult E guid CALENDAR_ERROR_NO_INVITE None c
          | Some v \<Rightarrow>
              let f = (\<lambda>v. v\<lparr>iv_status := ucast status\<rparr>)
              in SendCalendarClearPendingAction E invitee
                   (SendCalendarEventStatus E e (f v) (UpdateInvite (f v) (set_invite inviteId f c))))"

definition HandleCalendarEventModeratorStatus ::
  "cal_env \<Rightarrow> uint64 \<Rightarrow> uint64 \<Rightarrow> uint64 \<Rightarrow> uint8 \<Rightarrow> calendar \<Rightarrow> calendar" where
  "HandleCalendarEventModeratorStatus E guid eventId inviteId rank c =
     (case GetEvent eventId c of
        None \<Rightarrow> SendCalendarCommandResult E guid CALENDAR_ERROR_EVENT_INVALID None c
      | Some e \<Rightarrow>
          case GetInvite inviteId c of
            None \<Rightarrow> SendCalendarCommandResult E guid CALENDAR_ERROR_NO_INVITE None c
          | Some v \<Rightarrow>
              let f = (\<lambda>v. v\<lparr>iv_rank := ucast rank\<rparr>)
              in SendCalendarEventModeratorStatusAlert E e (f v)
                   (UpdateInvite (f v) (set_invite inviteId f c)))"

definition HandleCalendarGetNumPending :: "uint64 \<Rightarrow> calendar \<Rightarrow> calendar" where
  "HandleCalendarGetNumPending guid c =
     cal_emit [ToPlayer guid SMSG_CALENDAR_SEND_NUM_PENDING [WU32 (GetPlayerNumPending guid c)]] c"

end
