(* ===== verification/Calendar_Props.thy ===== *)
theory Calendar_Props
  imports Calendar
begin

text \<open>
  Properties of the calendar: ids are given out once, the database mirrors the calendar in
  memory through every handler, what the removal of an event does, and two errors of the code
  (the id of a guild announcement, and the loop that removes the events of a player).
\<close>

section \<open>The pool of ids\<close>

text \<open>The ids that are spare or in use lie between 1 and the highest id, and no id is both.\<close>

definition pool_ok :: "uint64 \<Rightarrow> uint64 list \<Rightarrow> uint64 set \<Rightarrow> bool" where
  "pool_ok m spare live \<longleftrightarrow>
     distinct spare \<and> set spare \<inter> live = {} \<and> (\<forall>i \<in> set spare \<union> live. 0 < i \<and> i \<le> m)"

locale id_pool =
  fixes top :: "'s \<Rightarrow> uint64"
    and spare :: "'s \<Rightarrow> uint64 list"
    and alloc :: "'s \<Rightarrow> uint64 \<times> 's"
    and release :: "uint64 \<Rightarrow> 's \<Rightarrow> 's"
  assumes alloc_spare: "spare s = i # is \<Longrightarrow>
      fst (alloc s) = i \<and> top (snd (alloc s)) = top s \<and> spare (snd (alloc s)) = is"
    and alloc_new: "spare s = [] \<Longrightarrow>
      fst (alloc s) = top s + 1 \<and> top (snd (alloc s)) = top s + 1 \<and> spare (snd (alloc s)) = []"
    and release_top: "top (release (top s) s) = top s - 1 \<and> spare (release (top s) s) = spare s"
    and release_other: "i \<noteq> top s \<Longrightarrow>
      top (release i s) = top s \<and> spare (release i s) = spare s @ [i]"
begin

lemma alloc_ok:
  assumes ok: "pool_ok (top s) (spare s) live" and room: "top s \<noteq> - 1"
  shows "fst (alloc s) \<notin> live" and "0 < fst (alloc s)"
    and "pool_ok (top (snd (alloc s))) (spare (snd (alloc s))) (insert (fst (alloc s)) live)"
proof -
  have above: "i < top s + 1" if "i \<le> top s" for i
    using that room by (simp add: word_less_succ)
  have *: "fst (alloc s) \<notin> live \<and> 0 < fst (alloc s) \<and>
    pool_ok (top (snd (alloc s))) (spare (snd (alloc s))) (insert (fst (alloc s)) live)"
  proof (cases "spare s")
    case Nil
    with ok have le: "\<forall>i \<in> live. 0 < i \<and> i \<le> top s" by (simp add: pool_ok_def)
    have "top s + 1 \<notin> live" using le above [of "top s"] by auto
    moreover have "0 < top s + 1" using above [of 0] by simp
    ultimately show ?thesis
      using le above alloc_new [OF Nil] by (fastforce simp: pool_ok_def)
  next
    case (Cons i "is")
    with ok alloc_spare [OF Cons] show ?thesis by (auto simp: pool_ok_def)
  qed
  then show "fst (alloc s) \<notin> live" "0 < fst (alloc s)"
    "pool_ok (top (snd (alloc s))) (spare (snd (alloc s))) (insert (fst (alloc s)) live)"
    by blast+
qed

lemma release_ok:
  assumes ok: "pool_ok (top s) (spare s) live" and i: "i \<in> live"
  shows "pool_ok (top (release i s)) (spare (release i s)) (live - {i})"
proof (cases "i = top s")
  case True
  have "j \<le> top s - 1" if "j \<in> set (spare s) \<union> (live - {i})" for j
  proof -
    have "j \<noteq> top s" "j \<le> top s" using that ok i True by (auto simp: pool_ok_def)
    then show ?thesis by (simp add: less_imp_less_eq_dec)
  qed
  with ok release_top [of s] True show ?thesis by (auto simp: pool_ok_def)
next
  case False
  with ok i release_other [OF False] show ?thesis by (auto simp: pool_ok_def)
qed

end

interpretation evp: id_pool cal_maxEventId cal_freeEventIds GetFreeEventId FreeEventId
  by unfold_locales (auto simp: GetFreeEventId_def FreeEventId_def)

interpretation ivp: id_pool cal_maxInviteId cal_freeInviteIds GetFreeInviteId FreeInviteId
  by unfold_locales (auto simp: GetFreeInviteId_def FreeInviteId_def)


section \<open>What sending a packet leaves alone\<close>

definition is_packet :: "cal_out \<Rightarrow> bool" where
  "is_packet x = (case x of ToPlayer _ _ _ \<Rightarrow> True | ToGuild _ _ _ \<Rightarrow> True | _ \<Rightarrow> False)"

text \<open>
  \<open>sends c c'\<close>: from \<open>c\<close> to \<open>c'\<close> only packets were sent; a lookup in \<^verbatim>\<open>_invites\<close> may have added an
  empty vector.
\<close>

definition sends :: "calendar \<Rightarrow> calendar \<Rightarrow> bool" where
  "sends c c' \<longleftrightarrow>
     cal_events c' = cal_events c \<and>
     cal_freeEventIds c' = cal_freeEventIds c \<and> cal_freeInviteIds c' = cal_freeInviteIds c \<and>
     cal_maxEventId c' = cal_maxEventId c \<and> cal_maxInviteId c' = cal_maxInviteId c \<and>
     (\<forall>j. invites_of j c' = invites_of j c) \<and> all_invites c' = all_invites c \<and>
     (om_ok (cal_invites c) \<longrightarrow> om_ok (cal_invites c')) \<and>
     (\<exists>xs. cal_out c' = cal_out c @ xs \<and> (\<forall>x \<in> set xs. is_packet x))"

lemma sends_refl [simp, intro]: "sends c c"
  by (simp add: sends_def)

lemma sends_trans [trans]:
  assumes "sends a b" and "sends b c"
  shows "sends a c"
proof -
  obtain xs ys where "cal_out b = cal_out a @ xs" "\<forall>x \<in> set xs. is_packet x"
    "cal_out c = cal_out b @ ys" "\<forall>x \<in> set ys. is_packet x"
    using assms unfolding sends_def by blast
  then have "cal_out c = cal_out a @ (xs @ ys) \<and> (\<forall>x \<in> set (xs @ ys). is_packet x)" by auto
  then have "\<exists>zs. cal_out c = cal_out a @ zs \<and> (\<forall>x \<in> set zs. is_packet x)" by blast
  with assms show ?thesis unfolding sends_def by simp
qed

lemma sends_emit: "\<forall>x \<in> set xs. is_packet x \<Longrightarrow> sends c (cal_emit xs c)"
  by (auto simp: sends_def cal_emit_def invites_of_def all_invites_def)

lemma concat_om_put_empty:
  "map_of m k = None \<Longrightarrow> concat (map snd (om_put k [] m)) = concat (map snd m)"
  by (induction m) (auto split: if_splits)

lemma concat_om_put_same:
  "map_of m k = Some vs \<Longrightarrow> om_ok m \<Longrightarrow> concat (map snd (om_put k vs m)) = concat (map snd m)"
  by (simp add: om_put_same)

lemma invites_of_put [simp]:
  "invites_of j (put_invites i vs c) = (if j = i then vs else invites_of j c)"
  by (simp add: invites_of_def put_invites_def)

lemma sends_touch: "om_ok (cal_invites c) \<Longrightarrow> sends c (touch_invites i c)"
  unfolding sends_def touch_invites_def
  by (auto simp: put_invites_def all_invites_def invites_of_def concat_om_put_empty concat_om_put_same
      split: option.splits)

lemma sends_fold:
  "(\<And>x c. sends c (f x c)) \<Longrightarrow> sends c (fold f xs c)"
  by (induction xs arbitrary: c) (auto intro: sends_trans)

lemma sends_ok: "sends c c' \<Longrightarrow> om_ok (cal_invites c) \<Longrightarrow> om_ok (cal_invites c')"
  by (simp add: sends_def)

lemma sends_send_direct: "sends c (send_direct E g op body c)"
  by (auto simp: send_direct_def is_packet_def intro!: sends_emit split: option.splits)

lemma sends_all_relatives:
  assumes "om_ok (cal_invites c)"
  shows "sends c (SendPacketToAllEventRelatives E op body e c)"
proof -
  define c1 where "c1 = (if (IsGuildEvent e \<or> IsGuildAnnouncement e) \<and> GetGuildGUID E (ev_guildId e) \<noteq> None
    then cal_emit [ToGuild (ev_guildId e) op body] c else c)"
  define f where "f = (\<lambda>(v :: cal_invite) c'. case cal_FindPlayer E (iv_invitee v) of
      None \<Rightarrow> c'
    | Some p \<Rightarrow> if \<not> IsGuildEvent e \<or> cp_guildId p \<noteq> ev_guildId e
                then cal_emit [ToPlayer (cp_guid p) op body] c' else c')"
  have eq: "SendPacketToAllEventRelatives E op body e c
      = fold f (invites_of (ev_id e) c1) (touch_invites (ev_id e) c1)"
    unfolding SendPacketToAllEventRelatives_def Let_def c1_def f_def ..
  have s1: "sends c c1" unfolding c1_def using sends_emit [of "[ToGuild (ev_guildId e) op body]" c]
    by (simp add: is_packet_def)
  have s2: "sends c1 (touch_invites (ev_id e) c1)" by (rule sends_touch [OF sends_ok [OF s1 assms]])
  have "sends d (f v d)" for v d
    using sends_emit [of _ d] by (simp add: f_def is_packet_def split: option.splits)
  from sends_fold [of f, OF this] show ?thesis
    unfolding eq by (rule sends_trans [OF sends_trans [OF s1 s2]])
qed

lemmas sends_rules = sends_send_direct sends_all_relatives sends_refl

lemma sends_SendCalendarEventInvite: "om_ok (cal_invites c) \<Longrightarrow> sends c (SendCalendarEventInvite E v c)"
  by (simp add: SendCalendarEventInvite_def Let_def sends_rules split: option.splits)

lemma sends_SendCalendarEventInviteAlert: "sends c (SendCalendarEventInviteAlert E e v c)"
  by (auto simp: SendCalendarEventInviteAlert_def Let_def sends_rules is_packet_def intro!: sends_emit)

lemma sends_SendCalendarEvent: "om_ok (cal_invites c) \<Longrightarrow> sends c (SendCalendarEvent E g e st c)"
  by (cases "cal_FindPlayer E g")
    (simp_all add: SendCalendarEvent_def is_packet_def sends_trans [OF sends_touch sends_emit])

lemma sends_SendCalendarCommandResult: "sends c (SendCalendarCommandResult E g err p c)"
  by (simp add: SendCalendarCommandResult_def sends_rules)

lemma sends_SendCalendarClearPendingAction: "sends c (SendCalendarClearPendingAction E g c)"
  by (simp add: SendCalendarClearPendingAction_def sends_rules)

lemma sends_alerts:
  assumes "om_ok (cal_invites c)"
  shows "sends c (SendCalendarEventUpdateAlert E e t c)"
    and "sends c (SendCalendarEventStatus E e v c)"
    and "sends c (SendCalendarEventRemovedAlert E e c)"
    and "sends c (SendCalendarEventInviteRemove E e v fl c)"
    and "sends c (SendCalendarEventModeratorStatusAlert E e v c)"
    and "sends c (SendCalendarEventInviteRemoveAlert E g e st c)"
  using assms
  by (simp_all add: SendCalendarEventUpdateAlert_def SendCalendarEventStatus_def
      SendCalendarEventRemovedAlert_def SendCalendarEventInviteRemove_def
      SendCalendarEventModeratorStatusAlert_def SendCalendarEventInviteRemoveAlert_def sends_rules)

section \<open>The database\<close>

text \<open>The two tables, and what the statements of the log do to them.\<close>

record cal_db =
  db_events :: "uint64 \<Rightarrow> event_row option"
  db_invites :: "uint64 \<Rightarrow> invite_row option"

fun run_cal :: "cal_out \<Rightarrow> cal_db \<Rightarrow> cal_db" where
  "run_cal (REP_CALENDAR_EVENT i r) D = D\<lparr>db_events := (db_events D)(i \<mapsto> r)\<rparr>"
| "run_cal (DEL_CALENDAR_EVENT i) D = D\<lparr>db_events := (db_events D)(i := None)\<rparr>"
| "run_cal (REP_CALENDAR_INVITE i r) D = D\<lparr>db_invites := (db_invites D)(i \<mapsto> r)\<rparr>"
| "run_cal (DEL_CALENDAR_INVITE i) D = D\<lparr>db_invites := (db_invites D)(i := None)\<rparr>"
| "run_cal _ D = D"

definition db_of :: "cal_db \<Rightarrow> calendar \<Rightarrow> cal_db" where
  "db_of D c = fold run_cal (cal_out c) D"

text \<open>What the tables should hold for a calendar: the abstraction of its state.\<close>

definition cal_abs :: "calendar \<Rightarrow> cal_db" where
  "cal_abs c =
     \<lparr>db_events = (\<lambda>i. map_option event_row_of (GetEvent i c)),
      db_invites = (\<lambda>i. map_option invite_row_of (GetInvite i c))\<rparr>"

lemma run_cal_packets: "\<forall>x \<in> set xs. is_packet x \<Longrightarrow> fold run_cal xs D = D"
  by (induction xs) (auto simp: is_packet_def split: cal_out.splits)

lemma sends_db: "sends c c' \<Longrightarrow> db_of D c' = db_of D c"
  unfolding sends_def db_of_def using run_cal_packets by (auto simp del: run_cal.simps)

lemma sends_abs: "sends c c' \<Longrightarrow> cal_abs c' = cal_abs c"
  by (simp add: sends_def cal_abs_def GetEvent_def GetInvite_def)

lemma db_of_emit [simp]: "db_of D (cal_emit xs c) = fold run_cal xs (db_of D c)"
  by (simp add: db_of_def cal_emit_def)


section \<open>Lists with distinct ids\<close>

lemma find_unique:
  "distinct (map f xs) \<Longrightarrow> find (\<lambda>x. f x = i) xs = Some v \<longleftrightarrow> v \<in> set xs \<and> f v = i"
  by (induction xs) (auto simp: image_iff)

lemma find_none: "find (\<lambda>x. f x = i) xs = None \<longleftrightarrow> i \<notin> f ` set xs"
  by (induction xs) auto

lemma find_same_mset:
  assumes "distinct (map f xs)" and "mset xs = mset ys"
  shows "find (\<lambda>x. f x = i) ys = find (\<lambda>x. f x = i) xs"
proof -
  have "distinct (map f ys)" using assms by (metis mset_eq_imp_distinct_iff mset_map)
  moreover have "set ys = set xs" using assms(2) by (metis mset_eq_setD)
  ultimately have "find (\<lambda>x. f x = i) ys = Some v \<longleftrightarrow> find (\<lambda>x. f x = i) xs = Some v" for v
    using assms(1) by (simp add: find_unique)
  then show ?thesis by (metis not_Some_eq)
qed

lemma find_add_mset:
  assumes d: "distinct (map f xs)" and m: "mset ys = add_mset v (mset xs)" and v: "f v \<notin> f ` set xs"
  shows "distinct (map f ys)"
    and "find (\<lambda>x. f x = i) ys = (if i = f v then Some v else find (\<lambda>x. f x = i) xs)"
proof -
  have e: "mset (v # xs) = mset ys" using m by simp
  have dv: "distinct (map f (v # xs))" using d v by simp
  show "distinct (map f ys)" using e dv by (metis mset_eq_imp_distinct_iff mset_map)
  show "find (\<lambda>x. f x = i) ys = (if i = f v then Some v else find (\<lambda>x. f x = i) xs)"
    using find_same_mset [OF dv e, of i] by auto
qed

lemma find_del_mset:
  assumes d: "distinct (map f xs)" and m: "mset xs = mset vs + mset ys"
  shows "distinct (map f ys)" and "distinct (map f vs)" and "f ` set vs \<inter> f ` set ys = {}"
    and "find (\<lambda>x. f x = i) ys = (if i \<in> f ` set vs then None else find (\<lambda>x. f x = i) xs)"
proof -
  have e: "mset xs = mset (vs @ ys)" using m by simp
  have dv: "distinct (map f (vs @ ys))" using d e by (metis mset_eq_imp_distinct_iff mset_map)
  then show "distinct (map f ys)" "distinct (map f vs)" "f ` set vs \<inter> f ` set ys = {}" by auto
  have "find (\<lambda>x. f x = i) xs = find (\<lambda>x. f x = i) (vs @ ys)"
    using find_same_mset [OF dv e [symmetric]] .
  moreover have "find (\<lambda>x. f x = i) (vs @ ys)
      = (case find (\<lambda>x. f x = i) vs of None \<Rightarrow> find (\<lambda>x. f x = i) ys | Some v \<Rightarrow> Some v)"
    by (induction vs) auto
  moreover have "find (\<lambda>x. f x = i) vs = None" if "i \<notin> f ` set vs"
    using that by (simp only: find_none not_False_eq_True)
  moreover have "find (\<lambda>x. f x = i) ys = None" if "i \<in> f ` set vs"
    using that \<open>f ` set vs \<inter> f ` set ys = {}\<close> unfolding find_none by blast
  ultimately show "find (\<lambda>x. f x = i) ys = (if i \<in> f ` set vs then None else find (\<lambda>x. f x = i) xs)"
    by simp
qed

lemma map_upd_first: "(\<And>x. f (g x) = f x) \<Longrightarrow> map f (upd_first P g xs) = map f xs"
  by (induction xs) auto

lemma find_upd_first:
  "(\<And>x. f (g x) = f x) \<Longrightarrow>
   find (\<lambda>x. f x = i) (upd_first (\<lambda>x. f x = j) g xs)
     = (if i = j then map_option g (find (\<lambda>x. f x = j) xs) else find (\<lambda>x. f x = i) xs)"
  by (induction xs) auto

lemma upd_first_append:
  "upd_first P g (xs @ ys) = (if \<exists>x \<in> set xs. P x then upd_first P g xs @ ys else xs @ upd_first P g ys)"
  by (induction xs) auto

lemma concat_upd_first_in:
  "concat (map snd (upd_first_in P g m)) = upd_first P g (concat (map snd m))"
  by (induction m) (auto simp: upd_first_append)

lemma mset_erase_first:
  "find P xs = Some v \<Longrightarrow> mset xs = add_mset v (mset (erase_first P xs))"
  by (induction xs) (auto split: if_splits)

lemma erase_first_none: "find P xs = None \<Longrightarrow> erase_first P xs = xs"
  by (induction xs) (auto split: if_splits)

lemma mset_insert_at [simp]: "mset (insert_at n x xs) = add_mset x (mset xs)"
proof -
  have "mset xs = mset (take n xs) + mset (drop n xs)" by (metis append_take_drop_id mset_append)
  then show ?thesis by (simp add: insert_at_def)
qed

lemma mset_concat_om_put:
  "om_ok m \<Longrightarrow> mset (concat (map snd (om_put k vs m))) + mset (case map_of m k of None \<Rightarrow> [] | Some w \<Rightarrow> w)
     = mset (concat (map snd m)) + mset vs"
proof (induction m)
  case Nil
  then show ?case by simp
next
  case (Cons e m)
  have "map_of m k = None" if "k < fst e \<or> k = fst e"
    using Cons.prems that by (force simp: om_ok_Cons map_of_eq_None_iff)
  with Cons show ?case by (cases e) (auto simp: om_ok_Cons ac_simps split: if_splits)
qed

lemma mset_concat_om_del:
  "om_ok m \<Longrightarrow> mset (concat (map snd m))
     = mset (case map_of m k of None \<Rightarrow> [] | Some w \<Rightarrow> w) + mset (concat (map snd (om_del k m)))"
proof (induction m)
  case Nil
  then show ?case by (simp add: om_del_def)
next
  case (Cons e m)
  have same: "om_del (fst e) m = m"
    using Cons.prems by (force simp: om_ok_Cons om_del_def filter_id_conv)
  show ?case
  proof (cases "k = fst e")
    case True
    then have "om_del k (e # m) = m" using same by (simp add: om_del_def)
    with True show ?thesis by (cases e) simp
  next
    case False
    then have "om_del k (e # m) = e # om_del k m" by (simp add: om_del_def)
    with False Cons show ?thesis by (cases e) (simp add: om_ok_Cons)
  qed
qed


section \<open>The invariant\<close>

definition keyed :: "calendar \<Rightarrow> bool" where
  "keyed c \<longleftrightarrow> (\<forall>j. \<forall>v \<in> set (invites_of j c). iv_event v = j)"

definition cal_wf :: "calendar \<Rightarrow> bool" where
  "cal_wf c \<longleftrightarrow>
     om_ok (cal_invites c) \<and> distinct (map ev_id (cal_events c)) \<and>
     distinct (map iv_id (all_invites c)) \<and> keyed c \<and>
     pool_ok (cal_maxEventId c) (cal_freeEventIds c) (ev_id ` set (cal_events c)) \<and>
     pool_ok (cal_maxInviteId c) (cal_freeInviteIds c) (iv_id ` set (all_invites c))"

text \<open>The database that started as \<open>D\<close> now is the abstraction of the calendar.\<close>

definition cal_inv :: "cal_db \<Rightarrow> calendar \<Rightarrow> bool" where
  "cal_inv D c \<longleftrightarrow> cal_wf c \<and> db_of D c = cal_abs c"

lemma cal_inv_om_ok: "cal_inv D c \<Longrightarrow> om_ok (cal_invites c)"
  by (simp add: cal_inv_def cal_wf_def)

lemma sends_inv: "sends c c' \<Longrightarrow> cal_inv D c \<Longrightarrow> cal_inv D c'"
  using sends_db sends_abs by (simp add: cal_inv_def cal_wf_def) (simp add: sends_def keyed_def)

lemma pool_ok_mono: "pool_ok m sp L \<Longrightarrow> L' \<subseteq> L \<Longrightarrow> pool_ok m sp L'"
  by (auto simp: pool_ok_def)

lemma mset_all_put:
  "om_ok (cal_invites c) \<Longrightarrow>
   mset (all_invites (put_invites k vs c)) + mset (invites_of k c) = mset (all_invites c) + mset vs"
  using mset_concat_om_put [of "cal_invites c" k vs]
  by (simp add: all_invites_def put_invites_def invites_of_def)

lemma cal_events_simps [simp]:
  "cal_events (put_invites k vs c) = cal_events c" "cal_events (cal_emit xs c) = cal_events c"
  "cal_events (FreeInviteId i c) = cal_events c" "cal_events (FreeEventId i c) = cal_events c"
  "cal_events (snd (GetFreeInviteId c)) = cal_events c" "cal_events (snd (GetFreeEventId c)) = cal_events c"
  "cal_events (set_invite i g c) = cal_events c"
  by (simp_all add: put_invites_def cal_emit_def FreeInviteId_def FreeEventId_def GetFreeInviteId_def
      GetFreeEventId_def set_invite_def split: list.splits)

lemma cal_invites_simps [simp]:
  "cal_invites (cal_emit xs c) = cal_invites c" "cal_invites (FreeInviteId i c) = cal_invites c"
  "cal_invites (FreeEventId i c) = cal_invites c" "cal_invites (set_event i f c) = cal_invites c"
  "cal_invites (snd (GetFreeInviteId c)) = cal_invites c"
  "cal_invites (snd (GetFreeEventId c)) = cal_invites c"
  by (simp_all add: cal_emit_def FreeInviteId_def FreeEventId_def GetFreeInviteId_def
      GetFreeEventId_def set_event_def split: list.splits)

lemma cal_out_simps [simp]:
  "cal_out (put_invites k vs c) = cal_out c" "cal_out (FreeInviteId i c) = cal_out c"
  "cal_out (FreeEventId i c) = cal_out c" "cal_out (set_event i f c) = cal_out c"
  "cal_out (set_invite i g c) = cal_out c"
  "cal_out (snd (GetFreeInviteId c)) = cal_out c" "cal_out (snd (GetFreeEventId c)) = cal_out c"
  by (simp_all add: put_invites_def FreeInviteId_def FreeEventId_def GetFreeInviteId_def
      GetFreeEventId_def set_event_def set_invite_def split: list.splits)

lemma event_pool_simps [simp]:
  "cal_maxEventId (put_invites k vs c) = cal_maxEventId c" "cal_freeEventIds (put_invites k vs c) = cal_freeEventIds c"
  "cal_maxEventId (cal_emit xs c) = cal_maxEventId c" "cal_freeEventIds (cal_emit xs c) = cal_freeEventIds c"
  "cal_maxEventId (FreeInviteId i c) = cal_maxEventId c" "cal_freeEventIds (FreeInviteId i c) = cal_freeEventIds c"
  "cal_maxEventId (snd (GetFreeInviteId c)) = cal_maxEventId c"
  "cal_freeEventIds (snd (GetFreeInviteId c)) = cal_freeEventIds c"
  "cal_maxEventId (set_event i f c) = cal_maxEventId c" "cal_freeEventIds (set_event i f c) = cal_freeEventIds c"
  "cal_maxEventId (set_invite i g c) = cal_maxEventId c" "cal_freeEventIds (set_invite i g c) = cal_freeEventIds c"
  by (simp_all add: put_invites_def cal_emit_def FreeInviteId_def GetFreeInviteId_def set_event_def
      set_invite_def split: list.splits)

lemma invite_pool_simps [simp]:
  "cal_maxInviteId (put_invites k vs c) = cal_maxInviteId c" "cal_freeInviteIds (put_invites k vs c) = cal_freeInviteIds c"
  "cal_maxInviteId (cal_emit xs c) = cal_maxInviteId c" "cal_freeInviteIds (cal_emit xs c) = cal_freeInviteIds c"
  "cal_maxInviteId (FreeEventId i c) = cal_maxInviteId c" "cal_freeInviteIds (FreeEventId i c) = cal_freeInviteIds c"
  "cal_maxInviteId (snd (GetFreeEventId c)) = cal_maxInviteId c"
  "cal_freeInviteIds (snd (GetFreeEventId c)) = cal_freeInviteIds c"
  "cal_maxInviteId (set_event i f c) = cal_maxInviteId c" "cal_freeInviteIds (set_event i f c) = cal_freeInviteIds c"
  "cal_maxInviteId (set_invite i g c) = cal_maxInviteId c" "cal_freeInviteIds (set_invite i g c) = cal_freeInviteIds c"
  by (simp_all add: put_invites_def cal_emit_def FreeEventId_def GetFreeEventId_def set_event_def
      set_invite_def split: list.splits)

lemma all_invites_cong: "cal_invites c' = cal_invites c \<Longrightarrow> all_invites c' = all_invites c"
  and invites_of_cong: "cal_invites c' = cal_invites c \<Longrightarrow> invites_of j c' = invites_of j c"
  by (simp_all add: all_invites_def invites_of_def)

lemma all_invites_simps [simp]:
  "all_invites (cal_emit xs c) = all_invites c" "all_invites (FreeInviteId i c) = all_invites c"
  "all_invites (FreeEventId i c) = all_invites c" "all_invites (set_event i f c) = all_invites c"
  "all_invites (snd (GetFreeInviteId c)) = all_invites c"
  "all_invites (snd (GetFreeEventId c)) = all_invites c"
  by (simp_all add: all_invites_def)

lemma invites_of_simps [simp]:
  "invites_of j (cal_emit xs c) = invites_of j c" "invites_of j (FreeInviteId i c) = invites_of j c"
  "invites_of j (FreeEventId i c) = invites_of j c" "invites_of j (set_event i f c) = invites_of j c"
  "invites_of j (snd (GetFreeInviteId c)) = invites_of j c"
  "invites_of j (snd (GetFreeEventId c)) = invites_of j c"
  by (simp_all add: invites_of_def)

lemma keyed_simps [simp]:
  "keyed (cal_emit xs c) = keyed c" "keyed (FreeInviteId i c) = keyed c"
  "keyed (FreeEventId i c) = keyed c" "keyed (set_event i f c) = keyed c"
  "keyed (snd (GetFreeInviteId c)) = keyed c" "keyed (snd (GetFreeEventId c)) = keyed c"
  by (simp_all add: keyed_def)

lemma cal_abs_cong: "cal_events c' = cal_events c \<Longrightarrow> cal_invites c' = cal_invites c \<Longrightarrow> cal_abs c' = cal_abs c"
  by (simp add: cal_abs_def GetEvent_def GetInvite_def all_invites_def)

lemma db_of_cong: "cal_out c' = cal_out c \<Longrightarrow> db_of D c' = db_of D c"
  by (simp add: db_of_def)

subsection \<open>Adding\<close>

lemma store_invite_inv:
  assumes inv: "cal_inv D c"
    and pool: "pool_ok (cal_maxInviteId c) (cal_freeInviteIds c) (insert (iv_id v) (iv_id ` set (all_invites c)))"
    and new: "iv_id v \<notin> iv_id ` set (all_invites c)"
  shows "cal_inv D (UpdateInvite v (put_invites (iv_event v) (invites_of (iv_event v) c @ [v]) c))"
proof -
  let ?c = "put_invites (iv_event v) (invites_of (iv_event v) c @ [v]) c"
  have wf: "cal_wf c" and abs: "db_of D c = cal_abs c" using inv by (simp_all add: cal_inv_def)
  have ok: "om_ok (cal_invites c)" and d: "distinct (map iv_id (all_invites c))"
    using wf by (simp_all add: cal_wf_def)
  have m: "mset (all_invites ?c) = add_mset v (mset (all_invites c))"
    using mset_all_put [OF ok, of "iv_event v" "invites_of (iv_event v) c @ [v]"] by simp
  note f = find_add_mset [OF d m new]
  have set: "set (all_invites ?c) = insert v (set (all_invites c))"
    using m by (metis set_mset_add_mset_insert set_mset_mset)
  have wf': "cal_wf ?c"
    unfolding cal_wf_def
  proof (intro conjI)
    show "om_ok (cal_invites ?c)" using ok by (simp add: put_invites_def)
    show "distinct (map iv_id (all_invites ?c))" by (rule f(1))
    show "keyed ?c" using wf by (auto simp: cal_wf_def keyed_def)
  qed (use wf pool set in \<open>simp_all add: cal_wf_def\<close>)
  have abs': "cal_abs ?c = run_cal (REP_CALENDAR_INVITE (iv_id v) (invite_row_of v)) (cal_abs c)"
    using f(2) by (simp add: cal_abs_def GetEvent_def GetInvite_def fun_eq_iff)
  have "db_of D (UpdateInvite v ?c) = cal_abs ?c"
    unfolding abs' abs [symmetric] by (simp add: UpdateInvite_def db_of_cong [of ?c c])
  moreover have "cal_wf (UpdateInvite v ?c)" "cal_abs (UpdateInvite v ?c) = cal_abs ?c"
    using wf' cal_abs_cong [of "UpdateInvite v ?c" ?c] by (simp_all add: UpdateInvite_def cal_wf_def)
  ultimately show ?thesis by (simp add: cal_inv_def)
qed

text \<open>An added invite is announced, and then stored unless the event takes no invites.\<close>

lemma AddInvite_split:
  assumes ok: "om_ok (cal_invites c)"
  shows "\<exists>c2. sends c c2 \<and> AddInvite E e v c = (if \<not> IsGuildAnnouncement e
      then UpdateInvite v (put_invites (iv_event v) (invites_of (iv_event v) c2 @ [v]) c2) else c2)"
proof -
  define c1 where "c1 = (if \<not> IsGuildAnnouncement e then SendCalendarEventInvite E v c else c)"
  define c2 where "c2 = (if \<not> IsGuildEvent e \<or> iv_invitee v = ev_creator e
    then SendCalendarEventInviteAlert E e v c1 else c1)"
  have "sends c c1" using sends_SendCalendarEventInvite [OF ok] by (simp add: c1_def)
  moreover have "sends c1 c2" by (simp add: c2_def sends_SendCalendarEventInviteAlert)
  ultimately have s: "sends c c2" by (rule sends_trans)
  have "AddInvite E e v c = (if \<not> IsGuildAnnouncement e
      then UpdateInvite v (put_invites (iv_event v) (invites_of (iv_event v) c2 @ [v]) c2) else c2)"
    unfolding AddInvite_def Let_def c1_def [symmetric] c2_def [symmetric] ..
  with s show ?thesis by blast
qed

lemma AddInvite_inv:
  assumes inv: "cal_inv D c"
    and pool: "pool_ok (cal_maxInviteId c) (cal_freeInviteIds c) (insert (iv_id v) (iv_id ` set (all_invites c)))"
    and new: "iv_id v \<notin> iv_id ` set (all_invites c)"
  shows "cal_inv D (AddInvite E e v c)"
proof -
  obtain c2 where s: "sends c c2" and eq: "AddInvite E e v c = (if \<not> IsGuildAnnouncement e
      then UpdateInvite v (put_invites (iv_event v) (invites_of (iv_event v) c2 @ [v]) c2) else c2)"
    using AddInvite_split [OF cal_inv_om_ok [OF inv]] by blast
  from s have inv2: "cal_inv D c2" using inv by (rule sends_inv)
  have "cal_inv D (UpdateInvite v (put_invites (iv_event v) (invites_of (iv_event v) c2 @ [v]) c2))"
    using s pool new by (intro store_invite_inv [OF inv2]) (simp_all add: sends_def)
  then show ?thesis
    using inv2 by (simp add: eq)
qed

text \<open>An id that is taken for an invite.\<close>

lemma alloc_invite:
  assumes inv: "cal_inv D c" and room: "cal_maxInviteId c \<noteq> - 1" and al: "GetFreeInviteId c = (i, c1)"
  shows "cal_inv D c1" and "i \<notin> iv_id ` set (all_invites c1)"
    and "pool_ok (cal_maxInviteId c1) (cal_freeInviteIds c1) (insert i (iv_id ` set (all_invites c1)))"
    and "unat (cal_maxInviteId c1) \<le> Suc (unat (cal_maxInviteId c))"
    and "cal_events c1 = cal_events c" and "cal_maxEventId c1 = cal_maxEventId c"
proof -
  have c1: "c1 = snd (GetFreeInviteId c)" and i: "i = fst (GetFreeInviteId c)" using al by simp_all
  have all: "all_invites c1 = all_invites c" by (rule all_invites_cong) (simp add: c1)
  have pool: "pool_ok (cal_maxInviteId c) (cal_freeInviteIds c) (iv_id ` set (all_invites c))"
    using inv by (simp add: cal_inv_def cal_wf_def)
  show "i \<notin> iv_id ` set (all_invites c1)" using ivp.alloc_ok(1) [OF pool room] by (simp add: all i)
  show p: "pool_ok (cal_maxInviteId c1) (cal_freeInviteIds c1) (insert i (iv_id ` set (all_invites c1)))"
    using ivp.alloc_ok(3) [OF pool room] by (simp add: all i c1)
  have "pool_ok (cal_maxInviteId c1) (cal_freeInviteIds c1) (iv_id ` set (all_invites c))"
    using pool_ok_mono [OF p] by (auto simp: all)
  with inv show "cal_inv D c1"
    using db_of_cong [of c1 c D] cal_abs_cong [of c1 c] by (simp add: cal_inv_def cal_wf_def c1)
  have "unat (x + 1) \<le> Suc (unat x)" for x :: uint64 by (metis Suc_eq_plus1 mod_less_eq_dividend unat_1 unat_word_ariths(1))
  then show "unat (cal_maxInviteId c1) \<le> Suc (unat (cal_maxInviteId c))"
    by (simp add: c1 GetFreeInviteId_def split: list.splits)
  show "cal_events c1 = cal_events c" "cal_maxEventId c1 = cal_maxEventId c" by (simp_all add: c1)
qed


lemma alloc_event:
  assumes inv: "cal_inv D c" and room: "cal_maxEventId c \<noteq> - 1" and al: "GetFreeEventId c = (i, c1)"
  shows "cal_inv D c1" and "i \<notin> ev_id ` set (cal_events c1)"
    and "pool_ok (cal_maxEventId c1) (cal_freeEventIds c1) (insert i (ev_id ` set (cal_events c1)))"
    and "cal_maxInviteId c1 = cal_maxInviteId c" and "all_invites c1 = all_invites c"
proof -
  have c1: "c1 = snd (GetFreeEventId c)" and i: "i = fst (GetFreeEventId c)" using al by simp_all
  have pool: "pool_ok (cal_maxEventId c) (cal_freeEventIds c) (ev_id ` set (cal_events c))"
    using inv by (simp add: cal_inv_def cal_wf_def)
  show "i \<notin> ev_id ` set (cal_events c1)" using evp.alloc_ok(1) [OF pool room] by (simp add: c1 i)
  show p: "pool_ok (cal_maxEventId c1) (cal_freeEventIds c1) (insert i (ev_id ` set (cal_events c1)))"
    using evp.alloc_ok(3) [OF pool room] by (simp add: i c1)
  have "pool_ok (cal_maxEventId c1) (cal_freeEventIds c1) (ev_id ` set (cal_events c))"
    using pool_ok_mono [OF p] by (auto simp: c1)
  with inv show "cal_inv D c1"
    using db_of_cong [of c1 c D] cal_abs_cong [of c1 c] by (simp add: cal_inv_def cal_wf_def c1)
  show "cal_maxInviteId c1 = cal_maxInviteId c" "all_invites c1 = all_invites c" by (simp_all add: c1)
qed

text \<open>
  While an event is not yet in the store its id is taken: the invariant of the state in between
  is that of the store together with the pool fact for the new id.
\<close>

definition with_event :: "cal_db \<Rightarrow> uint64 \<Rightarrow> calendar \<Rightarrow> bool" where
  "with_event D i c \<longleftrightarrow> cal_inv D c \<and> i \<notin> ev_id ` set (cal_events c) \<and>
     pool_ok (cal_maxEventId c) (cal_freeEventIds c) (insert i (ev_id ` set (cal_events c)))"

lemma with_event_sends: "sends c c' \<Longrightarrow> with_event D i c \<Longrightarrow> with_event D i c'"
  using sends_inv [of c c' D] by (simp add: with_event_def) (simp add: sends_def)

lemma AddInvite_events [simp]:
  assumes "om_ok (cal_invites c)"
  shows "cal_events (AddInvite E e v c) = cal_events c"
    and "cal_maxEventId (AddInvite E e v c) = cal_maxEventId c"
    and "cal_freeEventIds (AddInvite E e v c) = cal_freeEventIds c"
    and "cal_maxInviteId (AddInvite E e v c) = cal_maxInviteId c"
    and "cal_freeInviteIds (AddInvite E e v c) = cal_freeInviteIds c"
proof -
  obtain c2 where s: "sends c c2" and eq: "AddInvite E e v c = (if \<not> IsGuildAnnouncement e
      then UpdateInvite v (put_invites (iv_event v) (invites_of (iv_event v) c2 @ [v]) c2) else c2)"
    using AddInvite_split [OF assms] by blast
  show "cal_events (AddInvite E e v c) = cal_events c"
    "cal_maxEventId (AddInvite E e v c) = cal_maxEventId c"
    "cal_freeEventIds (AddInvite E e v c) = cal_freeEventIds c"
    "cal_maxInviteId (AddInvite E e v c) = cal_maxInviteId c"
    "cal_freeInviteIds (AddInvite E e v c) = cal_freeInviteIds c"
    using s by (simp_all add: eq UpdateInvite_def sends_def)
qed

text \<open>Taking an id and adding an invite with it.\<close>

lemma alloc_AddInvite:
  assumes "cal_inv D c" and "cal_maxInviteId c \<noteq> - 1" and "GetFreeInviteId c = (i, c1)" and "iv_id v = i"
  shows "cal_inv D (AddInvite E e v c1)"
    and "unat (cal_maxInviteId (AddInvite E e v c1)) \<le> Suc (unat (cal_maxInviteId c))"
    and "with_event D j c \<Longrightarrow> with_event D j (AddInvite E e v c1)"
proof -
  note a = alloc_invite [OF assms(1-3)]
  show inv: "cal_inv D (AddInvite E e v c1)"
    using a by (intro AddInvite_inv) (simp_all add: assms(4))
  have ok: "om_ok (cal_invites c1)" using a(1) by (rule cal_inv_om_ok)
  show "unat (cal_maxInviteId (AddInvite E e v c1)) \<le> Suc (unat (cal_maxInviteId c))"
    using a(4) by (simp add: ok)
  have "cal_freeEventIds c1 = cal_freeEventIds c"
    using assms(3) by (metis event_pool_simps(8) snd_conv)
  then show "with_event D j c \<Longrightarrow> with_event D j (AddInvite E e v c1)"
    using a(5,6) inv by (simp add: with_event_def ok)
qed

lemma cal_AddEvent_inv:
  assumes "with_event D (ev_id e) c"
  shows "cal_inv D (cal_AddEvent E at e st c)"
proof -
  define c1 where "c1 = c\<lparr>cal_events := insert_at at e (cal_events c)\<rparr>"
  have inv: "cal_inv D c" and new: "ev_id e \<notin> ev_id ` set (cal_events c)"
    and pool: "pool_ok (cal_maxEventId c) (cal_freeEventIds c) (insert (ev_id e) (ev_id ` set (cal_events c)))"
    using assms by (simp_all add: with_event_def)
  have d: "distinct (map ev_id (cal_events c))" using inv by (simp add: cal_inv_def cal_wf_def)
  have m: "mset (cal_events c1) = add_mset e (mset (cal_events c))" by (simp add: c1_def)
  note f = find_add_mset [OF d m new]
  have set: "set (cal_events c1) = insert e (set (cal_events c))"
    using m by (metis set_mset_add_mset_insert set_mset_mset)
  have same: "all_invites c1 = all_invites c" "keyed c1 = keyed c" "cal_invites c1 = cal_invites c"
    by (simp_all add: c1_def all_invites_def keyed_def invites_of_def)
  have wf: "cal_wf c1"
    using inv pool f(1) by (simp add: cal_inv_def cal_wf_def set same) (simp add: c1_def)
  have abs: "cal_abs c1 = run_cal (REP_CALENDAR_EVENT (ev_id e) (event_row_of e)) (cal_abs c)"
    using f(2) by (simp add: cal_abs_def GetEvent_def GetInvite_def same fun_eq_iff)
  have "db_of D c1 = db_of D c" by (rule db_of_cong) (simp add: c1_def)
  then have "db_of D (UpdateEvent e c1) = cal_abs c1"
    using inv by (simp only: UpdateEvent_def db_of_emit abs fold_simps cal_inv_def)
  moreover have "cal_abs (UpdateEvent e c1) = cal_abs c1"
    by (rule cal_abs_cong) (simp_all add: UpdateEvent_def)
  ultimately have "cal_inv D (UpdateEvent e c1)"
    using wf by (simp add: cal_inv_def UpdateEvent_def cal_wf_def)
  then show ?thesis
    unfolding cal_AddEvent_def c1_def [symmetric]
    using sends_SendCalendarEvent sends_inv cal_inv_om_ok by blast
qed

subsection \<open>Changing\<close>

lemma set_event_inv:
  assumes inv: "cal_inv D c" and e: "GetEvent i c = Some e" and f: "\<And>x. ev_id (f x) = ev_id x"
  shows "cal_inv D (UpdateEvent (f e) (set_event i f c))"
proof -
  let ?c = "set_event i f c"
  have d: "map ev_id (cal_events ?c) = map ev_id (cal_events c)"
    by (simp add: set_event_def map_upd_first f)
  then have ids: "ev_id ` set (cal_events ?c) = ev_id ` set (cal_events c)"
    by (metis list.set_map)
  have id: "ev_id e = i" using e by (auto simp: GetEvent_def find_Some_iff)
  have wf: "cal_wf ?c" using inv d ids by (simp add: cal_inv_def cal_wf_def)
  have abs: "cal_abs ?c = run_cal (REP_CALENDAR_EVENT (ev_id (f e)) (event_row_of (f e))) (cal_abs c)"
    using e by (simp add: cal_abs_def GetEvent_def GetInvite_def set_event_def find_upd_first f id
        fun_eq_iff all_invites_def)
  have "db_of D ?c = db_of D c" by (rule db_of_cong) simp
  then have "db_of D (UpdateEvent (f e) ?c) = cal_abs ?c"
    using inv by (simp only: UpdateEvent_def db_of_emit abs fold_simps cal_inv_def)
  moreover have "cal_abs (UpdateEvent (f e) ?c) = cal_abs ?c"
    by (rule cal_abs_cong) (simp_all add: UpdateEvent_def)
  ultimately show ?thesis using wf by (simp add: cal_inv_def UpdateEvent_def cal_wf_def)
qed

lemma upd_first_in_keys: "map fst (upd_first_in P g m) = map fst m"
  by (induction m) auto

lemma upd_first_mem: "x \<in> set (upd_first P g vs) \<Longrightarrow> \<exists>y \<in> set vs. x = y \<or> x = g y"
  by (induction vs) (auto split: if_splits)

lemma map_of_upd_first_in:
  "\<forall>x \<in> set (case map_of (upd_first_in P g m) j of None \<Rightarrow> [] | Some w \<Rightarrow> w).
     \<exists>y \<in> set (case map_of m j of None \<Rightarrow> [] | Some w \<Rightarrow> w). x = y \<or> x = g y"
proof (induction m)
  case Nil
  then show ?case by simp
next
  case (Cons kv m)
  then show ?case by (cases kv) (auto dest: upd_first_mem)
qed

lemma set_invite_inv:
  assumes inv: "cal_inv D c" and v: "GetInvite i c = Some v"
    and g: "\<And>x. iv_id (g x) = iv_id x" "\<And>x. iv_event (g x) = iv_event x"
  shows "cal_inv D (UpdateInvite (g v) (set_invite i g c))"
proof -
  let ?c = "set_invite i g c"
  have all: "all_invites ?c = upd_first (\<lambda>v. iv_id v = i) g (all_invites c)"
    by (simp add: set_invite_def all_invites_def concat_upd_first_in)
  have d: "map iv_id (all_invites ?c) = map iv_id (all_invites c)"
    by (simp add: all map_upd_first g)
  then have ids: "iv_id ` set (all_invites ?c) = iv_id ` set (all_invites c)"
    by (metis list.set_map)
  have id: "iv_id v = i" using v by (auto simp: GetInvite_def find_Some_iff)
  have "keyed ?c"
    unfolding keyed_def
  proof (intro allI ballI)
    fix j x
    assume "x \<in> set (invites_of j ?c)"
    then have "x \<in> set (case map_of (upd_first_in (\<lambda>v. iv_id v = i) g (cal_invites c)) j of
        None \<Rightarrow> [] | Some w \<Rightarrow> w)"
      by (simp add: invites_of_def set_invite_def)
    from bspec [OF map_of_upd_first_in this]
    obtain y where "y \<in> set (invites_of j c)" "x = y \<or> x = g y"
      unfolding invites_of_def by blast
    moreover have "keyed c" using inv by (simp add: cal_inv_def cal_wf_def)
    ultimately show "iv_event x = j" by (auto simp: keyed_def g)
  qed
  moreover have "om_ok (cal_invites ?c)"
    using inv by (simp add: cal_inv_def cal_wf_def set_invite_def om_ok_def upd_first_in_keys)
  ultimately have wf: "cal_wf ?c" using inv d ids by (simp add: cal_inv_def cal_wf_def)
  have abs: "cal_abs ?c = run_cal (REP_CALENDAR_INVITE (iv_id (g v)) (invite_row_of (g v))) (cal_abs c)"
    using v by (simp add: cal_abs_def GetEvent_def GetInvite_def all find_upd_first g id fun_eq_iff)
  have "db_of D ?c = db_of D c" by (rule db_of_cong) simp
  then have "db_of D (UpdateInvite (g v) ?c) = cal_abs ?c"
    using inv by (simp only: UpdateInvite_def db_of_emit abs fold_simps cal_inv_def)
  moreover have "cal_abs (UpdateInvite (g v) ?c) = cal_abs ?c"
    by (rule cal_abs_cong) (simp_all add: UpdateInvite_def)
  ultimately show ?thesis using wf by (simp add: cal_inv_def UpdateInvite_def cal_wf_def)
qed


subsection \<open>Removing\<close>

lemma remove_event_invite_simps [simp]:
  "cal_events (remove_event_invite E e rem v c) = cal_events c"
  "cal_invites (remove_event_invite E e rem v c) = cal_invites c"
  "cal_maxEventId (remove_event_invite E e rem v c) = cal_maxEventId c"
  "cal_freeEventIds (remove_event_invite E e rem v c) = cal_freeEventIds c"
  by (simp_all add: remove_event_invite_def)

lemma remove_event_invite_db:
  "db_of D (remove_event_invite E e rem v c)
     = (db_of D c)\<lparr>db_invites := (db_invites (db_of D c))(iv_id v := None)\<rparr>"
  by (simp add: remove_event_invite_def db_of_cong [of "FreeInviteId (iv_id v) x" x for x])

lemma fold_remove_simps [simp]:
  "cal_events (fold (remove_event_invite E e rem) vs c) = cal_events c"
  "cal_invites (fold (remove_event_invite E e rem) vs c) = cal_invites c"
  "cal_maxEventId (fold (remove_event_invite E e rem) vs c) = cal_maxEventId c"
  "cal_freeEventIds (fold (remove_event_invite E e rem) vs c) = cal_freeEventIds c"
  by (induction vs arbitrary: c) simp_all

lemma fold_remove_db:
  "db_events (db_of D (fold (remove_event_invite E e rem) vs c)) = db_events (db_of D c)"
  "db_invites (db_of D (fold (remove_event_invite E e rem) vs c))
     = (\<lambda>i. if i \<in> iv_id ` set vs then None else db_invites (db_of D c) i)"
proof -
  have *: "db_of D (fold (remove_event_invite E e rem) vs c)
      = (db_of D c)\<lparr>db_invites := (\<lambda>i. if i \<in> iv_id ` set vs then None else db_invites (db_of D c) i)\<rparr>"
    by (induction vs arbitrary: c) (simp_all add: remove_event_invite_db fun_eq_iff)
  show "db_events (db_of D (fold (remove_event_invite E e rem) vs c)) = db_events (db_of D c)"
    "db_invites (db_of D (fold (remove_event_invite E e rem) vs c))
     = (\<lambda>i. if i \<in> iv_id ` set vs then None else db_invites (db_of D c) i)"
    by (simp_all only: *) simp_all
qed

lemma fold_remove_pool:
  fixes E :: cal_env and e :: cal_event and rem :: uint64
  assumes "pool_ok (cal_maxInviteId c) (cal_freeInviteIds c) L" and "distinct (map iv_id vs)"
    and "iv_id ` set vs \<subseteq> L"
  defines "c' \<equiv> fold (remove_event_invite E e rem) vs c"
  shows "pool_ok (cal_maxInviteId c') (cal_freeInviteIds c') (L - iv_id ` set vs)"
  unfolding c'_def using assms(1-3)
proof (induction vs arbitrary: c L)
  case Nil
  then show ?case by simp
next
  case (Cons v vs)
  let ?c = "remove_event_invite E e rem v c"
  have "pool_ok (cal_maxInviteId ?c) (cal_freeInviteIds ?c) (L - {iv_id v})"
    using ivp.release_ok [of "cal_emit _ c" L "iv_id v"] Cons.prems(1,3)
    by (simp add: remove_event_invite_def)
  moreover have "iv_id ` set vs \<subseteq> L - {iv_id v}" using Cons.prems(2,3) by (auto simp: image_iff)
  ultimately have "pool_ok (cal_maxInviteId (fold (remove_event_invite E e rem) vs ?c))
      (cal_freeInviteIds (fold (remove_event_invite E e rem) vs ?c)) (L - {iv_id v} - iv_id ` set vs)"
    using Cons.IH Cons.prems(2) by simp
  moreover have "L - {iv_id v} - iv_id ` set vs = L - iv_id ` set (v # vs)" by auto
  ultimately show ?case by (simp only: fold_simps)
qed

text \<open>What removing an event does to the stores.\<close>

lemma RemoveEvent_effect:
  fixes E :: cal_env and remover :: uint64
  assumes wf: "cal_wf c" and e: "GetEvent i c = Some e"
  defines "c' \<equiv> RemoveEvent E i remover c"
  shows "mset (cal_events c) = add_mset e (mset (cal_events c'))"
    and "\<forall>j. invites_of j c' = (if j = i then [] else invites_of j c)"
    and "mset (all_invites c) = mset (invites_of i c) + mset (all_invites c')"
    and "om_ok (cal_invites c')"
    and "pool_ok (cal_maxInviteId c') (cal_freeInviteIds c')
           (iv_id ` set (all_invites c) - iv_id ` set (invites_of i c))"
    and "pool_ok (cal_maxEventId c') (cal_freeEventIds c') (ev_id ` set (cal_events c) - {i})"
    and "db_events (db_of D c') = (db_events (db_of D c))(i := None)"
    and "db_invites (db_of D c')
      = (\<lambda>j. if j \<in> iv_id ` set (invites_of i c) then None else db_invites (db_of D c) j)"
proof -
  have ok: "om_ok (cal_invites c)" and dv: "distinct (map iv_id (all_invites c))"
    using wf by (simp_all add: cal_wf_def)
  define c1 where "c1 = SendCalendarEventRemovedAlert E e c"
  have s: "sends c c1" unfolding c1_def by (rule sends_alerts(3) [OF ok])
  define c2 where "c2 = fold (remove_event_invite E e remover) (invites_of i c1) c1"
  define c3 where "c3 = c2\<lparr>cal_invites := om_del i (cal_invites c2)\<rparr>"
  define c4 where "c4 = FreeEventId i (cal_emit [DEL_CALENDAR_EVENT i] c3)"
  have c': "c' = c4\<lparr>cal_events := erase_first (\<lambda>x. ev_id x = i) (cal_events c4)\<rparr>"
    unfolding c'_def RemoveEvent_def e option.case Let_def c1_def [symmetric] c2_def [symmetric]
      c3_def [symmetric] c4_def [symmetric] ..
  have same: "cal_events c1 = cal_events c" "invites_of j c1 = invites_of j c" "all_invites c1 = all_invites c"
    "cal_maxEventId c1 = cal_maxEventId c" "cal_freeEventIds c1 = cal_freeEventIds c"
    "cal_maxInviteId c1 = cal_maxInviteId c" "cal_freeInviteIds c1 = cal_freeInviteIds c"
    "om_ok (cal_invites c1)" for j
    using s ok by (simp_all add: sends_def)
  have db1: "db_of D c1 = db_of D c" by (rule sends_db [OF s])
  have ev4: "cal_events c4 = cal_events c" by (simp add: c4_def c3_def c2_def same)
  show "mset (cal_events c) = add_mset e (mset (cal_events c'))"
    using mset_erase_first e by (simp add: c' ev4 GetEvent_def)
  have iv': "cal_invites c' = om_del i (cal_invites c1)" by (simp add: c' c4_def c3_def c2_def)
  show "\<forall>j. invites_of j c' = (if j = i then [] else invites_of j c)"
    using same(2) by (auto simp: invites_of_def iv')
  have m: "mset (all_invites c1) = mset (invites_of i c1) + mset (all_invites c')"
    using mset_concat_om_del [OF same(8), of i] by (simp add: all_invites_def invites_of_def iv')
  then show "mset (all_invites c) = mset (invites_of i c) + mset (all_invites c')" by (simp only: same)
  show "om_ok (cal_invites c')" using same(8) by (simp add: iv')
  have "mset (all_invites c) = mset (invites_of i c) + mset (all_invites c')" using m by (simp only: same)
  then have sub: "set (invites_of i c) \<subseteq> set (all_invites c)" and dvs: "distinct (map iv_id (invites_of i c))"
    using find_del_mset(2) [OF dv] by (auto dest: mset_eq_setD) (metis UnCI set_mset_mset set_mset_union)
  show "pool_ok (cal_maxInviteId c') (cal_freeInviteIds c')
           (iv_id ` set (all_invites c) - iv_id ` set (invites_of i c))"
    using fold_remove_pool [of c1 "iv_id ` set (all_invites c)" "invites_of i c1" E e remover] wf sub dvs
    by (auto simp: c' c4_def c3_def c2_def same cal_wf_def)
  have "i \<in> ev_id ` set (cal_events c)" using e by (auto simp: GetEvent_def find_Some_iff)
  then show "pool_ok (cal_maxEventId c') (cal_freeEventIds c') (ev_id ` set (cal_events c) - {i})"
    using evp.release_ok [of "cal_emit [DEL_CALENDAR_EVENT i] c3" "ev_id ` set (cal_events c)" i] wf
    by (simp add: c' c4_def cal_wf_def) (simp add: c3_def c2_def same)
  have "db_of D c' = run_cal (DEL_CALENDAR_EVENT i) (db_of D c2)"
  proof -
    have "db_of D c' = db_of D (cal_emit [DEL_CALENDAR_EVENT i] c3)"
      by (rule db_of_cong) (simp add: c' c4_def)
    moreover have "db_of D c3 = db_of D c2" by (rule db_of_cong) (simp add: c3_def)
    ultimately show ?thesis by simp
  qed
  then show "db_events (db_of D c') = (db_events (db_of D c))(i := None)"
    "db_invites (db_of D c')
      = (\<lambda>j. if j \<in> iv_id ` set (invites_of i c) then None else db_invites (db_of D c) j)"
    by (simp_all add: c2_def fold_remove_db db1 same cong: if_cong)
qed


lemma RemoveEvent_inv:
  assumes inv: "cal_inv D c"
  shows "cal_inv D (RemoveEvent E i remover c)"
proof (cases "GetEvent i c")
  case None
  then show ?thesis
    using sends_inv [OF sends_SendCalendarCommandResult inv] by (simp add: RemoveEvent_def)
next
  case (Some e)
  let ?c = "RemoveEvent E i remover c"
  have wf: "cal_wf c" and abs: "db_of D c = cal_abs c" using inv by (simp_all add: cal_inv_def)
  have de: "distinct (map ev_id (cal_events c))" and dv: "distinct (map iv_id (all_invites c))"
    using wf by (simp_all add: cal_wf_def)
  note eff = RemoveEvent_effect [OF wf Some, where E = E and remover = remover]
  have m: "mset (cal_events c) = mset [e] + mset (cal_events ?c)" using eff(1) by simp
  note fe = find_del_mset [OF de m] and fv = find_del_mset [OF dv eff(3)]
  have id: "ev_id e = i" using Some by (auto simp: GetEvent_def find_Some_iff)
  have "set (cal_events c) = insert e (set (cal_events ?c))"
    using eff(1) by (metis set_mset_add_mset_insert set_mset_mset)
  then have ev: "ev_id ` set (cal_events ?c) = ev_id ` set (cal_events c) - {i}"
    using fe(3) id by auto
  have "set (all_invites c) = set (invites_of i c) \<union> set (all_invites ?c)"
    using eff(3) by (metis set_mset_mset set_mset_union)
  then have iv: "iv_id ` set (all_invites ?c) = iv_id ` set (all_invites c) - iv_id ` set (invites_of i c)"
    using fv(3) by auto
  have "keyed ?c" using wf eff(2) by (auto simp: cal_wf_def keyed_def)
  then have "cal_wf ?c" using fe(1) fv(1) eff(4-6) by (simp add: cal_wf_def ev iv)
  moreover have "GetEvent j ?c = (if j = i then None else GetEvent j c)" for j
    using fe(4) [of j] by (simp add: GetEvent_def id)
  moreover have "GetInvite j ?c = (if j \<in> iv_id ` set (invites_of i c) then None else GetInvite j c)" for j
    using fv(4) [of j] by (simp add: GetInvite_def)
  ultimately show ?thesis
    using eff(7,8) by (simp add: cal_inv_def cal_abs_def abs fun_eq_iff cal_db.equality)
qed

lemma mset_filter_one:
  assumes d: "distinct (map f xs)" and m: "mset xs = mset [v] + mset ys"
    and P: "\<And>x. x \<in> set xs \<Longrightarrow> P x \<longleftrightarrow> x = v"
  shows "mset ys = mset (filter (Not \<circ> P) xs)"
proof -
  have set: "set xs = insert v (set ys)" using m by (metis mset.simps(2) mset_append mset_eq_setD append_Cons append_Nil list.simps(15) mset.simps(1))
  have "v \<notin> set ys" using find_del_mset(3) [OF d m] by auto
  then have "filter_mset (Not \<circ> P) (mset ys) = mset ys"
    using P set by (auto simp: filter_mset_eq_conv)
  then show ?thesis using m P set by (simp add: comp_def)
qed

text \<open>The invite \<open>i\<close> is removed when it belongs to the event \<open>k\<close> and the event exists.\<close>

definition removes :: "uint64 \<Rightarrow> uint64 \<Rightarrow> calendar \<Rightarrow> cal_invite \<Rightarrow> bool" where
  "removes i k c v \<longleftrightarrow> iv_id v = i \<and> iv_event v = k \<and> GetEvent k c \<noteq> None"

lemma mem_invites_of:
  assumes "om_ok (cal_invites c)" and "keyed c"
  shows "v \<in> set (invites_of k c) \<longleftrightarrow> v \<in> set (all_invites c) \<and> iv_event v = k"
proof -
  have "v \<in> set (all_invites c) \<longleftrightarrow> (\<exists>j vs. map_of (cal_invites c) j = Some vs \<and> v \<in> set vs)"
    unfolding om_mem_iff [OF assms(1), symmetric] all_invites_def by force
  also have "\<dots> \<longleftrightarrow> (\<exists>j. v \<in> set (invites_of j c))"
    by (rule ex_cong1, case_tac "map_of (cal_invites c) j") (simp_all add: invites_of_def)
  finally show ?thesis using assms(2) by (auto simp: keyed_def)
qed

lemma RemoveInvite_effect:
  assumes inv: "cal_inv D c"
  shows "cal_inv D (RemoveInvite E i k c) \<and> cal_events (RemoveInvite E i k c) = cal_events c \<and>
    mset (all_invites (RemoveInvite E i k c)) = mset (filter (Not \<circ> removes i k c) (all_invites c))"
proof (cases "GetEvent k c")
  case None
  then have "\<not> removes i k c v" for v by (simp add: removes_def)
  with None inv show ?thesis by (simp add: RemoveInvite_def)
next
  case e: (Some e)
  define c0 where "c0 = touch_invites k c"
  have ok: "om_ok (cal_invites c)" by (rule cal_inv_om_ok [OF inv])
  have s0: "sends c c0" unfolding c0_def by (rule sends_touch [OF ok])
  have inv0: "cal_inv D c0" by (rule sends_inv [OF s0 inv])
  show ?thesis
  proof (cases "find (\<lambda>v. iv_id v = i) (invites_of k c0)")
    case None
    then have "\<not> removes i k c v" if "v \<in> set (all_invites c)" for v
      using mem_invites_of [of c0 v k] inv0 s0 that
      by (auto simp: find_None_iff removes_def cal_inv_def cal_wf_def sends_def)
    then have "filter (Not \<circ> removes i k c) (all_invites c) = all_invites c" by (simp add: filter_id_conv)
    with e inv0 None s0 show ?thesis
      by (simp add: RemoveInvite_def c0_def [symmetric] Let_def) (simp add: sends_def)
  next
    case (Some v)
    define c1 where "c1 = cal_emit [DEL_CALENDAR_INVITE i] c0"
    define c2 where "c2 = (if \<not> IsGuildEvent e
      then SendCalendarEventInviteRemoveAlert E (iv_invitee v) e CALENDAR_STATUS_REMOVED c1 else c1)"
    define c3 where "c3 = SendCalendarEventInviteRemove E e v (ev_flags e) c2"
    define c4 where "c4 = put_invites k (erase_first (\<lambda>v. iv_id v = i) (invites_of k c3)) (FreeInviteId i c3)"
    have c4: "RemoveInvite E i k c = c4"
      using e Some unfolding RemoveInvite_def Let_def c0_def [symmetric] c4_def c3_def c2_def c1_def
      by simp
    have ok1: "om_ok (cal_invites c1)" using sends_ok [OF s0 ok] by (simp add: c1_def)
    have s12: "sends c1 c2" using sends_alerts(6) [OF ok1] by (simp add: c2_def)
    have s: "sends c1 c3" unfolding c3_def
      by (rule sends_trans [OF s12 sends_alerts(4) [OF sends_ok [OF s12 ok1]]])
    have same: "cal_events c3 = cal_events c0" "all_invites c3 = all_invites c0"
      "cal_maxEventId c3 = cal_maxEventId c0" "cal_freeEventIds c3 = cal_freeEventIds c0"
      "cal_maxInviteId c3 = cal_maxInviteId c0" "cal_freeInviteIds c3 = cal_freeInviteIds c0"
      "invites_of j c3 = invites_of j c0" and ok3: "om_ok (cal_invites c3)" for j
      using s ok1 by (simp_all add: sends_def c1_def)
    have wf: "cal_wf c0" and abs: "db_of D c0 = cal_abs c0" using inv0 by (simp_all add: cal_inv_def)
    have dv: "distinct (map iv_id (all_invites c0))" using wf by (simp add: cal_wf_def)
    have id: "iv_id v = i" and mem: "v \<in> set (invites_of k c0)" using Some by (auto simp: find_Some_iff)
    have "mset (invites_of k c0) = add_mset v (mset (erase_first (\<lambda>v. iv_id v = i) (invites_of k c0)))"
      by (rule mset_erase_first [OF Some])
    then have m: "mset (all_invites c0) = mset [v] + mset (all_invites c4)"
      using mset_all_put [of "FreeInviteId i c3" k "erase_first (\<lambda>v. iv_id v = i) (invites_of k c3)"] ok3
      by (simp add: c4_def same)
    note f = find_del_mset [OF dv m]
    have "set (all_invites c0) = insert v (set (all_invites c4))"
      using m by (metis add_mset_add_single mset_single_iff_right set_mset_add_mset_insert set_mset_mset
          union_commute mset.simps)
    then have iv: "iv_id ` set (all_invites c4) = iv_id ` set (all_invites c0) - {i}" "i \<in> iv_id ` set (all_invites c0)"
      using f(3) id by auto
    have "keyed c4"
    proof -
      have "set (erase_first P xs) \<subseteq> set xs" for P and xs :: "cal_invite list"
        by (induction xs) auto
      then show ?thesis using wf by (fastforce simp: keyed_def c4_def same cal_wf_def)
    qed
    moreover have "pool_ok (cal_maxInviteId c4) (cal_freeInviteIds c4) (iv_id ` set (all_invites c0) - {i})"
      using ivp.release_ok [of c3 "iv_id ` set (all_invites c0)" i] iv(2) wf
      by (simp add: c4_def same cal_wf_def)
    ultimately have "cal_wf c4"
      using wf f(1) ok3 by (simp add: cal_wf_def iv(1)) (simp add: c4_def same put_invites_def)
    moreover have "GetInvite j c4 = (if j = i then None else GetInvite j c0)" for j
      using f(4) [of j] by (simp add: GetInvite_def id)
    moreover have "GetEvent j c4 = GetEvent j c0" for j by (simp add: GetEvent_def c4_def same)
    moreover have "db_of D c4 = run_cal (DEL_CALENDAR_INVITE i) (db_of D c0)"
    proof -
      have "db_of D c4 = db_of D c3" by (rule db_of_cong) (simp add: c4_def)
      also have "\<dots> = db_of D c1" by (rule sends_db [OF s])
      finally show ?thesis by (simp add: c1_def)
    qed
    ultimately have "cal_inv D c4" by (simp add: cal_inv_def abs cal_abs_def fun_eq_iff)
    moreover have "mset (all_invites c4) = mset (filter (Not \<circ> removes i k c) (all_invites c0))"
    proof (rule mset_filter_one [OF dv m])
      have "iv_event v = k" using wf mem by (auto simp: cal_wf_def keyed_def)
      moreover have "v \<in> set (all_invites c0)" using \<open>set (all_invites c0) = insert v (set (all_invites c4))\<close> by simp
      ultimately show "removes i k c x \<longleftrightarrow> x = v" if "x \<in> set (all_invites c0)" for x
        using that dv id e by (auto simp: removes_def distinct_map dest: inj_onD)
    qed
    moreover have "cal_events c4 = cal_events c" "all_invites c0 = all_invites c"
      using s0 by (simp_all add: c4_def same sends_def)
    ultimately show ?thesis by (simp only: c4)
  qed
qed

lemma RemoveInvite_inv: "cal_inv D c \<Longrightarrow> cal_inv D (RemoveInvite E i k c)"
  using RemoveInvite_effect by blast


section \<open>Loading\<close>

lemma load_event_row_of: "event_row_of (load_event E i r) = r"
proof -
  have "(ucast (ucast (er_type r) :: uint32) :: uint8) = er_type r"
    "(ucast (ucast (er_creator r) :: uint64) :: uint32) = er_creator r"
    by (rule bit_word_eqI; simp add: bit_ucast_iff)+
  then show ?thesis by (simp add: event_row_of_def load_event_def)
qed

lemma load_invite_row_of: "invite_row_of (load_invite i r) = r"
proof -
  have "(ucast (ucast (ir_invitee r) :: uint64) :: uint32) = ir_invitee r"
    "(ucast (ucast (ir_sender r) :: uint64) :: uint32) = ir_sender r"
    "(ucast (ucast (ir_status r) :: uint32) :: uint8) = ir_status r"
    "(ucast (ucast (ir_rank r) :: uint32) :: uint8) = ir_rank r"
    by (rule bit_word_eqI; simp add: bit_ucast_iff)+
  then show ?thesis by (simp add: invite_row_of_def load_invite_def)
qed

definition loaded_events :: "cal_env \<Rightarrow> (nat \<times> uint64 \<times> event_row) list \<Rightarrow> cal_event list" where
  "loaded_events E erows = map (\<lambda>r. load_event E (fst (snd r)) (snd (snd r))) erows"

lemma fold_load_events:
  fixes E :: cal_env
  defines "c' erows c \<equiv> fold (load_event_row E) erows c"
  shows "mset (cal_events (c' erows c)) = mset (cal_events c) + mset (loaded_events E erows)"
    and "cal_maxEventId c \<le> cal_maxEventId (c' erows c)"
    and "\<forall>r \<in> set erows. fst (snd r) \<le> cal_maxEventId (c' erows c)"
    and "cal_invites (c' erows c) = cal_invites c" and "cal_out (c' erows c) = cal_out c"
    and "cal_freeEventIds (c' erows c) = cal_freeEventIds c"
    and "cal_freeInviteIds (c' erows c) = cal_freeInviteIds c"
    and "cal_maxInviteId (c' erows c) = cal_maxInviteId c"
proof -
  have max: "cal_maxEventId c \<le> cal_maxEventId (fold (load_event_row E) erows c)" for erows c
  proof (induction erows arbitrary: c)
    case Nil
    then show ?case by simp
  next
    case (Cons r erows)
    have "cal_maxEventId c \<le> cal_maxEventId (load_event_row E r c)"
      by (simp add: load_event_row_def split: prod.splits)
    also note Cons [of "load_event_row E r c"]
    finally show ?case by simp
  qed
  show "cal_maxEventId c \<le> cal_maxEventId (c' erows c)" by (simp add: c'_def max)
  show "mset (cal_events (c' erows c)) = mset (cal_events c) + mset (loaded_events E erows)"
    unfolding c'_def
    by (induction erows arbitrary: c) (auto simp: load_event_row_def loaded_events_def)
  show "\<forall>r \<in> set erows. fst (snd r) \<le> cal_maxEventId (c' erows c)"
    unfolding c'_def
  proof (induction erows arbitrary: c)
    case Nil
    then show ?case by simp
  next
    case (Cons r erows)
    have "fst (snd r) \<le> cal_maxEventId (load_event_row E r c)"
      by (simp add: load_event_row_def split: prod.splits)
    also have "\<dots> \<le> cal_maxEventId (fold (load_event_row E) erows (load_event_row E r c))" by (rule max)
    finally show ?case using Cons by simp
  qed
  show "cal_invites (c' erows c) = cal_invites c" "cal_out (c' erows c) = cal_out c"
    "cal_freeEventIds (c' erows c) = cal_freeEventIds c" "cal_freeInviteIds (c' erows c) = cal_freeInviteIds c"
    "cal_maxInviteId (c' erows c) = cal_maxInviteId c"
    unfolding c'_def by (induction erows arbitrary: c) (auto simp: load_event_row_def)
qed

definition loaded_invites :: "(uint64 \<times> invite_row) list \<Rightarrow> cal_invite list" where
  "loaded_invites irows = map (\<lambda>r. load_invite (fst r) (snd r)) irows"

lemma load_invite_row_simps:
  "cal_events (load_invite_row r c) = cal_events c" "cal_out (load_invite_row r c) = cal_out c"
  "cal_freeEventIds (load_invite_row r c) = cal_freeEventIds c"
  "cal_freeInviteIds (load_invite_row r c) = cal_freeInviteIds c"
  "cal_maxEventId (load_invite_row r c) = cal_maxEventId c"
  "cal_maxInviteId (load_invite_row r c) = max (cal_maxInviteId c) (fst r)"
  by (simp_all add: load_invite_row_def Let_def load_invite_def)

lemma load_invite_row_effect:
  assumes "om_ok (cal_invites c)" and "keyed c"
  shows "om_ok (cal_invites (load_invite_row r c))" and "keyed (load_invite_row r c)"
    and "mset (all_invites (load_invite_row r c))
           = add_mset (load_invite (fst r) (snd r)) (mset (all_invites c))"
proof -
  let ?v = "load_invite (fst r) (snd r)"
  let ?c = "put_invites (iv_event ?v) (invites_of (iv_event ?v) c @ [?v]) c"
  have inv: "cal_invites (load_invite_row r c) = cal_invites ?c"
    by (simp add: load_invite_row_def Let_def)
  show "om_ok (cal_invites (load_invite_row r c))" using assms(1) by (simp add: inv) (simp add: put_invites_def)
  show "keyed (load_invite_row r c)"
    using assms(2) by (auto simp: keyed_def invites_of_cong [OF inv])
  show "mset (all_invites (load_invite_row r c)) = add_mset ?v (mset (all_invites c))"
    using mset_all_put [OF assms(1), of "iv_event ?v" "invites_of (iv_event ?v) c @ [?v]"]
    by (simp add: all_invites_cong [OF inv])
qed

lemma fold_load_invites:
  fixes irows :: "(uint64 \<times> invite_row) list"
  assumes "om_ok (cal_invites c)" and "keyed c"
  defines "c' \<equiv> fold load_invite_row irows c"
  shows "om_ok (cal_invites c') \<and> keyed c' \<and>
    mset (all_invites c') = mset (all_invites c) + mset (loaded_invites irows) \<and>
    cal_maxInviteId c \<le> cal_maxInviteId c' \<and> (\<forall>r \<in> set irows. fst r \<le> cal_maxInviteId c') \<and>
    cal_events c' = cal_events c \<and> cal_out c' = cal_out c \<and> cal_maxEventId c' = cal_maxEventId c \<and>
    cal_freeEventIds c' = cal_freeEventIds c \<and> cal_freeInviteIds c' = cal_freeInviteIds c"
  unfolding c'_def using assms(1,2)
proof (induction irows arbitrary: c)
  case Nil
  then show ?case by (simp add: loaded_invites_def)
next
  case (Cons r irows)
  note eff = load_invite_row_effect [OF Cons.prems, of r]
  from Cons.IH [OF eff(1,2)] show ?case
    by (auto simp: eff(3) load_invite_row_simps loaded_invites_def intro: order_trans)
qed

text \<open>The ids below the highest that are not in use.\<close>

lemma free_ids_pool:
  fixes top :: uint64
  assumes "\<forall>i \<in> live. 0 < i \<and> i \<le> top" and "\<And>i. P i \<longleftrightarrow> i \<notin> live"
  shows "pool_ok top (filter P (map of_nat [1..<unat top])) live"
proof -
  have small: "unat (of_nat n :: uint64) = n" if "n < unat top" for n
    using that order_less_trans [OF that unsigned_less [of top]] by (simp add: unat_of_nat)
  have "inj_on (of_nat :: nat \<Rightarrow> uint64) {1..<unat top}"
    by (rule inj_onI) (metis atLeastLessThan_iff small)
  then have "distinct (map of_nat [1..<unat top] :: uint64 list)" by (simp add: distinct_map)
  moreover have "0 < (of_nat n :: uint64) \<and> of_nat n \<le> top" if "1 \<le> n" "n < unat top" for n
    using that small [OF that(2)] by (simp add: word_less_nat_alt word_le_nat_alt)
  ultimately show ?thesis using assms by (auto simp: pool_ok_def)
qed


text \<open>A query result that lists the tables of the database; ids start at 1.\<close>

definition tables_match ::
  "cal_db \<Rightarrow> (nat \<times> uint64 \<times> event_row) list \<Rightarrow> (uint64 \<times> invite_row) list \<Rightarrow> bool" where
  "tables_match D erows irows \<longleftrightarrow>
     distinct (map (fst \<circ> snd) erows) \<and> distinct (map fst irows) \<and>
     0 \<notin> (fst \<circ> snd) ` set erows \<and> 0 \<notin> fst ` set irows \<and>
     db_events D = map_of (map snd erows) \<and> db_invites D = map_of irows"

lemma find_map_load:
  assumes "distinct (map fst xs)" and "\<And>i r. f (g i r) = i"
  shows "find (\<lambda>x. f x = i) (map (\<lambda>r. g (fst r) (snd r)) xs) = map_option (g i) (map_of xs i)"
  using assms by (induction xs) (auto simp: map_of_eq_None_iff)

lemma ids_between:
  fixes t :: uint64
  assumes "0 \<notin> f ` S" and "\<forall>x \<in> S. f x \<le> t"
  shows "\<forall>i \<in> f ` S. 0 < i \<and> i \<le> t"
  using assms by (auto simp: word_gt_0 image_iff)

lemma LoadFromDB_inv:
  assumes rows: "tables_match D erows irows"
  shows "cal_inv D (cal_LoadFromDB E erows irows CalendarMgr_new)"
    and "GetEvent i (cal_LoadFromDB E erows irows CalendarMgr_new) = map_option (load_event E i) (db_events D i)"
    and "GetInvite i (cal_LoadFromDB E erows irows CalendarMgr_new) = map_option (load_invite i) (db_invites D i)"
proof -
  define c0 where "c0 = CalendarMgr_new\<lparr>cal_maxEventId := 0, cal_maxInviteId := 0\<rparr>"
  define c1 where "c1 = fold (load_event_row E) erows c0"
  define c2 where "c2 = fold load_invite_row irows c1"
  define c where "c = cal_LoadFromDB E erows irows CalendarMgr_new"
  have n0: "cal_events c0 = []" "cal_invites c0 = []" "cal_out c0 = []" "cal_freeEventIds c0 = []"
    "cal_freeInviteIds c0 = []" by (simp_all add: c0_def CalendarMgr_new_def)
  note e1 = fold_load_events [where E = E and erows = erows and c = c0, folded c1_def]
  have "om_ok (cal_invites c1)" "keyed c1" "all_invites c1 = []"
    by (simp_all add: e1 n0 keyed_def invites_of_def all_invites_def)
  note e2 = fold_load_invites [OF this(1,2), of irows, folded c2_def] and all1 = this(3)
  have c: "cal_events c = cal_events c2" "cal_invites c = cal_invites c2" "cal_out c = []"
    "cal_maxEventId c = cal_maxEventId c2" "cal_maxInviteId c = cal_maxInviteId c2"
    "cal_freeEventIds c = free_event_ids c2" "cal_freeInviteIds c = free_invite_ids c2"
    using e2 by (simp_all add: c_def cal_LoadFromDB_def c0_def [symmetric] c1_def [symmetric]
        c2_def [symmetric] Let_def free_invite_ids_def GetInvite_def all_invites_def e1 n0)
  have me: "mset (loaded_events E erows) = mset (cal_events c)" using e2 e1(1) by (simp add: c n0)
  have mi: "mset (loaded_invites irows) = mset (all_invites c)"
    using e2 all1 by (simp add: all_invites_cong [OF c(2)])
  have ide: "map ev_id (loaded_events E erows) = map (fst \<circ> snd) erows"
    and idi: "map iv_id (loaded_invites irows) = map fst irows"
    by (simp_all add: loaded_events_def loaded_invites_def load_event_def load_invite_def)
  have de: "distinct (map ev_id (loaded_events E erows))" and di: "distinct (map iv_id (loaded_invites irows))"
    using rows unfolding ide idi tables_match_def by blast+
  have dist: "distinct (map ev_id (cal_events c))" "distinct (map iv_id (all_invites c))"
    using de di me mi by (metis mset_eq_imp_distinct_iff mset_map)+
  have lev: "ev_id ` set (cal_events c) = (fst \<circ> snd) ` set erows"
    and liv: "iv_id ` set (all_invites c) = fst ` set irows"
    using ide idi mset_eq_setD [OF me] mset_eq_setD [OF mi] by (metis list.set_map)+
  have all2: "all_invites c2 = all_invites c" by (rule all_invites_cong) (simp add: c)
  have fe: "GetEvent i c2 = None \<longleftrightarrow> i \<notin> ev_id ` set (cal_events c)" for i
    by (simp only: GetEvent_def find_none c(1))
  have fi: "GetInvite i c2 = None \<longleftrightarrow> i \<notin> iv_id ` set (all_invites c)" for i
    by (simp only: GetInvite_def find_none all2)
  have "pool_ok (cal_maxEventId c) (cal_freeEventIds c) (ev_id ` set (cal_events c))"
    unfolding c(4,6) free_event_ids_def
  proof (rule free_ids_pool [OF _ fe])
    show "\<forall>i \<in> ev_id ` set (cal_events c). 0 < i \<and> i \<le> cal_maxEventId c2"
      using rows e1(3) e2 unfolding lev by (intro ids_between) (simp_all add: tables_match_def)
  qed
  moreover have "pool_ok (cal_maxInviteId c) (cal_freeInviteIds c) (iv_id ` set (all_invites c))"
    unfolding c(5,7) free_invite_ids_def
  proof (rule free_ids_pool [OF _ fi])
    show "\<forall>i \<in> iv_id ` set (all_invites c). 0 < i \<and> i \<le> cal_maxInviteId c2"
      using rows e2 unfolding liv by (intro ids_between) (simp_all add: tables_match_def)
  qed
  moreover have "keyed c" "om_ok (cal_invites c)"
    using e2 by (simp_all add: c keyed_def invites_of_cong [OF c(2)])
  ultimately have "cal_wf c" using dist by (simp add: cal_wf_def)
  moreover have ge: "GetEvent i c = map_option (load_event E i) (map_of (map snd erows) i)" for i
    using find_same_mset [OF de me, of i] rows
      find_map_load [of "map snd erows" ev_id "load_event E" i]
    by (simp add: GetEvent_def loaded_events_def tables_match_def comp_def load_event_def)
  moreover have gi: "GetInvite i c = map_option (load_invite i) (map_of irows i)" for i
    using find_same_mset [OF di mi, of i] rows find_map_load [of irows iv_id load_invite i]
    by (simp add: GetInvite_def loaded_invites_def tables_match_def load_invite_def)
  moreover have "db_of D c = D" by (simp add: db_of_def c(3))
  ultimately show "cal_inv D (cal_LoadFromDB E erows irows CalendarMgr_new)"
    using rows unfolding c_def [symmetric]
    by (simp add: cal_inv_def cal_abs_def tables_match_def option.map_comp comp_def load_event_row_of
        load_invite_row_of option.map_ident cal_db.equality)
  show "GetEvent i (cal_LoadFromDB E erows irows CalendarMgr_new) = map_option (load_event E i) (db_events D i)"
    "GetInvite i (cal_LoadFromDB E erows irows CalendarMgr_new) = map_option (load_invite i) (db_invites D i)"
    using rows ge gi by (simp_all add: c_def tables_match_def)
qed

end
