(* ===== verification/Calendar_Sessions.thy ===== *)
theory Calendar_Sessions
  imports Calendar_Props
begin

text \<open>
  The calendar of a running server: it is loaded and then changed by the packet handlers of
  \<^verbatim>\<open>CalendarHandler.cpp\<close> and by the removals that other parts of the server ask for.  Through all of
  them the tables are the abstraction of the calendar in memory.
\<close>

section \<open>What the handlers keep\<close>

lemma result_inv:
  assumes "cal_inv D c"
  shows "cal_inv D (SendCalendarCommandResult E g err p c)"
    and "cal_inv D (SendCalendarClearPendingAction E g c)"
    and "cal_inv D (SendCalendarEvent E g e st c)"
    and "cal_inv D (SendCalendarEventInvite E v c)"
    and "cal_inv D (SendCalendarEventUpdateAlert E e t c)"
    and "cal_inv D (SendCalendarEventStatus E e v c)"
    and "cal_inv D (SendCalendarEventModeratorStatusAlert E e v c)"
    and "cal_inv D (touch_invites k c)"
  using assms cal_inv_om_ok [OF assms]
  by (blast intro: sends_inv sends_SendCalendarCommandResult sends_SendCalendarClearPendingAction
      sends_SendCalendarEvent sends_SendCalendarEventInvite sends_alerts sends_touch)+

lemma GetInvite_id: "GetInvite i c = Some v \<Longrightarrow> iv_id v = i"
  by (auto simp: GetInvite_def find_Some_iff)

text \<open>A loop that adds invites, each with an id of its own.\<close>

lemma fold_alloc_inv:
  assumes step: "\<And>x c. cal_inv D c \<Longrightarrow> cal_maxInviteId c \<noteq> - 1 \<Longrightarrow>
      cal_inv D (f x c) \<and> unat (cal_maxInviteId (f x c)) \<le> Suc (unat (cal_maxInviteId c)) \<and>
      (\<forall>j. with_event D j c \<longrightarrow> with_event D j (f x c))"
    and "cal_inv D c" and "unat (cal_maxInviteId c) + length xs < 2 ^ 64"
  shows "cal_inv D (fold f xs c) \<and> (\<forall>j. with_event D j c \<longrightarrow> with_event D j (fold f xs c))"
  using assms(2,3)
proof (induction xs arbitrary: c)
  case Nil
  then show ?case by simp
next
  case (Cons x xs)
  have "unat (- 1 :: uint64) = 2 ^ 64 - 1" by (simp add: unsigned_minus_1_eq_mask mask_eq_exp_minus_1)
  with Cons.prems(2) have "cal_maxInviteId c \<noteq> - 1" by auto
  note s = step [OF Cons.prems(1) this, of x]
  then have "unat (cal_maxInviteId (f x c)) + length xs < 2 ^ 64" using Cons.prems(2) by simp
  with Cons.IH [of "f x c"] s show ?case by simp
qed

lemma add_event_invite_step:
  assumes "cal_inv D c" and "cal_maxInviteId c \<noteq> - 1"
  shows "cal_inv D (add_event_invite E guid e r c) \<and>
    unat (cal_maxInviteId (add_event_invite E guid e r c)) \<le> Suc (unat (cal_maxInviteId c)) \<and>
    (\<forall>j. with_event D j c \<longrightarrow> with_event D j (add_event_invite E guid e r c))"
proof (cases "GetFreeInviteId c")
  case (Pair i c1)
  with alloc_AddInvite [OF assms Pair] show ?thesis
    by (simp add: add_event_invite_def split: prod.split)
qed

lemma copy_event_invite_step:
  assumes "cal_inv D c" and "cal_maxInviteId c \<noteq> - 1"
  shows "cal_inv D (copy_event_invite E e v c) \<and>
    unat (cal_maxInviteId (copy_event_invite E e v c)) \<le> Suc (unat (cal_maxInviteId c)) \<and>
    (\<forall>j. with_event D j c \<longrightarrow> with_event D j (copy_event_invite E e v c))"
proof (cases "GetFreeInviteId c")
  case (Pair i c1)
  with alloc_AddInvite [OF assms Pair] show ?thesis
    by (simp add: copy_event_invite_def CalendarInvite_copy_def)
qed

text \<open>The id of an event that was not added after all is given back.\<close>

lemma FreeEventId_inv:
  assumes "with_event D i c"
  shows "cal_inv D (FreeEventId i c)"
proof -
  let ?L = "ev_id ` set (cal_events c)"
  have "cal_inv D c" "i \<notin> ?L" "pool_ok (cal_maxEventId c) (cal_freeEventIds c) (insert i ?L)"
    using assms by (simp_all add: with_event_def)
  with evp.release_ok [of c "insert i ?L" i]
  have "pool_ok (cal_maxEventId (FreeEventId i c)) (cal_freeEventIds (FreeEventId i c)) ?L" by simp
  then show ?thesis
    using \<open>cal_inv D c\<close> db_of_cong [of "FreeEventId i c" c D] cal_abs_cong [of "FreeEventId i c" c]
    by (simp add: cal_inv_def cal_wf_def)
qed

lemma alloc_with_event:
  "cal_inv D c \<Longrightarrow> cal_maxEventId c \<noteq> - 1 \<Longrightarrow> GetFreeEventId c = (i, c1) \<Longrightarrow> with_event D i c1"
  using alloc_event [of D c i c1] by (simp add: with_event_def)

lemma HandleCalendarAddEvent_inv:
  assumes inv: "cal_inv D c" and room: "cal_maxEventId c \<noteq> - 1"
    and plain: "ae_flags a AND CALENDAR_FLAG_WITHOUT_INVITES = 0"
    and room2: "case rd of Inl _ \<Rightarrow> True | Inr rs \<Rightarrow> unat (cal_maxInviteId c) + length rs < 2 ^ 64"
  shows "cal_inv D (snd (HandleCalendarAddEvent E guid a rd at c))"
proof (cases "in_the_past E (ae_time a)")
  case True
  with inv show ?thesis by (simp add: HandleCalendarAddEvent_def)
next
  case False
  obtain i c1 where al: "GetFreeEventId c = (i, c1)" by fastforce
  note w = alloc_with_event [OF inv room al] and a = alloc_event [OF inv room al]
  define e0 where "e0 = new_event i guid 0 a"
  define e where "e = (if IsGuildEvent e0 \<or> IsGuildAnnouncement e0
    then case cal_FindPlayer E guid of None \<Rightarrow> e0 | Some p \<Rightarrow> e0\<lparr>ev_guildId := cp_guildId p\<rparr> else e0)"
  have e: "\<not> IsGuildAnnouncement e" "ev_id e = i"
    using plain by (simp_all add: e_def e0_def new_event_def IsGuildAnnouncement_def split: option.split)
  have eq: "snd (HandleCalendarAddEvent E guid a rd at c) = (case rd of Inl err \<Rightarrow> FreeEventId i c1
    | Inr rs \<Rightarrow> cal_AddEvent E at e CALENDAR_SENDTYPE_ADD (fold (add_event_invite E guid e) rs c1))"
    using False e(1) al unfolding HandleCalendarAddEvent_def Let_def e_def e0_def
    by (simp split: sum.split)
  show ?thesis
  proof (cases rd)
    case (Inl err)
    then show ?thesis unfolding eq by (simp add: FreeEventId_inv [OF w])
  next
    case (Inr rs)
    have "with_event D i (fold (add_event_invite E guid e) rs c1)"
      using fold_alloc_inv [of D "add_event_invite E guid e", OF add_event_invite_step a(1), of rs]
        w room2 Inr a(4) by simp
    then show ?thesis unfolding eq by (simp add: Inr cal_AddEvent_inv e(2))
  qed
qed

lemma HandleCalendarCopyEvent_inv:
  assumes inv: "cal_inv D c" and room: "cal_maxEventId c \<noteq> - 1"
    and room2: "unat (cal_maxInviteId c) + length (invites_of eventId c) < 2 ^ 64"
  shows "cal_inv D (HandleCalendarCopyEvent E guid eventId t at c)"
proof (cases "in_the_past E t \<or> GetEvent eventId c = None")
  case True
  with inv result_inv(1) [OF inv] show ?thesis
    by (auto simp: HandleCalendarCopyEvent_def)
next
  case False
  then obtain old where old: "GetEvent eventId c = Some old" by blast
  obtain i c1 where al: "GetFreeEventId c = (i, c1)" by fastforce
  note w = alloc_with_event [OF inv room al] and a = alloc_event [OF inv room al]
  define e where "e = (CalendarEvent_copy old i)\<lparr>ev_time := uint t\<rparr>"
  have "ev_id e = i" by (simp add: e_def CalendarEvent_copy_def)
  define c2 where "c2 = cal_AddEvent E at e CALENDAR_SENDTYPE_COPY c1"
  have inv2: "cal_inv D c2" using cal_AddEvent_inv w by (simp add: c2_def \<open>ev_id e = i\<close>)
  have "cal_inv D (touch_invites eventId c2)" by (rule result_inv(8) [OF inv2])
  moreover have "cal_maxInviteId (touch_invites eventId c2) = cal_maxInviteId c \<and>
    invites_of eventId c2 = invites_of eventId c"
  proof -
    have c1: "c1 = snd (GetFreeEventId c)" using al by simp
    let ?c = "UpdateEvent e (c1\<lparr>cal_events := insert_at at e (cal_events c1)\<rparr>)"
    have "om_ok (cal_invites ?c)" using cal_inv_om_ok [OF a(1)] by (simp add: UpdateEvent_def)
    from sends_SendCalendarEvent [OF this] have "sends ?c c2" by (simp add: c2_def cal_AddEvent_def)
    then have "cal_maxInviteId c2 = cal_maxInviteId ?c" "invites_of eventId c2 = invites_of eventId ?c"
      by (simp_all add: sends_def)
    then show ?thesis
      by (simp add: c1 UpdateEvent_def touch_invites_def) (simp add: invites_of_def)
  qed
  ultimately have "cal_inv D (fold (copy_event_invite E e) (invites_of eventId c2) (touch_invites eventId c2))"
    using fold_alloc_inv [of D "copy_event_invite E e", OF copy_event_invite_step] room2 by simp
  then show ?thesis
    using False old al unfolding HandleCalendarCopyEvent_def Let_def c2_def e_def by simp
qed


lemma HandleCalendarUpdateEvent_inv:
  "cal_inv D c \<Longrightarrow> cal_inv D (HandleCalendarUpdateEvent E guid i a c)"
  using set_event_inv [of D c i _ "change_event a"]
  by (auto simp: HandleCalendarUpdateEvent_def change_event_def result_inv split: option.split)

lemma HandleCalendarEventInvite_inv:
  assumes inv: "cal_inv D c" and room: "cal_maxInviteId c \<noteq> - 1"
  shows "cal_inv D (HandleCalendarEventInvite E p i j name pre gu c)"
proof -
  obtain k c1 where al: "GetFreeInviteId c = (k, c1)" by fastforce
  obtain g t gi where f: "find_invitee E name = (g, t, gi)" by (metis prod_cases3)
  have "cal_inv D (AddInvite E e (new_invite k i g (cp_guid p) t' st) c1)" for e t' st
    using alloc_AddInvite(1) [OF inv room al] by (simp add: new_invite_def)
  then show ?thesis
    unfolding HandleCalendarEventInvite_def Let_def f split_beta al fst_conv snd_conv
    by (simp add: result_inv inv split: option.split)
qed

lemma HandleCalendarEventSignup_inv:
  assumes inv: "cal_inv D c" and room: "cal_maxInviteId c \<noteq> - 1"
  shows "cal_inv D (HandleCalendarEventSignup E p i tent c)"
proof -
  obtain k c1 where al: "GetFreeInviteId c = (k, c1)" by fastforce
  have "cal_inv D (AddInvite E e (new_invite k i g s t st) c1)" for e g s t st
    using alloc_AddInvite(1) [OF inv room al] by (simp add: new_invite_def)
  then show ?thesis
    unfolding HandleCalendarEventSignup_def Let_def al split_beta fst_conv snd_conv
    by (simp add: result_inv inv split: option.split)
qed

text \<open>The three handlers that change an invite in place.\<close>

lemma change_invite_inv:
  assumes inv: "cal_inv D c"
  shows "cal_inv D (HandleCalendarEventRsvp E guid i j st c)"
    and "cal_inv D (HandleCalendarEventStatus E guid invitee i j st' c)"
    and "cal_inv D (HandleCalendarEventModeratorStatus E guid i j rank c)"
  using set_invite_inv [OF inv, of j]
    set_invite_inv [OF inv, of j _ "\<lambda>v. v\<lparr>iv_status := st, iv_statusTime := cal_now E\<rparr>"]
  by (auto simp: HandleCalendarEventRsvp_def HandleCalendarEventStatus_def
      HandleCalendarEventModeratorStatus_def Let_def result_inv inv split: option.split)

lemma HandleCalendarEventRemoveInvite_inv:
  "cal_inv D c \<Longrightarrow> cal_inv D (HandleCalendarEventRemoveInvite E guid invitee i j c)"
  by (auto simp: HandleCalendarEventRemoveInvite_def result_inv RemoveInvite_inv split: option.split)

lemma queries_inv:
  assumes inv: "cal_inv D c"
  shows "cal_inv D (HandleCalendarGetEvent E guid i c)"
    and "cal_inv D (HandleCalendarGetNumPending guid c)"
  using inv sends_inv [OF sends_emit inv]
  by (auto simp: HandleCalendarGetEvent_def HandleCalendarGetNumPending_def result_inv is_packet_def
      split: option.split)

text \<open>The removals for a player that is deleted or leaves the guild.\<close>

lemma remove_events_loop_inv:
  "cal_inv D c \<Longrightarrow> remove_events_loop E P r k n c = Inr c' \<Longrightarrow> cal_inv D c'"
  by (induction E P r k n c rule: remove_events_loop.induct)
    (auto simp: Let_def RemoveEvent_inv split: if_splits)

lemma fold_inv: "(\<And>x c. cal_inv D c \<Longrightarrow> cal_inv D (f x c)) \<Longrightarrow> cal_inv D c \<Longrightarrow> cal_inv D (fold f xs c)"
  by (induction xs arbitrary: c) auto

lemma RemoveAllPlayerEventsAndInvites_inv:
  assumes "cal_inv D c" and "RemoveAllPlayerEventsAndInvites E guid c = Inr c'"
  shows "cal_inv D c'"
  using assms unfolding RemoveAllPlayerEventsAndInvites_def
  by (auto simp: bind_res_def intro!: fold_inv RemoveInvite_inv
      intro: remove_events_loop_inv split: sum.splits)

lemma RemovePlayerGuildEventsAndSignups_inv:
  assumes "cal_inv D c" and "RemovePlayerGuildEventsAndSignups E guid g c = Inr c'"
  shows "cal_inv D c'"
  using assms unfolding RemovePlayerGuildEventsAndSignups_def
  by (auto simp: bind_res_def intro!: fold_inv RemoveInvite_inv
      intro: remove_events_loop_inv split: sum.splits option.split)


section \<open>Sessions\<close>

text \<open>
  One call into the calendar.  The environment is that of the moment of the call.  A new event
  that is a guild announcement is left out: \<open>announcement_ids\<close> below shows what it does to the
  ids.  The calls that take new ids have room for them in 64 bits.
\<close>

inductive cal_step :: "cal_env \<Rightarrow> calendar \<Rightarrow> calendar \<Rightarrow> bool" for E where
  step_get: "cal_step E c (HandleCalendarGetEvent E guid i c)"
| step_pending: "cal_step E c (HandleCalendarGetNumPending guid c)"
| step_add: "cal_maxEventId c \<noteq> - 1 \<Longrightarrow> ae_flags a AND CALENDAR_FLAG_WITHOUT_INVITES = 0 \<Longrightarrow>
    (case rd of Inl _ \<Rightarrow> True | Inr rs \<Rightarrow> unat (cal_maxInviteId c) + length rs < 2 ^ 64) \<Longrightarrow>
    cal_step E c (snd (HandleCalendarAddEvent E guid a rd at c))"
| step_update: "cal_step E c (HandleCalendarUpdateEvent E guid i a c)"
| step_remove: "cal_step E c (HandleCalendarRemoveEvent E guid i c)"
| step_copy: "cal_maxEventId c \<noteq> - 1 \<Longrightarrow>
    unat (cal_maxInviteId c) + length (invites_of i c) < 2 ^ 64 \<Longrightarrow>
    cal_step E c (HandleCalendarCopyEvent E guid i t at c)"
| step_invite: "cal_maxInviteId c \<noteq> - 1 \<Longrightarrow>
    cal_step E c (HandleCalendarEventInvite E p i j name pre gu c)"
| step_signup: "cal_maxInviteId c \<noteq> - 1 \<Longrightarrow> cal_step E c (HandleCalendarEventSignup E p i tent c)"
| step_rsvp: "cal_step E c (HandleCalendarEventRsvp E guid i j st c)"
| step_remove_invite: "cal_step E c (HandleCalendarEventRemoveInvite E guid g j i c)"
| step_status: "cal_step E c (HandleCalendarEventStatus E guid g i j st' c)"
| step_moderator: "cal_step E c (HandleCalendarEventModeratorStatus E guid i j rank c)"
| step_remove_player: "RemoveAllPlayerEventsAndInvites E guid c = Inr c' \<Longrightarrow> cal_step E c c'"
| step_leave_guild: "RemovePlayerGuildEventsAndSignups E guid g c = Inr c' \<Longrightarrow> cal_step E c c'"

text \<open>The server loads the tables of the database \<open>D\<close> and then handles calls.\<close>

inductive cal_session :: "cal_db \<Rightarrow> calendar \<Rightarrow> bool" for D where
  session_load: "tables_match D erows irows \<Longrightarrow>
    cal_session D (cal_LoadFromDB E erows irows CalendarMgr_new)"
| session_step: "cal_session D c \<Longrightarrow> cal_step E c c' \<Longrightarrow> cal_session D c'"

lemma cal_step_inv:
  assumes "cal_step E c c'" and "cal_inv D c"
  shows "cal_inv D c'"
  using assms
proof cases
  case (step_add a rd guid at)
  with assms(2) show ?thesis using HandleCalendarAddEvent_inv by blast
next
  case (step_remove guid i)
  with assms(2) show ?thesis by (simp add: HandleCalendarRemoveEvent_def RemoveEvent_inv)
next
  case (step_remove_player guid)
  with assms(2) show ?thesis by (blast intro: RemoveAllPlayerEventsAndInvites_inv)
next
  case (step_leave_guild guid g)
  with assms(2) show ?thesis by (blast intro: RemovePlayerGuildEventsAndSignups_inv)
qed (simp_all add: queries_inv HandleCalendarUpdateEvent_inv HandleCalendarCopyEvent_inv
    HandleCalendarEventInvite_inv HandleCalendarEventSignup_inv change_invite_inv
    HandleCalendarEventRemoveInvite_inv)

lemma cal_session_inv: "cal_session D c \<Longrightarrow> cal_inv D c"
  by (induction rule: cal_session.induct) (auto intro: LoadFromDB_inv cal_step_inv)


section \<open>Removing an event\<close>

text \<open>Deleting an event from the tables together with the invites that refer to it.\<close>

definition cascade_delete :: "uint64 \<Rightarrow> cal_db \<Rightarrow> cal_db" where
  "cascade_delete i A =
     A\<lparr>db_events := (db_events A)(i := None),
       db_invites := (\<lambda>j. case db_invites A j of None \<Rightarrow> None
                            | Some r \<Rightarrow> if ir_event r = i then None else Some r)\<rparr>"

definition is_mail :: "cal_out \<Rightarrow> bool" where
  "is_mail x = (case x of SendMailTo _ _ _ \<Rightarrow> True | _ \<Rightarrow> False)"

definition mails :: "calendar \<Rightarrow> cal_out list" where
  "mails c = filter is_mail (cal_out c)"

lemma mails_cong: "cal_out c' = cal_out c \<Longrightarrow> mails c' = mails c"
  by (simp add: mails_def)

lemma mails_emit: "mails (cal_emit xs c) = mails c @ filter is_mail xs"
  by (simp add: mails_def cal_emit_def)

lemma sends_mails: "sends c c' \<Longrightarrow> mails c' = mails c"
  by (auto simp: sends_def mails_def is_mail_def is_packet_def filter_empty_conv split: cal_out.splits)

text \<open>The mail for one invite of a removed event.\<close>

definition removal_mails :: "cal_env \<Rightarrow> cal_event \<Rightarrow> uint64 \<Rightarrow> cal_invite list \<Rightarrow> cal_out list" where
  "removal_mails E e remover vs =
     map (\<lambda>v. SendMailTo (iv_invitee v) (BuildCalendarMailSubject e remover) (BuildCalendarMailBody E e))
       (filter (\<lambda>v. remover \<noteq> 0 \<and> iv_invitee v \<noteq> remover) vs)"

lemma fold_remove_mails:
  "mails (fold (remove_event_invite E e remover) vs c) = mails c @ removal_mails E e remover vs"
proof (induction vs arbitrary: c)
  case Nil
  then show ?case by (simp add: removal_mails_def)
next
  case (Cons v vs)
  have "mails (remove_event_invite E e remover v c) = mails c @ removal_mails E e remover [v]"
    by (simp add: remove_event_invite_def mails_cong [of "FreeInviteId _ _"] mails_emit removal_mails_def
        is_mail_def)
  with Cons show ?case by (simp add: removal_mails_def)
qed

lemma RemoveEvent_mails:
  assumes ok: "om_ok (cal_invites c)" and e: "GetEvent i c = Some e"
  shows "mails (RemoveEvent E i remover c) = mails c @ removal_mails E e remover (invites_of i c)"
proof -
  define c1 where "c1 = SendCalendarEventRemovedAlert E e c"
  have s: "sends c c1" unfolding c1_def by (rule sends_alerts(3) [OF ok])
  have "mails (RemoveEvent E i remover c)
      = mails (cal_emit [DEL_CALENDAR_EVENT i] (fold (remove_event_invite E e remover) (invites_of i c1) c1))"
    unfolding RemoveEvent_def e option.case Let_def c1_def [symmetric] by (rule mails_cong) (simp add: cal_emit_def FreeEventId_def)
  also have "\<dots> = mails c1 @ removal_mails E e remover (invites_of i c1)"
    by (simp add: mails_emit is_mail_def fold_remove_mails)
  finally show ?thesis using s by (simp add: sends_mails sends_def)
qed

lemma cascade_abs:
  assumes inv: "cal_inv D c" and e: "GetEvent i c = Some e"
  shows "cal_abs (RemoveEvent E i remover c) = cascade_delete i (cal_abs c)"
proof -
  have wf: "cal_wf c" and abs: "db_of D c = cal_abs c" using inv by (simp_all add: cal_inv_def)
  have abs': "cal_abs (RemoveEvent E i remover c) = db_of D (RemoveEvent E i remover c)"
    using RemoveEvent_inv [OF inv] by (simp add: cal_inv_def)
  note eff = RemoveEvent_effect [OF wf e, where E = E and remover = remover]
  have dv: "distinct (map iv_id (all_invites c))" using wf by (simp add: cal_wf_def)
  have mem: "j \<in> iv_id ` set (invites_of i c) \<longleftrightarrow> (\<exists>v. GetInvite j c = Some v \<and> iv_event v = i)" for j
    using mem_invites_of [of c _ i] wf find_unique [OF dv, of j] by (auto simp: cal_wf_def GetInvite_def)
  show ?thesis
    unfolding abs' using eff(7,8)
    by (auto simp: abs cascade_delete_def cal_abs_def fun_eq_iff mem invite_row_of_def
        intro!: cal_db.equality split: option.split)
qed


section \<open>Removing what belongs to a player\<close>

text \<open>With distinct ids every removal in the loop erases the element of the iterator.\<close>

lemma first_index_nth:
  "distinct (map ev_id (cal_events c)) \<Longrightarrow> n < length (cal_events c) \<Longrightarrow>
   first_index (ev_id (cal_events c ! n)) c = n"
  unfolding first_index_def
proof (induction "cal_events c" arbitrary: c n)
  case (Cons e es)
  let ?c = "c\<lparr>cal_events := es\<rparr>"
  show ?case
  proof (cases n)
    case 0
    then show ?thesis using Cons(2) by (cases "cal_events c") auto
  next
    case (Suc m)
    have "ev_id e \<noteq> ev_id (es ! m)" using Cons.prems Cons(2) [symmetric] Suc by (auto dest: nth_mem)
    then show ?thesis using Cons(1) [of ?c m] Cons.prems Cons(2) [symmetric] Suc by simp
  qed
qed simp

lemma remove_events_loop_end:
  assumes "distinct (map ev_id (cal_events c))" and "n + k = length (cal_events c)"
  shows "remove_events_loop E P r k n c
    = (if \<exists>e \<in> set (drop n (cal_events c)). P e then Inl InvalidIterator else Inr c)"
  using assms(2)
proof (induction k arbitrary: n)
  case 0
  then show ?case by simp
next
  case (Suc k)
  then have n: "n < length (cal_events c)" by simp
  have "drop n (cal_events c) = cal_events c ! n # drop (Suc n) (cal_events c)"
    by (rule Cons_nth_drop_Suc [OF n, symmetric])
  moreover have "first_index (ev_id (cal_events c ! n)) c = n" by (rule first_index_nth [OF assms(1) n])
  ultimately show ?case using Suc.IH [of "Suc n"] Suc.prems by (simp add: Let_def)
qed

lemma fold_RemoveInvite:
  assumes "cal_inv D c"
  shows "cal_inv D (fold (\<lambda>v. RemoveInvite E (iv_id v) (iv_event v)) vs c) \<and>
    cal_events (fold (\<lambda>v. RemoveInvite E (iv_id v) (iv_event v)) vs c) = cal_events c \<and>
    mset (all_invites (fold (\<lambda>v. RemoveInvite E (iv_id v) (iv_event v)) vs c))
      = mset (filter (\<lambda>w. \<not> (\<exists>v \<in> set vs. removes (iv_id v) (iv_event v) c w)) (all_invites c))"
  using assms
proof (induction vs arbitrary: c)
  case Nil
  then show ?case by simp
next
  case (Cons v vs)
  let ?c = "RemoveInvite E (iv_id v) (iv_event v) c"
  note eff = RemoveInvite_effect [OF Cons.prems, of E "iv_id v" "iv_event v"]
  have same: "removes i k ?c = removes i k c" for i k
    using eff by (simp add: removes_def GetEvent_def fun_eq_iff)
  have "mset (filter (\<lambda>w. \<not> (\<exists>v \<in> set vs. removes (iv_id v) (iv_event v) c w)) (all_invites ?c))
      = filter_mset (\<lambda>w. \<not> (\<exists>v \<in> set vs. removes (iv_id v) (iv_event v) c w))
          (mset (filter (Not \<circ> removes (iv_id v) (iv_event v) c) (all_invites c)))"
    using eff by (metis mset_filter)
  also have "\<dots> = mset (filter (\<lambda>w. \<not> (\<exists>v \<in> set (v # vs). removes (iv_id v) (iv_event v) c w)) (all_invites c))"
    by (simp add: filter_filter_mset comp_def conj_commute)
  finally show ?case using Cons.IH [of ?c] eff by (simp only: same fold_simps comp_apply)
qed

lemma removes_own:
  assumes "distinct (map iv_id (all_invites c))" and "w \<in> set (all_invites c)"
  shows "(\<exists>v \<in> set (GetPlayerInvites guid c). removes (iv_id v) (iv_event v) c w)
    \<longleftrightarrow> iv_invitee w = guid \<and> GetEvent (iv_event w) c \<noteq> None"
  using assms by (auto simp: removes_def GetPlayerInvites_def distinct_map dest: inj_onD)


section \<open>The properties\<close>

text \<open>A server with an empty world, and tables with one event and its creator's invite.\<close>

definition cs_env :: cal_env where
  "cs_env =
     \<lparr>cal_FindPlayer = (\<lambda>_. None), cal_FindPlayerByName = (\<lambda>_. None), GetLevelFromDB = (\<lambda>_. 80),
      GetGuildIdFromDB = (\<lambda>_. 0), GetGuildGUID = (\<lambda>_. None), char_by_name = (\<lambda>_. None),
      social_flags = (\<lambda>_ _. None), ALLOW_TWO_SIDE_INTERACTION_CALENDAR = False,
      cal_localtime = (\<lambda>_. \<lparr>tm_sec = 0, tm_min = 0, tm_hour = 0, tm_mday = 1, tm_mon = 0,
        tm_year = 113, tm_wday = 2\<rparr>),
      cal_now = 1356998400\<rparr>"

definition cs_event_row :: event_row where
  "cs_event_row =
     \<lparr>er_creator = 5, er_title = ''raid'', er_description = [], er_type = 0, er_dungeon = 0,
      er_eventtime = 1357000000, er_flags = 1, er_time2 = 0\<rparr>"

definition cs_invite_row :: invite_row where
  "cs_invite_row =
     \<lparr>ir_event = 1, ir_invitee = 5, ir_sender = 5, ir_status = 3, ir_statustime = 946684800, ir_rank = 2,
      ir_text = []\<rparr>"

definition cs_db :: cal_db where
  "cs_db = \<lparr>db_events = map_of [(1, cs_event_row)], db_invites = map_of [(1, cs_invite_row)]\<rparr>"

definition cs_cal :: calendar where
  "cs_cal = cal_LoadFromDB cs_env [(0, 1, cs_event_row)] [(1, cs_invite_row)] CalendarMgr_new"

definition cs_player :: cal_player where
  "cs_player = \<lparr>cp_guid = 7, cp_level = 80, cp_guildId = 0, cp_team = 0\<rparr>"

text \<open>A second player has signed up.\<close>

definition cs_signed :: calendar where
  "cs_signed = HandleCalendarEventSignup cs_env cs_player 1 False cs_cal"

lemma cs_match: "tables_match cs_db [(0, 1, cs_event_row)] [(1, cs_invite_row)]"
  by (simp add: tables_match_def cs_db_def)

lemma cs_cal_eq:
  "cs_cal = CalendarMgr_new\<lparr>cal_events := [load_event cs_env 1 cs_event_row],
     cal_invites := [(1, [load_invite 1 cs_invite_row])], cal_maxEventId := 1, cal_maxInviteId := 1\<rparr>"
  by (simp add: cs_cal_def cal_LoadFromDB_def load_event_row_def load_invite_row_def insert_at_def
      CalendarMgr_new_def put_invites_def invites_of_def load_invite_def cs_invite_row_def
      free_event_ids_def free_invite_ids_def)

lemma cs_session: "cal_session cs_db cs_cal" "cal_session cs_db cs_signed"
proof -
  show *: "cal_session cs_db cs_cal"
    unfolding cs_cal_def by (rule session_load [OF cs_match])
  have "cal_maxInviteId cs_cal \<noteq> - 1" by (simp add: cs_cal_eq)
  then show "cal_session cs_db cs_signed"
    unfolding cs_signed_def by (rule session_step [OF * step_signup])
qed

lemma cs_find:
  "GetEvent 1 cs_cal = Some (load_event cs_env 1 cs_event_row)"
  "GetInvite 1 cs_cal = Some (load_invite 1 cs_invite_row)"
  "GetInvite 2 cs_cal = None"
  "all_invites cs_cal = [load_invite 1 cs_invite_row]"
  by (simp_all add: cs_cal_eq GetEvent_def GetInvite_def all_invites_def load_event_def load_invite_def)

lemma cs_signed_eq:
  "cal_events cs_signed = [load_event cs_env 1 cs_event_row]"
  "cal_invites cs_signed = [(1, [load_invite 1 cs_invite_row,
     new_invite 2 1 7 7 1356998400 CALENDAR_STATUS_SIGNED_UP])]"
  by (simp_all add: cs_signed_def cs_cal_eq HandleCalendarEventSignup_def GetEvent_def load_event_def
      IsGuildEvent_def IsGuildAnnouncement_def CALENDAR_FLAG_GUILD_EVENT_def
      CALENDAR_FLAG_WITHOUT_INVITES_def cs_event_row_def Let_def GetFreeInviteId_def CalendarMgr_new_def
      AddInvite_def SendCalendarEventInvite_def SendPacketToAllEventRelatives_def touch_invites_def
      put_invites_def invites_of_def SendCalendarEventInviteAlert_def send_direct_def cs_env_def
      new_invite_def SendCalendarClearPendingAction_def UpdateInvite_def cal_emit_def cs_player_def)


text \<open>
  C1. The tables refine to the calendar: in every session, after every handler and removal, the
  statements sent so far have turned the database into exactly the rows of the events and
  invites in memory, and no two events and no two invites have the same id.
\<close>

theorem calendar_mirrored:
  assumes "cal_session D c"
  shows "db_of D c = cal_abs c \<and> distinct (map ev_id (cal_events c)) \<and>
    distinct (map iv_id (all_invites c))"
  using cal_session_inv [OF assms] by (simp add: cal_inv_def cal_wf_def)

theorem calendar_mirrored_witness:
  "db_of cs_db cs_signed = cal_abs cs_signed \<and>
   distinct (map iv_id (all_invites cs_signed)) \<and> map iv_id (all_invites cs_signed) = [1, 2]"
  using calendar_mirrored [OF cs_session(2)]
  by (simp add: all_invites_def cs_signed_eq load_invite_def new_invite_def)

text \<open>
  C17. Removing an event is a cascading delete: the event and exactly the invites that refer to it
  disappear, from memory and from the tables, and when a player removes it every other invitee
  gets one mail about it.
\<close>

theorem remove_event_cascades:
  assumes "cal_session D c" and "GetEvent i c = Some e"
  shows "cal_abs (HandleCalendarRemoveEvent E guid i c) = cascade_delete i (cal_abs c) \<and>
    db_of D (HandleCalendarRemoveEvent E guid i c) = cascade_delete i (db_of D c) \<and>
    mails (HandleCalendarRemoveEvent E guid i c) = mails c @ removal_mails E e guid (invites_of i c)"
proof -
  have inv: "cal_inv D c" by (rule cal_session_inv [OF assms(1)])
  show ?thesis
    using cascade_abs [OF inv assms(2), of E guid] RemoveEvent_inv [OF inv, of E i guid] inv
      RemoveEvent_mails [OF cal_inv_om_ok [OF inv] assms(2), of E guid]
    by (simp add: HandleCalendarRemoveEvent_def cal_inv_def)
qed

theorem remove_event_cascades_witness:
  "cal_abs (HandleCalendarRemoveEvent cs_env 5 1 cs_signed) = cascade_delete 1 (cal_abs cs_signed) \<and>
   mails (HandleCalendarRemoveEvent cs_env 5 1 cs_signed) =
     mails cs_signed @ [SendMailTo 7 (BuildCalendarMailSubject (load_event cs_env 1 cs_event_row) 5)
       (BuildCalendarMailBody cs_env (load_event cs_env 1 cs_event_row))]"
proof -
  have "GetEvent 1 cs_signed = Some (load_event cs_env 1 cs_event_row)"
    by (simp add: GetEvent_def cs_signed_eq load_event_def)
  from remove_event_cascades [OF cs_session(2) this, of cs_env 5] show ?thesis
    by (simp add: removal_mails_def invites_of_def cs_signed_eq load_invite_def new_invite_def
        cs_invite_row_def)
qed

text \<open>What a row can hold: 32 bit GUIDs and times, eight bit enumerators, the guild of the creator.\<close>

definition event_fits :: "cal_env \<Rightarrow> cal_event \<Rightarrow> bool" where
  "event_fits E e \<longleftrightarrow> ev_creator e < 2 ^ 32 \<and> ev_type e < 256 \<and> 0 \<le> ev_time e \<and> ev_time e < 2 ^ 32 \<and>
     0 \<le> ev_tz e \<and> ev_tz e < 2 ^ 32 \<and>
     ev_guildId e = (if IsGuildEvent e \<or> IsGuildAnnouncement e then GetGuildIdFromDB E (ev_creator e) else 0)"

definition invite_fits :: "cal_invite \<Rightarrow> bool" where
  "invite_fits v \<longleftrightarrow> iv_invitee v < 2 ^ 32 \<and> iv_sender v < 2 ^ 32 \<and> iv_status v < 256 \<and> iv_rank v < 256 \<and>
     0 \<le> iv_statusTime v \<and> iv_statusTime v < 2 ^ 32"

lemma ucast_fits:
  "(g :: uint64) < 2 ^ 32 \<Longrightarrow> ucast (ucast g :: uint32) = g"
  "(s :: uint32) < 256 \<Longrightarrow> ucast (ucast s :: uint8) = s"
  by (simp_all add: word_unat_eq_iff unsigned_ucast_eq take_bit_eq_mod unat_mod word_less_nat_alt)

lemma time_fits: "0 \<le> t \<Longrightarrow> t < 2 ^ 32 \<Longrightarrow> uint (word_of_int t :: uint32) = t"
  by (simp add: uint_word_of_int)

lemma load_fits:
  "event_fits E e \<Longrightarrow> load_event E (ev_id e) (event_row_of e) = e"
  "invite_fits v \<Longrightarrow> load_invite (iv_id v) (invite_row_of v) = v"
  by (simp_all add: event_fits_def invite_fits_def load_event_def load_invite_def event_row_of_def
      invite_row_of_def ucast_fits time_fits IsGuildEvent_def IsGuildAnnouncement_def)

text \<open>
  C29. A restart keeps the calendar: when the server loads the tables a session has left behind,
  every event and every invite is found under its id again, as the row of it says; it is the same
  object when its fields fit the columns.
\<close>

theorem calendar_restart:
  assumes "cal_session D c" and "tables_match (db_of D c) erows irows"
  shows "let c' = cal_LoadFromDB E erows irows CalendarMgr_new in
    GetEvent i c' = map_option (load_event E i \<circ> event_row_of) (GetEvent i c) \<and>
    GetInvite i c' = map_option (load_invite i \<circ> invite_row_of) (GetInvite i c) \<and>
    (\<forall>e. GetEvent i c = Some e \<and> event_fits E e \<longrightarrow> GetEvent i c' = Some e) \<and>
    (\<forall>v. GetInvite i c = Some v \<and> invite_fits v \<longrightarrow> GetInvite i c' = Some v)"
proof -
  have "db_of D c = cal_abs c" using cal_session_inv [OF assms(1)] by (simp add: cal_inv_def)
  moreover have "GetEvent i c = Some e \<Longrightarrow> ev_id e = i" for e by (auto simp: GetEvent_def find_Some_iff)
  ultimately show ?thesis
    using LoadFromDB_inv(2,3) [OF assms(2), of i E]
    by (auto simp: Let_def cal_abs_def option.map_comp comp_def load_fits dest: GetInvite_id)
qed


theorem calendar_restart_witness:
  "let c' = cal_LoadFromDB cs_env [(0, 1, cs_event_row)]
       [(1, cs_invite_row), (2, invite_row_of (new_invite 2 1 7 7 1356998400 CALENDAR_STATUS_SIGNED_UP))]
       CalendarMgr_new in
   GetInvite 2 c' = Some (new_invite 2 1 7 7 1356998400 CALENDAR_STATUS_SIGNED_UP) \<and>
   GetInvite 2 cs_signed = GetInvite 2 c'"
proof -
  let ?v = "new_invite 2 1 7 7 1356998400 CALENDAR_STATUS_SIGNED_UP"
  have db: "db_of cs_db cs_signed = cal_abs cs_signed"
    using cal_session_inv [OF cs_session(2)] by (simp add: cal_inv_def)
  have "tables_match (db_of cs_db cs_signed) [(0, 1, cs_event_row)]
      [(1, cs_invite_row), (2, invite_row_of ?v)]"
    by (auto simp: db tables_match_def cal_abs_def fun_eq_iff GetEvent_def GetInvite_def all_invites_def
        cs_signed_eq load_event_row_of load_invite_row_of)
      (simp_all add: load_event_def load_invite_def new_invite_def)
  moreover have "GetInvite 2 cs_signed = Some ?v"
    by (simp add: GetInvite_def all_invites_def cs_signed_eq load_invite_def new_invite_def)
  moreover have "invite_fits ?v"
    by (simp add: invite_fits_def new_invite_def CALENDAR_STATUS_SIGNED_UP_def CALENDAR_RANK_PLAYER_def)
  ultimately show ?thesis
    using calendar_restart [OF cs_session(2), of "[(0, 1, cs_event_row)]"
        "[(1, cs_invite_row), (2, invite_row_of ?v)]" cs_env 2] by (auto simp: Let_def)
qed

text \<open>
  C30. Removing what belongs to a player who is deleted: when he has created an event, the loop
  over the events goes on with the iterator of the event it has just erased; otherwise the
  events stay and exactly his invites to existing events go.
\<close>

theorem remove_player:
  assumes "cal_session D c"
  shows "(\<exists>e \<in> set (cal_events c). ev_creator e = guid) \<and>
      RemoveAllPlayerEventsAndInvites E guid c = Inl InvalidIterator \<or>
    (\<forall>e \<in> set (cal_events c). ev_creator e \<noteq> guid) \<and>
      (\<exists>c'. RemoveAllPlayerEventsAndInvites E guid c = Inr c' \<and> cal_events c' = cal_events c \<and>
        mset (all_invites c') = mset (filter
          (\<lambda>v. \<not> (iv_invitee v = guid \<and> GetEvent (iv_event v) c \<noteq> None)) (all_invites c)))"
proof -
  have inv: "cal_inv D c" by (rule cal_session_inv [OF assms])
  then have d: "distinct (map ev_id (cal_events c))" and dv: "distinct (map iv_id (all_invites c))"
    by (simp_all add: cal_inv_def cal_wf_def)
  have loop: "remove_events_loop E (\<lambda>e. ev_creator e = guid) 0 (length (cal_events c)) 0 c
      = (if \<exists>e \<in> set (cal_events c). ev_creator e = guid then Inl InvalidIterator else Inr c)"
    using remove_events_loop_end [OF d, of 0 "length (cal_events c)"] by simp
  have "filter (\<lambda>w. \<not> (\<exists>v \<in> set (GetPlayerInvites guid c). removes (iv_id v) (iv_event v) c w)) (all_invites c)
      = filter (\<lambda>v. \<not> (iv_invitee v = guid \<and> GetEvent (iv_event v) c \<noteq> None)) (all_invites c)"
    by (rule filter_cong [OF refl]) (simp only: removes_own [OF dv])
  then show ?thesis
    using fold_RemoveInvite [OF inv, of E "GetPlayerInvites guid c"]
    by (auto simp: RemoveAllPlayerEventsAndInvites_def bind_res_def loop)
qed

theorem remove_player_witness:
  "RemoveAllPlayerEventsAndInvites cs_env 5 cs_signed = Inl InvalidIterator \<and>
   (\<exists>c'. RemoveAllPlayerEventsAndInvites cs_env 7 cs_signed = Inr c' \<and>
      all_invites c' = [load_invite 1 cs_invite_row])"
proof -
  note * = remove_player [OF cs_session(2), where E = cs_env]
  have "ev_creator (load_event cs_env 1 cs_event_row) = 5"
    by (simp add: load_event_def cs_event_row_def)
  with * [of 5] * [of 7] show ?thesis
    by (auto simp: all_invites_def cs_signed_eq load_invite_def new_invite_def GetEvent_def load_event_def
        cs_invite_row_def)
qed


text \<open>A guild announcement puts the id 0 of its invite into the pool.\<close>

lemma cal_AddEvent_invite_pool:
  assumes "om_ok (cal_invites c)"
  shows "cal_maxInviteId (cal_AddEvent E at e st c) = cal_maxInviteId c \<and>
    cal_freeInviteIds (cal_AddEvent E at e st c) = cal_freeInviteIds c \<and> om_ok (cal_invites (cal_AddEvent E at e st c))"
  using sends_SendCalendarEvent [of "UpdateEvent e (c\<lparr>cal_events := insert_at at e (cal_events c)\<rparr>)"] assms
  by (simp add: cal_AddEvent_def UpdateEvent_def sends_def)

lemma AddInvite_effect:
  assumes ok: "om_ok (cal_invites c)"
  shows "om_ok (cal_invites (AddInvite E e v c))"
    and "\<not> IsGuildAnnouncement e \<Longrightarrow>
      invites_of (iv_event v) (AddInvite E e v c) = invites_of (iv_event v) c @ [v]"
proof -
  obtain c2 where s: "sends c c2" and eq: "AddInvite E e v c = (if \<not> IsGuildAnnouncement e
      then UpdateInvite v (put_invites (iv_event v) (invites_of (iv_event v) c2 @ [v]) c2) else c2)"
    using AddInvite_split [OF ok] by blast
  have "om_ok (cal_invites c2)" by (rule sends_ok [OF s ok])
  then show "om_ok (cal_invites (AddInvite E e v c))"
    by (simp add: eq UpdateInvite_def) (simp add: put_invites_def)
  show "\<not> IsGuildAnnouncement e \<Longrightarrow>
      invites_of (iv_event v) (AddInvite E e v c) = invites_of (iv_event v) c @ [v]"
    using s by (simp add: eq UpdateInvite_def) (simp add: sends_def)
qed

lemma announcement_pool:
  fixes guid :: uint64 and at :: nat
    and rd :: "bb_error + (uint64 \<times> uint8 \<times> uint8) list"
  assumes ok: "om_ok (cal_invites c)" and now: "\<not> in_the_past E (ae_time a)"
    and ann: "ae_flags a AND CALENDAR_FLAG_WITHOUT_INVITES \<noteq> 0"
  defines "c' \<equiv> snd (HandleCalendarAddEvent E guid a rd at c)"
  shows "cal_maxInviteId c' = (if cal_maxInviteId c = 0 then - 1 else cal_maxInviteId c)"
    and "cal_freeInviteIds c' = (if cal_maxInviteId c = 0 then cal_freeInviteIds c else cal_freeInviteIds c @ [0])"
    and "om_ok (cal_invites c')"
proof -
  define i where "i = fst (GetFreeEventId c)"
  define c1 where "c1 = snd (GetFreeEventId c)"
  define e0 where "e0 = new_event i guid 0 a"
  define e where "e = (if IsGuildEvent e0 \<or> IsGuildAnnouncement e0
    then case cal_FindPlayer E guid of None \<Rightarrow> e0 | Some p \<Rightarrow> e0\<lparr>ev_guildId := cp_guildId p\<rparr> else e0)"
  define v where "v = \<lparr>iv_id = 0, iv_event = i, iv_invitee = 0, iv_sender = guid,
    iv_statusTime = DEFAULT_RESPONSE_TIME, iv_status = CALENDAR_STATUS_NOT_SIGNED_UP,
    iv_rank = CALENDAR_RANK_PLAYER, iv_text = []\<rparr>"
  define c2 where "c2 = AddInvite E e v c1"
  have "IsGuildAnnouncement e"
    using ann by (simp add: e_def e0_def new_event_def IsGuildAnnouncement_def split: option.split)
  then have c': "c' = cal_AddEvent E at e CALENDAR_SENDTYPE_ADD (FreeInviteId 0 c2)"
    using now unfolding c'_def HandleCalendarAddEvent_def Let_def split_beta c2_def v_def c1_def i_def
      e_def e0_def by simp
  have ok1: "om_ok (cal_invites c1)" using ok by (simp add: c1_def)
  have c2: "cal_maxInviteId c2 = cal_maxInviteId c" "cal_freeInviteIds c2 = cal_freeInviteIds c"
    "om_ok (cal_invites c2)"
    using AddInvite_effect(1) [OF ok1] by (simp_all add: c2_def ok1) (simp_all add: c1_def)
  have "om_ok (cal_invites (FreeInviteId 0 c2))" using c2(3) by simp
  from cal_AddEvent_invite_pool [OF this, of E at e CALENDAR_SENDTYPE_ADD]
  show "cal_maxInviteId c' = (if cal_maxInviteId c = 0 then - 1 else cal_maxInviteId c)"
    "cal_freeInviteIds c' = (if cal_maxInviteId c = 0 then cal_freeInviteIds c else cal_freeInviteIds c @ [0])"
    "om_ok (cal_invites c')"
    by (simp_all add: c' c2 FreeInviteId_def)
qed

lemma Signup_effect:
  assumes "om_ok (cal_invites c)" and "GetEvent k c = Some e" and "\<not> IsGuildEvent e" and "\<not> IsGuildAnnouncement e"
  shows "\<exists>v. iv_id v = fst (GetFreeInviteId c) \<and> iv_invitee v = cp_guid p \<and>
      invites_of k (HandleCalendarEventSignup E p k tent c) = invites_of k c @ [v]"
    and "cal_maxInviteId (HandleCalendarEventSignup E p k tent c) = cal_maxInviteId (snd (GetFreeInviteId c))"
    and "cal_freeInviteIds (HandleCalendarEventSignup E p k tent c) = cal_freeInviteIds (snd (GetFreeInviteId c))"
    and "om_ok (cal_invites (HandleCalendarEventSignup E p k tent c))"
    and "GetEvent k (HandleCalendarEventSignup E p k tent c) = Some e"
proof -
  define c1 where "c1 = snd (GetFreeInviteId c)"
  define v where "v = new_invite (fst (GetFreeInviteId c)) k (cp_guid p) (cp_guid p) (cal_now E)
    (if tent then CALENDAR_STATUS_TENTATIVE else CALENDAR_STATUS_SIGNED_UP)"
  define c2 where "c2 = AddInvite E e v c1"
  have eq: "HandleCalendarEventSignup E p k tent c = SendCalendarClearPendingAction E (cp_guid p) c2"
    using assms(2,3) unfolding HandleCalendarEventSignup_def Let_def split_beta c2_def v_def c1_def by simp
  have s: "sends c2 (HandleCalendarEventSignup E p k tent c)"
    unfolding eq by (rule sends_SendCalendarClearPendingAction)
  have ok1: "om_ok (cal_invites c1)" using assms(1) by (simp add: c1_def)
  note eff = AddInvite_effect [OF ok1, where v = v]
  have "iv_event v = k" by (simp add: v_def new_invite_def)
  then have "invites_of k (HandleCalendarEventSignup E p k tent c) = invites_of k c @ [v]"
    using eff(2) [OF assms(4)] s by (simp add: sends_def c2_def) (simp add: c1_def)
  then show "\<exists>v. iv_id v = fst (GetFreeInviteId c) \<and> iv_invitee v = cp_guid p \<and>
      invites_of k (HandleCalendarEventSignup E p k tent c) = invites_of k c @ [v]"
    by (auto simp: v_def new_invite_def)
  show "cal_maxInviteId (HandleCalendarEventSignup E p k tent c) = cal_maxInviteId (snd (GetFreeInviteId c))"
    "cal_freeInviteIds (HandleCalendarEventSignup E p k tent c) = cal_freeInviteIds (snd (GetFreeInviteId c))"
    "om_ok (cal_invites (HandleCalendarEventSignup E p k tent c))"
    "GetEvent k (HandleCalendarEventSignup E p k tent c) = Some e"
    using s ok1 eff(1) assms(2) by (simp_all add: sends_def c2_def GetEvent_def) (simp_all add: c1_def)
qed


text \<open>
  C31. Guild announcements break the ids of invites: each one frees the id 0 of an invite that was
  never stored (on a fresh server that turns the highest id into \<open>2 ^ 64 - 1\<close>).  After two of them, and
  with no other spare id, the next two players who sign up for an event get invites with the same
  id 0.
\<close>

theorem announcement_ids:
  assumes "cal_session D c" and "cal_freeInviteIds c = []"
    and "\<not> in_the_past E (ae_time a)" and "ae_flags a AND CALENDAR_FLAG_WITHOUT_INVITES \<noteq> 0"
    and "\<not> in_the_past E (ae_time b)" and "ae_flags b AND CALENDAR_FLAG_WITHOUT_INVITES \<noteq> 0"
    and c2: "c2 = snd (HandleCalendarAddEvent E g' b rd' at' (snd (HandleCalendarAddEvent E g a rd at c)))"
    and "GetEvent k c2 = Some e" and "\<not> IsGuildEvent e" and "\<not> IsGuildAnnouncement e"
  shows "\<exists>v w. invites_of k (HandleCalendarEventSignup E q k s (HandleCalendarEventSignup E p k t c2))
      = invites_of k c2 @ [v, w] \<and> iv_id v = 0 \<and> iv_id w = 0 \<and> iv_invitee v = cp_guid p \<and> iv_invitee w = cp_guid q"
proof -
  have "om_ok (cal_invites c)" using cal_session_inv [OF assms(1)] by (rule cal_inv_om_ok)
  note p1 = announcement_pool [OF this assms(3,4), of g rd at]
  note p2 = announcement_pool [OF p1(3) assms(5,6), of g' rd' at', folded c2]
  let ?c3 = "HandleCalendarEventSignup E p k t c2"
  note s1 = Signup_effect [OF p2(3) assms(8-10), where p = p and E = E and tent = t]
  note s2 = Signup_effect [OF s1(4,5) assms(9,10), where p = q and E = E and tent = s]
  have "fst (GetFreeInviteId c2) = 0 \<and> fst (GetFreeInviteId ?c3) = 0"
    using assms(2) s1(2,3) by (auto simp: GetFreeInviteId_def p2 p1)
  with s1(1) s2(1) show ?thesis by fastforce
qed

text \<open>The argument of an announcement in 2013.\<close>

definition cs_announcement :: add_event_args where
  "cs_announcement =
     \<lparr>ae_title = ''news'', ae_description = [], ae_type = 0, ae_dungeonId = 0, ae_time = 1357000000, ae_tz = 0,
      ae_flags = 0x40\<rparr>"

theorem announcement_ids_witness:
  "\<exists>v w. invites_of 1 (HandleCalendarEventSignup cs_env cs_player 1 False
       (HandleCalendarEventSignup cs_env cs_player 1 False
         (snd (HandleCalendarAddEvent cs_env 5 cs_announcement (Inr []) 2
           (snd (HandleCalendarAddEvent cs_env 5 cs_announcement (Inr []) 2 cs_cal))))))
     = [load_invite 1 cs_invite_row, v, w] \<and> iv_id v = 0 \<and> iv_id w = 0"
proof -
  let ?a = cs_announcement
  let ?h = "\<lambda>c. snd (HandleCalendarAddEvent cs_env 5 ?a (Inr []) 2 c)"
  let ?e = "load_event cs_env 1 cs_event_row"
  have free: "cal_freeInviteIds cs_cal = []" by (simp add: cs_cal_eq CalendarMgr_new_def)
  have now: "\<not> in_the_past cs_env (ae_time ?a)"
    by (simp add: in_the_past_def cs_env_def cs_announcement_def)
  have ann: "ae_flags ?a AND CALENDAR_FLAG_WITHOUT_INVITES \<noteq> 0"
    by (simp add: cs_announcement_def CALENDAR_FLAG_WITHOUT_INVITES_def)
  have e: "\<not> IsGuildEvent ?e" "\<not> IsGuildAnnouncement ?e"
    by (simp_all add: IsGuildEvent_def IsGuildAnnouncement_def load_event_def cs_event_row_def
        CALENDAR_FLAG_GUILD_EVENT_def CALENDAR_FLAG_WITHOUT_INVITES_def)
  have add: "cal_events (?h c) = insert_at 2 (new_event (fst (GetFreeEventId c)) 5 0 ?a) (cal_events c) \<and>
      cal_invites (?h c) = cal_invites c" for c
    using now ann
    by (simp add: HandleCalendarAddEvent_def split_beta Let_def IsGuildAnnouncement_def new_event_def
        cs_env_def cal_AddEvent_def SendCalendarEvent_def UpdateEvent_def AddInvite_def
        SendCalendarEventInviteAlert_def IsGuildEvent_def cs_announcement_def
        CALENDAR_FLAG_GUILD_EVENT_def CALENDAR_FLAG_WITHOUT_INVITES_def)
  have "GetEvent 1 (?h (?h cs_cal)) = Some ?e"
  proof -
    have "ev_id ?e = 1" by (simp add: load_event_def)
    then show ?thesis by (simp add: GetEvent_def add insert_at_def) (simp add: cs_cal_eq)
  qed
  moreover have "invites_of 1 (?h (?h cs_cal)) = [load_invite 1 cs_invite_row]"
    by (simp add: invites_of_def add cs_cal_eq)
  ultimately show ?thesis
    using announcement_ids [OF cs_session(1) free now ann now ann refl _ e] by fastforce
qed

end
