(* ===== verification/LFG_Roles.thy ===== *)
theory LFG_Roles
  imports Prelude
begin

text \<open>
  The role check of the dungeon finder, \<^verbatim>\<open>LFGMgr::CheckGroupRoles\<close> in \<^verbatim>\<open>game/DungeonFinding/LFGMgr.cpp\<close>:
  players offer sets of roles, and a backtracking search in place gives each of them one role so
  that no role is taken more often than the dungeon needs it.
\<close>

unbundle bit_operations_syntax

section \<open>Data\<close>

definition PLAYER_ROLE_NONE :: uint8 where "PLAYER_ROLE_NONE = 0"
definition PLAYER_ROLE_LEADER :: uint8 where "PLAYER_ROLE_LEADER = 1"
definition PLAYER_ROLE_TANK :: uint8 where "PLAYER_ROLE_TANK = 2"
definition PLAYER_ROLE_HEALER :: uint8 where "PLAYER_ROLE_HEALER = 4"
definition PLAYER_ROLE_DAMAGE :: uint8 where "PLAYER_ROLE_DAMAGE = 8"

lemmas role_defs = PLAYER_ROLE_NONE_def PLAYER_ROLE_LEADER_def PLAYER_ROLE_TANK_def
  PLAYER_ROLE_HEALER_def PLAYER_ROLE_DAMAGE_def

type_synonym roles_map = "(uint64 \<times> uint8) list"

record lfg_dungeon =
  ld_id :: uint32
  ld_map :: uint16
  ld_type :: uint8
  ld_expansion :: uint8
  ld_group :: uint8
  ld_minlevel :: uint8
  ld_maxlevel :: uint8
  ld_difficulty :: uint32
  ld_seasonal :: bool
  ld_isLFR :: bool
  ld_neededILevel :: uint16
  ld_requiredTanks :: uint32
  ld_requiredHeals :: uint32
  ld_requiredDamagedealers :: uint32

definition ld_Entry :: "lfg_dungeon \<Rightarrow> uint32" where
  "ld_Entry d = ld_id d + push_bit 24 (ucast (ld_type d))"

definition GetMaxGroupSize :: "lfg_dungeon \<Rightarrow> uint32" where
  "GetMaxGroupSize d = ld_requiredTanks d + ld_requiredHeals d + ld_requiredDamagedealers d"

section \<open>The search\<close>

text \<open>
  The loop stands at the entry \<open>i\<close> of the map; \<open>cgr_bit\<close> is the block for one of the three roles.  A
  recursive call works on the map with the role taken out; when it fails the role is put back
  into whatever map it left.  The condition of the call in \<open>cgr_bit\<close> holds whenever \<open>cgr\<close> comes there
  (\<open>cgr_bit_guard\<close>); it makes the recursion well-founded for all other arguments too.
\<close>

definition add_role :: "nat \<Rightarrow> uint8 \<Rightarrow> roles_map \<Rightarrow> roles_map" where
  "add_role i x gs = gs[i := (fst (gs ! i), snd (gs ! i) + x)]"

definition only_roles :: "nat \<Rightarrow> roles_map \<Rightarrow> uint8" where
  "only_roles i gs = snd (gs ! i) AND NOT PLAYER_ROLE_LEADER"

lemma add_role_back: "i < length gs \<Longrightarrow> add_role i x (add_role i (- x) gs) = gs"
  by (simp add: add_role_def)

definition role_weight :: "roles_map \<Rightarrow> nat" where
  "role_weight gs = sum_list (map (unat \<circ> snd) gs)"

lemma role_weight_update:
  "i < length gs \<Longrightarrow> unat (snd e) < unat (snd (gs ! i)) \<Longrightarrow> role_weight (gs[i := e]) < role_weight gs"
proof (induction gs arbitrary: i)
  case (Cons g gs)
  then show ?case by (cases i) (auto simp: role_weight_def)
qed simp

text \<open>Taking out a single bit that is set.\<close>

definition role_bit :: "uint8 \<Rightarrow> bool" where
  "role_bit x \<longleftrightarrow> x = PLAYER_ROLE_TANK \<or> x = PLAYER_ROLE_HEALER \<or> x = PLAYER_ROLE_DAMAGE"

lemma role_bit_simps [simp]:
  "role_bit PLAYER_ROLE_TANK" "role_bit PLAYER_ROLE_HEALER" "role_bit PLAYER_ROLE_DAMAGE"
  by (simp_all add: role_bit_def)

lemma role_bit_nonzero: "role_bit x \<Longrightarrow> x \<noteq> 0"
  by (auto simp: role_bit_def role_defs)

lemma role_bit_exp: "role_bit x \<Longrightarrow> \<exists>n \<in> {1, 2, 3}. x = push_bit n 1"
  by (auto simp: role_bit_def role_defs push_bit_eq_mult)

lemma and_single_bit: "(r :: uint8) AND push_bit n 1 \<noteq> 0 \<longleftrightarrow> bit r n"
  by (simp add: bit_iff_and_push_bit_not_eq_0)

lemma sub_single_bit:
  fixes r :: uint8
  assumes "bit r n"
  shows "r - push_bit n 1 = unset_bit n r" and "unat (r - push_bit n 1) < unat r"
proof -
  show *: "r - push_bit n 1 = unset_bit n r" using assms by (simp add: unset_bit_eq push_bit_eq_mult)
  have "unset_bit n r \<le> r" by (simp add: unset_bit_eq_and_not word_and_le2)
  moreover have "unset_bit n r \<noteq> r" using assms by (metis bit_unset_bit_iff)
  ultimately have "unset_bit n r < r" by (simp add: order_less_le)
  then show "unat (r - push_bit n 1) < unat r" by (simp only: * word_less_nat_alt)
qed


lemma take_role_less:
  assumes "i < length gs" and "role_bit x" and "only_roles i gs AND x \<noteq> 0"
  shows "role_weight (add_role i (- x) gs) < role_weight gs"
proof -
  obtain n where n: "n \<in> {1, 2, 3}" "x = push_bit n 1" using role_bit_exp [OF assms(2)] by blast
  have "bit (only_roles i gs) n" using assms(3) n(2) by (simp only: and_single_bit)
  then have "bit (snd (gs ! i)) n" by (simp add: only_roles_def bit_and_iff)
  from sub_single_bit(2) [OF this] show ?thesis
    unfolding add_role_def using assms(1) n(2) by (intro role_weight_update) simp_all
qed

function (sequential) cgr ::
    "lfg_dungeon \<Rightarrow> roles_map \<Rightarrow> nat \<Rightarrow> uint8 \<Rightarrow> uint8 \<Rightarrow> uint8 \<Rightarrow> bool \<times> roles_map"
  and cgr_bit ::
    "lfg_dungeon \<Rightarrow> roles_map \<Rightarrow> nat \<Rightarrow> uint8 \<Rightarrow> uint8 \<Rightarrow> uint32 \<Rightarrow> uint8
      \<Rightarrow> (bool \<times> roles_map) + (uint8 \<times> roles_map)" where
  "cgr d gs i damage healer tank =
     (if i < length gs then
        if only_roles i gs = PLAYER_ROLE_NONE then (False, gs)
        else case cgr_bit d gs i (only_roles i gs) PLAYER_ROLE_DAMAGE (ld_requiredDamagedealers d) damage of
               Inl r \<Rightarrow> r
             | Inr (damage', gs1) \<Rightarrow>
                 case cgr_bit d gs1 i (only_roles i gs) PLAYER_ROLE_HEALER (ld_requiredHeals d) healer of
                   Inl r \<Rightarrow> r
                 | Inr (healer', gs2) \<Rightarrow>
                     case cgr_bit d gs2 i (only_roles i gs) PLAYER_ROLE_TANK (ld_requiredTanks d) tank of
                       Inl r \<Rightarrow> r
                     | Inr (tank', gs3) \<Rightarrow> cgr d gs3 (Suc i) damage' healer' tank'
      else (unat tank + unat healer + unat damage = length gs mod 256, gs))"
| "cgr_bit d gs i role x required n =
     (if role AND x = 0 then Inr (n, gs)
      else if role \<noteq> x then
        if i < length gs \<and> role_bit x \<and> role = only_roles i gs then
          case cgr d (add_role i (- x) gs) 0 0 0 0 of
            (True, gs') \<Rightarrow> Inl (True, gs')
          | (False, gs') \<Rightarrow> Inr (n, add_role i x gs')
        else Inr (n, gs)
      else if ucast n = required then Inl (False, gs)
      else Inr (n + 1, gs))"
  by pat_completeness auto


text \<open>A search that fails has restored the map.\<close>

lemma cgr_restores:
  "cgr_cgr_bit_dom (Inl (d, gs, i, damage, healer, tank)) \<Longrightarrow>
     \<not> fst (cgr d gs i damage healer tank) \<Longrightarrow> snd (cgr d gs i damage healer tank) = gs"
  "cgr_cgr_bit_dom (Inr (d, gs, i, role, x, required, n)) \<Longrightarrow>
     case cgr_bit d gs i role x required n of
       Inl r \<Rightarrow> \<not> fst r \<longrightarrow> snd r = gs | Inr cg \<Rightarrow> snd cg = gs"
proof (induction rule: cgr_cgr_bit.pinduct)
  case (1 d gs i damage healer tank)
  show ?case
  proof (cases "i < length gs \<and> only_roles i gs \<noteq> PLAYER_ROLE_NONE")
    case False
    with 1 show ?thesis by (simp add: cgr.psimps split: if_splits)
  next
    case True
    let ?R = "only_roles i gs"
    let ?b1 = "cgr_bit d gs i ?R PLAYER_ROLE_DAMAGE (ld_requiredDamagedealers d) damage"
    let ?b2 = "cgr_bit d gs i ?R PLAYER_ROLE_HEALER (ld_requiredHeals d) healer"
    let ?b3 = "cgr_bit d gs i ?R PLAYER_ROLE_TANK (ld_requiredTanks d) tank"
    have h1: "case ?b1 of Inl r \<Rightarrow> \<not> fst r \<longrightarrow> snd r = gs | Inr cg \<Rightarrow> snd cg = gs"
      using 1(2) True by blast
    show ?thesis
    proof (cases ?b1)
      case (Inl r)
      with 1(1,6) True h1 show ?thesis by (simp add: cgr.psimps)
    next
      case b1: (Inr c1)
      then obtain da where c1: "c1 = (da, gs)" using h1 by (cases c1) simp
      note h2 = 1(3) [of c1 da gs, OF conjunct1 [OF True] conjunct2 [OF True] b1 c1 [symmetric]]
      show ?thesis
      proof (cases ?b2)
        case (Inl r)
        with 1(1,6) True b1 c1 h2 show ?thesis by (simp add: cgr.psimps)
      next
        case b2: (Inr c2)
        then obtain he where c2: "c2 = (he, gs)" using h2 by (cases c2) simp
        note h3 = 1(4) [of c1 da gs c2 he gs, OF conjunct1 [OF True] conjunct2 [OF True] b1 c1 [symmetric]
            b2 c2 [symmetric]]
        show ?thesis
        proof (cases ?b3)
          case (Inl r)
          with 1(1,6) True b1 c1 b2 c2 h3 show ?thesis by (simp add: cgr.psimps)
        next
          case b3: (Inr c3)
          then obtain ta where c3: "c3 = (ta, gs)" using h3 by (cases c3) simp
          have "cgr d gs i damage healer tank = cgr d gs (Suc i) da he ta"
            using 1(1) True b1 c1 b2 c2 b3 c3 by (simp add: cgr.psimps)
          then show ?thesis
            using 1(5) [of c1 da gs c2 he gs c3 ta gs, OF conjunct1 [OF True] conjunct2 [OF True] b1
                c1 [symmetric] b2 c2 [symmetric] b3 c3 [symmetric]] 1(6) by simp
        qed
      qed
    qed
  qed
next
  case (2 d gs i role x required n)
  show ?case
  proof (cases "role AND x \<noteq> 0 \<and> role \<noteq> x \<and> i < length gs \<and> role_bit x \<and> role = only_roles i gs")
    case False
    with 2(1) show ?thesis by (auto simp: cgr_bit.psimps)
  next
    case True
    show ?thesis
    proof (cases "cgr d (add_role i (- x) gs) 0 0 0 0")
      case (Pair b gs')
      show ?thesis
      proof (cases b)
        case True': True
        with 2(1) True Pair show ?thesis by (simp add: cgr_bit.psimps)
      next
        case b: False
        have "gs' = add_role i (- x) gs" using 2(2) True b Pair by auto
        with 2(1) True b Pair show ?thesis by (simp add: cgr_bit.psimps add_role_back)
      qed
    qed
  qed
qed

lemma cgr_bit_restores:
  "cgr_bit d gs i role x required n = Inr (c, gs') \<Longrightarrow>
   cgr_cgr_bit_dom (Inr (d, gs, i, role, x, required, n)) \<Longrightarrow> gs' = gs"
  using cgr_restores(2) [of d gs i role x required n] by simp

termination cgr
proof (relation "inv_image (less_than <*lex*> less_than)
    (\<lambda>a. case a of Inl (d, gs, i, _) \<Rightarrow> (role_weight gs, Suc (2 * (length gs - i)))
                | Inr (d, gs, i, _) \<Rightarrow> (role_weight gs, 2 * (length gs - i)))")
  show "wf (inv_image (less_than <*lex*> less_than)
    (\<lambda>a. case a of Inl (d, gs, i, _) \<Rightarrow> (role_weight gs, Suc (2 * (length gs - i)))
                | Inr (d, gs, i, _) \<Rightarrow> (role_weight gs, 2 * (length gs - i))))" by auto
qed (auto dest!: cgr_bit_restores simp: take_role_less)


declare cgr.simps [simp del] cgr_bit.simps [simp del]

lemma cgr_bit_guard:
  "i < length gs \<Longrightarrow> role_bit x \<Longrightarrow> only_roles i gs AND x \<noteq> 0 \<Longrightarrow> only_roles i gs \<noteq> x \<Longrightarrow>
   cgr_bit d gs i (only_roles i gs) x required n =
     (case cgr d (add_role i (- x) gs) 0 0 0 0 of
        (True, gs') \<Rightarrow> Inl (True, gs') | (False, gs') \<Rightarrow> Inr (n, add_role i x gs'))"
  by (simp add: cgr_bit.simps)

definition CheckGroupRoles :: "lfg_dungeon \<Rightarrow> roles_map \<Rightarrow> bool \<times> roles_map" where
  "CheckGroupRoles d gs = (if gs = [] then (False, gs) else cgr d gs 0 0 0 0)"

section \<open>What it should find\<close>

text \<open>The roles a player offers; a value with unknown bits offers none.\<close>

definition role_options :: "uint8 \<Rightarrow> uint8 set" where
  "role_options r = (if r AND NOT 15 \<noteq> 0 then {} else {x. role_bit x \<and> r AND x \<noteq> 0})"

definition role_fits :: "lfg_dungeon \<Rightarrow> uint8 list \<Rightarrow> bool" where
  "role_fits d as \<longleftrightarrow>
     count_list as PLAYER_ROLE_TANK \<le> unat (ld_requiredTanks d) \<and>
     count_list as PLAYER_ROLE_HEALER \<le> unat (ld_requiredHeals d) \<and>
     count_list as PLAYER_ROLE_DAMAGE \<le> unat (ld_requiredDamagedealers d)"

definition role_assignment :: "lfg_dungeon \<Rightarrow> roles_map \<Rightarrow> uint8 list \<Rightarrow> bool" where
  "role_assignment d gs as \<longleftrightarrow> list_all2 (\<lambda>g a. a \<in> role_options (snd g)) gs as \<and> role_fits d as"

definition assignable :: "lfg_dungeon \<Rightarrow> roles_map \<Rightarrow> bool" where
  "assignable d gs \<longleftrightarrow> (\<exists>as. role_assignment d gs as)"

text \<open>The single role of an entry that is left by the search.\<close>

definition role_of :: "uint8 \<Rightarrow> uint8" where
  "role_of r = r AND NOT PLAYER_ROLE_LEADER"

lemma only_roles_of: "only_roles i gs = role_of (snd (gs ! i))"
  by (simp add: only_roles_def role_of_def)

text \<open>The value of one bit, not unfolded by arithmetic.\<close>

definition rbit :: "nat \<Rightarrow> uint8" where
  "rbit n = push_bit n 1"

lemma and_rbit: "(r :: uint8) AND rbit n \<noteq> 0 \<longleftrightarrow> bit r n" and and_rbit': "r AND rbit n = 0 \<longleftrightarrow> \<not> bit r n"
  by (simp_all only: rbit_def and_single_bit) (metis and_single_bit)

lemma sub_rbit: "bit r n \<Longrightarrow> r - rbit n = unset_bit n r"
  unfolding rbit_def by (rule sub_single_bit(1))

lemma bit_rbit: "bit (rbit n) m \<longleftrightarrow> m = n \<and> n < 8"
  by (auto simp: rbit_def bit_simps bit_1_iff)

lemma rbit_inj: "n < 8 \<Longrightarrow> rbit n = rbit m \<longleftrightarrow> n = m"
  by (metis bit_rbit)

definition role_nums :: "nat set" where
  "role_nums = {1, 2, 3}"

lemma role_nums_bound: "n \<in> role_nums \<Longrightarrow> 0 < n \<and> n < 4"
  by (auto simp: role_nums_def)

lemma role_bit_iff: "role_bit x \<longleftrightarrow> (\<exists>n \<in> role_nums. x = rbit n)"
  by (auto simp: role_bit_def role_defs push_bit_eq_mult rbit_def role_nums_def)

lemma u8_eq_iff: "(a :: uint8) = b \<longleftrightarrow> (\<forall>n. bit a n \<longleftrightarrow> bit b n)"
  by (auto intro: bit_word_eqI)

lemma bit_role_of: "bit (role_of r) n \<longleftrightarrow> n \<noteq> 0 \<and> bit r n"
  by (auto simp: role_of_def PLAYER_ROLE_LEADER_def bit_simps bit_1_iff dest: bit_imp_le_length)

lemma known_bits: "(r :: uint8) AND NOT 15 = 0 \<longleftrightarrow> (\<forall>n \<ge> 4. \<not> bit r n)"
proof -
  have m: "(15 :: uint8) = mask 4" by (simp add: mask_eq_exp_minus_1)
  have "bit (r AND NOT 15) n \<longleftrightarrow> bit r n \<and> 4 \<le> n" for n
    unfolding m bit_and_iff bit_not_iff bit_mask_iff by (auto dest: bit_imp_le_length)
  then show ?thesis unfolding u8_eq_iff by (auto simp only: bit_0_eq)
qed

lemma mem_role_options:
  "x \<in> role_options r \<longleftrightarrow> (\<forall>n \<ge> 4. \<not> bit r n) \<and> (\<exists>n \<in> role_nums. x = rbit n \<and> bit r n)"
  unfolding role_options_def known_bits [symmetric] role_bit_iff
  by (cases "r AND NOT 15 = 0") (auto simp only: if_False if_True simp_thms mem_Collect_eq and_rbit and_rbit' empty_iff)

lemma role_of_eq_rbit: "n \<in> role_nums \<Longrightarrow> role_of r = rbit n \<longleftrightarrow> (\<forall>m > 0. bit r m \<longleftrightarrow> m = n)"
  using role_nums_bound [of n] by (auto simp: u8_eq_iff bit_role_of bit_rbit)

lemma role_of_single: "role_bit x \<Longrightarrow> role_of r = x \<Longrightarrow> role_options r = {x}"
proof -
  assume "role_bit x" and r: "role_of r = x"
  then obtain n where n: "n \<in> role_nums" "x = rbit n" by (auto simp: role_bit_iff)
  then have "\<forall>m > 0. bit r m \<longleftrightarrow> m = n" using r by (simp add: role_of_eq_rbit)
  then show ?thesis using n role_nums_bound by (force simp: mem_role_options set_eq_iff)
qed

lemma role_of_none: "role_of r = PLAYER_ROLE_NONE \<Longrightarrow> role_options r = {}"
proof -
  assume "role_of r = PLAYER_ROLE_NONE"
  then have "\<not> bit r m" if "0 < m" for m using that bit_role_of [of r m] by (simp add: PLAYER_ROLE_NONE_def)
  then show ?thesis using role_nums_bound by (force simp: mem_role_options)
qed

lemma role_of_other:
  assumes "a \<in> role_options r" and "role_of r \<noteq> a"
  shows "\<exists>b. b \<in> role_options r \<and> b \<noteq> a"
proof -
  obtain n where n: "n \<in> role_nums" "a = rbit n" "bit r n" and top: "\<forall>n \<ge> 4. \<not> bit r n"
    using assms(1) by (auto simp: mem_role_options)
  then obtain m where m: "0 < m" "bit r m \<noteq> (m = n)" using assms(2) by (auto simp: role_of_eq_rbit)
  then have b: "bit r m" "m \<noteq> n" using n(3) by auto
  then have "m < 4" using top by (meson not_less)
  then have "m \<in> role_nums" using m(1) by (auto simp: role_nums_def)
  then have "rbit m \<in> role_options r" using b top by (auto simp: mem_role_options)
  moreover have "rbit m \<noteq> a" using b n \<open>m < 4\<close> by (simp add: rbit_inj)
  ultimately show ?thesis by blast
qed

lemma role_options_and: "x \<in> role_options r \<Longrightarrow> role_bit x \<and> role_of r AND x \<noteq> 0"
  using role_nums_bound by (auto simp: mem_role_options role_bit_iff and_rbit and_rbit' bit_role_of)

lemma role_options_drop:
  assumes "role_bit x" and "role_of r AND x \<noteq> 0"
  shows "role_options (r - x) = role_options r - {x}" and "(r - x) AND PLAYER_ROLE_LEADER = r AND PLAYER_ROLE_LEADER"
proof -
  obtain n where n: "n \<in> role_nums" "x = rbit n" using assms(1) by (auto simp: role_bit_iff)
  then have "bit r n" using assms(2) by (simp add: and_rbit bit_role_of)
  then have r: "r - rbit n = unset_bit n r" by (simp add: sub_rbit)
  note nb = role_nums_bound [OF n(1)]
  have "rbit m = rbit n \<longleftrightarrow> m = n" if "m \<in> role_nums" for m
    using role_nums_bound [OF that] by (simp add: rbit_inj)
  then show "role_options (r - x) = role_options r - {x}"
    using nb unfolding n(2) r set_eq_iff Diff_iff mem_role_options by (auto simp: bit_unset_bit_iff)
  show "(r - x) AND PLAYER_ROLE_LEADER = r AND PLAYER_ROLE_LEADER"
    using nb unfolding n(2) r by (auto simp: u8_eq_iff bit_and_iff bit_unset_bit_iff PLAYER_ROLE_LEADER_def bit_1_iff)
qed


section \<open>What it finds\<close>

text \<open>A map in which each player has one of the roles he offered, with his leader flag kept.\<close>

definition role_solution :: "lfg_dungeon \<Rightarrow> roles_map \<Rightarrow> roles_map \<Rightarrow> bool" where
  "role_solution d gs gs' \<longleftrightarrow>
     map fst gs' = map fst gs \<and>
     list_all2 (\<lambda>g g'. role_of (snd g') \<in> role_options (snd g) \<and>
                       snd g' AND PLAYER_ROLE_LEADER = snd g AND PLAYER_ROLE_LEADER) gs gs' \<and>
     role_fits d (map (role_of \<circ> snd) gs')"

lemma solution_assignment: "role_solution d gs gs' \<Longrightarrow> assignable d gs"
proof -
  assume s: "role_solution d gs gs'"
  then have "list_all2 (\<lambda>g a. a \<in> role_options (snd g)) gs (map (role_of \<circ> snd) gs')"
    by (auto simp: role_solution_def list_all2_conv_all_nth)
  with s show ?thesis unfolding assignable_def role_assignment_def role_solution_def by blast
qed

lemma drop_role_eq: "add_role i (- x) gs = gs[i := (fst (gs ! i), snd (gs ! i) - x)]"
  by (simp add: add_role_def)

lemma add_role_keys: "i < length gs \<Longrightarrow> map fst (add_role i x gs) = map fst gs"
  by (metis add_role_def fst_conv list_update_id map_update nth_map)

lemma drop_solution:
  assumes i: "i < length gs" and x: "role_bit x" "only_roles i gs AND x \<noteq> 0"
    and s: "role_solution d (add_role i (- x) gs) gs'"
  shows "role_solution d gs gs'"
proof -
  note dr = role_options_drop [OF x(1) x(2) [unfolded only_roles_of]]
  have "list_all2 (\<lambda>g g'. role_of (snd g') \<in> role_options (snd g) \<and>
      snd g' AND PLAYER_ROLE_LEADER = snd g AND PLAYER_ROLE_LEADER) gs gs'"
    unfolding list_all2_conv_all_nth
  proof (intro conjI allI impI)
    show "length gs = length gs'"
      using s by (simp add: role_solution_def list_all2_conv_all_nth drop_role_eq)
  next
    fix j assume j: "j < length gs"
    let ?g = "add_role i (- x) gs ! j"
    have "role_of (snd (gs' ! j)) \<in> role_options (snd ?g)"
      "snd (gs' ! j) AND PLAYER_ROLE_LEADER = snd ?g AND PLAYER_ROLE_LEADER"
      using s j by (simp_all add: role_solution_def list_all2_conv_all_nth drop_role_eq)
    then show "role_of (snd (gs' ! j)) \<in> role_options (snd (gs ! j))"
      "snd (gs' ! j) AND PLAYER_ROLE_LEADER = snd (gs ! j) AND PLAYER_ROLE_LEADER"
      using dr i by (cases "j = i"; simp add: drop_role_eq)+
  qed
  with s add_role_keys [OF i] show ?thesis by (simp add: role_solution_def)
qed

lemma drop_assignment:
  assumes i: "i < length gs" and x: "role_bit x" "only_roles i gs AND x \<noteq> 0"
    and a: "role_assignment d gs as" "as ! i \<noteq> x"
  shows "role_assignment d (add_role i (- x) gs) as"
  using a i role_options_drop(1) [OF x(1) x(2) [unfolded only_roles_of]]
  by (auto simp: role_assignment_def drop_role_eq list_all2_conv_all_nth nth_list_update)

text \<open>When every way to narrow down a player with several roles fails, nothing is left.\<close>

definition tried :: "lfg_dungeon \<Rightarrow> roles_map \<Rightarrow> nat \<Rightarrow> uint8 \<Rightarrow> bool" where
  "tried d gs i x \<longleftrightarrow> (only_roles i gs AND x \<noteq> 0 \<longrightarrow> only_roles i gs \<noteq> x \<longrightarrow> \<not> assignable d (add_role i (- x) gs))"

lemma all_tried:
  assumes i: "i < length gs" and t: "\<And>x. role_bit x \<Longrightarrow> tried d gs i x" and multi: "\<not> role_bit (only_roles i gs)"
  shows "\<not> assignable d gs"
proof
  assume "assignable d gs"
  then obtain as where as: "role_assignment d gs as" by (auto simp: assignable_def)
  then have a: "as ! i \<in> role_options (snd (gs ! i))"
    using i by (auto simp: role_assignment_def list_all2_conv_all_nth)
  then have "only_roles i gs \<noteq> as ! i" using role_options_and multi by (metis only_roles_of)
  with role_of_other [OF a] obtain b where b: "b \<in> role_options (snd (gs ! i))" "b \<noteq> as ! i"
    by (auto simp: only_roles_of)
  note rb = role_options_and [OF b(1), folded only_roles_of]
  have "assignable d (add_role i (- b) gs)"
    using drop_assignment [OF i conjunct1 [OF rb] conjunct2 [OF rb] as] b(2) by (auto simp: assignable_def)
  moreover have "only_roles i gs \<noteq> b" using rb multi by auto
  ultimately show False using t [of b] rb by (simp add: tried_def)
qed

text \<open>The counters count the players before the entry who have a single role.\<close>

definition role_cnt :: "uint8 \<Rightarrow> nat \<Rightarrow> roles_map \<Rightarrow> nat" where
  "role_cnt x i gs = count_list (map (role_of \<circ> snd) (take i gs)) x"

definition singles :: "nat \<Rightarrow> roles_map \<Rightarrow> bool" where
  "singles i gs \<longleftrightarrow> (\<forall>j < i. role_bit (only_roles j gs))"

definition cgr_inv :: "lfg_dungeon \<Rightarrow> roles_map \<Rightarrow> nat \<Rightarrow> uint8 \<Rightarrow> uint8 \<Rightarrow> uint8 \<Rightarrow> bool" where
  "cgr_inv d gs i damage healer tank \<longleftrightarrow>
     length gs < 256 \<and> i \<le> length gs \<and>
     unat damage = role_cnt PLAYER_ROLE_DAMAGE i gs \<and> unat damage \<le> unat (ld_requiredDamagedealers d) \<and>
     unat healer = role_cnt PLAYER_ROLE_HEALER i gs \<and> unat healer \<le> unat (ld_requiredHeals d) \<and>
     unat tank = role_cnt PLAYER_ROLE_TANK i gs \<and> unat tank \<le> unat (ld_requiredTanks d) \<and>
     (singles i gs \<or> \<not> assignable d gs)"

lemma role_cnt_Suc: "i < length gs \<Longrightarrow> role_cnt x (Suc i) gs = role_cnt x i gs + (if only_roles i gs = x then 1 else 0)"
  by (simp add: role_cnt_def take_Suc_conv_app_nth only_roles_of)

lemma role_cnt_le: "role_cnt x i gs \<le> i"
proof -
  have "role_cnt x i gs \<le> length (take i gs)"
    unfolding role_cnt_def by (metis count_le_length length_map)
  then show ?thesis by simp
qed

lemma singles_Suc: "singles (Suc i) gs \<longleftrightarrow> singles i gs \<and> role_bit (only_roles i gs)"
  by (auto simp: singles_def less_Suc_eq)

text \<open>An assignment gives each player with a single role that role.\<close>

lemma assignment_counts:
  assumes as: "role_assignment d gs as" and s: "singles i gs" and i: "i \<le> length gs"
  shows "role_cnt x i gs \<le> count_list as x"
proof -
  have len: "length as = length gs" using as by (auto simp: role_assignment_def list_all2_lengthD)
  have "as ! j = only_roles j gs" if "j < i" for j
  proof -
    have "as ! j \<in> role_options (snd (gs ! j))"
      using as that i by (auto simp: role_assignment_def list_all2_conv_all_nth)
    moreover have "role_bit (only_roles j gs)" using s that by (simp add: singles_def)
    ultimately show ?thesis using role_of_single [of "only_roles j gs"] by (auto simp: only_roles_of)
  qed
  then have "map (role_of \<circ> snd) (take i gs) = take i as"
    using i len by (intro nth_equalityI) (auto simp: only_roles_of)
  then have "role_cnt x i gs = count_list (take i as) x" by (simp add: role_cnt_def)
  also have "\<dots> \<le> count_list as x" by (metis append_take_drop_id count_list_append le_add1)
  finally show ?thesis .
qed


lemma full_role: "singles i gs \<Longrightarrow> i < length gs \<Longrightarrow> role_bit x \<Longrightarrow> only_roles i gs = x \<Longrightarrow>
    role_cnt x i gs = unat r \<Longrightarrow> role_assignment d gs as \<Longrightarrow> unat r < count_list as x"
  using assignment_counts [of d gs as "Suc i" x] by (simp add: singles_Suc role_cnt_Suc)

lemma three_counts:
  fixes a b c :: 'a
  assumes "a \<noteq> b" and "a \<noteq> c" and "b \<noteq> c"
  shows "count_list xs a + count_list xs b + count_list xs c = length xs \<longleftrightarrow> set xs \<subseteq> {a, b, c}"
proof -
  have le: "count_list xs a + count_list xs b + count_list xs c \<le> length xs" for xs
    using assms by (induction xs) auto
  show ?thesis
  proof (induction xs)
    case (Cons x xs)
    with assms le [of xs] show ?case by auto
  qed simp
qed

lemma role_cnts_all:
  "role_cnt PLAYER_ROLE_TANK (length gs) gs + role_cnt PLAYER_ROLE_HEALER (length gs) gs +
     role_cnt PLAYER_ROLE_DAMAGE (length gs) gs = length gs \<longleftrightarrow> singles (length gs) gs"
proof -
  have "PLAYER_ROLE_TANK \<noteq> PLAYER_ROLE_HEALER" "PLAYER_ROLE_TANK \<noteq> PLAYER_ROLE_DAMAGE"
    "PLAYER_ROLE_HEALER \<noteq> PLAYER_ROLE_DAMAGE" by (simp_all add: role_defs)
  from three_counts [OF this, of "map (role_of \<circ> snd) gs"]
  have "?thesis \<longleftrightarrow> (set (map (role_of \<circ> snd) gs) \<subseteq> {PLAYER_ROLE_TANK, PLAYER_ROLE_HEALER, PLAYER_ROLE_DAMAGE}
      \<longleftrightarrow> singles (length gs) gs)" by (simp add: role_cnt_def)
  also have "\<dots>"
    by (auto simp: singles_def role_bit_def only_roles_of set_conv_nth subset_iff)
  finally show ?thesis by blast
qed

lemma singles_solution:
  assumes "cgr_inv d gs (length gs) damage healer tank" and "singles (length gs) gs"
  shows "role_solution d gs gs"
proof -
  have "role_fits d (map (role_of \<circ> snd) gs)" using assms(1) by (simp add: cgr_inv_def role_fits_def role_cnt_def)
  moreover have "role_of (snd (gs ! j)) \<in> role_options (snd (gs ! j))" if "j < length gs" for j
    using role_of_single [of "only_roles j gs"] assms(2) that by (auto simp: singles_def only_roles_of)
  ultimately show ?thesis by (simp add: role_solution_def list_all2_conv_all_nth)
qed

text \<open>The result of the block for one role.\<close>

definition bit_result :: "lfg_dungeon \<Rightarrow> roles_map \<Rightarrow> nat \<Rightarrow> uint8 \<Rightarrow> uint32 \<Rightarrow> uint8
    \<Rightarrow> (bool \<times> roles_map) + (uint8 \<times> roles_map) \<Rightarrow> bool" where
  "bit_result d gs i x required n res =
     (case res of
        Inl (b, gs') \<Rightarrow> if b then role_solution d gs gs' else gs' = gs \<and> only_roles i gs = x \<and> ucast n = required
      | Inr (c, gs') \<Rightarrow> gs' = gs \<and> tried d gs i x \<and>
          (if only_roles i gs = x then c = n + 1 \<and> ucast n \<noteq> required else c = n))"

definition cgr_result :: "lfg_dungeon \<Rightarrow> roles_map \<Rightarrow> bool \<times> roles_map \<Rightarrow> bool" where
  "cgr_result d gs res = (if fst res then role_solution d gs (snd res) else \<not> assignable d gs \<and> snd res = gs)"

lemma unat_u8_u32: "unat (ucast (n :: uint8) :: uint32) = unat n"
proof -
  have "unat n < 2 ^ 32" using unsigned_less [of n, where 'a = nat] by simp
  then show ?thesis by (simp add: unsigned_ucast_eq take_bit_nat_eq_self)
qed

lemma full_fails:
  assumes "singles i gs \<or> \<not> assignable d gs" and "i < length gs" and "role_bit x" and "only_roles i gs = x"
    and "unat (n :: uint8) = role_cnt x i gs" and "ucast n = (required :: uint32)"
    and fits: "\<And>as. role_fits d as \<Longrightarrow> count_list as x \<le> unat required"
  shows "\<not> assignable d gs"
proof
  assume a: "assignable d gs"
  then obtain as where as: "role_assignment d gs as" by (auto simp: assignable_def)
  have "role_cnt x i gs = unat required" using assms(5,6) unat_u8_u32 [of n] by simp
  then have "unat required < count_list as x" using full_role assms(1-4) a as by blast
  moreover have "count_list as x \<le> unat required" using fits as by (simp add: role_assignment_def)
  ultimately show False by simp
qed

lemma counter_step:
  assumes "unat n = role_cnt x i gs" and "unat n \<le> unat required" and "i < length gs" and "length gs < 256"
    and "if only_roles i gs = x then c = n + 1 \<and> ucast n \<noteq> (required :: uint32) else c = n"
  shows "unat c = role_cnt x (Suc i) gs" and "unat (c :: uint8) \<le> unat required"
proof -
  have "role_cnt x i gs < 255" using role_cnt_le [of x i gs] assms(3,4) by simp
  then have n: "unat n < 255" using assms(1) by simp
  then have s: "unat (n + 1) = Suc (unat n)" by (simp add: unat_word_ariths)
  have "unat n < unat required" if "ucast n \<noteq> required"
  proof (rule ccontr)
    assume "\<not> unat n < unat required"
    then have "unat n = unat required" using assms(2) by simp
    then have "(ucast n :: uint32) = required" 
      by (metis unat_u8_u32 word_unat_eq_iff)
    with that show False by simp
  qed
  with assms n s show "unat c = role_cnt x (Suc i) gs" "unat c \<le> unat required"
    by (auto simp: role_cnt_Suc split: if_splits)
qed


lemma bit_result_result:
  "bit_result d gs i x required n (Inl r) \<Longrightarrow> (only_roles i gs = x \<Longrightarrow> ucast n = required \<Longrightarrow> \<not> assignable d gs) \<Longrightarrow>
   cgr_result d gs r"
  by (cases r) (auto simp: bit_result_def cgr_result_def split: if_splits)

lemma inv_step_fails:
  assumes "cgr_inv d gs i damage healer tank" and "i < length gs"
  shows "only_roles i gs = PLAYER_ROLE_DAMAGE \<Longrightarrow> ucast damage = ld_requiredDamagedealers d \<Longrightarrow> \<not> assignable d gs"
    and "only_roles i gs = PLAYER_ROLE_HEALER \<Longrightarrow> ucast healer = ld_requiredHeals d \<Longrightarrow> \<not> assignable d gs"
    and "only_roles i gs = PLAYER_ROLE_TANK \<Longrightarrow> ucast tank = ld_requiredTanks d \<Longrightarrow> \<not> assignable d gs"
proof -
  have s: "singles i gs \<or> \<not> assignable d gs" using assms(1) by (simp add: cgr_inv_def)
  show "only_roles i gs = PLAYER_ROLE_DAMAGE \<Longrightarrow> ucast damage = ld_requiredDamagedealers d \<Longrightarrow> \<not> assignable d gs"
    by (rule full_fails [OF s assms(2), of PLAYER_ROLE_DAMAGE damage])
      (use assms(1) in \<open>auto simp: cgr_inv_def role_fits_def\<close>)
  show "only_roles i gs = PLAYER_ROLE_HEALER \<Longrightarrow> ucast healer = ld_requiredHeals d \<Longrightarrow> \<not> assignable d gs"
    by (rule full_fails [OF s assms(2), of PLAYER_ROLE_HEALER healer])
      (use assms(1) in \<open>auto simp: cgr_inv_def role_fits_def\<close>)
  show "only_roles i gs = PLAYER_ROLE_TANK \<Longrightarrow> ucast tank = ld_requiredTanks d \<Longrightarrow> \<not> assignable d gs"
    by (rule full_fails [OF s assms(2), of PLAYER_ROLE_TANK tank])
      (use assms(1) in \<open>auto simp: cgr_inv_def role_fits_def\<close>)
qed

lemma inv_step:
  assumes inv: "cgr_inv d gs i damage healer tank" and i: "i < length gs"
    and r: "bit_result d gs i PLAYER_ROLE_DAMAGE (ld_requiredDamagedealers d) damage (Inr (da, gs))"
      "bit_result d gs i PLAYER_ROLE_HEALER (ld_requiredHeals d) healer (Inr (he, gs))"
      "bit_result d gs i PLAYER_ROLE_TANK (ld_requiredTanks d) tank (Inr (ta, gs))"
  shows "cgr_inv d gs (Suc i) da he ta"
proof -
  have len: "length gs < 256" using inv by (simp add: cgr_inv_def)
  have t: "tried d gs i x" if "role_bit x" for x
    using that r by (auto simp: role_bit_def bit_result_def)
  have "singles (Suc i) gs \<or> \<not> assignable d gs"
    using inv all_tried [OF i t] by (auto simp: cgr_inv_def singles_Suc)
  moreover have
    "unat da = role_cnt PLAYER_ROLE_DAMAGE (Suc i) gs" "unat da \<le> unat (ld_requiredDamagedealers d)"
    "unat he = role_cnt PLAYER_ROLE_HEALER (Suc i) gs" "unat he \<le> unat (ld_requiredHeals d)"
    "unat ta = role_cnt PLAYER_ROLE_TANK (Suc i) gs" "unat ta \<le> unat (ld_requiredTanks d)"
    using inv r unfolding cgr_inv_def bit_result_def
    by (auto intro: counter_step [OF _ _ i len])
  ultimately show ?thesis using i len by (simp add: cgr_inv_def)
qed

lemma cgr_correct:
  "cgr_inv d gs i damage healer tank \<Longrightarrow> cgr_result d gs (cgr d gs i damage healer tank)"
  "length gs < 256 \<Longrightarrow> i < length gs \<Longrightarrow> role_bit x \<Longrightarrow> role = only_roles i gs \<Longrightarrow>
     bit_result d gs i x required n (cgr_bit d gs i role x required n)"
proof (induction d gs i damage healer tank and d gs i role x required n rule: cgr_cgr_bit.induct)
  case (1 d gs i damage healer tank)
  note inv = \<open>cgr_inv d gs i damage healer tank\<close>
  have len: "length gs < 256" and i: "i \<le> length gs" using inv by (simp_all add: cgr_inv_def)
  show ?case
  proof (cases "i < length gs")
    case False
    then have fin: "i = length gs" using i by simp
    with inv len role_cnts_all [of gs]
    have "unat tank + unat healer + unat damage = length gs mod 256 \<longleftrightarrow> singles (length gs) gs"
      by (simp add: cgr_inv_def)
    with singles_solution [of d gs] inv fin show ?thesis
      by (auto simp: cgr.simps cgr_result_def cgr_inv_def)
  next
    case lt: True
    show ?thesis
    proof (cases "only_roles i gs = PLAYER_ROLE_NONE")
      case True
      then have "role_options (snd (gs ! i)) = {}" by (simp add: only_roles_of role_of_none)
      then have "\<not> assignable d gs"
        using lt by (auto simp: assignable_def role_assignment_def list_all2_conv_all_nth)
      with True lt show ?thesis by (simp add: cgr.simps cgr_result_def)
    next
      case some: False
      let ?R = "only_roles i gs"
      let ?b1 = "cgr_bit d gs i ?R PLAYER_ROLE_DAMAGE (ld_requiredDamagedealers d) damage"
      let ?b2 = "cgr_bit d gs i ?R PLAYER_ROLE_HEALER (ld_requiredHeals d) healer"
      let ?b3 = "cgr_bit d gs i ?R PLAYER_ROLE_TANK (ld_requiredTanks d) tank"
      have r1: "bit_result d gs i PLAYER_ROLE_DAMAGE (ld_requiredDamagedealers d) damage ?b1"
        using 1(1) lt some len by simp
      show ?thesis
      proof (cases ?b1)
        case (Inl r)
        with inv_step_fails(1) [OF inv lt] r1 show ?thesis by (simp add: cgr.simps lt some bit_result_result)
      next
        case b1: (Inr c1)
        then obtain da where c1: "c1 = (da, gs)" using r1 by (cases c1) (simp add: bit_result_def)
        have r2: "bit_result d gs i PLAYER_ROLE_HEALER (ld_requiredHeals d) healer ?b2"
          using 1(2) [OF lt some b1 c1 [symmetric]] lt len by simp
        show ?thesis
        proof (cases ?b2)
          case (Inl r)
          with inv_step_fails(2) [OF inv lt] r2 show ?thesis
            by (simp add: cgr.simps lt some b1 c1 bit_result_result)
        next
          case b2: (Inr c2)
          then obtain he where c2: "c2 = (he, gs)" using r2 by (cases c2) (simp add: bit_result_def)
          have r3: "bit_result d gs i PLAYER_ROLE_TANK (ld_requiredTanks d) tank ?b3"
            using 1(3) [OF lt some b1 c1 [symmetric] b2 c2 [symmetric]] lt len by simp
          show ?thesis
          proof (cases ?b3)
            case (Inl r)
            with inv_step_fails(3) [OF inv lt] r3 show ?thesis
              by (simp add: cgr.simps lt some b1 c1 b2 c2 bit_result_result)
          next
            case b3: (Inr c3)
            then obtain ta where c3: "c3 = (ta, gs)" using r3 by (cases c3) (simp add: bit_result_def)
            have "cgr_inv d gs (Suc i) da he ta"
              using inv_step [OF inv lt] r1 r2 r3 unfolding b1 c1 b2 c2 b3 c3 by simp
            moreover have "cgr d gs i damage healer tank = cgr d gs (Suc i) da he ta"
              by (subst cgr.simps) (simp add: lt some b1 c1 b2 c2 b3 c3)
            ultimately show ?thesis
              using 1(4) [OF lt some b1 c1 [symmetric] b2 c2 [symmetric] b3 c3 [symmetric]] by simp
          qed
        qed
      qed
    qed
  qed
next
  case (2 d gs i role x required n)
  show ?case
  proof (cases "role AND x \<noteq> 0 \<and> role \<noteq> x")
    case False
    with 2(2-5) role_bit_nonzero [of x] show ?thesis by (auto simp: cgr_bit.simps bit_result_def tried_def)
  next
    case True
    obtain b gs' where r: "cgr d (add_role i (- x) gs) 0 0 0 0 = (b, gs')" by fastforce
    have "cgr_inv d (add_role i (- x) gs) 0 0 0 0"
      using 2(2) by (simp add: cgr_inv_def role_cnt_def singles_def drop_role_eq)
    then have "cgr_result d (add_role i (- x) gs) (b, gs')" using 2 True r by auto
    then show ?thesis
      using 2(2-5) True r drop_solution [of i gs x d gs']
      by (auto simp: cgr_bit_guard bit_result_def cgr_result_def tried_def add_role_back split: bool.split)
  qed
qed


section \<open>The result of the search\<close>

lemma CheckGroupRoles_result:
  assumes "length gs < 256"
  shows "if fst (CheckGroupRoles d gs) then gs \<noteq> [] \<and> role_solution d gs (snd (CheckGroupRoles d gs))
         else (gs = [] \<or> \<not> assignable d gs) \<and> snd (CheckGroupRoles d gs) = gs"
proof (cases "gs = []")
  case False
  have "cgr_inv d gs 0 0 0 0" using assms by (simp add: cgr_inv_def role_cnt_def singles_def)
  from cgr_correct(1) [OF this] False show ?thesis
    by (auto simp: CheckGroupRoles_def cgr_result_def split: if_splits)
qed (simp add: CheckGroupRoles_def)

text \<open>C7. The role check is exact.  For a map of fewer than 256 players, the search succeeds precisely when
  the map is not empty and each player can be given one of the roles offered so that no role is
  taken more often than the dungeon needs it; then the map it leaves is such an assignment: the
  players are the same, and each keeps one offered role and the wish to lead.  When it fails,
  every role taken out on the way is back in the map.\<close>

theorem check_group_roles:
  assumes "length gs < 256"
  shows "(fst (CheckGroupRoles d gs) \<longleftrightarrow> gs \<noteq> [] \<and> assignable d gs) \<and>
    (if fst (CheckGroupRoles d gs) then role_solution d gs (snd (CheckGroupRoles d gs))
     else snd (CheckGroupRoles d gs) = gs)"
  using CheckGroupRoles_result [OF assms, of d] solution_assignment by (auto split: if_splits)

text \<open>Three players who can do everything, one who can heal or deal damage and leads, and one who
  only tanks; and two who only tank.\<close>

definition dungeon_of_five :: lfg_dungeon where
  "dungeon_of_five = \<lparr>ld_id = 1, ld_map = 33, ld_type = 1, ld_expansion = 0, ld_group = 1, ld_minlevel = 15,
     ld_maxlevel = 25, ld_difficulty = 1, ld_seasonal = False, ld_isLFR = False, ld_neededILevel = 0,
     ld_requiredTanks = 1, ld_requiredHeals = 1, ld_requiredDamagedealers = 3\<rparr>"

theorem check_group_roles_witness:
  "fst (CheckGroupRoles dungeon_of_five [(1, 14), (2, 14), (3, 13), (4, 2), (5, 14)]) \<and>
   snd (CheckGroupRoles dungeon_of_five [(1, 2), (2, 3)]) = [(1, 2), (2, 3)]"
proof
  have "role_assignment dungeon_of_five [(1, 14), (2, 14), (3, 13), (4, 2), (5, 14)] [8, 8, 4, 2, 8]"
    by (simp add: role_assignment_def role_options_def role_fits_def role_bit_def role_defs dungeon_of_five_def)
  then show "fst (CheckGroupRoles dungeon_of_five [(1, 14), (2, 14), (3, 13), (4, 2), (5, 14)])"
    using check_group_roles [of "[(1, 14), (2, 14), (3, 13), (4, 2), (5, 14)]" dungeon_of_five]
    by (auto simp: assignable_def)
  have "\<not> fst (CheckGroupRoles dungeon_of_five [(1, 2), (2, 3)])" by code_simp
  then show "snd (CheckGroupRoles dungeon_of_five [(1, 2), (2, 3)]) = [(1, 2), (2, 3)]"
    using check_group_roles [of "[(1, 2), (2, 3)]" dungeon_of_five] by auto
qed

end
