(* ===== verification/LFG_Data.thy ===== *)
theory LFG_Data
  imports LFG_Roles String_Util "HOL-Library.List_Lexorder" "HOL-Library.Char_ord"
begin

text \<open>
  The state of the dungeon finder (\<^verbatim>\<open>game/DungeonFinding\<close>): \<^verbatim>\<open>LfgPlayerData\<close>, \<^verbatim>\<open>LfgGroupData\<close>, the records of
  \<^verbatim>\<open>LFGMgr.h\<close> and \<^verbatim>\<open>LFGQueue.h\<close>, and the accessors of \<^verbatim>\<open>LFGMgr\<close>.

  \<^verbatim>\<open>std::map\<close> and \<^verbatim>\<open>std::set\<close> are lists ordered by key.  \<^verbatim>\<open>PlayersStore[guid]\<close> creates a missing entry with
  constant values, and nothing looks at whether an entry exists: that store is a total function.
  A missing entry of \<^verbatim>\<open>GroupsStore\<close> is created with a kick cooldown that depends on the time, also by a
  read: that store is a partial function, and reads go through \<open>see_group\<close>.

  Random numbers are drawn from the sequence \<open>lm_rand\<close>.  Packets, spells cast on players and calls
  of other components are appended to \<open>lm_out\<close>.
\<close>

section \<open>Player and group data\<close>

datatype lfg_state =
    LFG_STATE_NONE | LFG_STATE_ROLECHECK | LFG_STATE_QUEUED | LFG_STATE_PROPOSAL | LFG_STATE_DUNGEON
  | LFG_STATE_FINISHED_DUNGEON | LFG_STATE_RAIDBROWSER

datatype lfg_answer = LFG_ANSWER_PENDING | LFG_ANSWER_DENY | LFG_ANSWER_AGREE

record lock_data =
  lk_type :: uint32
  lk_needed :: uint32
  lk_average :: uint32

definition LFG_LOCKSTATUS_RAID_LOCKED :: uint32 where "LFG_LOCKSTATUS_RAID_LOCKED = 6"

record lfg_player_data =
  pd_State :: lfg_state
  pd_OldState :: lfg_state
  pd_LockedDungeons :: "(uint32 \<times> lock_data) list"
  pd_Team :: uint8
  pd_Group :: uint64
  pd_IsPremade :: bool
  pd_Roles :: uint8
  pd_Comment :: string
  pd_SelectedDungeons :: "uint32 list"

definition LfgPlayerData_new :: lfg_player_data where
  "LfgPlayerData_new =
     \<lparr>pd_State = LFG_STATE_NONE, pd_OldState = LFG_STATE_NONE, pd_LockedDungeons = [], pd_Team = 0,
      pd_Group = 0, pd_IsPremade = False, pd_Roles = 0, pd_Comment = [], pd_SelectedDungeons = []\<rparr>"

definition pd_SetState :: "lfg_state \<Rightarrow> lfg_player_data \<Rightarrow> lfg_player_data" where
  "pd_SetState st p =
     (let p1 = (if st = LFG_STATE_NONE \<or> st = LFG_STATE_FINISHED_DUNGEON
                then p\<lparr>pd_Roles := 0, pd_SelectedDungeons := [], pd_Comment := []\<rparr> else p);
          p2 = (if st = LFG_STATE_NONE \<or> st = LFG_STATE_FINISHED_DUNGEON \<or> st = LFG_STATE_DUNGEON
                then p1\<lparr>pd_OldState := st\<rparr> else p1)
      in p2\<lparr>pd_State := st\<rparr>)"

definition pd_RestoreState :: "lfg_player_data \<Rightarrow> lfg_player_data" where
  "pd_RestoreState p =
     (let p1 = (if pd_OldState p = LFG_STATE_NONE then p\<lparr>pd_SelectedDungeons := [], pd_Roles := 0\<rparr> else p)
      in p1\<lparr>pd_State := pd_OldState p1\<rparr>)"

record lfg_group_data =
  gd_State :: lfg_state
  gd_OldState :: lfg_state
  gd_Leader :: uint64
  gd_Players :: "uint64 list"
  gd_Dungeon :: uint32
  gd_VoteKickCooldown :: uint32
  gd_KicksLeft :: uint8
  gd_VoteKickActive :: bool

definition LFG_GROUP_MAX_KICKS :: uint8 where "LFG_GROUP_MAX_KICKS = 3"

definition LfgGroupData_new :: "int \<Rightarrow> lfg_group_data" where
  "LfgGroupData_new now =
     \<lparr>gd_State = LFG_STATE_NONE, gd_OldState = LFG_STATE_NONE, gd_Leader = 0, gd_Players = [],
      gd_Dungeon = 0, gd_VoteKickCooldown = word_of_int (now + 15 * 60),
      gd_KicksLeft = LFG_GROUP_MAX_KICKS, gd_VoteKickActive = False\<rparr>"

definition gd_IsLfgGroup :: "lfg_group_data \<Rightarrow> bool" where
  "gd_IsLfgGroup g \<longleftrightarrow> gd_OldState g \<noteq> LFG_STATE_NONE"

definition gd_SetState :: "lfg_state \<Rightarrow> lfg_group_data \<Rightarrow> lfg_group_data" where
  "gd_SetState st g =
     (let g1 = (if st = LFG_STATE_NONE then g\<lparr>gd_Dungeon := 0, gd_KicksLeft := LFG_GROUP_MAX_KICKS\<rparr> else g);
          g2 = (if st = LFG_STATE_NONE \<or> st = LFG_STATE_FINISHED_DUNGEON \<or> st = LFG_STATE_DUNGEON
                then g1\<lparr>gd_OldState := st\<rparr> else g1)
      in g2\<lparr>gd_State := st\<rparr>)"

definition gd_RestoreState :: "lfg_group_data \<Rightarrow> lfg_group_data" where
  "gd_RestoreState g = g\<lparr>gd_State := gd_OldState g\<rparr>"

text \<open>Inserting into a \<^verbatim>\<open>std::set\<close>.\<close>

fun set_put :: "'a::linorder \<Rightarrow> 'a list \<Rightarrow> 'a list" where
  "set_put x [] = [x]"
| "set_put x (y # ys) = (if x = y then y # ys else if x < y then x # y # ys else y # set_put x ys)"

definition gd_AddPlayer :: "uint64 \<Rightarrow> lfg_group_data \<Rightarrow> lfg_group_data" where
  "gd_AddPlayer guid g = g\<lparr>gd_Players := set_put guid (gd_Players g)\<rparr>"

definition gd_RemovePlayer :: "uint64 \<Rightarrow> lfg_group_data \<Rightarrow> uint8 \<times> lfg_group_data" where
  "gd_RemovePlayer guid g =
     (let g1 = g\<lparr>gd_Players := filter (\<lambda>x. x \<noteq> guid) (gd_Players g)\<rparr>
      in (of_nat (length (gd_Players g1)), g1))"

definition gd_DecreaseKicksLeft :: "lfg_group_data \<Rightarrow> lfg_group_data" where
  "gd_DecreaseKicksLeft g = (if gd_KicksLeft g \<noteq> 0 then g\<lparr>gd_KicksLeft := gd_KicksLeft g - 1\<rparr> else g)"

definition gd_GetDungeon :: "bool \<Rightarrow> lfg_group_data \<Rightarrow> uint32" where
  "gd_GetDungeon asId g = (if asId then gd_Dungeon g AND 0x00FFFFFF else gd_Dungeon g)"

section \<open>Queues, proposals, role checks and votes\<close>

datatype lfg_compatibility =
    LFG_COMPATIBILITY_PENDING | LFG_INCOMPATIBLES_WRONG_GROUP_SIZE | LFG_INCOMPATIBLES_TOO_MUCH_PLAYERS
  | LFG_INCOMPATIBLES_MULTIPLE_LFG_GROUPS | LFG_INCOMPATIBLES_HAS_IGNORES | LFG_INCOMPATIBLES_NO_ROLES
  | LFG_INCOMPATIBLES_NO_DUNGEONS | LFG_COMPATIBLES_WITH_LESS_PLAYERS | LFG_COMPATIBLES_BAD_STATES
  | LFG_COMPATIBLES_MATCH

fun compat_num :: "lfg_compatibility \<Rightarrow> nat" where
  "compat_num LFG_COMPATIBILITY_PENDING = 0"
| "compat_num LFG_INCOMPATIBLES_WRONG_GROUP_SIZE = 1"
| "compat_num LFG_INCOMPATIBLES_TOO_MUCH_PLAYERS = 2"
| "compat_num LFG_INCOMPATIBLES_MULTIPLE_LFG_GROUPS = 3"
| "compat_num LFG_INCOMPATIBLES_HAS_IGNORES = 4"
| "compat_num LFG_INCOMPATIBLES_NO_ROLES = 5"
| "compat_num LFG_INCOMPATIBLES_NO_DUNGEONS = 6"
| "compat_num LFG_COMPATIBLES_WITH_LESS_PLAYERS = 7"
| "compat_num LFG_COMPATIBLES_BAD_STATES = 8"
| "compat_num LFG_COMPATIBLES_MATCH = 9"

lemma compat_num_inj: "compat_num a = compat_num b \<Longrightarrow> a = b"
  by (cases a; cases b) simp_all

instantiation lfg_compatibility :: linorder
begin

definition less_eq_lfg_compatibility :: "lfg_compatibility \<Rightarrow> lfg_compatibility \<Rightarrow> bool" where
  "less_eq_lfg_compatibility a b \<longleftrightarrow> compat_num a \<le> compat_num b"

definition less_lfg_compatibility :: "lfg_compatibility \<Rightarrow> lfg_compatibility \<Rightarrow> bool" where
  "less_lfg_compatibility a b \<longleftrightarrow> compat_num a < compat_num b"

instance
  by standard (auto simp: less_eq_lfg_compatibility_def less_lfg_compatibility_def dest: compat_num_inj)

end

record lfg_queue_data =
  qd_joinTime :: int
  qd_tanks :: uint8
  qd_healers :: uint8
  qd_dps :: uint8
  qd_dungeons :: "uint32 list"
  qd_roles :: roles_map
  qd_bestCompatible :: string

record lfg_wait_time =
  wt_time :: int32
  wt_number :: uint32

record lfg_queue =
  QueueDataStore :: "(uint64 \<times> lfg_queue_data) list"
  CompatibleMapStore :: "(string \<times> lfg_compatibility \<times> roles_map) list"
  waitTimesAvgStore :: "(uint32 \<times> lfg_wait_time) list"
  waitTimesTankStore :: "(uint32 \<times> lfg_wait_time) list"
  waitTimesHealerStore :: "(uint32 \<times> lfg_wait_time) list"
  waitTimesDpsStore :: "(uint32 \<times> lfg_wait_time) list"
  currentQueueStore :: "uint64 list"
  newToQueueStore :: "uint64 list"

definition LFGQueue_new :: lfg_queue where
  "LFGQueue_new = \<lparr>QueueDataStore = [], CompatibleMapStore = [], waitTimesAvgStore = [],
     waitTimesTankStore = [], waitTimesHealerStore = [], waitTimesDpsStore = [], currentQueueStore = [],
     newToQueueStore = []\<rparr>"

record lfg_proposal_player =
  pp_role :: uint8
  pp_accept :: lfg_answer
  pp_group :: uint64

datatype lfg_proposal_state = LFG_PROPOSAL_INITIATING | LFG_PROPOSAL_FAILED | LFG_PROPOSAL_SUCCESS

record lfg_proposal =
  lp_id :: uint32
  lp_dungeonId :: uint32
  lp_state :: lfg_proposal_state
  lp_group :: uint64
  lp_leader :: uint64
  lp_cancelTime :: int
  lp_isNew :: bool
  lp_queues :: "uint64 list"
  lp_players :: "(uint64 \<times> lfg_proposal_player) list"

datatype lfg_role_check_state =
    LFG_ROLECHECK_DEFAULT | LFG_ROLECHECK_FINISHED | LFG_ROLECHECK_INITIALITING
  | LFG_ROLECHECK_MISSING_ROLE | LFG_ROLECHECK_WRONG_ROLES | LFG_ROLECHECK_ABORTED | LFG_ROLECHECK_NO_ROLE

record lfg_role_check =
  rc_cancelTime :: int
  rc_roles :: roles_map
  rc_state :: lfg_role_check_state
  rc_dungeons :: "uint32 list"
  rc_rDungeonId :: uint32
  rc_leader :: uint64
  rc_isBeginning :: bool

record lfg_player_boot =
  lb_cancelTime :: int
  lb_inProgress :: bool
  lb_votes :: "(uint64 \<times> lfg_answer) list"
  lb_victim :: uint64
  lb_reason :: string


section \<open>The manager\<close>

datatype lfg_update_type =
    LFG_UPDATETYPE_DEFAULT | LFG_UPDATETYPE_LEADER_UNK1 | LFG_UPDATETYPE_JOIN_QUEUE | LFG_UPDATETYPE_ROLECHECK_FAILED
  | LFG_UPDATETYPE_REMOVED_FROM_QUEUE | LFG_UPDATETYPE_PROPOSAL_FAILED | LFG_UPDATETYPE_PROPOSAL_DECLINED
  | LFG_UPDATETYPE_GROUP_FOUND | LFG_UPDATETYPE_ADDED_TO_QUEUE | LFG_UPDATETYPE_PROPOSAL_BEGIN
  | LFG_UPDATETYPE_UPDATE_STATUS

datatype lfg_join_result =
    LFG_JOIN_OK | LFG_JOIN_FAILED | LFG_JOIN_INTERNAL_ERROR | LFG_JOIN_NOT_MEET_REQS
  | LFG_JOIN_MIXED_RAID_DUNGEON | LFG_JOIN_DISCONNECTED | LFG_JOIN_DUNGEON_INVALID | LFG_JOIN_DESERTER
  | LFG_JOIN_PARTY_DESERTER | LFG_JOIN_RANDOM_COOLDOWN | LFG_JOIN_PARTY_RANDOM_COOLDOWN
  | LFG_JOIN_TOO_MUCH_MEMBERS | LFG_JOIN_USING_BG_SYSTEM | LFG_JOIN_ROLE_CHECK_FAILED

record lfg_update_data =
  ud_updateType :: lfg_update_type
  ud_state :: lfg_state
  ud_dungeons :: "uint32 list"
  ud_comment :: string

record lfg_queue_status =
  qs_queueId :: uint8
  qs_dungeonId :: uint32
  qs_joinTime :: int
  qs_waitTime :: int32
  qs_waitTimeAvg :: int32
  qs_waitTimeTank :: int32
  qs_waitTimeHealer :: int32
  qs_waitTimeDps :: int32
  qs_queuedTime :: uint32
  qs_tanks :: uint8
  qs_healers :: uint8
  qs_dps :: uint8

datatype lfg_out =
    SendRoleChosen uint64 uint64 uint8
  | SendRoleCheckUpdate uint64 lfg_role_check
  | SendUpdateStatus uint64 lfg_update_data bool
  | SendJoinResult uint64 lfg_join_result lfg_role_check_state
  | SendBootProposalUpdate uint64 lfg_player_boot
  | SendUpdateProposal uint64 lfg_proposal
  | SendQueueStatus uint64 lfg_queue_status
  | CastDeserter uint64
  | CastLongDeserter uint64
  | TeleportOut uint64
  | SendOfferContinue uint64 uint32
  | SendReasonNeeded uint64 string uint64
  | SendLfrListOff uint64

record lfg_mgr =
  lm_players :: "uint64 \<Rightarrow> lfg_player_data"
  lm_groups :: "uint64 \<Rightarrow> lfg_group_data option"
  lm_queues :: "(uint8 \<times> lfg_queue) list"
  lm_proposals :: "(uint32 \<times> lfg_proposal) list"
  lm_roleChecks :: "(uint64 \<times> lfg_role_check) list"
  lm_boots :: "(uint64 \<times> lfg_player_boot) list"
  lm_proposalId :: uint32
  lm_queueTimer :: uint32
  lm_options :: uint32
  lm_callToArmsRoles :: uint8
  lm_out :: "lfg_out list"
  lm_rand :: "nat \<Rightarrow> nat"

text \<open>
  The environment: the clock, the players online and whom they ignore, the dungeons; whether a
  group is a raid finder group; and two operations of other components that act on the state of
  the dungeon finder through its group hooks: making the group of a proposal, and removing a
  player from his group.
\<close>

record lfg_env =
  le_now :: int
  le_online :: "uint64 \<Rightarrow> bool"
  le_ignores :: "uint64 \<Rightarrow> uint32 \<Rightarrow> bool"
  GetLFGDungeon :: "uint32 \<Rightarrow> lfg_dungeon option"
  CachedDungeonMapStore :: "uint8 \<Rightarrow> uint32 list"
  le_isLFRGroup :: "uint32 \<Rightarrow> bool option"
  MakeNewGroup :: "lfg_proposal \<Rightarrow> lfg_mgr \<Rightarrow> lfg_mgr"
  RemoveFromGroup :: "uint32 \<Rightarrow> uint64 \<Rightarrow> lfg_mgr \<Rightarrow> lfg_mgr"

definition draw :: "nat \<Rightarrow> lfg_mgr \<Rightarrow> nat \<times> lfg_mgr" where
  "draw n m = (lm_rand m 0 mod n, m\<lparr>lm_rand := lm_rand m \<circ> Suc\<rparr>)"

definition lm_emit :: "lfg_out list \<Rightarrow> lfg_mgr \<Rightarrow> lfg_mgr" where
  "lm_emit xs m = m\<lparr>lm_out := lm_out m @ xs\<rparr>"

definition lm_send :: "lfg_env \<Rightarrow> uint64 \<Rightarrow> lfg_out \<Rightarrow> lfg_mgr \<Rightarrow> lfg_mgr" where
  "lm_send E guid x m = (if le_online E guid then lm_emit [x] m else m)"

definition GUID_HIPART :: "uint64 \<Rightarrow> uint32" where
  "GUID_HIPART guid =
     (let t = ucast (drop_bit 48 guid AND 0xFFFF) :: uint32
      in if t = 0xF101 \<or> t = 0xF102 then t else drop_bit 4 t AND 0xFFF)"

definition GUID_LOPART :: "uint64 \<Rightarrow> uint32" where
  "GUID_LOPART guid = ucast (guid AND 0xFFFFFFFF)"

definition IS_GROUP_GUID :: "uint64 \<Rightarrow> bool" where
  "IS_GROUP_GUID guid \<longleftrightarrow> GUID_HIPART guid = 0x1F5"

definition group_at :: "lfg_env \<Rightarrow> uint64 \<Rightarrow> lfg_mgr \<Rightarrow> lfg_group_data" where
  "group_at E g m = (case lm_groups m g of None \<Rightarrow> LfgGroupData_new (le_now E) | Some d \<Rightarrow> d)"

definition upd_group :: "lfg_env \<Rightarrow> uint64 \<Rightarrow> (lfg_group_data \<Rightarrow> lfg_group_data) \<Rightarrow> lfg_mgr \<Rightarrow> lfg_mgr" where
  "upd_group E g f m = m\<lparr>lm_groups := (lm_groups m)(g \<mapsto> f (group_at E g m))\<rparr>"

definition see_group :: "lfg_env \<Rightarrow> uint64 \<Rightarrow> lfg_mgr \<Rightarrow> lfg_mgr" where
  "see_group E g m = upd_group E g (\<lambda>d. d) m"

definition upd_player :: "uint64 \<Rightarrow> (lfg_player_data \<Rightarrow> lfg_player_data) \<Rightarrow> lfg_mgr \<Rightarrow> lfg_mgr" where
  "upd_player g f m = m\<lparr>lm_players := (lm_players m)(g := f (lm_players m g))\<rparr>"

text \<open>Reads that may create a group entry: the value, and the state after the read.\<close>

definition see_state :: "lfg_env \<Rightarrow> uint64 \<Rightarrow> lfg_mgr \<Rightarrow> lfg_mgr" where
  "see_state E guid m = (if IS_GROUP_GUID guid then see_group E guid m else m)"

definition lfg_GetState :: "lfg_env \<Rightarrow> uint64 \<Rightarrow> lfg_mgr \<Rightarrow> lfg_state" where
  "lfg_GetState E guid m =
     (if IS_GROUP_GUID guid then gd_State (group_at E guid m) else pd_State (lm_players m guid))"

definition GetOldState :: "lfg_env \<Rightarrow> uint64 \<Rightarrow> lfg_mgr \<Rightarrow> lfg_state" where
  "GetOldState E guid m =
     (if IS_GROUP_GUID guid then gd_OldState (group_at E guid m) else pd_OldState (lm_players m guid))"

definition lfg_SetState :: "lfg_env \<Rightarrow> uint64 \<Rightarrow> lfg_state \<Rightarrow> lfg_mgr \<Rightarrow> lfg_mgr" where
  "lfg_SetState E guid st m =
     (if IS_GROUP_GUID guid then upd_group E guid (gd_SetState st) m
      else upd_player guid (pd_SetState st) m)"

definition RestoreState :: "lfg_env \<Rightarrow> uint64 \<Rightarrow> lfg_mgr \<Rightarrow> lfg_mgr" where
  "RestoreState E guid m =
     (if IS_GROUP_GUID guid then upd_group E guid gd_RestoreState m
      else upd_player guid pd_RestoreState m)"

definition SetVoteKick :: "lfg_env \<Rightarrow> uint64 \<Rightarrow> bool \<Rightarrow> lfg_mgr \<Rightarrow> lfg_mgr" where
  "SetVoteKick E g active m = upd_group E g (\<lambda>d. d\<lparr>gd_VoteKickActive := active\<rparr>) m"

definition SetVoteKickCooldown :: "lfg_env \<Rightarrow> uint64 \<Rightarrow> uint32 \<Rightarrow> lfg_mgr \<Rightarrow> lfg_mgr" where
  "SetVoteKickCooldown E g t m = upd_group E g (\<lambda>d. d\<lparr>gd_VoteKickCooldown := t\<rparr>) m"

definition DecreaseKicksLeft :: "lfg_env \<Rightarrow> uint64 \<Rightarrow> lfg_mgr \<Rightarrow> lfg_mgr" where
  "DecreaseKicksLeft E g m = upd_group E g gd_DecreaseKicksLeft m"

definition SetDungeon :: "lfg_env \<Rightarrow> uint64 \<Rightarrow> uint32 \<Rightarrow> lfg_mgr \<Rightarrow> lfg_mgr" where
  "SetDungeon E g dungeon m = upd_group E g (\<lambda>d. d\<lparr>gd_Dungeon := dungeon\<rparr>) m"

definition SetLeader :: "lfg_env \<Rightarrow> uint64 \<Rightarrow> uint64 \<Rightarrow> lfg_mgr \<Rightarrow> lfg_mgr" where
  "SetLeader E g leader m = upd_group E g (\<lambda>d. d\<lparr>gd_Leader := leader\<rparr>) m"

definition AddPlayerToGroup :: "lfg_env \<Rightarrow> uint64 \<Rightarrow> uint64 \<Rightarrow> lfg_mgr \<Rightarrow> lfg_mgr" where
  "AddPlayerToGroup E g guid m = upd_group E g (gd_AddPlayer guid) m"

definition RemovePlayerFromGroup :: "lfg_env \<Rightarrow> uint64 \<Rightarrow> uint64 \<Rightarrow> lfg_mgr \<Rightarrow> uint8 \<times> lfg_mgr" where
  "RemovePlayerFromGroup E g guid m =
     (fst (gd_RemovePlayer guid (group_at E g m)), upd_group E g (snd \<circ> gd_RemovePlayer guid) m)"

definition lfg_SetRoles :: "uint64 \<Rightarrow> uint8 \<Rightarrow> lfg_mgr \<Rightarrow> lfg_mgr" where
  "lfg_SetRoles guid roles m = upd_player guid (\<lambda>p. p\<lparr>pd_Roles := roles\<rparr>) m"

definition SetComment :: "uint64 \<Rightarrow> string \<Rightarrow> lfg_mgr \<Rightarrow> lfg_mgr" where
  "SetComment guid c m = upd_player guid (\<lambda>p. p\<lparr>pd_Comment := c\<rparr>) m"

definition SetSelectedDungeons :: "uint64 \<Rightarrow> uint32 list \<Rightarrow> lfg_mgr \<Rightarrow> lfg_mgr" where
  "SetSelectedDungeons guid ds m = upd_player guid (\<lambda>p. p\<lparr>pd_SelectedDungeons := ds\<rparr>) m"

definition SetGroup :: "uint64 \<Rightarrow> uint64 \<Rightarrow> lfg_mgr \<Rightarrow> lfg_mgr" where
  "SetGroup guid g m = upd_player guid (\<lambda>p. p\<lparr>pd_Group := g\<rparr>) m"

definition RemovePlayerData :: "uint64 \<Rightarrow> lfg_mgr \<Rightarrow> lfg_mgr" where
  "RemovePlayerData guid m = upd_player guid (\<lambda>_. LfgPlayerData_new) m"

definition update_data :: "lfg_update_type \<Rightarrow> lfg_update_data" where
  "update_data t = \<lparr>ud_updateType = t, ud_state = LFG_STATE_NONE, ud_dungeons = [], ud_comment = []\<rparr>"

definition update_data_for :: "lfg_update_type \<Rightarrow> uint32 list \<Rightarrow> string \<Rightarrow> lfg_update_data" where
  "update_data_for t ds c = (update_data t)\<lparr>ud_dungeons := ds, ud_comment := c\<rparr>"

text \<open>An absent entry stays absent; the players of a group being formed keep their state.\<close>

definition RemoveGroupData :: "lfg_env \<Rightarrow> uint64 \<Rightarrow> lfg_mgr \<Rightarrow> lfg_mgr" where
  "RemoveGroupData E g m =
     (case lm_groups m g of
        None \<Rightarrow> m
      | Some d \<Rightarrow>
          let st = lfg_GetState E g m;
              m1 = fold (\<lambda>p m'.
                let m2 = SetGroup p 0 m'
                in if st \<noteq> LFG_STATE_PROPOSAL
                   then lm_send E p (SendUpdateStatus p (update_data LFG_UPDATETYPE_REMOVED_FROM_QUEUE) True)
                          (lfg_SetState E p LFG_STATE_NONE m2)
                   else m2) (gd_Players d) m
          in m1\<lparr>lm_groups := (lm_groups m1)(g := None)\<rparr>)"

definition SetupGroupMember :: "lfg_env \<Rightarrow> uint64 \<Rightarrow> uint64 \<Rightarrow> lfg_mgr \<Rightarrow> lfg_mgr" where
  "SetupGroupMember E guid g m =
     (let m1 = SetSelectedDungeons guid [gd_GetDungeon True (group_at E g m)] (see_group E g m);
          m2 = lfg_SetState E guid (lfg_GetState E g m1) (see_state E g m1)
      in AddPlayerToGroup E g guid (SetGroup guid g m2))"

definition HasIgnore :: "lfg_env \<Rightarrow> uint64 \<Rightarrow> uint64 \<Rightarrow> bool" where
  "HasIgnore E g1 g2 \<longleftrightarrow>
     le_online E g1 \<and> le_online E g2 \<and> (le_ignores E g1 (GUID_LOPART g2) \<or> le_ignores E g2 (GUID_LOPART g1))"

definition IsLfgGroup :: "lfg_env \<Rightarrow> uint64 \<Rightarrow> lfg_mgr \<Rightarrow> bool" where
  "IsLfgGroup E guid m \<longleftrightarrow> guid \<noteq> 0 \<and> IS_GROUP_GUID guid \<and> gd_IsLfgGroup (group_at E guid m)"

fun AllQueued_loop :: "lfg_env \<Rightarrow> uint64 list \<Rightarrow> lfg_mgr \<Rightarrow> bool \<times> lfg_mgr" where
  "AllQueued_loop E [] m = (True, m)"
| "AllQueued_loop E (g # gs) m =
     (if lfg_GetState E g m \<noteq> LFG_STATE_QUEUED then (False, see_state E g m)
      else AllQueued_loop E gs (see_state E g m))"

definition AllQueued :: "lfg_env \<Rightarrow> uint64 list \<Rightarrow> lfg_mgr \<Rightarrow> bool \<times> lfg_mgr" where
  "AllQueued E check m = (if check = [] then (False, m) else AllQueued_loop E check m)"

definition AddProposal :: "lfg_proposal \<Rightarrow> lfg_mgr \<Rightarrow> lfg_mgr" where
  "AddProposal p m =
     (let i = lm_proposalId m + 1
      in m\<lparr>lm_proposalId := i, lm_proposals := om_put i (p\<lparr>lp_id := i\<rparr>) (lm_proposals m)\<rparr>)"

end
