(* ===== verification/LFG_Queue.thy ===== *)
theory LFG_Queue
  imports LFG_Data
begin

text \<open>
  The queues of the dungeon finder: \<^verbatim>\<open>game/DungeonFinding/LFGQueue.cpp\<close>.  A queue holds the data of every
  player or group that waits, two lists of their GUIDs, and a cache that maps a set of GUIDs,
  written as a string, to what was found out about it.  Operations that ask the manager take
  its state as an argument; none of them touches the manager's store of queues.
\<close>

section \<open>Keys\<close>

definition guid_str :: "uint64 \<Rightarrow> string" where
  "guid_str g = dec_str (unat g)"

fun join_bar :: "string list \<Rightarrow> string" where
  "join_bar [] = []"
| "join_bar [x] = x"
| "join_bar (x # y # xs) = x @ ''|'' @ join_bar (y # xs)"

definition ConcatenateGuids :: "uint64 list \<Rightarrow> string" where
  "ConcatenateGuids check = join_bar (map guid_str (fold set_put check []))"

section \<open>Queue data\<close>

definition InitializeGroupSetup :: "lfg_env \<Rightarrow> lfg_queue_data \<Rightarrow> lfg_queue_data" where
  "InitializeGroupSetup E d =
     (case qd_dungeons d of
        [] \<Rightarrow> d\<lparr>qd_tanks := - 1, qd_healers := - 1, qd_dps := - 1\<rparr>
      | x # _ \<Rightarrow>
          (case GetLFGDungeon E x of
             None \<Rightarrow> d\<lparr>qd_tanks := - 1, qd_healers := - 1, qd_dps := - 1\<rparr>
           | Some ld \<Rightarrow> d\<lparr>qd_tanks := ucast (ld_requiredTanks ld), qd_healers := ucast (ld_requiredHeals ld),
                          qd_dps := ucast (ld_requiredDamagedealers ld)\<rparr>))"

definition LfgQueueData_init :: "lfg_env \<Rightarrow> int \<Rightarrow> uint32 list \<Rightarrow> roles_map \<Rightarrow> lfg_queue_data" where
  "LfgQueueData_init E t ds rs =
     InitializeGroupSetup E \<lparr>qd_joinTime = t, qd_tanks = 0, qd_healers = 0, qd_dps = 0, qd_dungeons = ds,
       qd_roles = rs, qd_bestCompatible = []\<rparr>"

definition data_at :: "lfg_env \<Rightarrow> uint64 \<Rightarrow> lfg_queue \<Rightarrow> lfg_queue_data" where
  "data_at E g q = (case map_of (QueueDataStore q) g of
     None \<Rightarrow> LfgQueueData_init E (le_now E) [] [] | Some d \<Rightarrow> d)"

text \<open>\<^verbatim>\<open>QueueDataStore[guid]\<close>.\<close>

definition touch_data :: "lfg_env \<Rightarrow> uint64 \<Rightarrow> lfg_queue \<Rightarrow> lfg_queue" where
  "touch_data E g q = q\<lparr>QueueDataStore := om_put g (data_at E g q) (QueueDataStore q)\<rparr>"

definition AddToNewQueue :: "uint64 \<Rightarrow> lfg_queue \<Rightarrow> lfg_queue" where
  "AddToNewQueue g q = q\<lparr>newToQueueStore := newToQueueStore q @ [g]\<rparr>"

definition RemoveFromNewQueue :: "uint64 \<Rightarrow> lfg_queue \<Rightarrow> lfg_queue" where
  "RemoveFromNewQueue g q = q\<lparr>newToQueueStore := filter (\<lambda>x. x \<noteq> g) (newToQueueStore q)\<rparr>"

definition AddToCurrentQueue :: "uint64 \<Rightarrow> lfg_queue \<Rightarrow> lfg_queue" where
  "AddToCurrentQueue g q = q\<lparr>currentQueueStore := currentQueueStore q @ [g]\<rparr>"

definition RemoveFromCurrentQueue :: "uint64 \<Rightarrow> lfg_queue \<Rightarrow> lfg_queue" where
  "RemoveFromCurrentQueue g q = q\<lparr>currentQueueStore := filter (\<lambda>x. x \<noteq> g) (currentQueueStore q)\<rparr>"

definition AddToQueue :: "uint64 \<Rightarrow> lfg_queue \<Rightarrow> lfg_queue" where
  "AddToQueue g q = (if map_of (QueueDataStore q) g = None then q else AddToNewQueue g q)"

definition AddQueueData ::
  "lfg_env \<Rightarrow> uint64 \<Rightarrow> int \<Rightarrow> uint32 list \<Rightarrow> roles_map \<Rightarrow> lfg_queue \<Rightarrow> lfg_queue" where
  "AddQueueData E g t ds rs q =
     AddToQueue g (q\<lparr>QueueDataStore := om_put g (LfgQueueData_init E t ds rs) (QueueDataStore q)\<rparr>)"

definition RemoveQueueData :: "uint64 \<Rightarrow> lfg_queue \<Rightarrow> lfg_queue" where
  "RemoveQueueData g q = q\<lparr>QueueDataStore := om_del g (QueueDataStore q)\<rparr>"

definition GetJoinTime :: "uint64 \<Rightarrow> lfg_queue \<Rightarrow> int" where
  "GetJoinTime g q = (case map_of (QueueDataStore q) g of None \<Rightarrow> 0 | Some d \<Rightarrow> qd_joinTime d)"

text \<open>
  The four running averages.  \<^verbatim>\<open>wt.time * old_number + waitTime\<close> is computed in \<^verbatim>\<open>uint32\<close>, and so is the
  division.
\<close>

definition wait_time_at :: "uint32 \<Rightarrow> (uint32 \<times> lfg_wait_time) list \<Rightarrow> lfg_wait_time" where
  "wait_time_at i w = (case map_of w i of None \<Rightarrow> \<lparr>wt_time = - 1, wt_number = 0\<rparr> | Some x \<Rightarrow> x)"

definition update_wait_time ::
  "int32 \<Rightarrow> uint32 \<Rightarrow> (uint32 \<times> lfg_wait_time) list \<Rightarrow> (uint32 \<times> lfg_wait_time) list" where
  "update_wait_time waitTime i w =
     (let wt = wait_time_at i w
      in om_put i \<lparr>wt_time = (wt_time wt * wt_number wt + waitTime) div (wt_number wt + 1),
                   wt_number = wt_number wt + 1\<rparr> w)"

definition UpdateWaitTimeAvg :: "int32 \<Rightarrow> uint32 \<Rightarrow> lfg_queue \<Rightarrow> lfg_queue" where
  "UpdateWaitTimeAvg t i q = q\<lparr>waitTimesAvgStore := update_wait_time t i (waitTimesAvgStore q)\<rparr>"

definition UpdateWaitTimeTank :: "int32 \<Rightarrow> uint32 \<Rightarrow> lfg_queue \<Rightarrow> lfg_queue" where
  "UpdateWaitTimeTank t i q = q\<lparr>waitTimesTankStore := update_wait_time t i (waitTimesTankStore q)\<rparr>"

definition UpdateWaitTimeHealer :: "int32 \<Rightarrow> uint32 \<Rightarrow> lfg_queue \<Rightarrow> lfg_queue" where
  "UpdateWaitTimeHealer t i q = q\<lparr>waitTimesHealerStore := update_wait_time t i (waitTimesHealerStore q)\<rparr>"

definition UpdateWaitTimeDps :: "int32 \<Rightarrow> uint32 \<Rightarrow> lfg_queue \<Rightarrow> lfg_queue" where
  "UpdateWaitTimeDps t i q = q\<lparr>waitTimesDpsStore := update_wait_time t i (waitTimesDpsStore q)\<rparr>"

section \<open>The cache\<close>

definition RemoveFromCompatibles :: "uint64 \<Rightarrow> lfg_queue \<Rightarrow> lfg_queue" where
  "RemoveFromCompatibles g q =
     q\<lparr>CompatibleMapStore := filter (\<lambda>e. \<not> str_contains (guid_str g) (fst e)) (CompatibleMapStore q)\<rparr>"

definition SetCompatibles :: "string \<Rightarrow> lfg_compatibility \<Rightarrow> lfg_queue \<Rightarrow> lfg_queue" where
  "SetCompatibles key c q =
     q\<lparr>CompatibleMapStore := om_put key
         (c, case map_of (CompatibleMapStore q) key of None \<Rightarrow> [] | Some x \<Rightarrow> snd x) (CompatibleMapStore q)\<rparr>"

definition SetCompatibilityData :: "string \<Rightarrow> lfg_compatibility \<times> roles_map \<Rightarrow> lfg_queue \<Rightarrow> lfg_queue" where
  "SetCompatibilityData key x q = q\<lparr>CompatibleMapStore := om_put key x (CompatibleMapStore q)\<rparr>"

definition GetCompatibles :: "string \<Rightarrow> lfg_queue \<Rightarrow> lfg_compatibility" where
  "GetCompatibles key q =
     (case map_of (CompatibleMapStore q) key of None \<Rightarrow> LFG_COMPATIBILITY_PENDING | Some x \<Rightarrow> fst x)"

definition need_one :: "uint8 \<Rightarrow> lfg_queue_data \<Rightarrow> lfg_queue_data" where
  "need_one role d =
     (if role AND PLAYER_ROLE_TANK \<noteq> 0 \<and> qd_tanks d \<noteq> 0 then d\<lparr>qd_tanks := qd_tanks d - 1\<rparr>
      else if role AND PLAYER_ROLE_HEALER \<noteq> 0 \<and> qd_healers d \<noteq> 0 then d\<lparr>qd_healers := qd_healers d - 1\<rparr>
      else if qd_dps d \<noteq> 0 then d\<lparr>qd_dps := qd_dps d - 1\<rparr> else d)"

definition key_size :: "string \<Rightarrow> uint8" where
  "key_size key = of_nat (count_list key (CHR ''|'') + 1)"

text \<open>\<^verbatim>\<open>UpdateBestCompatibleInQueue\<close>, on the entry of the iterator.\<close>

definition update_best :: "lfg_env \<Rightarrow> string \<Rightarrow> roles_map \<Rightarrow> lfg_queue_data \<Rightarrow> lfg_queue_data" where
  "update_best E key roles d =
     (let stored = (if qd_bestCompatible d = [] then 0 else key_size (qd_bestCompatible d))
      in if key_size key \<le> stored then d
         else fold (\<lambda>r. need_one (snd r)) roles (InitializeGroupSetup E (d\<lparr>qd_bestCompatible := key\<rparr>)))"

definition find_best :: "lfg_env \<Rightarrow> lfg_queue \<Rightarrow> uint64 \<Rightarrow> lfg_queue_data \<Rightarrow> lfg_queue_data" where
  "find_best E q g d =
     fold (\<lambda>e d'. if fst (snd e) = LFG_COMPATIBLES_WITH_LESS_PLAYERS \<and> str_contains (guid_str g) (fst e)
                  then update_best E (fst e) (snd (snd e)) d' else d')
       (CompatibleMapStore q) d"

definition RemoveFromQueue :: "lfg_env \<Rightarrow> uint64 \<Rightarrow> lfg_queue \<Rightarrow> lfg_queue" where
  "RemoveFromQueue E g q =
     (let q1 = RemoveFromCompatibles g (RemoveFromCurrentQueue g (RemoveFromNewQueue g q));
          store = map (\<lambda>e. (fst e,
                    if fst e \<noteq> g \<and> str_contains (guid_str g) (qd_bestCompatible (snd e))
                    then find_best E q1 (fst e) ((snd e)\<lparr>qd_bestCompatible := []\<rparr>) else snd e))
                  (QueueDataStore q1)
      in q1\<lparr>QueueDataStore := om_del g store\<rparr>)"


section \<open>Compatibility\<close>

text \<open>The random choice of a dungeon that exists, among those all want.\<close>

function pick_dungeon :: "lfg_env \<Rightarrow> uint32 list \<Rightarrow> lfg_mgr \<Rightarrow> (uint32 \<times> lfg_dungeon) option \<times> lfg_mgr" where
  "pick_dungeon E ds m =
     (if ds = [] then (None, m)
      else case draw (length ds) m of (k, m1) \<Rightarrow>
             case GetLFGDungeon E (ds ! k) of
               Some d \<Rightarrow> (Some (ds ! k, d), m1)
             | None \<Rightarrow> pick_dungeon E (take k ds @ drop (Suc k) ds) m1)"
  by pat_completeness auto
termination
  by (relation "measure (\<lambda>(E, ds, m). length ds)") 
    (auto simp: draw_def min_def, metis length_greater_0_conv mod_less_divisor not_le)

declare pick_dungeon.simps [simp del]

definition common_dungeons :: "lfg_env \<Rightarrow> uint64 list \<Rightarrow> lfg_queue \<Rightarrow> uint32 list" where
  "common_dungeons E check q =
     fold (\<lambda>g ds. filter (\<lambda>x. x \<in> set (qd_dungeons (data_at E g q))) ds) (tl check)
       (qd_dungeons (data_at E (hd check) q))"

record lfg_count =
  ct_numPlayers :: uint8
  ct_numLfgGroups :: uint8
  ct_groups :: "(uint64 \<times> uint64) list"
  ct_group :: uint64

text \<open>
  The loop that counts players and groups; a GUID without queue data ends it (and with it the
  check) after that GUID was removed from the queue.
\<close>

fun count_loop ::
  "lfg_env \<Rightarrow> lfg_dungeon \<Rightarrow> uint64 list \<Rightarrow> lfg_count \<Rightarrow> lfg_queue \<Rightarrow> lfg_mgr
     \<Rightarrow> uint64 option \<times> lfg_count \<times> lfg_mgr" where
  "count_loop E d [] c q m = (None, c, m)"
| "count_loop E d (g # gs) c q m =
     (if ct_numLfgGroups c \<le> 1 \<and> ucast (ct_numPlayers c) \<le> GetMaxGroupSize d
      then case map_of (QueueDataStore q) g of
             None \<Rightarrow> (Some g, c, m)
           | Some qd \<Rightarrow>
               let lfg = IsLfgGroup E g m;
                   m1 = (if g \<noteq> 0 \<and> IS_GROUP_GUID g then see_group E g m else m);
                   c1 = c\<lparr>ct_groups := fold (\<lambda>r. om_put (fst r) (if IS_GROUP_GUID g then g else 0))
                                          (qd_roles qd) (ct_groups c),
                          ct_numPlayers := ct_numPlayers c + of_nat (length (qd_roles qd))\<rparr>;
                   c2 = (if lfg then c1\<lparr>ct_group := (if ct_numLfgGroups c = 0 then g else ct_group c),
                                        ct_numLfgGroups := ct_numLfgGroups c + 1\<rparr> else c1)
               in count_loop E d gs c2 q m1
      else (None, c, m))"

text \<open>A player whom a player taken before ignores, or who ignores him, is left out.\<close>

definition merge_role :: "lfg_env \<Rightarrow> uint64 \<times> uint8 \<Rightarrow> roles_map \<Rightarrow> roles_map" where
  "merge_role E r rs =
     (if \<exists>x \<in> set rs. fst x \<noteq> fst r \<and> HasIgnore E (fst r) (fst x) then rs else om_put (fst r) (snd r) rs)"

definition merge_roles :: "lfg_env \<Rightarrow> uint64 list \<Rightarrow> lfg_queue \<Rightarrow> roles_map" where
  "merge_roles E check q = fold (\<lambda>g rs. fold (merge_role E) (qd_roles (data_at E g q)) rs) check []"

text \<open>The leader of a proposal: a draw among those who want to lead, or among all.\<close>

fun pick_leader :: "roles_map \<Rightarrow> bool \<Rightarrow> uint64 \<Rightarrow> lfg_mgr \<Rightarrow> uint64 \<times> lfg_mgr" where
  "pick_leader [] leader l m = (l, m)"
| "pick_leader (r # rs) leader l m =
     (if snd r AND PLAYER_ROLE_LEADER \<noteq> 0 then
        if \<not> leader \<or> l = 0 then pick_leader rs True (fst r) m
        else case draw 2 m of (k, m1) \<Rightarrow> pick_leader rs True (if k \<noteq> 0 then fst r else l) m1
      else if \<not> leader then
        if l = 0 then pick_leader rs leader (fst r) m
        else case draw 2 m of (k, m1) \<Rightarrow> pick_leader rs leader (if k \<noteq> 0 then fst r else l) m1
      else pick_leader rs leader l m)"

definition LFG_TIME_PROPOSAL :: int where "LFG_TIME_PROPOSAL = 45"

definition proposal_player :: "lfg_count \<Rightarrow> bool \<Rightarrow> uint64 \<times> uint8 \<Rightarrow> uint64 \<times> lfg_proposal_player" where
  "proposal_player c isNew r =
     (let g = (case map_of (ct_groups c) (fst r) of None \<Rightarrow> 0 | Some x \<Rightarrow> x)
      in (fst r, \<lparr>pp_role = snd r,
                  pp_accept = (if \<not> isNew \<and> g \<noteq> 0 \<and> g = ct_group c then LFG_ANSWER_AGREE else LFG_ANSWER_PENDING),
                  pp_group = g\<rparr>))"

text \<open>From the point on where the players are known to be enough.\<close>

definition make_proposal ::
  "lfg_env \<Rightarrow> uint64 list \<Rightarrow> uint32 \<Rightarrow> lfg_count \<Rightarrow> roles_map \<Rightarrow> lfg_queue \<Rightarrow> lfg_mgr
     \<Rightarrow> lfg_compatibility \<times> lfg_queue \<times> lfg_mgr" where
  "make_proposal E check dungeonId c roles q m =
     (let key = ConcatenateGuids check;
          isNew = (ct_numLfgGroups c \<noteq> 1 \<or> GetOldState E (hd check) m \<noteq> LFG_STATE_DUNGEON);
          m1 = (if ct_numLfgGroups c = 1 then see_state E (hd check) m else m)
      in case AllQueued E check m1 of (queued, m2) \<Rightarrow>
           if \<not> queued
           then (LFG_COMPATIBLES_BAD_STATES, SetCompatibles key LFG_COMPATIBLES_BAD_STATES q, m2)
           else case pick_leader roles False 0 m2 of (leader, m3) \<Rightarrow>
             let p = \<lparr>lp_id = 0, lp_dungeonId = dungeonId, lp_state = LFG_PROPOSAL_INITIATING,
                      lp_group = ct_group c, lp_leader = leader,
                      lp_cancelTime = le_now E + LFG_TIME_PROPOSAL, lp_isNew = isNew, lp_queues = check,
                      lp_players = map (proposal_player c isNew) roles\<rparr>;
                 q1 = fold (\<lambda>g. RemoveFromCurrentQueue g \<circ> RemoveFromNewQueue g) check q
             in (LFG_COMPATIBLES_MATCH, SetCompatibles key LFG_COMPATIBLES_MATCH q1, AddProposal p m3))"

definition check_roles ::
  "lfg_env \<Rightarrow> uint64 list \<Rightarrow> uint32 \<Rightarrow> lfg_dungeon \<Rightarrow> lfg_count \<Rightarrow> lfg_queue \<Rightarrow> lfg_mgr
     \<Rightarrow> lfg_compatibility \<times> lfg_queue \<times> lfg_mgr" where
  "check_roles E check dungeonId d c q m =
     (let key = ConcatenateGuids check;
          single = (length check = 1);
          merged = (if single then qd_roles (data_at E (hd check) q) else merge_roles E check q);
          (ok, roles) = CheckGroupRoles d merged
      in if \<not> single \<and> (word_of_int (uint (ct_numPlayers c) - int (length merged)) :: uint8) \<noteq> 0
         then (LFG_INCOMPATIBLES_HAS_IGNORES, SetCompatibles key LFG_INCOMPATIBLES_HAS_IGNORES q, m)
         else if \<not> single \<and> \<not> ok
         then (LFG_INCOMPATIBLES_NO_ROLES, SetCompatibles key LFG_INCOMPATIBLES_NO_ROLES q, m)
         else if ucast (ct_numPlayers c) \<noteq> GetMaxGroupSize d
         then let q1 = fold (\<lambda>g q'. q'\<lparr>QueueDataStore :=
                          map (\<lambda>e. if fst e = g then (g, update_best E key roles (snd e)) else e)
                            (QueueDataStore q')\<rparr>) check q
              in (LFG_COMPATIBLES_WITH_LESS_PLAYERS,
                  SetCompatibilityData key (LFG_COMPATIBLES_WITH_LESS_PLAYERS, roles) q1, m)
         else make_proposal E check dungeonId c roles q m)"

definition check_body ::
  "lfg_env \<Rightarrow> uint64 list \<Rightarrow> lfg_queue \<Rightarrow> lfg_mgr \<Rightarrow> lfg_compatibility \<times> lfg_queue \<times> lfg_mgr" where
  "check_body E check q m =
     (let key = ConcatenateGuids check;
          q1 = fold (touch_data E) check q
      in case pick_dungeon E (common_dungeons E check q1) m of
           (None, m1) \<Rightarrow> (LFG_INCOMPATIBLES_NO_DUNGEONS, SetCompatibles key LFG_INCOMPATIBLES_NO_DUNGEONS q1, m1)
         | (Some (i, d), m1) \<Rightarrow>
             if length check > unat (GetMaxGroupSize d) then (LFG_INCOMPATIBLES_WRONG_GROUP_SIZE, q1, m1)
             else case count_loop E d check
                         \<lparr>ct_numPlayers = 0, ct_numLfgGroups = 0, ct_groups = [], ct_group = 0\<rparr> q1 m1 of
                    (Some g, c, m2) \<Rightarrow> (LFG_COMPATIBILITY_PENDING, RemoveFromQueue E g q1, m2)
                  | (None, c, m2) \<Rightarrow>
                      if ct_numLfgGroups c > 1
                      then (LFG_INCOMPATIBLES_MULTIPLE_LFG_GROUPS,
                            SetCompatibles key LFG_INCOMPATIBLES_MULTIPLE_LFG_GROUPS q1, m2)
                      else if ucast (ct_numPlayers c) > GetMaxGroupSize d
                      then (LFG_INCOMPATIBLES_TOO_MUCH_PLAYERS,
                            SetCompatibles key LFG_INCOMPATIBLES_TOO_MUCH_PLAYERS q1, m2)
                      else check_roles E check i d c q1 m2)"

fun CheckCompatibility ::
  "lfg_env \<Rightarrow> uint64 list \<Rightarrow> lfg_queue \<Rightarrow> lfg_mgr \<Rightarrow> lfg_compatibility \<times> lfg_queue \<times> lfg_mgr" where
  "CheckCompatibility E [] q m = (LFG_INCOMPATIBLES_WRONG_GROUP_SIZE, q, m)"
| "CheckCompatibility E (g # gs) q m =
     (if length gs > 1
      then case CheckCompatibility E gs q m of (child, q1, m1) \<Rightarrow>
             if child < LFG_COMPATIBLES_WITH_LESS_PLAYERS
             then (child, SetCompatibles (ConcatenateGuids (g # gs)) child q1, m1)
             else check_body E (g # gs) q1 m1
      else check_body E (g # gs) q m)"


section \<open>Finding groups\<close>

text \<open>
  \<open>check\<close> and \<open>all\<close> are references: a recursive call takes its candidates off the same list.  The
  result has the list \<open>all\<close> as the call leaves it; \<open>check\<close> is restored unless a match was found, when
  the callers return at once.
\<close>

function (sequential) FindNewGroups ::
    "lfg_env \<Rightarrow> uint64 list \<Rightarrow> uint64 list \<Rightarrow> lfg_queue \<Rightarrow> lfg_mgr
      \<Rightarrow> lfg_compatibility \<times> uint64 list \<times> lfg_queue \<times> lfg_mgr"
  and find_loop ::
    "lfg_env \<Rightarrow> uint64 list \<Rightarrow> uint64 list \<Rightarrow> lfg_queue \<Rightarrow> lfg_mgr
      \<Rightarrow> lfg_compatibility \<times> uint64 list \<times> lfg_queue \<times> lfg_mgr" where
  "FindNewGroups E check all q m =
     (let key = ConcatenateGuids check;
          cached = GetCompatibles key q;
          (c, q1, m1) = (if cached = LFG_COMPATIBILITY_PENDING then CheckCompatibility E check q m
                         else (cached, q, m));
          (queued, m2) = (if c = LFG_COMPATIBLES_BAD_STATES then AllQueued E check m1 else (False, m1))
      in if queued
         then (LFG_COMPATIBLES_MATCH, all, SetCompatibles key LFG_COMPATIBLES_MATCH q1, m2)
         else if c \<noteq> LFG_COMPATIBLES_WITH_LESS_PLAYERS then (c, all, q1, m2)
         else find_loop E check all q1 m2)"
| "find_loop E check [] q m = (LFG_COMPATIBLES_WITH_LESS_PLAYERS, [], q, m)"
| "find_loop E check (a # all) q m =
     (case FindNewGroups E (check @ [a]) all q m of (sub, all', q1, m1) \<Rightarrow>
        if sub = LFG_COMPATIBLES_MATCH then (LFG_COMPATIBLES_MATCH, all', q1, m1)
        else find_loop E check all' q1 m1)"
  by pat_completeness auto

lemma FindNewGroups_shrinks:
  "FindNewGroups_find_loop_dom (Inl (E, check, all, q, m)) \<Longrightarrow>
     length (fst (snd (FindNewGroups E check all q m))) \<le> length all"
  "FindNewGroups_find_loop_dom (Inr (E, check, all, q, m)) \<Longrightarrow>
     length (fst (snd (find_loop E check all q m))) \<le> length all"
proof (induction rule: FindNewGroups_find_loop.pinduct)
  case (1 E check all q m)
  then show ?case
    by (auto simp: FindNewGroups.psimps Let_def split: prod.splits)
next
  case (2 E check q m)
  then show ?case by (simp add: find_loop.psimps)
next
  case (3 E check a all q m)
  obtain sub all' q1 m1 where r: "FindNewGroups E (check @ [a]) all q m = (sub, all', q1, m1)"
    by (metis prod_cases4)
  have "length all' \<le> length all" using 3(2) r by simp
  moreover have "length (fst (snd (find_loop E check all' q1 m1))) \<le> length all'" if "sub \<noteq> LFG_COMPATIBLES_MATCH"
    using 3(3) r that by simp
  ultimately show ?case using 3(1) r by (fastforce simp: find_loop.psimps)
qed

lemma FindNewGroups_shorter:
  "FindNewGroups E check all q m = (sub, all', q1, m1) \<Longrightarrow>
   FindNewGroups_find_loop_dom (Inl (E, check, all, q, m)) \<Longrightarrow> length all' \<le> length all"
  using FindNewGroups_shrinks(1) [of E check all q m] by simp

termination FindNewGroups
proof (relation "inv_image (less_than <*lex*> less_than)
    (\<lambda>a. case a of Inl (E, check, all, q, m) \<Rightarrow> (length all, 1 :: nat)
                | Inr (E, check, all, q, m) \<Rightarrow> (length all, 0))")
  show "wf (inv_image (less_than <*lex*> less_than)
    (\<lambda>a. case a of Inl (E, check, all, q, m) \<Rightarrow> (length all, 1 :: nat)
                | Inr (E, check, all, q, m) \<Rightarrow> (length all, 0)))" by auto
qed (auto dest!: FindNewGroups_shorter [OF sym])

declare FindNewGroups.simps [simp del] find_loop.simps [simp del]


text \<open>A search only takes GUIDs off the two lists.\<close>

definition sub_queue :: "lfg_queue \<Rightarrow> lfg_queue \<Rightarrow> bool" where
  "sub_queue q q' \<longleftrightarrow> (\<exists>P. newToQueueStore q' = filter P (newToQueueStore q) \<and>
     currentQueueStore q' = filter P (currentQueueStore q))"

lemma sub_queue_eq: "newToQueueStore q' = newToQueueStore q \<Longrightarrow> currentQueueStore q' = currentQueueStore q \<Longrightarrow> sub_queue q q'"
  unfolding sub_queue_def by (rule exI [of _ "\<lambda>_. True"]) simp

lemma sub_queue_refl [simp, intro]: "sub_queue q q"
  by (rule sub_queue_eq) simp_all

lemma sub_queue_trans: "sub_queue a b \<Longrightarrow> sub_queue b c \<Longrightarrow> sub_queue a c"
  unfolding sub_queue_def by (metis (no_types, lifting) filter_filter)

lemma sub_queue_simps [simp]:
  "sub_queue q (touch_data E g q)" "sub_queue q (SetCompatibles k c q)" "sub_queue q (SetCompatibilityData k x q)"
  "sub_queue q (q\<lparr>QueueDataStore := s\<rparr>)" "sub_queue q (q\<lparr>CompatibleMapStore := t\<rparr>)"
  by (auto simp: touch_data_def SetCompatibles_def SetCompatibilityData_def intro: sub_queue_eq)

lemma sub_queue_remove: "sub_queue q ((RemoveFromCurrentQueue g \<circ> RemoveFromNewQueue g) q)"
  unfolding sub_queue_def by (rule exI [of _ "\<lambda>x. x \<noteq> g"]) (simp add: RemoveFromCurrentQueue_def RemoveFromNewQueue_def)

lemma sub_queue_fold: "(\<And>x q. sub_queue q (f x q)) \<Longrightarrow> sub_queue q (fold f xs q)"
  by (induction xs arbitrary: q) (auto intro: sub_queue_trans)

lemma sub_queue_RemoveFromQueue: "sub_queue q (RemoveFromQueue E g q)"
  unfolding sub_queue_def
  by (rule exI [of _ "\<lambda>x. x \<noteq> g"])
    (simp add: RemoveFromQueue_def Let_def RemoveFromCompatibles_def RemoveFromCurrentQueue_def RemoveFromNewQueue_def)

lemma sub_queue_make_proposal: "sub_queue q (fst (snd (make_proposal E check i c rs q m)))"
proof -
  have "sub_queue q (fold (\<lambda>g. RemoveFromCurrentQueue g \<circ> RemoveFromNewQueue g) check q)"
    by (rule sub_queue_fold [OF sub_queue_remove])
  from sub_queue_trans [OF this sub_queue_simps(2)] show ?thesis
    by (simp add: make_proposal_def Let_def split_beta)
qed

lemma sub_queue_check_roles: "sub_queue q (fst (snd (check_roles E check i d c q m)))"
proof -
  have "sub_queue q (fold (\<lambda>g q'. q'\<lparr>QueueDataStore :=
      map (\<lambda>e. if fst e = g then (g, update_best E k rs (snd e)) else e) (QueueDataStore q')\<rparr>) check q)" for k rs
    by (rule sub_queue_fold) simp
  then show ?thesis
    using sub_queue_make_proposal sub_queue_trans [OF _ sub_queue_simps(3)]
    by (simp add: check_roles_def Let_def split_beta)
qed

lemma sub_queue_check_body: "sub_queue q (fst (snd (check_body E check q m)))"
proof -
  have t: "sub_queue q (fold (touch_data E) check q)" by (rule sub_queue_fold) simp
  show ?thesis
    using t sub_queue_trans [OF t sub_queue_check_roles] sub_queue_trans [OF t sub_queue_simps(2)]
      sub_queue_trans [OF t sub_queue_RemoveFromQueue]
    by (simp add: check_body_def Let_def split: prod.split option.split)
qed

lemma sub_queue_CheckCompatibility: "sub_queue q (fst (snd (CheckCompatibility E check q m)))"
proof (induction check arbitrary: q m)
  case (Cons g gs)
  obtain ch q1 m1 where r: "CheckCompatibility E gs q m = (ch, q1, m1)" by (metis prod_cases3)
  then have "sub_queue q q1" using Cons [of q m] by simp
  from sub_queue_trans [OF this sub_queue_check_body] sub_queue_trans [OF this sub_queue_simps(2)] r
  show ?case by (simp add: sub_queue_check_body)
qed simp

lemma sub_queue_FindNewGroups:
  "sub_queue q (fst (snd (snd (FindNewGroups E check all q m))))"
  "sub_queue q (fst (snd (snd (find_loop E check all q m))))"
proof (induction E check all q m and E check all q m rule: FindNewGroups_find_loop.induct)
  case (1 E check all q m)
  define r where "r = (if GetCompatibles (ConcatenateGuids check) q = LFG_COMPATIBILITY_PENDING
    then CheckCompatibility E check q m else (GetCompatibles (ConcatenateGuids check) q, q, m))"
  obtain c q1 m1 where r: "r = (c, q1, m1)" by (metis prod_cases3)
  have s: "sub_queue q q1" using sub_queue_CheckCompatibility [of q E check m] r by (auto simp: r_def split: if_splits)
  obtain qd m2 where a: "(if c = LFG_COMPATIBLES_BAD_STATES then AllQueued E check m1 else (False, m1)) = (qd, m2)"
    by fastforce
  have "FindNewGroups E check all q m = (if qd then (LFG_COMPATIBLES_MATCH, all,
      SetCompatibles (ConcatenateGuids check) LFG_COMPATIBLES_MATCH q1, m2)
    else if c \<noteq> LFG_COMPATIBLES_WITH_LESS_PLAYERS then (c, all, q1, m2) else find_loop E check all q1 m2)"
    by (subst FindNewGroups.simps) (simp only: Let_def r_def [symmetric] r a split_conv)
  moreover have "sub_queue q1 (fst (snd (snd (find_loop E check all q1 m2))))" if "\<not> qd" "c = LFG_COMPATIBLES_WITH_LESS_PLAYERS"
    using 1 r [unfolded r_def] a that by auto
  ultimately show ?case using s sub_queue_trans [OF s] by simp
next
  case (3 E check a all q m)
  obtain sub all' q1 m1 where r: "FindNewGroups E (check @ [a]) all q m = (sub, all', q1, m1)"
    by (metis prod_cases4)
  have "sub_queue q q1" using 3(1) r by simp
  then show ?case using 3(2) r sub_queue_trans by (fastforce simp: find_loop.simps)
qed (simp add: find_loop.simps)


lemma sub_queue_new: "sub_queue q q' \<Longrightarrow> length (newToQueueStore q') \<le> length (newToQueueStore q)"
  by (auto simp: sub_queue_def)

lemma FindNewGroups_takes_front:
  assumes "newToQueueStore q = front # rest"
    and "(c, all', q1, m1) = FindNewGroups E [front] (currentQueueStore q) (RemoveFromNewQueue front q) m"
  shows "length (newToQueueStore q1) < Suc (length rest)"
proof -
  have "sub_queue (RemoveFromNewQueue front q) q1"
    using sub_queue_FindNewGroups(1) [of "RemoveFromNewQueue front q" E "[front]" "currentQueueStore q" m] assms(2)
    by (metis fst_conv snd_conv)
  then have "length (newToQueueStore q1) \<le> length (newToQueueStore (RemoveFromNewQueue front q))"
    by (rule sub_queue_new)
  also have "\<dots> < Suc (length rest)"
    using assms(1) by (simp add: RemoveFromNewQueue_def less_Suc_eq_le)
  finally show ?thesis .
qed

function FindGroups :: "lfg_env \<Rightarrow> uint8 \<Rightarrow> lfg_queue \<Rightarrow> lfg_mgr \<Rightarrow> uint8 \<times> lfg_queue \<times> lfg_mgr" where
  "FindGroups E proposals q m =
     (case newToQueueStore q of
        [] \<Rightarrow> (proposals, q, m)
      | front # rest \<Rightarrow>
          case FindNewGroups E [front] (currentQueueStore q) (RemoveFromNewQueue front q) m of
            (c, all', q1, m1) \<Rightarrow>
              if c = LFG_COMPATIBLES_MATCH then FindGroups E (proposals + 1) q1 m1
              else FindGroups E proposals (AddToCurrentQueue front q1) m1)"
  by pat_completeness auto
termination
  by (relation "measure (\<lambda>(E, p, q, m). length (newToQueueStore q))")
    (auto simp: AddToCurrentQueue_def dest: FindNewGroups_takes_front)

declare FindGroups.simps [simp del]

section \<open>Timers\<close>

definition touch_wait :: "uint32 \<Rightarrow> (uint32 \<times> lfg_wait_time) list \<Rightarrow> (uint32 \<times> lfg_wait_time) list" where
  "touch_wait i w = om_put i (wait_time_at i w) w"

definition queued_roles :: "lfg_queue_data \<Rightarrow> uint8" where
  "queued_roles d = fold (\<lambda>r x. x OR snd r) (qd_roles d) PLAYER_ROLE_NONE AND NOT PLAYER_ROLE_LEADER"

definition wait_time_for :: "uint8 \<Rightarrow> uint32 \<Rightarrow> lfg_queue \<Rightarrow> int32" where
  "wait_time_for role i q =
     (if role = PLAYER_ROLE_NONE then - 1
      else if role = PLAYER_ROLE_TANK then wt_time (wait_time_at i (waitTimesTankStore q))
      else if role = PLAYER_ROLE_HEALER then wt_time (wait_time_at i (waitTimesHealerStore q))
      else if role = PLAYER_ROLE_DAMAGE then wt_time (wait_time_at i (waitTimesDpsStore q))
      else wt_time (wait_time_at i (waitTimesAvgStore q)))"

text \<open>The body of the loop over the queue data, for the entry with the GUID \<open>g\<close>.\<close>

definition update_timer ::
  "lfg_env \<Rightarrow> uint8 \<Rightarrow> int \<Rightarrow> uint64 \<Rightarrow> (uint32 \<times> uint32 \<times> uint32) \<times> lfg_queue \<times> lfg_mgr
     \<Rightarrow> (uint32 \<times> uint32 \<times> uint32) \<times> lfg_queue \<times> lfg_mgr" where
  "update_timer E queueId currTime g s =
     (case s of ((tanks, healers, dps), q, m) \<Rightarrow>
        let d = data_at E g q
        in case qd_dungeons d of
             [] \<Rightarrow> s
           | i # _ \<Rightarrow>
               let q1 = q\<lparr>waitTimesTankStore := touch_wait i (waitTimesTankStore q),
                          waitTimesHealerStore := touch_wait i (waitTimesHealerStore q),
                          waitTimesDpsStore := touch_wait i (waitTimesDpsStore q),
                          waitTimesAvgStore := touch_wait i (waitTimesAvgStore q)\<rparr>;
                   role = queued_roles d;
                   d1 = (if qd_bestCompatible d = [] then find_best E q1 g d else d);
                   q2 = q1\<lparr>QueueDataStore := om_put g d1 (QueueDataStore q1)\<rparr>;
                   st = \<lparr>qs_queueId = queueId, qs_dungeonId = i, qs_joinTime = qd_joinTime d1,
                         qs_waitTime = wait_time_for role i q1,
                         qs_waitTimeAvg = wt_time (wait_time_at i (waitTimesAvgStore q)),
                         qs_waitTimeTank = wt_time (wait_time_at i (waitTimesTankStore q)),
                         qs_waitTimeHealer = wt_time (wait_time_at i (waitTimesHealerStore q)),
                         qs_waitTimeDps = wt_time (wait_time_at i (waitTimesDpsStore q)),
                         qs_queuedTime = word_of_int (currTime - qd_joinTime d1),
                         qs_tanks = qd_tanks d1, qs_healers = qd_healers d1, qs_dps = qd_dps d1\<rparr>
               in ((tanks + (if role AND PLAYER_ROLE_TANK \<noteq> 0 then 1 else 0),
                    healers + (if role AND PLAYER_ROLE_HEALER \<noteq> 0 then 1 else 0),
                    dps + (if role AND PLAYER_ROLE_DAMAGE \<noteq> 0 then 1 else 0)),
                   q2, fold (\<lambda>r. lm_send E (fst r) (SendQueueStatus (fst r) st)) (qd_roles d1) m))"

definition UpdateQueueTimers ::
  "lfg_env \<Rightarrow> uint8 \<Rightarrow> int \<Rightarrow> (uint32 \<times> uint32 \<times> uint32) \<times> lfg_queue \<times> lfg_mgr
     \<Rightarrow> (uint32 \<times> uint32 \<times> uint32) \<times> lfg_queue \<times> lfg_mgr" where
  "UpdateQueueTimers E queueId currTime s =
     fold (update_timer E queueId currTime) (map fst (QueueDataStore (fst (snd s)))) s"

end
