(* ===== verification/LFG_Match.thy ===== *)
theory LFG_Match
  imports LFG_Queue
begin

text \<open>
  What the search for groups guarantees: a match that \<^verbatim>\<open>LFGQueue::CheckCompatibility\<close> reports is a
  complete group; the recursion of \<^verbatim>\<open>FindNewGroups\<close> is a single pass over the queue; and removing
  somebody from the queue leaves no trace of him.
\<close>

section \<open>What a check leaves as it was\<close>

text \<open>The roles and dungeons of every queue entry.\<close>

definition same_offers :: "lfg_env \<Rightarrow> lfg_queue \<Rightarrow> lfg_queue \<Rightarrow> bool" where
  "same_offers E q q' \<longleftrightarrow> (\<forall>g. qd_roles (data_at E g q') = qd_roles (data_at E g q) \<and>
     qd_dungeons (data_at E g q') = qd_dungeons (data_at E g q))"

lemma same_offers_refl [simp]: "same_offers E q q"
  by (simp add: same_offers_def)

lemma same_offers_trans: "same_offers E a b \<Longrightarrow> same_offers E b c \<Longrightarrow> same_offers E a c"
  by (simp add: same_offers_def)

lemma same_offers_fold: "(\<And>x q. same_offers E q (f x q)) \<Longrightarrow> same_offers E q (fold f xs q)"
  by (induction xs arbitrary: q) (auto intro: same_offers_trans)

lemma data_at_simps [simp]:
  "data_at E g (q\<lparr>CompatibleMapStore := t\<rparr>) = data_at E g q" "data_at E g (q\<lparr>newToQueueStore := l\<rparr>) = data_at E g q"
  "data_at E g (q\<lparr>currentQueueStore := l\<rparr>) = data_at E g q"
  "data_at E g (SetCompatibles k c q) = data_at E g q" "data_at E g (SetCompatibilityData k x q) = data_at E g q"
  "data_at E g (RemoveFromNewQueue h q) = data_at E g q" "data_at E g (RemoveFromCurrentQueue h q) = data_at E g q"
  "data_at E g (touch_data E h q) = data_at E g q"
  by (auto simp: data_at_def SetCompatibles_def SetCompatibilityData_def RemoveFromNewQueue_def
      RemoveFromCurrentQueue_def touch_data_def)

lemma same_offers_simps [simp]:
  "same_offers E q (SetCompatibles k c q)" "same_offers E q (SetCompatibilityData k x q)"
  "same_offers E q (touch_data E h q)"
  "same_offers E q ((RemoveFromCurrentQueue g \<circ> RemoveFromNewQueue g) q)"
  by (simp_all add: same_offers_def)

lemma update_best_offers [simp]:
  "qd_roles (update_best E k rs d) = qd_roles d" "qd_dungeons (update_best E k rs d) = qd_dungeons d"
proof -
  have i: "qd_roles (InitializeGroupSetup E x) = qd_roles x \<and> qd_dungeons (InitializeGroupSetup E x) = qd_dungeons x" for x
    by (simp add: InitializeGroupSetup_def split: list.split option.split)
  have f: "qd_roles (fold (\<lambda>r. need_one (snd r)) rs x) = qd_roles x \<and>
      qd_dungeons (fold (\<lambda>r. need_one (snd r)) rs x) = qd_dungeons x" for x
    by (induction rs arbitrary: x) (simp_all add: need_one_def)
  show "qd_roles (update_best E k rs d) = qd_roles d" "qd_dungeons (update_best E k rs d) = qd_dungeons d"
    using i f by (simp_all add: update_best_def Let_def)
qed

lemma map_of_update_at:
  "map_of (map (\<lambda>e. if fst e = g then (g, f (snd e)) else e) S) h = (if h = g then map_option f (map_of S h) else map_of S h)"
  by (induction S) auto

lemma same_offers_best [simp]:
  "same_offers E q (q\<lparr>QueueDataStore :=
     map (\<lambda>e. if fst e = g then (g, update_best E k rs (snd e)) else e) (QueueDataStore q)\<rparr>)"
  by (auto simp: same_offers_def data_at_def map_of_update_at split: option.split)

text \<open>Everything in the manager but the proposals, up to group entries that a read creates.\<close>

definition same_lfg :: "lfg_env \<Rightarrow> lfg_mgr \<Rightarrow> lfg_mgr \<Rightarrow> bool" where
  "same_lfg E m m' \<longleftrightarrow> lm_players m' = lm_players m \<and> (\<forall>g. group_at E g m' = group_at E g m) \<and>
     lm_queues m' = lm_queues m \<and> lm_roleChecks m' = lm_roleChecks m \<and> lm_boots m' = lm_boots m \<and> lm_out m' = lm_out m"

lemma same_lfg_refl [simp]: "same_lfg E m m"
  by (simp add: same_lfg_def)

lemma same_lfg_trans: "same_lfg E a b \<Longrightarrow> same_lfg E b c \<Longrightarrow> same_lfg E a c"
  by (simp add: same_lfg_def)

lemma same_lfg_simps [simp]:
  "same_lfg E m (see_group E g m)" "same_lfg E m (see_state E g m)" "same_lfg E m (snd (draw n m))"
  "same_lfg E m (AddProposal p m)"
  by (auto simp: same_lfg_def see_state_def see_group_def upd_group_def group_at_def draw_def AddProposal_def Let_def)

lemma same_lfg_reads:
  assumes "same_lfg E m m'"
  shows "lfg_GetState E g m' = lfg_GetState E g m" "GetOldState E g m' = GetOldState E g m"
    "IsLfgGroup E g m' = IsLfgGroup E g m"
  using assms by (simp_all add: same_lfg_def lfg_GetState_def GetOldState_def IsLfgGroup_def)

lemma same_lfg_pick_dungeon: "same_lfg E m (snd (pick_dungeon E ds m))"
proof (induction E ds m rule: pick_dungeon.induct)
  case (1 E ds m)
  obtain k m1 where k: "draw (length ds) m = (k, m1)" by fastforce
  then have s: "same_lfg E m m1" using same_lfg_simps(3) [of E m "length ds"] by simp
  show ?case
  proof (cases "ds = []")
    case False
    with 1 k s same_lfg_trans [OF s] show ?thesis
      by (subst pick_dungeon.simps) (simp split: option.split)
  qed (simp add: pick_dungeon.simps)
qed

lemma same_lfg_AllQueued_loop: "same_lfg E m (snd (AllQueued_loop E gs m))"
proof (induction gs arbitrary: m)
  case (Cons g gs)
  from same_lfg_trans [OF same_lfg_simps(2) Cons] show ?case by simp
qed simp

lemma same_lfg_AllQueued: "same_lfg E m (snd (AllQueued E gs m))"
  by (simp add: AllQueued_def same_lfg_AllQueued_loop)

lemma same_lfg_pick_leader: "same_lfg E m (snd (pick_leader rs b l m))"
proof (induction rs b l m rule: pick_leader.induct)
  case (2 r rs leader l m)
  obtain k m1 where k: "draw 2 m = (k, m1)" by fastforce
  then have s: "same_lfg E m m1" using same_lfg_simps(3) [of E m 2] by simp
  show ?case using 2 k same_lfg_trans [OF s] by simp
qed simp


section \<open>Counting\<close>

definition offers :: "lfg_env \<Rightarrow> uint64 list \<Rightarrow> lfg_queue \<Rightarrow> roles_map" where
  "offers E check q = concat (map (\<lambda>g. qd_roles (data_at E g q)) check)"

definition entry_group :: "uint64 \<Rightarrow> uint64" where
  "entry_group g = (if IS_GROUP_GUID g then g else 0)"

definition groups_of :: "lfg_env \<Rightarrow> uint64 list \<Rightarrow> lfg_queue \<Rightarrow> (uint64 \<times> uint64) list \<Rightarrow> (uint64 \<times> uint64) list" where
  "groups_of E check q = fold (\<lambda>g. fold (\<lambda>r. om_put (fst r) (entry_group g)) (qd_roles (data_at E g q))) check"

lemma offers_simps [simp]:
  "offers E [] q = []" "offers E (g # gs) q = qd_roles (data_at E g q) @ offers E gs q"
  by (simp_all add: offers_def)

lemma same_offers_offers: "same_offers E q q' \<Longrightarrow> offers E check q' = offers E check q"
  by (simp add: offers_def same_offers_def)

lemma count_loop_none:
  "\<forall>g \<in> set gs. map_of (QueueDataStore q) g \<noteq> None \<Longrightarrow>
   fst (count_loop E d gs c q m) = None \<and> same_lfg E m (snd (snd (count_loop E d gs c q m)))"
proof (induction gs arbitrary: c m)
  case (Cons g gs)
  then obtain qd where qd: "map_of (QueueDataStore q) g = Some qd" by auto
  note IH = Cons.IH [of _ "see_group E g m"] Cons.IH [of _ m]
  have "same_lfg E m (see_group E g m)" by simp
  from same_lfg_trans [OF this] IH Cons.prems qd show ?case by (auto simp: Let_def)
qed simp

lemma count_loop_all:
  assumes "count_loop E d gs c q m = (None, c', m')"
    and "ct_numLfgGroups c' \<le> 1" and "ucast (ct_numPlayers c') \<le> GetMaxGroupSize d"
  shows "ct_numPlayers c' = ct_numPlayers c + of_nat (length (offers E gs q)) \<and>
    unat (ct_numLfgGroups c') = unat (ct_numLfgGroups c) + length (filter (\<lambda>g. IsLfgGroup E g m) gs) \<and>
    ct_groups c' = groups_of E gs q (ct_groups c) \<and>
    ct_group c' = (if ct_numLfgGroups c = 0 \<and> filter (\<lambda>g. IsLfgGroup E g m) gs \<noteq> []
                   then hd (filter (\<lambda>g. IsLfgGroup E g m) gs) else ct_group c)"
  using assms(1)
proof (induction gs arbitrary: c m)
  case Nil
  then show ?case by (simp add: groups_of_def)
next
  case (Cons g gs)
  have go: "ct_numLfgGroups c \<le> 1 \<and> ucast (ct_numPlayers c) \<le> GetMaxGroupSize d"
    using Cons.prems assms(2,3) by (auto split: if_splits)
  then obtain qd where qd: "map_of (QueueDataStore q) g = Some qd"
    using Cons.prems by (cases "map_of (QueueDataStore q) g") auto
  then have data: "data_at E g q = qd" by (simp add: data_at_def)
  define m1 where "m1 = (if g \<noteq> 0 \<and> IS_GROUP_GUID g then see_group E g m else m)"
  have "same_lfg E m m1" by (simp add: m1_def)
  then have lfg: "IsLfgGroup E h m1 = IsLfgGroup E h m" for h by (rule same_lfg_reads(3))
  have n: "unat (ct_numLfgGroups c + 1) = Suc (unat (ct_numLfgGroups c))"
  proof -
    have "unat (ct_numLfgGroups c) \<le> 1" using go by (simp add: word_le_nat_alt)
    then show ?thesis by (simp add: unat_word_ariths)
  qed
  then have n0: "ct_numLfgGroups c + 1 \<noteq> 0" by (metis Zero_not_Suc unat_0)
  define c1 where "c1 = c\<lparr>ct_groups := fold (\<lambda>r. om_put (fst r) (entry_group g)) (qd_roles qd) (ct_groups c),
      ct_numPlayers := ct_numPlayers c + of_nat (length (qd_roles qd))\<rparr>"
  define c2 where "c2 = (if IsLfgGroup E g m then c1\<lparr>ct_group := (if ct_numLfgGroups c = 0 then g else ct_group c),
                                        ct_numLfgGroups := ct_numLfgGroups c + 1\<rparr> else c1)"
  have "count_loop E d (g # gs) c q m = count_loop E d gs c2 q m1"
    by (simp only: count_loop.simps go qd option.case Let_def c2_def c1_def m1_def entry_group_def simp_thms if_True)
  then have "count_loop E d gs c2 q m1 = (None, c', m')" using Cons.prems by simp
  from Cons.IH [OF this] show ?case
    by (simp add: c2_def c1_def lfg data n n0 groups_of_def)
qed


section \<open>Merging the roles\<close>

definition no_ignores :: "lfg_env \<Rightarrow> uint64 list \<Rightarrow> bool" where
  "no_ignores E ps \<longleftrightarrow> (\<forall>x \<in> set ps. \<forall>y \<in> set ps. x \<noteq> y \<longrightarrow> \<not> HasIgnore E x y)"

lemma HasIgnore_sym: "HasIgnore E x y = HasIgnore E y x"
  by (auto simp: HasIgnore_def)

lemma merge_roles_offers: "merge_roles E check q = fold (merge_role E) (offers E check q) []"
proof -
  have "fold (\<lambda>g rs. fold (merge_role E) (qd_roles (data_at E g q)) rs) check rs =
      fold (merge_role E) (offers E check q) rs" for rs
    by (induction check arbitrary: rs) simp_all
  then show ?thesis by (simp add: merge_roles_def)
qed

lemma length_om_put: "om_ok m \<Longrightarrow> length (om_put k v m) = (if k \<in> fst ` set m then length m else Suc (length m))"
  by (induction m) (auto simp: om_ok_Cons)

lemma set_om_put_new: "om_ok m \<Longrightarrow> k \<notin> fst ` set m \<Longrightarrow> set (om_put k v m) = insert (k, v) (set m)"
  by (induction m) (auto simp: om_ok_Cons)

lemma no_ignores_insert:
  "set ps' = insert x (set ps) \<Longrightarrow> no_ignores E ps' \<longleftrightarrow>
     no_ignores E ps \<and> (\<forall>y \<in> set ps. y \<noteq> x \<longrightarrow> \<not> HasIgnore E x y)"
  unfolding no_ignores_def using HasIgnore_sym [of E] by (metis insert_iff)

lemma merge_role_ok:
  assumes "om_ok rs" and "no_ignores E (map fst rs)"
  shows "om_ok (merge_role E r rs)" and "no_ignores E (map fst (merge_role E r rs))"
    and "length (merge_role E r rs) \<le> Suc (length rs)"
proof -
  have "set (map fst (om_put (fst r) (snd r) rs)) = insert (fst r) (set (map fst rs))" by (simp add: fst_om_put)
  from no_ignores_insert [OF this, of E] assms(2)
  show "no_ignores E (map fst (merge_role E r rs))" by (auto simp: merge_role_def)
qed (use assms in \<open>auto simp: merge_role_def length_om_put\<close>)

lemma merge_role_full:
  "om_ok rs \<Longrightarrow> length (merge_role E r rs) = Suc (length rs) \<Longrightarrow>
   fst r \<notin> fst ` set rs \<and> set (merge_role E r rs) = insert r (set rs)"
  by (cases r) (auto simp: merge_role_def length_om_put set_om_put_new split: if_splits)

lemma merge_length:
  "om_ok rs \<Longrightarrow> no_ignores E (map fst rs) \<Longrightarrow> length (fold (merge_role E) L rs) \<le> length L + length rs"
proof (induction L arbitrary: rs)
  case (Cons r L)
  from Cons.IH [OF merge_role_ok(1,2) [OF Cons.prems], of r] merge_role_ok(3) [OF Cons.prems, of r]
  show ?case by simp
qed simp

lemma merge_complete:
  assumes "om_ok rs" and "no_ignores E (map fst rs)" and "length (fold (merge_role E) L rs) = length L + length rs"
  shows "set (fold (merge_role E) L rs) = set L \<union> set rs \<and> distinct (map fst L) \<and>
    fst ` set L \<inter> fst ` set rs = {} \<and> om_ok (fold (merge_role E) L rs) \<and>
    no_ignores E (map fst (fold (merge_role E) L rs))"
  using assms
proof (induction L arbitrary: rs)
  case (Cons r L)
  note ok = merge_role_ok [OF Cons.prems(1,2), of r]
  have len: "length (fold (merge_role E) L (merge_role E r rs)) = length L + length (merge_role E r rs)"
    and full: "length (merge_role E r rs) = Suc (length rs)"
    using merge_length [OF ok(1,2), of L] ok(3) Cons.prems(3) by simp_all
  show ?case using Cons.IH [OF ok(1,2) len] merge_role_full [OF Cons.prems(1) full] by (cases r) auto
qed simp


section \<open>The leader and the groups of a proposal\<close>

definition wants_lead :: "roles_map \<Rightarrow> uint64 \<Rightarrow> bool" where
  "wants_lead rs g \<longleftrightarrow> (\<exists>r. (g, r) \<in> set rs \<and> r AND PLAYER_ROLE_LEADER \<noteq> 0)"

lemma wants_lead_Cons: "wants_lead (r # rs) g \<longleftrightarrow> (fst r = g \<and> snd r AND PLAYER_ROLE_LEADER \<noteq> 0) \<or> wants_lead rs g"
  by (cases r) (auto simp: wants_lead_def)

lemma pick_leader_range:
  "fst (pick_leader rs b l m) \<in> insert l (fst ` set rs) \<and>
   (wants_lead rs (fst (pick_leader rs b l m)) \<or>
    (if b then fst (pick_leader rs b l m) = l else (\<forall>g. \<not> wants_lead rs g)))"
proof (induction rs b l m rule: pick_leader.induct)
  case (2 r rs leader l m)
  then show ?case by (auto simp: wants_lead_Cons split: prod.splits if_splits)
qed (simp add: wants_lead_def)

lemma pick_leader_one:
  assumes "rs \<noteq> []"
  shows "fst (pick_leader rs False 0 m) \<in> fst ` set rs"
    and "wants_lead rs g \<Longrightarrow> wants_lead rs (fst (pick_leader rs False 0 m))"
proof -
  obtain r rs' where rs: "rs = r # rs'" using assms by (cases rs) auto
  show "fst (pick_leader rs False 0 m) \<in> fst ` set rs"
    using pick_leader_range [of rs' True "fst r" m] pick_leader_range [of rs' False "fst r" m] rs
    by auto
  show "wants_lead rs g \<Longrightarrow> wants_lead rs (fst (pick_leader rs False 0 m))"
    using pick_leader_range [of rs False 0 m] by auto
qed

lemma groups_of_lookup:
  assumes "distinct (map fst (offers E check q))" and "g \<in> set check" and "x \<in> fst ` set (qd_roles (data_at E g q))"
  shows "map_of (groups_of E check q acc) x = Some (entry_group g)"
  using assms
proof (induction check arbitrary: acc)
  case (Cons h check)
  have one: "map_of (fold (\<lambda>r. om_put (fst r) (v :: uint64)) rs acc) x = (if x \<in> fst ` set rs then Some v else map_of acc x)"
    for rs :: roles_map and v acc
    by (induction rs arbitrary: acc) auto
  have rest: "map_of (groups_of E check q acc) x = map_of acc x" if "x \<notin> fst ` set (offers E check q)" for acc
    using that
  proof (induction check arbitrary: acc)
    case (Cons h check)
    then show ?case by (simp add: groups_of_def one image_Un)
  qed (simp add: groups_of_def)
  have step: "groups_of E (h # check) q acc =
      groups_of E check q (fold (\<lambda>r. om_put (fst r) (entry_group h)) (qd_roles (data_at E h q)) acc)"
    by (simp add: groups_of_def)
  show ?case
  proof (cases "g \<in> set check")
    case True
    with Cons step show ?thesis by simp
  next
    case False
    then have "g = h" using Cons.prems by simp
    moreover from this have "x \<notin> fst ` set (offers E check q)" using Cons.prems(1,3) by auto
    ultimately show ?thesis using rest step one Cons.prems(3) by simp
  qed
qed simp

section \<open>A match is a complete group\<close>

text \<open>The contract of a proposal made from the queue entries \<open>check\<close>.\<close>

definition right_size :: "lfg_env \<Rightarrow> lfg_queue \<Rightarrow> uint64 list \<Rightarrow> lfg_proposal \<Rightarrow> bool" where
  "right_size E q check p \<longleftrightarrow>
     (\<exists>d. GetLFGDungeon E (lp_dungeonId p) = Some d \<and>
        (\<forall>g \<in> set check. lp_dungeonId p \<in> set (qd_dungeons (data_at E g q))) \<and>
        length (lp_players p) = unat (GetMaxGroupSize d) \<and>
        role_fits d (map (role_of \<circ> pp_role \<circ> snd) (lp_players p)))"

definition right_members :: "lfg_env \<Rightarrow> lfg_queue \<Rightarrow> uint64 list \<Rightarrow> lfg_proposal \<Rightarrow> bool" where
  "right_members E q check p \<longleftrightarrow>
     distinct (map fst (lp_players p)) \<and> no_ignores E (map fst (lp_players p)) \<and>
     fst ` set (lp_players p) = (\<Union>g \<in> set check. fst ` set (qd_roles (data_at E g q))) \<and>
     (\<forall>g \<in> set check. \<forall>(x, r) \<in> set (qd_roles (data_at E g q)).
        \<exists>y. (x, y) \<in> set (lp_players p) \<and> role_of (pp_role y) \<in> role_options r \<and> pp_group y = entry_group g)"

definition right_leader :: "lfg_proposal \<Rightarrow> bool" where
  "right_leader p \<longleftrightarrow>
     (let rs = map (\<lambda>(x, y). (x, pp_role y)) (lp_players p)
      in lp_leader p \<in> fst ` set (lp_players p) \<and> ((\<exists>x. wants_lead rs x) \<longrightarrow> wants_lead rs (lp_leader p)))"

definition right_states :: "lfg_env \<Rightarrow> lfg_mgr \<Rightarrow> uint64 list \<Rightarrow> bool" where
  "right_states E m check \<longleftrightarrow>
     length (filter (\<lambda>g. IsLfgGroup E g m) check) \<le> 1 \<and> (\<forall>g \<in> set check. lfg_GetState E g m = LFG_STATE_QUEUED)"

lemma pick_dungeon_result:
  "fst (pick_dungeon E ds m) = Some (i, d) \<Longrightarrow> i \<in> set ds \<and> GetLFGDungeon E i = Some d"
proof (induction E ds m rule: pick_dungeon.induct)
  case (1 E ds m)
  obtain k m1 where k: "draw (length ds) m = (k, m1)" by fastforce
  have ds: "ds \<noteq> []" using 1(2) by (auto simp: pick_dungeon.simps)
  then have lt: "k < length ds" using k by (auto simp: draw_def)
  show ?case
  proof (cases "GetLFGDungeon E (ds ! k)")
    case None
    have "fst (pick_dungeon E (take k ds @ drop (Suc k) ds) m1) = Some (i, d)"
      using 1(2) ds k None by (subst (asm) pick_dungeon.simps) simp
    with 1(1) [OF ds k [symmetric] None] show ?thesis by (auto dest: in_set_takeD in_set_dropD)
  next
    case (Some d')
    with 1(2) ds k lt show ?thesis by (subst (asm) pick_dungeon.simps) auto
  qed
qed

lemma common_dungeons_subset:
  assumes "check \<noteq> []" and "i \<in> set (common_dungeons E check q)" and "g \<in> set check"
  shows "i \<in> set (qd_dungeons (data_at E g q))"
proof -
  have "i \<in> set (fold (\<lambda>g ds. filter (\<lambda>x. x \<in> set (qd_dungeons (data_at E g q))) ds) gs ds) \<longleftrightarrow>
      i \<in> set ds \<and> (\<forall>g \<in> set gs. i \<in> set (qd_dungeons (data_at E g q)))" for gs ds
    by (induction gs arbitrary: ds) auto
  with assms show ?thesis by (cases check) (auto simp: common_dungeons_def)
qed

lemma AllQueued_states: "fst (AllQueued E gs m) \<Longrightarrow> g \<in> set gs \<Longrightarrow> lfg_GetState E g m = LFG_STATE_QUEUED"
proof -
  have "fst (AllQueued_loop E gs m) \<Longrightarrow> g \<in> set gs \<Longrightarrow> lfg_GetState E g m = LFG_STATE_QUEUED"
  proof (induction gs arbitrary: m)
    case (Cons h gs)
    then show ?case using same_lfg_reads(1) [OF same_lfg_simps(2) [of E m h], of g] by (auto split: if_splits)
  qed simp
  then show "fst (AllQueued E gs m) \<Longrightarrow> g \<in> set gs \<Longrightarrow> lfg_GetState E g m = LFG_STATE_QUEUED"
    by (auto simp: AllQueued_def split: if_splits)
qed


text \<open>The proposal that was added last.\<close>

definition last_proposal :: "lfg_mgr \<Rightarrow> lfg_proposal option" where
  "last_proposal m = map_of (lm_proposals m) (lm_proposalId m)"

definition off_lists :: "uint64 list \<Rightarrow> lfg_queue \<Rightarrow> bool" where
  "off_lists check q \<longleftrightarrow> set check \<inter> (set (newToQueueStore q) \<union> set (currentQueueStore q)) = {}"

lemma removed_lists:
  "newToQueueStore (fold (\<lambda>g. RemoveFromCurrentQueue g \<circ> RemoveFromNewQueue g) check q) = filter (\<lambda>x. x \<notin> set check) (newToQueueStore q)"
  "currentQueueStore (fold (\<lambda>g. RemoveFromCurrentQueue g \<circ> RemoveFromNewQueue g) check q) = filter (\<lambda>x. x \<notin> set check) (currentQueueStore q)"
proof (induction check arbitrary: q)
  case (Cons g check)
  { case 1 show ?case using Cons(1) by (simp add: RemoveFromCurrentQueue_def RemoveFromNewQueue_def comp_def) }
  { case 2 show ?case using Cons(2) by (simp add: RemoveFromCurrentQueue_def RemoveFromNewQueue_def comp_def) }
qed simp_all

lemma make_proposal_match:
  assumes "make_proposal E check i c roles q m = (LFG_COMPATIBLES_MATCH, q', m')"
  obtains p b m2 where "last_proposal m' = Some p" "lp_id p = lm_proposalId m'" "lp_queues p = check" "lp_dungeonId p = i"
    "lp_players p = map (proposal_player c b) roles" "lp_leader p = fst (pick_leader roles False 0 m2)"
    "lp_group p = ct_group c" "\<forall>g \<in> set check. lfg_GetState E g m = LFG_STATE_QUEUED" "off_lists check q'"
    "same_offers E q q'" "same_lfg E m m'"
proof -
  define m1 where "m1 = (if ct_numLfgGroups c = 1 then see_state E (hd check) m else m)"
  have s1: "same_lfg E m m1" by (simp add: m1_def)
  obtain qd m2 where a: "AllQueued E check m1 = (qd, m2)" by fastforce
  have s2: "same_lfg E m m2" using same_lfg_trans [OF s1] same_lfg_AllQueued [of E m1 check] a by simp
  have qd: "qd" using assms a by (simp add: make_proposal_def Let_def m1_def split: if_splits)
  obtain l m3 where l: "pick_leader roles False 0 m2 = (l, m3)" by fastforce
  have s3: "same_lfg E m m3" using same_lfg_trans [OF s2] same_lfg_pick_leader [of E m2 roles False 0] l by simp
  define b where "b = (ct_numLfgGroups c \<noteq> 1 \<or> GetOldState E (hd check) m \<noteq> LFG_STATE_DUNGEON)"
  define p where "p = \<lparr>lp_id = 0, lp_dungeonId = i, lp_state = LFG_PROPOSAL_INITIATING,
      lp_group = ct_group c, lp_leader = l, lp_cancelTime = le_now E + LFG_TIME_PROPOSAL, lp_isNew = b, lp_queues = check,
      lp_players = map (proposal_player c b) roles\<rparr>"
  have r: "q' = SetCompatibles (ConcatenateGuids check) LFG_COMPATIBLES_MATCH
        (fold (\<lambda>g. RemoveFromCurrentQueue g \<circ> RemoveFromNewQueue g) check q)" "m' = AddProposal p m3"
    using assms a qd l unfolding make_proposal_def Let_def m1_def b_def p_def by auto
  show ?thesis
  proof (rule that [of "p\<lparr>lp_id := lm_proposalId m'\<rparr>" b m2])
    show "\<forall>g \<in> set check. lfg_GetState E g m = LFG_STATE_QUEUED"
      using AllQueued_states [of E check m1] a qd same_lfg_reads(1) [OF s1] by simp
    show "same_offers E q q'"
      unfolding r by (rule same_offers_trans [OF same_offers_fold same_offers_simps(1)]) (rule same_offers_simps(4))
    show "same_lfg E m m'" unfolding r by (rule same_lfg_trans [OF s3]) simp
    show "off_lists check q'"
      by (auto simp: off_lists_def r SetCompatibles_def removed_lists)
  qed (simp_all add: r p_def l AddProposal_def Let_def last_proposal_def)
qed

section \<open>Checks keep the offers\<close>

lemma make_proposal_frame:
  "same_offers E q (fst (snd (make_proposal E check i c roles q m))) \<and>
   same_lfg E m (snd (snd (make_proposal E check i c roles q m)))"
proof (cases "fst (make_proposal E check i c roles q m) = LFG_COMPATIBLES_MATCH")
  case True
  then obtain q' m' where r: "make_proposal E check i c roles q m = (LFG_COMPATIBLES_MATCH, q', m')"
    by (metis prod.exhaust_sel)
  show ?thesis by (rule make_proposal_match [OF r]) (simp add: r)
next
  case False
  define m1 where "m1 = (if ct_numLfgGroups c = 1 then see_state E (hd check) m else m)"
  have "same_lfg E m m1" by (simp add: m1_def)
  then have "same_lfg E m (snd (AllQueued E check m1))" using same_lfg_AllQueued same_lfg_trans by blast
  then show ?thesis using False
    by (auto simp: make_proposal_def Let_def m1_def [symmetric] split: prod.splits if_splits)
qed

lemma check_roles_frame:
  "same_offers E q (fst (snd (check_roles E check i d c q m))) \<and>
   same_lfg E m (snd (snd (check_roles E check i d c q m)))"
proof -
  have "same_offers E q (SetCompatibilityData x y (fold (\<lambda>g q'. q'\<lparr>QueueDataStore :=
      map (\<lambda>e. if fst e = g then (g, update_best E k rs (snd e)) else e) (QueueDataStore q')\<rparr>) check q))" for k rs x y
    by (rule same_offers_trans [OF same_offers_fold same_offers_simps(2)]) simp
  then show ?thesis using make_proposal_frame by (simp add: check_roles_def Let_def split_beta)
qed

lemma touched:
  "same_offers E q (fold (touch_data E) check q)"
  "g \<in> set check \<Longrightarrow> map_of (QueueDataStore (fold (touch_data E) check q)) g \<noteq> None"
proof -
  have keep: "map_of (QueueDataStore q) g \<noteq> None \<Longrightarrow> map_of (QueueDataStore (fold (touch_data E) check q)) g \<noteq> None" for q g check
    by (induction check arbitrary: q) (auto simp: touch_data_def)
  show "g \<in> set check \<Longrightarrow> map_of (QueueDataStore (fold (touch_data E) check q)) g \<noteq> None"
  proof (induction check arbitrary: q)
    case (Cons h check)
    have "map_of (QueueDataStore (touch_data E h q)) h \<noteq> None" by (simp add: touch_data_def)
    from keep [OF this] Cons show ?case by auto
  qed simp
qed (rule same_offers_fold, simp)

text \<open>The branch for a GUID that is listed but has no data is never taken: \<^verbatim>\<open>operator[]\<close> made the data
  a few lines before.\<close>

definition count0 :: lfg_count where
  "count0 = \<lparr>ct_numPlayers = 0, ct_numLfgGroups = 0, ct_groups = [], ct_group = 0\<rparr>"

lemma check_body_cases:
  obtains m1 where "check_body E check q m =
      (LFG_INCOMPATIBLES_NO_DUNGEONS, SetCompatibles (ConcatenateGuids check) LFG_INCOMPATIBLES_NO_DUNGEONS
         (fold (touch_data E) check q), m1)" "same_lfg E m m1"
  | i d c m1 m2 where "pick_dungeon E (common_dungeons E check (fold (touch_data E) check q)) m = (Some (i, d), m1)"
      "count_loop E d check count0 (fold (touch_data E) check q) m1 = (None, c, m2)"
      "ct_numLfgGroups c \<le> 1" "ucast (ct_numPlayers c) \<le> GetMaxGroupSize d" "same_lfg E m m1" "same_lfg E m m2"
      "check_body E check q m = check_roles E check i d c (fold (touch_data E) check q) m2"
  | r m1 where "check_body E check q m = (r, fold (touch_data E) check q, m1)" "r = LFG_INCOMPATIBLES_WRONG_GROUP_SIZE" "same_lfg E m m1"
  | r m1 where "check_body E check q m = (r, SetCompatibles (ConcatenateGuids check) r (fold (touch_data E) check q), m1)"
      "r = LFG_INCOMPATIBLES_MULTIPLE_LFG_GROUPS \<or> r = LFG_INCOMPATIBLES_TOO_MUCH_PLAYERS" "same_lfg E m m1"
proof -
  let ?q = "fold (touch_data E) check q"
  obtain o1 m1 where p: "pick_dungeon E (common_dungeons E check ?q) m = (o1, m1)" by fastforce
  have s: "same_lfg E m m1" using same_lfg_pick_dungeon [of E m "common_dungeons E check ?q"] p by simp
  show thesis
  proof (cases o1)
    case None
    then show thesis using that(1) [of m1] p s by (simp add: check_body_def Let_def)
  next
    case (Some x)
    obtain i d where x: "x = (i, d)" by fastforce
    obtain o2 c m2 where l: "count_loop E d check count0 ?q m1 = (o2, c, m2)" by (metis prod_cases3)
    have "o2 = None" and s2: "same_lfg E m m2"
      using count_loop_none [of check ?q E d count0 m1] touched(2) [of _ check E q] l same_lfg_trans [OF s] by auto
    then have "check_body E check q m =
        (if length check > unat (GetMaxGroupSize d) then (LFG_INCOMPATIBLES_WRONG_GROUP_SIZE, ?q, m1)
         else if ct_numLfgGroups c > 1
         then (LFG_INCOMPATIBLES_MULTIPLE_LFG_GROUPS,
               SetCompatibles (ConcatenateGuids check) LFG_INCOMPATIBLES_MULTIPLE_LFG_GROUPS ?q, m2)
         else if ucast (ct_numPlayers c) > GetMaxGroupSize d
         then (LFG_INCOMPATIBLES_TOO_MUCH_PLAYERS,
               SetCompatibles (ConcatenateGuids check) LFG_INCOMPATIBLES_TOO_MUCH_PLAYERS ?q, m2)
         else check_roles E check i d c ?q m2)"
      using p Some x l by (simp add: check_body_def Let_def count0_def)
    then show thesis
      using that(2) [of i d m1 c m2] that(3) [of LFG_INCOMPATIBLES_WRONG_GROUP_SIZE m1]
        that(4) [of LFG_INCOMPATIBLES_MULTIPLE_LFG_GROUPS m2] that(4) [of LFG_INCOMPATIBLES_TOO_MUCH_PLAYERS m2]
        s s2 p Some x l \<open>o2 = None\<close>
      by (auto simp: not_le not_less split: if_splits)
  qed
qed


lemma check_body_frame:
  "same_offers E q (fst (snd (check_body E check q m))) \<and> same_lfg E m (snd (snd (check_body E check q m)))"
proof (cases rule: check_body_cases [of E check q m])
  case (2 i d c m1 m2)
  have "same_offers E q (fst (snd (check_roles E check i d c (fold (touch_data E) check q) m2)))"
    using same_offers_trans [OF touched(1)] check_roles_frame by blast
  moreover have "same_lfg E m (snd (snd (check_roles E check i d c (fold (touch_data E) check q) m2)))"
    using same_lfg_trans [OF 2(6)] check_roles_frame by blast
  ultimately show ?thesis using 2(7) by simp
qed (simp_all add: touched same_offers_trans [OF touched(1) same_offers_simps(1)])

lemma CheckCompatibility_frame:
  "same_offers E q (fst (snd (CheckCompatibility E check q m))) \<and>
   same_lfg E m (snd (snd (CheckCompatibility E check q m)))"
proof (induction check arbitrary: q m)
  case (Cons g gs)
  obtain ch q1 m1 where r: "CheckCompatibility E gs q m = (ch, q1, m1)" by (metis prod_cases3)
  then have "same_offers E q q1" "same_lfg E m m1" using Cons [of q m] by simp_all
  from same_offers_trans [OF this(1)] same_lfg_trans [OF this(2)] this r show ?case
    by (simp add: check_body_frame)
qed simp

text \<open>The counters are 8 bits wide; no entry of the queue can be that large.\<close>

lemma roles_solution_players:
  assumes sol: "role_solution d gs rs" and ok: "om_ok gs" and x: "(x, r) \<in> set gs"
  obtains r' where "(x, r') \<in> set rs" "role_of r' \<in> role_options r"
proof -
  obtain k where k: "k < length gs" "gs ! k = (x, r)" using x by (auto simp: in_set_conv_nth)
  have keys: "map fst rs = map fst gs" using sol by (simp add: role_solution_def)
  from arg_cong [OF keys, of length] have len: "length rs = length gs" by simp
  from arg_cong [OF keys, of "\<lambda>l. l ! k"] have "fst (rs ! k) = x" using k len by simp
  moreover have "role_of (snd (rs ! k)) \<in> role_options r"
    using sol k by (auto simp: role_solution_def list_all2_conv_all_nth)
  moreover have "rs ! k \<in> set rs" using len k by simp
  ultimately show thesis using that [of "snd (rs ! k)"] by (cases "rs ! k") simp
qed

lemma proposal_player_simps [simp]:
  "fst (proposal_player c b r) = fst r" "pp_role (snd (proposal_player c b r)) = snd r"
  "pp_group (snd (proposal_player c b r)) = (case map_of (ct_groups c) (fst r) of None \<Rightarrow> 0 | Some x \<Rightarrow> x)"
  by (simp_all add: proposal_player_def Let_def)

lemma check_roles_match:
  assumes r: "check_roles E check i d c q m = (LFG_COMPATIBLES_MATCH, q', m')"
    and len: "1 < length check" and few: "length (offers E check q) < 256"
    and n: "ct_numPlayers c = of_nat (length (offers E check q))"
  obtains roles where "length roles = length (offers E check q)" "ucast (ct_numPlayers c) = GetMaxGroupSize d"
    "make_proposal E check i c roles q m = (LFG_COMPATIBLES_MATCH, q', m')"
    "set (merge_roles E check q) = set (offers E check q)" "distinct (map fst (offers E check q))"
    "om_ok (merge_roles E check q)" "no_ignores E (map fst (merge_roles E check q))"
    "role_solution d (merge_roles E check q) roles" "roles \<noteq> []"
proof -
  let ?M = "merge_roles E check q" and ?L = "offers E check q"
  obtain ok roles where g: "CheckGroupRoles d ?M = (ok, roles)" by fastforce
  have le: "length ?M \<le> length ?L"
    using merge_length [of "[]" E ?L] by (simp add: merge_roles_offers no_ignores_def)
  have res: "(word_of_int (uint (ct_numPlayers c) - int (length ?M)) :: uint8) = 0" "ok"
      "ucast (ct_numPlayers c) = GetMaxGroupSize d"
      "make_proposal E check i c roles q m = (LFG_COMPATIBLES_MATCH, q', m')"
    using r len g by (auto simp: check_roles_def Let_def split: if_splits)
  have u: "uint (ct_numPlayers c) = int (length ?L)"
    using few n by (simp add: unsigned_of_nat take_bit_nat_eq_self)
  have "(word_of_int (int (length ?L) - int (length ?M)) :: uint8) = word_of_int 0"
    using res(1) unfolding u by (simp only: of_int_0)
  from this [unfolded word_of_int_eq_iff] have "(int (length ?L) - int (length ?M)) mod 256 = 0"
    by (simp add: take_bit_eq_mod)
  then have eq: "length ?M = length ?L" using le few by simp
  then have full: "length (fold (merge_role E) ?L []) = length ?L + length ([] :: roles_map)"
    by (simp add: merge_roles_offers)
  have mc: "set ?M = set ?L \<and> distinct (map fst ?L) \<and> om_ok ?M \<and> no_ignores E (map fst ?M)"
    using merge_complete [OF _ _ full] by (simp add: merge_roles_offers no_ignores_def)
  have "length ?M < 256" using eq few by simp
  from CheckGroupRoles_result [OF this, of d] g res(2) have sol: "role_solution d ?M roles" "?M \<noteq> []" by auto
  from arg_cong [of _ _ length, OF conjunct1 [OF sol(1) [unfolded role_solution_def]]]
  have "length roles = length ?M" by simp
  moreover from this sol(2) have "roles \<noteq> []" by auto
  ultimately show thesis using that [of roles] mc sol res eq by (auto split: if_splits)
qed


lemma match_by_body:
  assumes "CheckCompatibility E check q m = (LFG_COMPATIBLES_MATCH, q', m')"
  obtains q1 m1 where "same_offers E q q1" "same_lfg E m m1"
    "check_body E check q1 m1 = (LFG_COMPATIBLES_MATCH, q', m')"
proof -
  obtain g gs where check: "check = g # gs" using assms by (cases check) auto
  obtain ch q1 m1 where r: "CheckCompatibility E gs q m = (ch, q1, m1)" by (metis prod_cases3)
  have "same_offers E q q1" "same_lfg E m m1" using CheckCompatibility_frame [of E q gs m] r by simp_all
  moreover have "ch < LFG_COMPATIBLES_WITH_LESS_PLAYERS \<Longrightarrow> ch \<noteq> LFG_COMPATIBLES_MATCH"
    by (auto simp: less_lfg_compatibility_def)
  ultimately show thesis using that [of q1 m1] that [of q m] assms check r
    by (auto split: if_splits)
qed

lemma players_by_solution:
  assumes sol: "role_solution d gs roles" and pl: "lp_players p = map (proposal_player c b) roles"
  shows "map fst (lp_players p) = map fst gs" "role_fits d (map (role_of \<circ> pp_role \<circ> snd) (lp_players p))"
    "map (\<lambda>(x, y). (x, pp_role y)) (lp_players p) = roles"
proof -
  have "map fst (lp_players p) = map fst roles" using pl by (simp add: comp_def)
  then show "map fst (lp_players p) = map fst gs" using sol by (simp add: role_solution_def)
  have "map (role_of \<circ> pp_role \<circ> snd) (lp_players p) = map (role_of \<circ> snd) roles" using pl by (simp add: comp_def)
  then show "role_fits d (map (role_of \<circ> pp_role \<circ> snd) (lp_players p))" using sol by (simp add: role_solution_def)
  show "map (\<lambda>(x, y). (x, pp_role y)) (lp_players p) = roles"
    using pl by (simp add: comp_def split_beta)
qed

lemma right_members_offers:
  assumes sol: "role_solution d M roles" and pl: "lp_players p = map (proposal_player c b) roles"
    and M: "set M = set (offers E check q)" "om_ok M" "no_ignores E (map fst M)" and dis: "distinct (map fst (offers E check q))"
    and gr: "ct_groups c = groups_of E check q []"
  shows "right_members E q check p"
  unfolding right_members_def
proof (intro conjI ballI)
  note keys = players_by_solution(1) [OF sol pl]
  show "distinct (map fst (lp_players p))" using keys om_ok_distinct [OF M(2)] by simp
  show "no_ignores E (map fst (lp_players p))" using keys M(3) by simp
  have "fst ` set (lp_players p) = fst ` set M" using keys by (metis set_map)
  then show "fst ` set (lp_players p) = (\<Union>g \<in> set check. fst ` set (qd_roles (data_at E g q)))"
    using M(1) by (auto simp: offers_def)
  fix g e
  assume g: "g \<in> set check" and e: "e \<in> set (qd_roles (data_at E g q))"
  obtain x r where x: "e = (x, r)" by fastforce
  have "(x, r) \<in> set M" using M(1) g e x by (auto simp: offers_def)
  from roles_solution_players [OF sol M(2) this] obtain r' where r': "(x, r') \<in> set roles" "role_of r' \<in> role_options r" .
  have "x \<in> fst ` set (qd_roles (data_at E g q))" using e x by force
  from groups_of_lookup [OF dis g this, of "[]"]
  have "pp_group (snd (proposal_player c b (x, r'))) = entry_group g" by (simp add: gr)
  moreover have "proposal_player c b (x, r') \<in> set (lp_players p)" using pl r'(1) by simp
  ultimately show "case e of (x, r) \<Rightarrow> \<exists>y. (x, y) \<in> set (lp_players p) \<and> role_of (pp_role y) \<in> role_options r \<and>
      pp_group y = entry_group g"
    using r'(2) proposal_player_simps [of c b "(x, r')"] unfolding x prod.case
    by (metis fst_conv prod.collapse snd_conv)
qed

text \<open>C3. A match is a complete group.  When \<^verbatim>\<open>CheckCompatibility\<close> finds that several entries of the queue
  match, the last proposal of the manager is made of exactly these entries: its dungeon exists and
  is wanted by every entry; its players are the players of all the entries, each once, as many
  as the dungeon takes, each with one of the roles he offered and the group he came with, no role
  more often than needed, and no two of them ignoring each other; its leader is one of them, one who
  wants to lead if anybody does; all entries are in the state queued, at most one of them is a group
  that is already in a dungeon; and none of them is on the lists of the queue any more.\<close>

theorem match_is_complete:
  assumes "CheckCompatibility E check q m = (LFG_COMPATIBLES_MATCH, q', m')"
    and "1 < length check" and "length (offers E check q) < 256"
  shows "\<exists>p. last_proposal m' = Some p \<and> lp_id p = lm_proposalId m' \<and> lp_queues p = check \<and> right_size E q check p \<and>
    right_members E q check p \<and> right_leader p \<and> right_states E m check \<and> off_lists check q'"
proof -
  obtain q1 m1 where same: "same_offers E q q1" "same_lfg E m m1"
    and body: "check_body E check q1 m1 = (LFG_COMPATIBLES_MATCH, q', m')"
    using match_by_body [OF assms(1)] .
  let ?q = "fold (touch_data E) check q1"
  have so: "same_offers E q ?q" by (rule same_offers_trans [OF same(1) touched(1)])
  then have off: "offers E check ?q = offers E check q" by (rule same_offers_offers)
  show ?thesis
  proof (cases rule: check_body_cases [of E check q1 m1])
    case (2 i d c m2 m3)
    have roles: "check_roles E check i d c ?q m3 = (LFG_COMPATIBLES_MATCH, q', m')" using 2(7) body by simp
    note all = count_loop_all [OF 2(2-4)]
    have n: "ct_numPlayers c = of_nat (length (offers E check ?q))" using all by (simp add: count0_def)
    have gr: "ct_groups c = groups_of E check ?q []" using all by (simp add: count0_def)
    have lfg: "length (filter (\<lambda>g. IsLfgGroup E g m) check) \<le> 1"
      using all 2(3) same_lfg_reads(3) [OF same_lfg_trans [OF same(2) 2(5)]]
      by (simp add: count0_def word_le_nat_alt)
    have "length (offers E check ?q) < 256" using off assms(3) by simp
    from check_roles_match [OF roles assms(2) this n] obtain roles where R: "length roles = length (offers E check ?q)"
      "ucast (ct_numPlayers c) = GetMaxGroupSize d" "make_proposal E check i c roles ?q m3 = (LFG_COMPATIBLES_MATCH, q', m')"
      "set (merge_roles E check ?q) = set (offers E check ?q)" "distinct (map fst (offers E check ?q))"
      "om_ok (merge_roles E check ?q)" "no_ignores E (map fst (merge_roles E check ?q))"
      "role_solution d (merge_roles E check ?q) roles" "roles \<noteq> []" .
    from make_proposal_match [OF R(3)] obtain p b m4 where P: "last_proposal m' = Some p" "lp_id p = lm_proposalId m'"
      "lp_queues p = check" "lp_dungeonId p = i" "lp_players p = map (proposal_player c b) roles"
      "lp_leader p = fst (pick_leader roles False 0 m4)" "\<forall>g \<in> set check. lfg_GetState E g m3 = LFG_STATE_QUEUED"
      "off_lists check q'" by metis
    have ne: "check \<noteq> []" using assms(2) by auto
    have pd: "i \<in> set (common_dungeons E check ?q)" "GetLFGDungeon E i = Some d"
      using pick_dungeon_result [of E "common_dungeons E check ?q" m1 i d] 2(1) by simp_all
    have size: "length (lp_players p) = unat (GetMaxGroupSize d)"
      using P(5) R(1,2) n off assms(3) unat_u8_u32 [of "ct_numPlayers c"]
      by (simp add: unsigned_of_nat take_bit_nat_eq_self)
    have "right_size E q check p"
      unfolding right_size_def P(4)
      using pd size players_by_solution(2) [OF R(8) P(5)] common_dungeons_subset [OF ne pd(1)] so
      by (auto simp: same_offers_def)
    moreover have "right_members E q check p"
      using right_members_offers [OF R(8) P(5) R(4,6,7,5) gr] so by (simp add: right_members_def same_offers_def)
    moreover have "right_leader p"
      unfolding right_leader_def Let_def players_by_solution(3) [OF R(8) P(5)] P(6)
      using pick_leader_one [OF R(9)] P(5) by (auto simp: image_image)
    moreover have "right_states E m check"
      using P(7) lfg same_lfg_reads(1) [OF same_lfg_trans [OF same(2) 2(6)]] by (simp add: right_states_def)
    ultimately show ?thesis using P by blast
  qed (use body in auto)
qed


text \<open>A tank, a healer who also deals damage and a player who only deals damage wait for the same
  scenario of three; the healer is also ready for a dungeon that does not exist.\<close>

definition scenario :: lfg_dungeon where
  "scenario = dungeon_of_five\<lparr>ld_id := 7, ld_requiredDamagedealers := 1\<rparr>"

definition town :: lfg_env where
  "town = \<lparr>le_now = 1000, le_online = (\<lambda>_. True), le_ignores = (\<lambda>_ _. False),
     GetLFGDungeon = (\<lambda>i. if i = 7 then Some scenario else None), CachedDungeonMapStore = (\<lambda>_. []),
     le_isLFRGroup = (\<lambda>_. None), MakeNewGroup = (\<lambda>_ m. m), RemoveFromGroup = (\<lambda>_ _ m. m)\<rparr>"

definition town_queue :: lfg_queue where
  "town_queue = LFGQueue_new\<lparr>currentQueueStore := [2, 3], newToQueueStore := [1],
     QueueDataStore := [(1, LfgQueueData_init town 900 [7] [(1, 2)]),
       (2, LfgQueueData_init town 910 [5, 7] [(2, 13)]), (3, LfgQueueData_init town 920 [7] [(3, 8)])]\<rparr>"

definition town_mgr :: lfg_mgr where
  "town_mgr = \<lparr>lm_players = (\<lambda>_. LfgPlayerData_new\<lparr>pd_State := LFG_STATE_QUEUED\<rparr>), lm_groups = (\<lambda>g. None),
     lm_queues = [], lm_proposals = [], lm_roleChecks = [], lm_boots = [], lm_proposalId = 0, lm_queueTimer = 0,
     lm_options = 1, lm_callToArmsRoles = 0, lm_out = [], lm_rand = (\<lambda>n. n)\<rparr>"

lemma town_match: "fst (CheckCompatibility town [1, 2, 3] town_queue town_mgr) = LFG_COMPATIBLES_MATCH"
  by code_simp

theorem match_is_complete_witness:
  "\<exists>p. last_proposal (snd (snd (CheckCompatibility town [1, 2, 3] town_queue town_mgr))) = Some p \<and>
     lp_queues p = [1, 2, 3] \<and> right_size town town_queue [1, 2, 3] p \<and>
     right_members town town_queue [1, 2, 3] p \<and> right_leader p"
proof -
  obtain q' m' where r: "CheckCompatibility town [1, 2, 3] town_queue town_mgr = (LFG_COMPATIBLES_MATCH, q', m')"
    by (metis prod.collapse town_match)
  have "length (offers town [1, 2, 3] town_queue) < 256" by code_simp
  then show ?thesis using match_is_complete [OF r] unfolding r by auto
qed

section \<open>The search is one pass\<close>

text \<open>One step: what the cache or a check says of a set of entries.\<close>

definition probe ::
  "lfg_env \<Rightarrow> uint64 list \<Rightarrow> lfg_queue \<Rightarrow> lfg_mgr \<Rightarrow> lfg_compatibility \<times> lfg_queue \<times> lfg_mgr" where
  "probe E check q m =
     (let key = ConcatenateGuids check;
          (c, q1, m1) = (if GetCompatibles key q = LFG_COMPATIBILITY_PENDING then CheckCompatibility E check q m
                         else (GetCompatibles key q, q, m));
          (queued, m2) = (if c = LFG_COMPATIBLES_BAD_STATES then AllQueued E check m1 else (False, m1))
      in if queued then (LFG_COMPATIBLES_MATCH, SetCompatibles key LFG_COMPATIBLES_MATCH q1, m2) else (c, q1, m2))"

text \<open>A greedy scan: an entry that goes with those taken so far is taken for good.\<close>

fun greedy ::
  "lfg_env \<Rightarrow> uint64 list \<Rightarrow> uint64 list \<Rightarrow> lfg_queue \<Rightarrow> lfg_mgr
     \<Rightarrow> lfg_compatibility \<times> uint64 list \<times> lfg_queue \<times> lfg_mgr" where
  "greedy E check [] q m = (LFG_COMPATIBLES_WITH_LESS_PLAYERS, [], q, m)"
| "greedy E check (a # all) q m =
     (case probe E (check @ [a]) q m of (c, q1, m1) \<Rightarrow>
        if c = LFG_COMPATIBLES_MATCH then (LFG_COMPATIBLES_MATCH, all, q1, m1)
        else greedy E (if c = LFG_COMPATIBLES_WITH_LESS_PLAYERS then check @ [a] else check) all q1 m1)"

lemma FindNewGroups_probe:
  "FindNewGroups E check all q m =
     (case probe E check q m of (c, q1, m1) \<Rightarrow>
        if c = LFG_COMPATIBLES_WITH_LESS_PLAYERS then find_loop E check all q1 m1 else (c, all, q1, m1))"
  by (subst FindNewGroups.simps) (auto simp: probe_def Let_def split: prod.splits if_splits)

lemma greedy_empties: "fst (greedy E check all q m) = LFG_COMPATIBLES_MATCH \<or>
   (\<exists>q' m'. greedy E check all q m = (LFG_COMPATIBLES_WITH_LESS_PLAYERS, [], q', m'))"
  by (induction E check all q m rule: greedy.induct) (auto split: prod.splits if_splits)

lemma find_loop_greedy: "find_loop E check all q m = greedy E check all q m"
proof (induction all arbitrary: check q m)
  case (Cons a all)
  obtain c q1 m1 where p: "probe E (check @ [a]) q m = (c, q1, m1)" by (metis prod_cases3)
  show ?case
  proof (cases "c = LFG_COMPATIBLES_WITH_LESS_PLAYERS")
    case True
    then have "FindNewGroups E (check @ [a]) all q m = greedy E (check @ [a]) all q1 m1"
      using Cons p by (simp add: FindNewGroups_probe)
    with True p greedy_empties [of E "check @ [a]" all q1 m1] show ?thesis
      by (auto simp: find_loop.simps split: prod.splits)
  next
    case False
    then have "FindNewGroups E (check @ [a]) all q m = (c, all, q1, m1)"
      using p by (simp add: FindNewGroups_probe)
    with False p Cons show ?thesis by (simp add: find_loop.simps)
  qed
qed (simp add: find_loop.simps)

text \<open>C35. The recursive search of \<^verbatim>\<open>FindNewGroups\<close> is a single greedy pass.  Because every level of the
  recursion takes candidates off the same list, no entry is looked at twice: the search takes each
  entry of the queue in turn, keeps it for good when it goes with those kept before, and stops at
  the first match.  The result, the queue and the manager are those of that pass.\<close>

theorem search_is_greedy:
  "FindNewGroups E check all q m =
     (case probe E check q m of (c, q1, m1) \<Rightarrow>
        if c = LFG_COMPATIBLES_WITH_LESS_PLAYERS then greedy E check all q1 m1 else (c, all, q1, m1))"
  by (simp add: FindNewGroups_probe find_loop_greedy split: prod.split)


text \<open>Four players, two of whom ignore each other.\<close>

definition quarrel :: lfg_env where
  "quarrel = town\<lparr>le_ignores := (\<lambda>g x. g = 2 \<and> x = 4)\<rparr>"

definition quarrel_queue :: lfg_queue where
  "quarrel_queue = LFGQueue_new\<lparr>currentQueueStore := [2, 3, 4], newToQueueStore := [1],
     QueueDataStore := [(1, LfgQueueData_init quarrel 900 [7] [(1, 2)]), (2, LfgQueueData_init quarrel 900 [7] [(2, 8)]),
       (3, LfgQueueData_init quarrel 900 [7] [(3, 8)]), (4, LfgQueueData_init quarrel 900 [7] [(4, 4)])]\<rparr>"

text \<open>The pass can miss a complete group.  A tank, player 1, joins a queue of two who deal damage, 2
  and 3, and a healer, 4; 2 and 4 ignore each other.  The entries 1, 3 and 4 match, but the search
  keeps 2 when it meets him, finds that neither 3 nor 4 can be added, and ends without a proposal:
  all four stay in the queue, and nothing tries the three again before somebody else joins.\<close>

theorem search_can_miss:
  "fst (CheckCompatibility quarrel [1, 3, 4] quarrel_queue town_mgr) = LFG_COMPATIBLES_MATCH \<and>
   (case FindGroups quarrel 0 quarrel_queue town_mgr of (n, q, m) \<Rightarrow>
      n = 0 \<and> lm_proposals m = [] \<and> newToQueueStore q = [] \<and> currentQueueStore q = [2, 3, 4, 1])"
  by code_simp

section \<open>Leaving the queue\<close>

lemma guid_str_not_Nil [simp]: "guid_str g \<noteq> []"
  by (simp add: guid_str_def dec_str.simps)

lemma update_best_best: "qd_bestCompatible (update_best E k rs d) = qd_bestCompatible d \<or> qd_bestCompatible (update_best E k rs d) = k"
proof -
  have i: "qd_bestCompatible (InitializeGroupSetup E x) = qd_bestCompatible x" for x
    by (simp add: InitializeGroupSetup_def split: list.split option.split)
  have f: "qd_bestCompatible (fold (\<lambda>r. need_one (snd r)) rs x) = qd_bestCompatible x" for x
    by (induction rs arbitrary: x) (simp_all add: need_one_def)
  show ?thesis using i f by (simp add: update_best_def Let_def)
qed

lemma find_best_best:
  "qd_bestCompatible (find_best E q g d) \<in> insert (qd_bestCompatible d) (fst ` set (CompatibleMapStore q))"
  "qd_roles (find_best E q g d) = qd_roles d" "qd_dungeons (find_best E q g d) = qd_dungeons d"
proof -
  let ?f = "\<lambda>e d'. if fst (snd e) = LFG_COMPATIBLES_WITH_LESS_PLAYERS \<and> str_contains (guid_str g) (fst e)
    then update_best E (fst e) (snd (snd e)) d' else d'"
  have "qd_bestCompatible (fold ?f S d) \<in> insert (qd_bestCompatible d) (fst ` set S)" for S
  proof (induction S arbitrary: d)
    case (Cons e S)
    show ?case using Cons [of "?f e d"] update_best_best [of E "fst e" "snd (snd e)" d] by (auto split: if_splits)
  qed simp
  moreover have "qd_roles (fold ?f S d) = qd_roles d \<and> qd_dungeons (fold ?f S d) = qd_dungeons d" for S
    by (induction S arbitrary: d) simp_all
  ultimately show "qd_bestCompatible (find_best E q g d) \<in> insert (qd_bestCompatible d) (fst ` set (CompatibleMapStore q))"
    "qd_roles (find_best E q g d) = qd_roles d" "qd_dungeons (find_best E q g d) = qd_dungeons d"
    by (simp_all add: find_best_def)
qed

text \<open>Nothing in the queue refers to \<open>g\<close>.\<close>

definition forgotten :: "uint64 \<Rightarrow> lfg_queue \<Rightarrow> bool" where
  "forgotten g q \<longleftrightarrow>
     g \<notin> set (newToQueueStore q) \<and> g \<notin> set (currentQueueStore q) \<and> map_of (QueueDataStore q) g = None \<and>
     (\<forall>e \<in> set (CompatibleMapStore q). \<not> str_contains (guid_str g) (fst e)) \<and>
     (\<forall>e \<in> set (QueueDataStore q). \<not> str_contains (guid_str g) (qd_bestCompatible (snd e)))"

text \<open>Leaving the queue is complete and leaves the others alone.  After \<^verbatim>\<open>RemoveFromQueue\<close> the GUID is on
  neither list, it has no queue data, no set in the cache and no best match of anybody mentions it;
  everybody else is on the lists as before and in the same order, with the same roles and dungeons.\<close>

theorem leaving_is_complete:
  "forgotten g (RemoveFromQueue E g q) \<and>
   newToQueueStore (RemoveFromQueue E g q) = filter (\<lambda>x. x \<noteq> g) (newToQueueStore q) \<and>
   currentQueueStore (RemoveFromQueue E g q) = filter (\<lambda>x. x \<noteq> g) (currentQueueStore q) \<and>
   (\<forall>h. h = g \<or> qd_roles (data_at E h (RemoveFromQueue E g q)) = qd_roles (data_at E h q) \<and>
               qd_dungeons (data_at E h (RemoveFromQueue E g q)) = qd_dungeons (data_at E h q))"
proof (intro conjI)
  let ?q1 = "RemoveFromCompatibles g (RemoveFromCurrentQueue g (RemoveFromNewQueue g q))"
  let ?f = "\<lambda>k d. if k \<noteq> g \<and> str_contains (guid_str g) (qd_bestCompatible d)
                  then find_best E ?q1 k (d\<lparr>qd_bestCompatible := []\<rparr>) else d"
  have keys: "\<not> str_contains (guid_str g) k" if "k \<in> fst ` set (CompatibleMapStore ?q1)" for k
    using that by (auto simp: RemoveFromCompatibles_def)
  have best: "\<not> str_contains (guid_str g) (qd_bestCompatible (?f k d))" if "k \<noteq> g" for k d
    using that find_best_best(1) [of E ?q1 k "d\<lparr>qd_bestCompatible := []\<rparr>"] keys by auto
  have eq: "RemoveFromQueue E g q = ?q1\<lparr>QueueDataStore := om_del g (map (\<lambda>e. (fst e, ?f (fst e) (snd e))) (QueueDataStore q))\<rparr>"
    by (simp add: RemoveFromQueue_def Let_def RemoveFromCompatibles_def RemoveFromCurrentQueue_def RemoveFromNewQueue_def
        cong: if_cong)
  have lookup: "map_of (QueueDataStore (RemoveFromQueue E g q)) h =
      (if h = g then None else map_option (?f h) (map_of (QueueDataStore q) h))" for h
  proof -
    have "map_of (map (\<lambda>e. (fst e, F (fst e) (snd e))) S) h = map_option (F h) (map_of S h)"
      for F :: "uint64 \<Rightarrow> lfg_queue_data \<Rightarrow> lfg_queue_data" and S by (induction S) auto
    from this [of ?f] show ?thesis by (simp add: eq)
  qed
  show lists: "newToQueueStore (RemoveFromQueue E g q) = filter (\<lambda>x. x \<noteq> g) (newToQueueStore q)"
    "currentQueueStore (RemoveFromQueue E g q) = filter (\<lambda>x. x \<noteq> g) (currentQueueStore q)"
    by (simp_all add: eq RemoveFromCompatibles_def RemoveFromCurrentQueue_def RemoveFromNewQueue_def)
  have "\<not> str_contains (guid_str g) (qd_bestCompatible (snd e))" if "e \<in> set (QueueDataStore (RemoveFromQueue E g q))" for e
    using that best by (auto simp: eq om_del_def cong: if_cong)
  with keys lists lookup show "forgotten g (RemoveFromQueue E g q)"
    by (auto simp: forgotten_def eq)
  show "\<forall>h. h = g \<or> qd_roles (data_at E h (RemoveFromQueue E g q)) = qd_roles (data_at E h q) \<and>
      qd_dungeons (data_at E h (RemoveFromQueue E g q)) = qd_dungeons (data_at E h q)"
    using lookup find_best_best(2,3) by (auto simp: data_at_def split: option.split)
qed


section \<open>A match without a proposal\<close>

text \<open>An entry can drop out of the search.  A group that fills a dungeon alone and was not in the state
  queued when it was checked is remembered with bad states.  When it is looked at again, in the right
  state, \<^verbatim>\<open>FindNewGroups\<close> reports a match and does not make a proposal: \<^verbatim>\<open>FindGroups\<close> counts one, but the
  proposals are those from before, the entry is on neither list, and its queue data stays, so
  nothing looks at it again.\<close>

theorem bad_states_lost:
  assumes "newToQueueStore q = [g]" and "g \<notin> set (currentQueueStore q)"
    and "GetCompatibles (ConcatenateGuids [g]) q = LFG_COMPATIBLES_BAD_STATES"
    and "lfg_GetState E g m = LFG_STATE_QUEUED"
  shows "case FindGroups E n q m of (n', q', m') \<Rightarrow>
    n' = n + 1 \<and> lm_proposals m' = lm_proposals m \<and> newToQueueStore q' = [] \<and>
    currentQueueStore q' = currentQueueStore q \<and> QueueDataStore q' = QueueDataStore q"
proof -
  have "GetCompatibles (ConcatenateGuids [g]) (RemoveFromNewQueue g q) = LFG_COMPATIBLES_BAD_STATES"
    using assms(3) by (simp add: GetCompatibles_def RemoveFromNewQueue_def)
  then have "probe E [g] (RemoveFromNewQueue g q) m = (LFG_COMPATIBLES_MATCH,
      SetCompatibles (ConcatenateGuids [g]) LFG_COMPATIBLES_MATCH (RemoveFromNewQueue g q), see_state E g m)"
    using assms(4) by (simp add: probe_def AllQueued_def)
  then have "FindGroups E n q m = (n + 1,
      SetCompatibles (ConcatenateGuids [g]) LFG_COMPATIBLES_MATCH (RemoveFromNewQueue g q), see_state E g m)"
    using assms(1)
    by (simp add: FindGroups.simps [of E n q m] FindNewGroups_probe)
      (simp add: FindGroups.simps SetCompatibles_def RemoveFromNewQueue_def)
  then show ?thesis
    using assms(1) by (simp add: SetCompatibles_def RemoveFromNewQueue_def see_state_def see_group_def upd_group_def)
qed

theorem bad_states_lost_witness:
  "case FindGroups town 0 (LFGQueue_new\<lparr>newToQueueStore := [1],
       QueueDataStore := [(1, LfgQueueData_init town 900 [7] [(1, 2), (2, 4), (3, 8)])],
       CompatibleMapStore := [(''1'', LFG_COMPATIBLES_BAD_STATES, [])]\<rparr>) town_mgr of
     (n', q', m') \<Rightarrow> n' = 1 \<and> lm_proposals m' = [] \<and> newToQueueStore q' = [] \<and> currentQueueStore q' = []"
proof -
  let ?q = "LFGQueue_new\<lparr>newToQueueStore := [1],
       QueueDataStore := [(1, LfgQueueData_init town 900 [7] [(1, 2), (2, 4), (3, 8)])],
       CompatibleMapStore := [(''1'', LFG_COMPATIBLES_BAD_STATES, [])]\<rparr>"
  have "GetCompatibles (ConcatenateGuids [1]) ?q = LFG_COMPATIBLES_BAD_STATES" by code_simp
  moreover have "lfg_GetState town 1 town_mgr = LFG_STATE_QUEUED" by code_simp
  ultimately show ?thesis using bad_states_lost [of ?q 1 town town_mgr 0]
    by (auto simp: LFGQueue_new_def town_mgr_def)
qed

end
