(* ===== verification/LFG_Mgr.thy ===== *)
theory LFG_Mgr
  imports LFG_Match
begin

text \<open>
  The manager of the dungeon finder: \<^verbatim>\<open>game/DungeonFinding/LFGMgr.cpp\<close>.  Joining, role checks, proposals, votes to
  kick, leaving, and the periodic update.  A reference to a queue is its number: operations
  on it go through \<open>upd_queue\<close>.
\<close>

section \<open>Queues\<close>

definition queue_at :: "uint8 \<Rightarrow> lfg_mgr \<Rightarrow> lfg_queue" where
  "queue_at i m = (case map_of (lm_queues m) i of None \<Rightarrow> LFGQueue_new | Some q \<Rightarrow> q)"

definition upd_queue :: "uint8 \<Rightarrow> (lfg_queue \<Rightarrow> lfg_queue) \<Rightarrow> lfg_mgr \<Rightarrow> lfg_mgr" where
  "upd_queue i f m = m\<lparr>lm_queues := om_put i (f (queue_at i m)) (lm_queues m)\<rparr>"

definition GetQueueId :: "lfg_env \<Rightarrow> uint64 \<Rightarrow> lfg_mgr \<Rightarrow> uint8" where
  "GetQueueId E guid m =
     (let ps = gd_Players (group_at E guid m)
      in if IS_GROUP_GUID guid \<and> ps \<noteq> [] \<and> hd ps \<noteq> 0 then pd_Team (lm_players m (hd ps))
         else pd_Team (lm_players m guid))"

definition GetQueue :: "lfg_env \<Rightarrow> uint64 \<Rightarrow> lfg_mgr \<Rightarrow> uint8 \<times> lfg_mgr" where
  "GetQueue E guid m = (GetQueueId E guid m, upd_queue (GetQueueId E guid m) (\<lambda>q. q) (see_state E guid m))"

definition GetQueueJoinTime :: "lfg_env \<Rightarrow> uint64 \<Rightarrow> lfg_mgr \<Rightarrow> int" where
  "GetQueueJoinTime E guid m =
     (case map_of (lm_queues m) (GetQueueId E guid m) of None \<Rightarrow> 0 | Some q \<Rightarrow> GetJoinTime guid q)"

section \<open>Dungeons\<close>

definition LFG_TYPE_NONE :: uint8 where "LFG_TYPE_NONE = 0"
definition LFG_TYPE_DUNGEON :: uint8 where "LFG_TYPE_DUNGEON = 1"
definition LFG_TYPE_RAID :: uint8 where "LFG_TYPE_RAID = 2"
definition LFG_TYPE_RANDOM :: uint8 where "LFG_TYPE_RANDOM = 6"

definition GetDungeonsByRandom :: "lfg_env \<Rightarrow> uint32 \<Rightarrow> uint32 list" where
  "GetDungeonsByRandom E i = CachedDungeonMapStore E (case GetLFGDungeon E i of None \<Rightarrow> 0 | Some d \<Rightarrow> ld_group d)"

definition GetDungeonType :: "lfg_env \<Rightarrow> uint32 \<Rightarrow> uint8" where
  "GetDungeonType E i = (case GetLFGDungeon E i of None \<Rightarrow> LFG_TYPE_NONE | Some d \<Rightarrow> ld_type d)"

text \<open>
  The dungeons of a request without those locked for a member.  Both loops end when no dungeon is
  left, but a round without dungeons changes nothing.  The map of locks is cleared at the end.
\<close>

definition lock_round :: "bool \<Rightarrow> (uint32 \<times> lock_data) list \<Rightarrow> uint32 list \<Rightarrow> uint32 list" where
  "lock_round isContinue locks ds =
     fold (\<lambda>l ds'. if lk_type (snd l) = LFG_LOCKSTATUS_RAID_LOCKED \<and> isContinue then ds'
                   else filter (\<lambda>x. x \<noteq> fst l AND 0x00FFFFFF) ds') locks ds"

definition GetCompatibleDungeons :: "uint64 list \<Rightarrow> bool \<Rightarrow> lfg_mgr \<Rightarrow> uint32 list \<Rightarrow> uint32 list" where
  "GetCompatibleDungeons players isContinue m ds =
     (let left = fold (\<lambda>g. lock_round isContinue (pd_LockedDungeons (lm_players m g))) players ds
      in if left = [] then ds else left)"

section \<open>Role checks\<close>

text \<open>The new state of a role check after the answer of \<open>guid\<close>; nobody (0) stands for a failure.\<close>

definition role_answer :: "lfg_dungeon option \<Rightarrow> uint64 \<Rightarrow> uint8 \<Rightarrow> lfg_role_check \<Rightarrow> lfg_role_check" where
  "role_answer dungeon guid roles rc =
     (if guid = 0 then rc\<lparr>rc_state := LFG_ROLECHECK_ABORTED\<rparr>
      else if roles < PLAYER_ROLE_TANK then rc\<lparr>rc_state := LFG_ROLECHECK_NO_ROLE\<rparr>
      else let rs = om_put guid roles (rc_roles rc);
               rc1 = rc\<lparr>rc_roles := rs\<rparr>
           in if list_all (\<lambda>r. snd r \<noteq> PLAYER_ROLE_NONE) rs
              then rc1\<lparr>rc_state := (case dungeon of
                         None \<Rightarrow> LFG_ROLECHECK_WRONG_ROLES
                       | Some d \<Rightarrow> if fst (CheckGroupRoles d rs) then LFG_ROLECHECK_FINISHED
                                  else LFG_ROLECHECK_WRONG_ROLES)\<rparr>
              else rc1)"

definition role_notify ::
  "lfg_env \<Rightarrow> bool \<Rightarrow> uint64 \<Rightarrow> uint8 \<Rightarrow> uint32 list \<Rightarrow> lfg_role_check \<Rightarrow> uint64 \<times> uint8 \<Rightarrow> lfg_mgr \<Rightarrow> lfg_mgr" where
  "role_notify E chosen guid roles dungeons rc r m =
     (let p = fst r;
          m1 = (if chosen \<and> guid \<noteq> rc_leader rc then lm_send E p (SendRoleChosen p guid roles) m else m);
          m2 = lm_send E p (SendRoleCheckUpdate p rc) m1;
          joinResult = (if rc_state rc = LFG_ROLECHECK_MISSING_ROLE \<or> rc_state rc = LFG_ROLECHECK_WRONG_ROLES
                        then LFG_JOIN_ROLE_CHECK_FAILED else LFG_JOIN_FAILED)
      in case rc_state rc of
           LFG_ROLECHECK_INITIALITING \<Rightarrow> m2
         | LFG_ROLECHECK_FINISHED \<Rightarrow>
             let m3 = lfg_SetRoles p (snd r) (lfg_SetState E p LFG_STATE_QUEUED m2)
             in lm_send E p (SendUpdateStatus p (update_data_for LFG_UPDATETYPE_ADDED_TO_QUEUE dungeons
                               (pd_Comment (lm_players m3 p))) True) m3
         | _ \<Rightarrow>
             let m3 = (if rc_leader rc = p then lm_send E p (SendJoinResult p joinResult (rc_state rc)) m2 else m2);
                 m4 = lm_send E p (SendUpdateStatus p (update_data LFG_UPDATETYPE_ROLECHECK_FAILED) True) m3
             in RestoreState E p m4)"

definition UpdateRoleCheck :: "lfg_env \<Rightarrow> uint64 \<Rightarrow> uint64 \<Rightarrow> uint8 \<Rightarrow> lfg_mgr \<Rightarrow> lfg_mgr" where
  "UpdateRoleCheck E gguid guid roles m =
     (if gguid = 0 then m
      else case map_of (lm_roleChecks m) gguid of
             None \<Rightarrow> m
           | Some rc \<Rightarrow>
               let chosen = (rc_state rc \<noteq> LFG_ROLECHECK_DEFAULT \<and> guid \<noteq> 0);
                   dungeons = (if rc_rDungeonId rc \<noteq> 0 then [rc_rDungeonId rc] else rc_dungeons rc);
                   dungeon = (case dungeons of [] \<Rightarrow> None | i # _ \<Rightarrow> GetLFGDungeon E i);
                   rc1 = role_answer dungeon guid roles rc;
                   m1 = fold (role_notify E chosen guid roles dungeons rc1) (rc_roles rc1) m;
                   rc2 = rc1\<lparr>rc_isBeginning := False\<rparr>
               in if rc_state rc2 = LFG_ROLECHECK_FINISHED
                  then case GetQueue E gguid (lfg_SetState E gguid LFG_STATE_QUEUED m1) of (i, m2) \<Rightarrow>
                         let m3 = upd_queue i (AddQueueData E gguid (le_now E) (rc_dungeons rc2) (rc_roles rc2)) m2
                         in m3\<lparr>lm_roleChecks := om_del gguid (lm_roleChecks m3)\<rparr>
                  else if rc_state rc2 = LFG_ROLECHECK_INITIALITING
                  then m1\<lparr>lm_roleChecks := om_put gguid rc2 (lm_roleChecks m1)\<rparr>
                  else let m2 = RestoreState E gguid m1
                       in m2\<lparr>lm_roleChecks := om_del gguid (lm_roleChecks m2)\<rparr>)"


section \<open>Proposals\<close>

text \<open>The queue entry a player of a proposal belongs to.\<close>

definition pp_entry :: "uint64 \<times> lfg_proposal_player \<Rightarrow> uint64" where
  "pp_entry e = (if pp_group (snd e) \<noteq> 0 then pp_group (snd e) else fst e)"

definition deny_pending :: "uint64 \<times> lfg_proposal_player \<Rightarrow> uint64 \<times> lfg_proposal_player" where
  "deny_pending e = (if pp_accept (snd e) = LFG_ANSWER_PENDING then (fst e, (snd e)\<lparr>pp_accept := LFG_ANSWER_DENY\<rparr>) else e)"

text \<open>
  After the first loop a failed proposal has no pending answer, so in the second loop a player is
  marked exactly when he denied.
\<close>

definition mark_deniers :: "lfg_env \<Rightarrow> (uint64 \<times> lfg_proposal_player) list \<Rightarrow> uint64 list \<times> lfg_mgr \<Rightarrow> uint64 list \<times> lfg_mgr" where
  "mark_deniers E ps s =
     fold (\<lambda>e s'. if pp_accept (snd e) = LFG_ANSWER_DENY
                  then (set_put (pp_entry e) (fst s'), lm_send E (pp_entry e) (CastDeserter (pp_entry e)) (snd s'))
                  else s') ps s"

definition notify_failed ::
  "lfg_env \<Rightarrow> lfg_update_type \<Rightarrow> lfg_proposal \<Rightarrow> uint64 list \<Rightarrow> uint64 \<times> lfg_proposal_player \<Rightarrow> lfg_mgr \<Rightarrow> lfg_mgr" where
  "notify_failed E type p toRemove e m =
     (let guid = fst e;
          gguid = pp_entry e;
          m1 = lm_send E guid (SendUpdateProposal guid p) m
      in if gguid \<in> set toRemove
         then let ud = update_data (if pp_accept (snd e) = LFG_ANSWER_DENY then type
                                    else LFG_UPDATETYPE_REMOVED_FROM_QUEUE);
                  m2 = RestoreState E guid m1
              in if gguid \<noteq> guid
                 then lm_send E guid (SendUpdateStatus guid ud True) (RestoreState E gguid m2)
                 else lm_send E guid (SendUpdateStatus guid ud False) m2
         else let m2 = lfg_SetState E guid LFG_STATE_QUEUED m1;
                  m3 = (if gguid \<noteq> guid then lfg_SetState E gguid LFG_STATE_QUEUED m2 else m2)
              in lm_send E guid (SendUpdateStatus guid
                   (update_data_for LFG_UPDATETYPE_ADDED_TO_QUEUE (pd_SelectedDungeons (lm_players m3 guid))
                      (pd_Comment (lm_players m3 guid))) (gguid \<noteq> guid)) m3)"

text \<open>Every proposal has a player; the queue is that of the first.\<close>

definition RemoveProposal :: "lfg_env \<Rightarrow> uint32 \<Rightarrow> lfg_update_type \<Rightarrow> lfg_mgr \<Rightarrow> lfg_mgr" where
  "RemoveProposal E i type m =
     (case map_of (lm_proposals m) i of
        None \<Rightarrow> m
      | Some p0 \<Rightarrow>
          let p = p0\<lparr>lp_state := LFG_PROPOSAL_FAILED,
                     lp_players := (if type = LFG_UPDATETYPE_PROPOSAL_FAILED then map deny_pending (lp_players p0)
                                    else lp_players p0)\<rparr>
          in case mark_deniers E (lp_players p) ([], m) of (toRemove, m1) \<Rightarrow>
               let m2 = fold (notify_failed E type p toRemove) (lp_players p) m1
               in case GetQueue E (fst (hd (lp_players p))) m2 of (k, m3) \<Rightarrow>
                    let m4 = upd_queue k (fold (RemoveFromQueue E) toRemove) m3;
                        m5 = upd_queue k (fold AddToQueue (filter (\<lambda>g. g \<notin> set toRemove) (lp_queues p))) m4
                    in m5\<lparr>lm_proposals := om_del i (lm_proposals m5)\<rparr>)"

definition IN_MILLISECONDS :: int where "IN_MILLISECONDS = 1000"

text \<open>Division of signed numbers in C++ rounds towards zero.\<close>

definition trunc_div :: "int \<Rightarrow> int \<Rightarrow> int" where
  "trunc_div a b = (if a < 0 then - ((- a) div b) else a div b)"

text \<open>
  One player of a proposal that all accepted.  \<open>ud\<close> is the update data shared by the loop.  Who
  joined has selected a dungeon; the model takes 0 for the first dungeon of an empty set.
\<close>

definition accept_player ::
  "lfg_env \<Rightarrow> bool \<Rightarrow> lfg_proposal \<Rightarrow> uint8 \<Rightarrow> uint64 \<times> lfg_proposal_player \<Rightarrow> lfg_update_data \<times> lfg_mgr
     \<Rightarrow> lfg_update_data \<times> lfg_mgr" where
  "accept_player E sendUpdate p k e s =
     (case s of (ud, m) \<Rightarrow>
        let pguid = fst e;
            dungeonId = (case pd_SelectedDungeons (lm_players m pguid) of [] \<Rightarrow> 0 | d # _ \<Rightarrow> d);
            m1 = (if sendUpdate then lm_send E pguid (SendUpdateProposal pguid p) m else m);
            waitTime = word_of_int (trunc_div (le_now E - GetJoinTime (pp_entry e) (queue_at k m1)) IN_MILLISECONDS);
            m2 = lm_send E pguid (SendUpdateStatus pguid ud False) m1;
            ud1 = ud\<lparr>ud_updateType := LFG_UPDATETYPE_REMOVED_FROM_QUEUE\<rparr>;
            m3 = lm_send E pguid (SendUpdateStatus pguid ud1 False) (lm_send E pguid (SendUpdateStatus pguid ud1 True) m2);
            role = pd_Roles (lm_players m3 pguid) AND NOT PLAYER_ROLE_LEADER;
            m4 = upd_queue k (if role = PLAYER_ROLE_DAMAGE then UpdateWaitTimeDps waitTime dungeonId
                              else if role = PLAYER_ROLE_HEALER then UpdateWaitTimeHealer waitTime dungeonId
                              else if role = PLAYER_ROLE_TANK then UpdateWaitTimeTank waitTime dungeonId
                              else UpdateWaitTimeAvg waitTime dungeonId) m3
        in (ud1, lfg_SetState E pguid LFG_STATE_DUNGEON m4))"

definition answer_of :: "bool \<Rightarrow> lfg_answer" where
  "answer_of accept = (if accept then LFG_ANSWER_AGREE else LFG_ANSWER_DENY)"

definition UpdateProposal :: "lfg_env \<Rightarrow> uint32 \<Rightarrow> uint64 \<Rightarrow> bool \<Rightarrow> lfg_mgr \<Rightarrow> lfg_mgr" where
  "UpdateProposal E i guid accept m =
     (case map_of (lm_proposals m) i of
        None \<Rightarrow> m
      | Some p0 \<Rightarrow>
          case map_of (lp_players p0) guid of
            None \<Rightarrow> m
          | Some pp \<Rightarrow>
              let p = p0\<lparr>lp_players := om_put guid (pp\<lparr>pp_accept := answer_of accept\<rparr>) (lp_players p0)\<rparr>;
                  m0 = m\<lparr>lm_proposals := om_put i p (lm_proposals m)\<rparr>
              in if \<not> accept then RemoveProposal E i LFG_UPDATETYPE_PROPOSAL_DECLINED m0
                 else if list_ex (\<lambda>e. pp_accept (snd e) \<noteq> LFG_ANSWER_AGREE) (lp_players p)
                 then fold (\<lambda>e. lm_send E (fst e) (SendUpdateProposal (fst e) p)) (lp_players p) m0
                 else let sendUpdate = (lp_state p \<noteq> LFG_PROPOSAL_SUCCESS);
                          p1 = p\<lparr>lp_state := LFG_PROPOSAL_SUCCESS\<rparr>
                      in case GetQueue E guid (m\<lparr>lm_proposals := om_put i p1 (lm_proposals m)\<rparr>) of (k, m1) \<Rightarrow>
                           let m2 = snd (fold (accept_player E sendUpdate p1 k) (lp_players p1)
                                           (update_data LFG_UPDATETYPE_GROUP_FOUND, m1));
                               m3 = upd_queue k (fold (RemoveFromQueue E) (lp_queues p1)) m2;
                               m4 = MakeNewGroup E p1 m3
                           in m4\<lparr>lm_proposals := om_del i (lm_proposals m4)\<rparr>)"

section \<open>Votes to kick\<close>

definition LFG_TIME_BOOT :: int where "LFG_TIME_BOOT = 120"
definition LFG_GROUP_KICK_VOTES_NEEDED :: uint8 where "LFG_GROUP_KICK_VOTES_NEEDED = 3"
definition LFR_GROUP_KICK_VOTES_NEEDED :: uint8 where "LFR_GROUP_KICK_VOTES_NEEDED = 15"

definition boot_at :: "uint64 \<Rightarrow> lfg_mgr \<Rightarrow> lfg_player_boot" where
  "boot_at g m = (case map_of (lm_boots m) g of
     None \<Rightarrow> \<lparr>lb_cancelTime = 0, lb_inProgress = False, lb_votes = [], lb_victim = 0, lb_reason = []\<rparr> | Some b \<Rightarrow> b)"

definition InitBoot :: "lfg_env \<Rightarrow> uint64 \<Rightarrow> uint64 \<Rightarrow> uint64 \<Rightarrow> string \<Rightarrow> lfg_mgr \<Rightarrow> lfg_mgr" where
  "InitBoot E gguid kicker victim reason m =
     (let m1 = SetVoteKick E gguid True m;
          players = gd_Players (group_at E gguid m1);
          b = boot_at gguid m1;
          votes = om_put kicker LFG_ANSWER_AGREE (om_put victim LFG_ANSWER_DENY
                    (fold (\<lambda>g. om_put g LFG_ANSWER_PENDING) players (lb_votes b)));
          b1 = b\<lparr>lb_inProgress := True, lb_cancelTime := le_now E + LFG_TIME_BOOT, lb_reason := reason,
                 lb_victim := victim, lb_votes := votes\<rparr>
      in fold (\<lambda>g. lm_send E g (SendBootProposalUpdate g b1)) players
           (m1\<lparr>lm_boots := om_put gguid b1 (lm_boots m1)\<rparr>))"

definition count_votes :: "(lfg_answer \<Rightarrow> bool) \<Rightarrow> (uint64 \<times> lfg_answer) list \<Rightarrow> uint8" where
  "count_votes P votes = of_nat (length (filter (P \<circ> snd) votes))"

definition votes_needed :: "bool \<Rightarrow> uint8" where
  "votes_needed isLfr = (if isLfr then LFR_GROUP_KICK_VOTES_NEEDED else LFG_GROUP_KICK_VOTES_NEEDED)"

definition is_lfr :: "lfg_env \<Rightarrow> uint64 \<Rightarrow> bool" where
  "is_lfr E gguid = (le_isLFRGroup E (GUID_LOPART gguid) = Some True)"

text \<open>
  The end of a vote.  The vote of a player without an entry is created by \<^verbatim>\<open>operator[]\<close> as 0, which is
  \<^verbatim>\<open>LFG_ANSWER_DENY\<close>.
\<close>

definition end_boot :: "lfg_env \<Rightarrow> uint64 \<Rightarrow> lfg_player_boot \<Rightarrow> lfg_mgr \<Rightarrow> lfg_mgr" where
  "end_boot E gguid b m =
     (let b1 = b\<lparr>lb_inProgress := False\<rparr>;
          m1 = fold (\<lambda>v m'. if fst v \<noteq> lb_victim b1 then lm_send E (fst v) (SendBootProposalUpdate (fst v) b1) m' else m')
                 (lb_votes b1) (m\<lparr>lm_boots := om_put gguid b1 (lm_boots m)\<rparr>);
          m2 = SetVoteKick E gguid False m1;
          m3 = (if count_votes (\<lambda>a. a = LFG_ANSWER_AGREE) (lb_votes b1) = votes_needed (is_lfr E gguid)
                then let n1 = (if le_isLFRGroup E (GUID_LOPART gguid) \<noteq> None
                               then RemoveFromGroup E (GUID_LOPART gguid) (lb_victim b1) m2 else m2);
                         n2 = (if \<not> is_lfr E gguid then DecreaseKicksLeft E gguid n1 else n1)
                     in SetVoteKickCooldown E gguid (word_of_int (le_now E + 15 * 60)) n2
                else m2)
      in m3\<lparr>lm_boots := om_del gguid (lm_boots m3)\<rparr>)"

definition UpdateBoot :: "lfg_env \<Rightarrow> uint64 \<Rightarrow> bool \<Rightarrow> lfg_mgr \<Rightarrow> lfg_mgr" where
  "UpdateBoot E guid accept m =
     (let gguid = pd_Group (lm_players m guid)
      in if gguid = 0 then m
         else case map_of (lm_boots m) gguid of
                None \<Rightarrow> m
              | Some b \<Rightarrow>
                  let vote = (case map_of (lb_votes b) guid of None \<Rightarrow> LFG_ANSWER_DENY | Some a \<Rightarrow> a)
                  in if vote \<noteq> LFG_ANSWER_PENDING
                     then m\<lparr>lm_boots := om_put gguid (b\<lparr>lb_votes := om_put guid vote (lb_votes b)\<rparr>) (lm_boots m)\<rparr>
                     else let b1 = b\<lparr>lb_votes := om_put guid (answer_of accept) (lb_votes b)\<rparr>;
                              votesNum = count_votes (\<lambda>a. a \<noteq> LFG_ANSWER_PENDING) (lb_votes b1);
                              agreeNum = count_votes (\<lambda>a. a = LFG_ANSWER_AGREE) (lb_votes b1);
                              needed = votes_needed (is_lfr E gguid);
                              m1 = m\<lparr>lm_boots := om_put gguid b1 (lm_boots m)\<rparr>
                          in if agreeNum < needed \<and> uint votesNum - uint agreeNum < uint needed then m1
                             else end_boot E gguid b1 m1)"


section \<open>Leaving\<close>

text \<open>The first proposal, in the order of the numbers, that has the player.\<close>

definition proposal_of :: "uint64 \<Rightarrow> lfg_mgr \<Rightarrow> (uint32 \<times> lfg_proposal) option" where
  "proposal_of pguid m = List.find (\<lambda>e. map_of (lp_players (snd e)) pguid \<noteq> None) (lm_proposals m)"

definition LeaveLfg :: "lfg_env \<Rightarrow> uint64 \<Rightarrow> bool \<Rightarrow> lfg_mgr \<Rightarrow> lfg_mgr" where
  "LeaveLfg E guid disconnected m0 =
     (let gguid = (if IS_GROUP_GUID guid then guid else pd_Group (lm_players m0 guid));
          m = see_state E guid m0
      in case lfg_GetState E guid m of
           LFG_STATE_QUEUED \<Rightarrow>
             if gguid \<noteq> 0 then
               case GetQueue E gguid m of (k, m1) \<Rightarrow>
                 let m2 = lfg_SetState E gguid LFG_STATE_NONE (upd_queue k (RemoveFromQueue E gguid) m1);
                     m3 = see_group E gguid m2
                 in fold (\<lambda>p m'. lm_send E p (SendUpdateStatus p (update_data LFG_UPDATETYPE_REMOVED_FROM_QUEUE) True)
                                   (lfg_SetState E p LFG_STATE_NONE m'))
                      (gd_Players (group_at E gguid m3)) m3
             else
               case GetQueue E guid m of (k, m1) \<Rightarrow>
                 lfg_SetState E guid LFG_STATE_NONE
                   (lm_send E guid (SendUpdateStatus guid (update_data LFG_UPDATETYPE_REMOVED_FROM_QUEUE) False)
                     (upd_queue k (RemoveFromQueue E guid) m1))
         | LFG_STATE_ROLECHECK \<Rightarrow> if gguid \<noteq> 0 then UpdateRoleCheck E gguid 0 PLAYER_ROLE_NONE m else m
         | LFG_STATE_PROPOSAL \<Rightarrow>
             let pguid = (if gguid = guid then gd_Leader (group_at E gguid m) else guid);
                 m1 = (if gguid = guid then see_group E gguid m else m)
             in case proposal_of pguid m1 of
                  None \<Rightarrow> m1
                | Some (i, p) \<Rightarrow>
                    let p1 = p\<lparr>lp_players := map (\<lambda>e. if fst e = pguid then (pguid, (snd e)\<lparr>pp_accept := LFG_ANSWER_DENY\<rparr>)
                                                    else e) (lp_players p)\<rparr>
                    in RemoveProposal E i LFG_UPDATETYPE_PROPOSAL_DECLINED
                         (m1\<lparr>lm_proposals := om_put i p1 (lm_proposals m1)\<rparr>)
         | LFG_STATE_NONE \<Rightarrow> m
         | LFG_STATE_RAIDBROWSER \<Rightarrow> m
         | _ \<Rightarrow> if guid \<noteq> gguid \<and> \<not> disconnected then lfg_SetState E guid LFG_STATE_NONE m else m)"

section \<open>Joining\<close>

text \<open>What a join asks of the players and of their group.\<close>

record lfg_join_player =
  jp_guid :: uint64
  jp_deserter :: bool
  jp_cooldown :: bool
  jp_battleground :: bool

record lfg_join_group =
  jg_guid :: uint64
  jg_isLFGGroup :: bool
  jg_membersCount :: uint32
  jg_members :: "lfg_join_player list"

definition LFG_TIME_ROLECHECK :: int where "LFG_TIME_ROLECHECK = 45"

text \<open>The checks of the players; the result, and the GUIDs of the members that were looked at.\<close>

fun join_members :: "lfg_join_player list \<Rightarrow> lfg_join_result \<times> uint8 \<times> uint64 list \<Rightarrow> lfg_join_result \<times> uint8 \<times> uint64 list" where
  "join_members [] s = s"
| "join_members (p # ps) (r, n, players) =
     (if r \<noteq> LFG_JOIN_OK then (r, n, players)
      else join_members ps
        (if jp_deserter p then LFG_JOIN_PARTY_DESERTER
         else if jp_cooldown p then LFG_JOIN_PARTY_RANDOM_COOLDOWN
         else if jp_battleground p then LFG_JOIN_USING_BG_SYSTEM else r,
         n + 1, set_put (jp_guid p) players))"

definition join_players ::
  "lfg_env \<Rightarrow> lfg_join_player \<Rightarrow> lfg_join_group option \<Rightarrow> uint32 list \<Rightarrow> lfg_join_result \<times> uint64 list" where
  "join_players E player grp ds =
     (if jp_battleground player then (LFG_JOIN_USING_BG_SYSTEM, [])
      else if jp_deserter player then (LFG_JOIN_DESERTER, [])
      else if jp_cooldown player then (LFG_JOIN_RANDOM_COOLDOWN, [])
      else if ds = [] then (LFG_JOIN_NOT_MEET_REQS, [])
      else case grp of
             None \<Rightarrow> (LFG_JOIN_OK, [jp_guid player])
           | Some g \<Rightarrow>
               if list_ex (\<lambda>i. case GetLFGDungeon E i of None \<Rightarrow> False | Some d \<Rightarrow> jg_membersCount g > GetMaxGroupSize d) ds
               then (LFG_JOIN_TOO_MUCH_MEMBERS, [])
               else case join_members (jg_members g) (LFG_JOIN_OK, 0, []) of (r, n, players) \<Rightarrow>
                      (if r = LFG_JOIN_OK \<and> ucast n \<noteq> jg_membersCount g then LFG_JOIN_DISCONNECTED else r, players))"

text \<open>
  The kinds of the dungeons.  A random dungeon next to others is invalid, but the case goes on and
  may still turn the result into a mix of kinds.
\<close>

record join_kinds =
  jk_result :: lfg_join_result
  jk_isRaid :: bool
  jk_isDungeon :: bool
  jk_rDungeonId :: uint32

fun join_types :: "lfg_env \<Rightarrow> uint32 list \<Rightarrow> uint32 list \<Rightarrow> join_kinds \<Rightarrow> join_kinds" where
  "join_types E ds [] k = k"
| "join_types E ds (i # is) k =
     (if jk_result k \<noteq> LFG_JOIN_OK then k
      else let t = GetDungeonType E i;
               k1 = (if t = LFG_TYPE_RANDOM
                     then if length ds > 1 then k\<lparr>jk_result := LFG_JOIN_DUNGEON_INVALID\<rparr> else k\<lparr>jk_rDungeonId := hd ds\<rparr>
                     else k)
           in join_types E ds is
             (if t = LFG_TYPE_RANDOM \<or> t = LFG_TYPE_DUNGEON
              then (if jk_isRaid k1 then k1\<lparr>jk_result := LFG_JOIN_MIXED_RAID_DUNGEON\<rparr> else k1)\<lparr>jk_isDungeon := True\<rparr>
              else if t = LFG_TYPE_RAID
              then (if jk_isDungeon k1 then k1\<lparr>jk_result := LFG_JOIN_MIXED_RAID_DUNGEON\<rparr> else k1)\<lparr>jk_isRaid := True\<rparr>
              else k1\<lparr>jk_result := LFG_JOIN_DUNGEON_INVALID\<rparr>))"

definition role_check_at :: "uint64 \<Rightarrow> lfg_mgr \<Rightarrow> lfg_role_check" where
  "role_check_at g m = (case map_of (lm_roleChecks m) g of
     None \<Rightarrow> \<lparr>rc_cancelTime = 0, rc_roles = [], rc_state = LFG_ROLECHECK_DEFAULT, rc_dungeons = [], rc_rDungeonId = 0,
             rc_leader = 0, rc_isBeginning = False\<rparr> | Some rc \<Rightarrow> rc)"

text \<open>The end of a join that is accepted: a role check of the group, or a place in the queue.\<close>

definition begin_role_check ::
  "lfg_env \<Rightarrow> uint64 \<Rightarrow> lfg_join_group \<Rightarrow> bool \<Rightarrow> uint8 \<Rightarrow> uint32 list \<Rightarrow> uint32 \<Rightarrow> string \<Rightarrow> lfg_mgr \<Rightarrow> lfg_mgr" where
  "begin_role_check E guid g isContinue roles ds rDungeonId comment m =
     (let gguid = jg_guid g;
          rc = (role_check_at gguid m)\<lparr>rc_cancelTime := le_now E + LFG_TIME_ROLECHECK, rc_state := LFG_ROLECHECK_INITIALITING,
                  rc_leader := guid, rc_dungeons := ds, rc_rDungeonId := rDungeonId, rc_isBeginning := True\<rparr>;
          shown = (if rDungeonId \<noteq> 0 then [rDungeonId] else ds);
          m1 = lfg_SetState E gguid LFG_STATE_ROLECHECK m;
          m2 = fold (\<lambda>p m'.
                 let n1 = lfg_SetState E (jp_guid p) LFG_STATE_ROLECHECK
                            (lm_emit [SendUpdateStatus (jp_guid p) (update_data_for LFG_UPDATETYPE_JOIN_QUEUE shown comment) True] m')
                 in if isContinue then n1 else SetSelectedDungeons (jp_guid p) shown n1) (jg_members g) m1;
          rc1 = rc\<lparr>rc_roles := fold (\<lambda>p. om_put (jp_guid p) 0) (jg_members g) (rc_roles rc)\<rparr>
      in UpdateRoleCheck E gguid guid roles (m2\<lparr>lm_roleChecks := om_put gguid rc1 (lm_roleChecks m2)\<rparr>))"

definition join_alone ::
  "lfg_env \<Rightarrow> uint64 \<Rightarrow> bool \<Rightarrow> uint8 \<Rightarrow> uint32 list \<Rightarrow> uint32 \<Rightarrow> string \<Rightarrow> lfg_mgr \<Rightarrow> lfg_mgr" where
  "join_alone E guid isContinue roles ds rDungeonId comment m =
     (case GetQueue E guid m of (k, m1) \<Rightarrow>
        let m2 = upd_queue k (AddQueueData E guid (le_now E) ds [(guid, roles)]) m1;
            shown = (if \<not> isContinue \<and> rDungeonId \<noteq> 0 then [rDungeonId] else ds);
            m3 = (if isContinue then m2 else SetSelectedDungeons guid shown m2);
            m4 = lm_emit [SendJoinResult guid LFG_JOIN_OK LFG_ROLECHECK_DEFAULT,
                          SendUpdateStatus guid (update_data_for LFG_UPDATETYPE_JOIN_QUEUE shown comment) False] m3
        in lfg_SetRoles guid roles (lfg_SetState E guid LFG_STATE_QUEUED m4))"

text \<open>
  The checks of the players and of the dungeons: the result, the kinds of the dungeons, and the dungeons
  that are open.  The players of somebody who is queued already are not looked at.
\<close>

definition join_checks ::
  "lfg_env \<Rightarrow> lfg_join_player \<Rightarrow> lfg_join_group option \<Rightarrow> bool \<Rightarrow> bool \<Rightarrow> uint32 list \<Rightarrow> lfg_mgr
     \<Rightarrow> lfg_join_result \<times> join_kinds \<times> uint32 list" where
  "join_checks E player grp queued isContinue ds m =
     (let (r, players) = (if queued then (LFG_JOIN_OK, []) else join_players E player grp ds);
          kinds = join_types E ds ds \<lparr>jk_result = r, jk_isRaid = False, jk_isDungeon = False, jk_rDungeonId = 0\<rparr>;
          expanded = (if jk_rDungeonId kinds \<noteq> 0 then GetDungeonsByRandom E (jk_rDungeonId kinds) else ds);
          open = GetCompatibleDungeons players isContinue m expanded
      in (if jk_result kinds \<noteq> LFG_JOIN_OK then jk_result kinds
          else if open = [] then (if grp = None then LFG_JOIN_NOT_MEET_REQS else LFG_JOIN_INTERNAL_ERROR)
          else LFG_JOIN_OK, kinds, open))"

definition JoinLfg ::
  "lfg_env \<Rightarrow> lfg_join_player \<Rightarrow> lfg_join_group option \<Rightarrow> uint8 \<Rightarrow> uint32 list \<Rightarrow> string \<Rightarrow> lfg_mgr \<Rightarrow> lfg_mgr" where
  "JoinLfg E player grp roles ds0 comment m =
     (if ds0 = [] then m
      else
        let guid = jp_guid player;
            gguid = (case grp of None \<Rightarrow> guid | Some g \<Rightarrow> jg_guid g);
            m1 = see_state E gguid m;
            isContinue = (case grp of None \<Rightarrow> False
                          | Some g \<Rightarrow> jg_isLFGGroup g \<and> lfg_GetState E gguid m \<noteq> LFG_STATE_FINISHED_DUNGEON);
            ds = (if isContinue then [gd_GetDungeon True (group_at E gguid m1)] else ds0);
            queued = (lfg_GetState E gguid m1 = LFG_STATE_QUEUED);
            m2 = (if queued then case GetQueue E gguid m1 of (k, n) \<Rightarrow> upd_queue k (RemoveFromQueue E gguid) n else m1)
        in case join_checks E player grp queued isContinue ds m2 of (result, kinds, open) \<Rightarrow>
             if result \<noteq> LFG_JOIN_OK then lm_emit [SendJoinResult guid result LFG_ROLECHECK_DEFAULT] m2
             else let m3 = SetComment guid comment m2
                  in if jk_isRaid kinds then m3
                     else case grp of
                            Some g \<Rightarrow> begin_role_check E guid g isContinue roles open (jk_rDungeonId kinds) comment m3
                          | None \<Rightarrow> join_alone E guid isContinue roles open (jk_rDungeonId kinds) comment m3)"

section \<open>The periodic update\<close>

definition LFG_OPTION_ENABLE_DUNGEON_FINDER :: uint32 where "LFG_OPTION_ENABLE_DUNGEON_FINDER = 1"
definition LFG_OPTION_ENABLE_RAID_BROWSER :: uint32 where "LFG_OPTION_ENABLE_RAID_BROWSER = 2"
definition LFG_QUEUEUPDATE_INTERVAL :: uint32 where "LFG_QUEUEUPDATE_INTERVAL = 15000"

definition isOptionEnabled :: "uint32 \<Rightarrow> lfg_mgr \<Rightarrow> bool" where
  "isOptionEnabled option m \<longleftrightarrow> lm_options m AND option \<noteq> 0"

definition lfg_enabled :: "lfg_mgr \<Rightarrow> bool" where
  "lfg_enabled m = isOptionEnabled (LFG_OPTION_ENABLE_DUNGEON_FINDER OR LFG_OPTION_ENABLE_RAID_BROWSER) m"

definition expire_role_check :: "lfg_env \<Rightarrow> uint64 \<times> lfg_role_check \<Rightarrow> lfg_mgr \<Rightarrow> lfg_mgr" where
  "expire_role_check E e m =
     (if le_now E < rc_cancelTime (snd e) then m
      else let rc = (snd e)\<lparr>rc_state := LFG_ROLECHECK_MISSING_ROLE\<rparr>;
               m1 = fold (\<lambda>r m'.
                      let n = lm_send E (fst r) (SendRoleCheckUpdate (fst r) rc) (RestoreState E (fst r) m')
                      in if fst r = rc_leader rc
                         then lm_send E (fst r) (SendJoinResult (fst r) LFG_JOIN_ROLE_CHECK_FAILED LFG_ROLECHECK_MISSING_ROLE) n
                         else n) (rc_roles rc) m;
               m2 = RestoreState E (fst e) m1
           in m2\<lparr>lm_roleChecks := om_del (fst e) (lm_roleChecks m2)\<rparr>)"

definition expire_proposal :: "lfg_env \<Rightarrow> uint32 \<times> lfg_proposal \<Rightarrow> lfg_mgr \<Rightarrow> lfg_mgr" where
  "expire_proposal E e m =
     (if lp_cancelTime (snd e) < le_now E then RemoveProposal E (fst e) LFG_UPDATETYPE_PROPOSAL_FAILED m else m)"

definition expire_boot :: "lfg_env \<Rightarrow> uint64 \<times> lfg_player_boot \<Rightarrow> lfg_mgr \<Rightarrow> lfg_mgr" where
  "expire_boot E e m =
     (if lb_cancelTime (snd e) < le_now E
      then let b = (snd e)\<lparr>lb_inProgress := False\<rparr>;
               m1 = fold (\<lambda>v m'. if fst v \<noteq> lb_victim b then lm_send E (fst v) (SendBootProposalUpdate (fst v) b) m' else m')
                      (lb_votes b) m;
               m2 = SetVoteKick E (fst e) False m1
           in m2\<lparr>lm_boots := om_del (fst e) (lm_boots m2)\<rparr>
      else m)"

definition find_in_queue :: "lfg_env \<Rightarrow> uint8 \<Rightarrow> lfg_mgr \<Rightarrow> lfg_mgr" where
  "find_in_queue E k m = (case FindGroups E 0 (queue_at k m) m of (n, q, m1) \<Rightarrow> upd_queue k (\<lambda>_. q) m1)"

definition announce_player :: "lfg_env \<Rightarrow> lfg_proposal \<Rightarrow> uint64 \<Rightarrow> lfg_mgr \<Rightarrow> lfg_mgr" where
  "announce_player E p guid m =
     (let m1 = lfg_SetState E guid LFG_STATE_PROPOSAL m;
          gguid = pd_Group (lm_players m1 guid);
          m2 = (if gguid \<noteq> 0 then lfg_SetState E gguid LFG_STATE_PROPOSAL m1 else m1);
          m3 = lm_send E guid (SendUpdateStatus guid (update_data_for LFG_UPDATETYPE_PROPOSAL_BEGIN
                 (pd_SelectedDungeons (lm_players m2 guid)) (pd_Comment (lm_players m2 guid))) (gguid \<noteq> 0)) m2
      in lm_send E guid (SendUpdateProposal guid p) m3)"

definition announce :: "lfg_env \<Rightarrow> uint32 \<times> lfg_proposal \<Rightarrow> lfg_mgr \<Rightarrow> lfg_mgr" where
  "announce E e m =
     (let m1 = fold (announce_player E (snd e) \<circ> fst) (lp_players (snd e)) m
      in if lp_state (snd e) = LFG_PROPOSAL_SUCCESS
         then UpdateProposal E (fst e) (if lp_players (snd e) = [] then 0 else fst (last (lp_players (snd e)))) True m1
         else m1)"

text \<open>The proposals from the number of the last one on, if it is there.\<close>

definition to_announce :: "uint32 \<Rightarrow> lfg_mgr \<Rightarrow> (uint32 \<times> lfg_proposal) list" where
  "to_announce lastId m =
     (if lastId \<noteq> lm_proposalId m \<and> map_of (lm_proposals m) (lm_proposalId m) \<noteq> None
      then dropWhile (\<lambda>e. fst e \<noteq> lm_proposalId m) (lm_proposals m) else [])"

definition call_to_arms :: "uint32 \<times> uint32 \<times> uint32 \<Rightarrow> uint8 \<Rightarrow> uint8" where
  "call_to_arms counts roles =
     (case counts of (tanks, healers, dps) \<Rightarrow>
        let r0 = roles AND NOT PLAYER_ROLE_HEALER AND NOT PLAYER_ROLE_TANK AND NOT PLAYER_ROLE_DAMAGE;
            r1 = (if tanks = 0 \<or> tanks < dps then r0 OR PLAYER_ROLE_TANK else r0);
            r2 = (if healers = 0 \<or> healers < dps then r1 OR PLAYER_ROLE_HEALER else r1)
        in if dps \<noteq> 0 \<and> (dps < tanks \<or> dps < healers) then r2 OR PLAYER_ROLE_DAMAGE else r2)"

definition update_timers :: "lfg_env \<Rightarrow> uint32 \<Rightarrow> lfg_mgr \<Rightarrow> lfg_mgr" where
  "update_timers E diff m =
     (if lm_queueTimer m > LFG_QUEUEUPDATE_INTERVAL
      then case fold (\<lambda>k s. case s of (counts, n) \<Rightarrow>
                        case UpdateQueueTimers E k (le_now E) (counts, queue_at k n, n) of
                          (counts', q, n') \<Rightarrow> (counts', upd_queue k (\<lambda>_. q) n'))
                 (map fst (lm_queues m)) ((0, 0, 0), m\<lparr>lm_queueTimer := 0\<rparr>) of
             (counts, m1) \<Rightarrow> m1\<lparr>lm_callToArmsRoles := call_to_arms counts (lm_callToArmsRoles m1)\<rparr>
      else m\<lparr>lm_queueTimer := lm_queueTimer m + diff\<rparr>)"

definition lfg_expire :: "lfg_env \<Rightarrow> lfg_mgr \<Rightarrow> lfg_mgr" where
  "lfg_expire E m =
     (let m1 = fold (expire_role_check E) (lm_roleChecks m) m;
          m2 = fold (expire_proposal E) (lm_proposals m1) m1
      in fold (expire_boot E) (lm_boots m2) m2)"

definition lfg_Update :: "lfg_env \<Rightarrow> uint32 \<Rightarrow> lfg_mgr \<Rightarrow> lfg_mgr" where
  "lfg_Update E diff m =
     (if \<not> lfg_enabled m then m
      else let m1 = lfg_expire E m;
               m2 = fold (find_in_queue E) (map fst (lm_queues m1)) m1;
               m3 = fold (announce E) (to_announce (lm_proposalId m1) m2) m2
           in update_timers E diff m3)"

section \<open>The hooks of groups and players\<close>

text \<open>\<^verbatim>\<open>LFGScripts.cpp\<close>: called by the group and player code.\<close>

datatype remove_method =
    GROUP_REMOVEMETHOD_DEFAULT | GROUP_REMOVEMETHOD_KICK | GROUP_REMOVEMETHOD_LEAVE | GROUP_REMOVEMETHOD_KICK_LFG

definition OnLogout :: "lfg_env \<Rightarrow> uint64 \<Rightarrow> bool \<Rightarrow> bool \<Rightarrow> lfg_mgr \<Rightarrow> lfg_mgr" where
  "OnLogout E guid inGroup disconnected m =
     (if \<not> lfg_enabled m then m
      else if \<not> inGroup then LeaveLfg E guid False (lm_emit [SendLfrListOff guid] m)
      else if disconnected then LeaveLfg E guid True m else m)"

definition OnAddMember :: "lfg_env \<Rightarrow> uint64 \<Rightarrow> uint64 \<Rightarrow> uint64 \<Rightarrow> lfg_mgr \<Rightarrow> lfg_mgr" where
  "OnAddMember E gguid leader guid m =
     (if \<not> lfg_enabled m then m
      else let m1 = (if leader = guid then SetLeader E gguid guid m
                     else let gstate = lfg_GetState E gguid m;
                              n0 = see_state E gguid m;
                              state = lfg_GetState E guid n0;
                              n1 = (if state = LFG_STATE_QUEUED then LeaveLfg E guid False n0 else n0)
                          in if gstate = LFG_STATE_QUEUED then LeaveLfg E gguid False n1 else n1)
           in AddPlayerToGroup E gguid guid (SetGroup guid gguid m1))"

text \<open>
  \<open>name\<close> is the name of the victim, if it is known; \<open>cast\<close> the setting that deserters are punished; \<open>inside\<close> says that
  the player is on the map of a dungeon.
\<close>

definition OnRemoveMember ::
  "lfg_env \<Rightarrow> string option \<Rightarrow> bool \<Rightarrow> bool \<Rightarrow> uint64 \<Rightarrow> bool \<Rightarrow> uint64 \<Rightarrow> remove_method \<Rightarrow> uint64 \<Rightarrow> string
     \<Rightarrow> lfg_mgr \<Rightarrow> lfg_mgr" where
  "OnRemoveMember E name cast inside gguid isLFG guid method kicker reason m =
     (if \<not> lfg_enabled m then m
      else if isLFG \<and> method = GROUP_REMOVEMETHOD_KICK
      then if reason \<noteq> [] then InitBoot E gguid kicker guid reason m
           else case name of None \<Rightarrow> m | Some s \<Rightarrow> lm_send E kicker (SendReasonNeeded kicker s guid) m
      else let state = lfg_GetState E gguid m;
               m0 = see_state E gguid m
           in if state = LFG_STATE_PROPOSAL \<and> method = GROUP_REMOVEMETHOD_DEFAULT
              then snd (RemovePlayerFromGroup E gguid guid (SetGroup guid 0 m0))
              else case RemovePlayerFromGroup E gguid guid (SetGroup guid 0 (LeaveLfg E guid False m0)) of (players, m1) \<Rightarrow>
                     let m2 = (if method = GROUP_REMOVEMETHOD_LEAVE \<and> state = LFG_STATE_DUNGEON \<and>
                                  players \<ge> LFG_GROUP_KICK_VOTES_NEEDED \<and> cast
                               then lm_send E guid (CastLongDeserter guid) m1 else m1);
                         m3 = lm_send E guid (SendUpdateStatus guid (update_data LFG_UPDATETYPE_LEADER_UNK1) True) m2;
                         m4 = (if isLFG \<and> inside then lm_send E guid (TeleportOut guid) m3 else m3)
                     in if isLFG \<and> state \<noteq> LFG_STATE_FINISHED_DUNGEON
                        then let leader = gd_Leader (group_at E gguid m4); m5 = see_group E gguid m4
                             in if le_online E leader
                                then lm_emit [SendOfferContinue leader (gd_GetDungeon False (group_at E gguid m5))] m5 else m5
                        else m4)"

definition OnDisband :: "lfg_env \<Rightarrow> uint64 \<Rightarrow> lfg_mgr \<Rightarrow> lfg_mgr" where
  "OnDisband E gguid m = (if lfg_enabled m then RemoveGroupData E gguid m else m)"

definition OnChangeLeader :: "lfg_env \<Rightarrow> uint64 \<Rightarrow> uint64 \<Rightarrow> lfg_mgr \<Rightarrow> lfg_mgr" where
  "OnChangeLeader E gguid leader m = (if lfg_enabled m then SetLeader E gguid leader m else m)"

definition OnInviteMember :: "lfg_env \<Rightarrow> uint64 \<Rightarrow> uint64 \<Rightarrow> lfg_mgr \<Rightarrow> lfg_mgr" where
  "OnInviteMember E gguid leader m =
     (if lfg_enabled m \<and> leader \<noteq> 0 \<and> gguid = 0 then LeaveLfg E leader False m else m)"

end
