(* ===== verification/LFG_States.thy ===== *)
theory LFG_States
  imports LFG_Mgr
begin

text \<open>
  Invariants of the dungeon finder.  The locale \<open>lfg_invariant\<close> is the contract of a property that the handlers
  of the manager and the hooks keep: it names the few ways in which they change the state.  It is
  interpreted for the states of players and groups (the state to fall back to is always one of the
  three lasting ones, and a lasting state is its own fallback) and for the queues (who is on a list has
  queue data).
\<close>

section \<open>What operations leave alone\<close>

lemma fold_frame: "(\<And>x m. F (f x m) = F m) \<Longrightarrow> F (fold f xs m) = F m"
  by (induction xs arbitrary: m) auto

lemma lm_emit_frame [simp]:
  "lm_players (lm_emit xs m) = lm_players m" "lm_groups (lm_emit xs m) = lm_groups m"
  "lm_queues (lm_emit xs m) = lm_queues m" "lm_proposals (lm_emit xs m) = lm_proposals m"
  "lm_roleChecks (lm_emit xs m) = lm_roleChecks m" "lm_boots (lm_emit xs m) = lm_boots m"
  "lm_proposalId (lm_emit xs m) = lm_proposalId m" "lm_out (lm_emit xs m) = lm_out m @ xs"
  by (simp_all add: lm_emit_def)

lemma lm_send_frame [simp]:
  "lm_players (lm_send E g x m) = lm_players m" "lm_groups (lm_send E g x m) = lm_groups m"
  "lm_queues (lm_send E g x m) = lm_queues m" "lm_proposals (lm_send E g x m) = lm_proposals m"
  "lm_roleChecks (lm_send E g x m) = lm_roleChecks m" "lm_boots (lm_send E g x m) = lm_boots m"
  "lm_proposalId (lm_send E g x m) = lm_proposalId m"
  by (simp_all add: lm_send_def)

lemma upd_player_frame [simp]:
  "lm_groups (upd_player g f m) = lm_groups m" "lm_queues (upd_player g f m) = lm_queues m"
  "lm_proposals (upd_player g f m) = lm_proposals m" "lm_roleChecks (upd_player g f m) = lm_roleChecks m"
  "lm_boots (upd_player g f m) = lm_boots m" "lm_proposalId (upd_player g f m) = lm_proposalId m"
  "lm_out (upd_player g f m) = lm_out m"
  by (simp_all add: upd_player_def)

lemma upd_group_frame [simp]:
  "lm_players (upd_group E g f m) = lm_players m" "lm_queues (upd_group E g f m) = lm_queues m"
  "lm_proposals (upd_group E g f m) = lm_proposals m" "lm_roleChecks (upd_group E g f m) = lm_roleChecks m"
  "lm_boots (upd_group E g f m) = lm_boots m" "lm_proposalId (upd_group E g f m) = lm_proposalId m"
  "lm_out (upd_group E g f m) = lm_out m"
  by (simp_all add: upd_group_def)

lemma upd_queue_frame [simp]:
  "lm_players (upd_queue i f m) = lm_players m" "lm_groups (upd_queue i f m) = lm_groups m"
  "lm_proposals (upd_queue i f m) = lm_proposals m" "lm_roleChecks (upd_queue i f m) = lm_roleChecks m"
  "lm_boots (upd_queue i f m) = lm_boots m" "lm_proposalId (upd_queue i f m) = lm_proposalId m"
  "lm_out (upd_queue i f m) = lm_out m"
  by (simp_all add: upd_queue_def)

lemma see_frame [simp]:
  "lm_players (see_group E g m) = lm_players m" "lm_queues (see_group E g m) = lm_queues m"
  "lm_proposals (see_group E g m) = lm_proposals m" "lm_roleChecks (see_group E g m) = lm_roleChecks m"
  "lm_boots (see_group E g m) = lm_boots m" "lm_proposalId (see_group E g m) = lm_proposalId m"
  "lm_players (see_state E g m) = lm_players m" "lm_queues (see_state E g m) = lm_queues m"
  "lm_proposals (see_state E g m) = lm_proposals m" "lm_roleChecks (see_state E g m) = lm_roleChecks m"
  "lm_boots (see_state E g m) = lm_boots m" "lm_proposalId (see_state E g m) = lm_proposalId m"
  by (simp_all add: see_group_def see_state_def)

lemma SetState_frame [simp]:
  "lm_queues (lfg_SetState E g st m) = lm_queues m" "lm_proposals (lfg_SetState E g st m) = lm_proposals m"
  "lm_roleChecks (lfg_SetState E g st m) = lm_roleChecks m" "lm_boots (lfg_SetState E g st m) = lm_boots m"
  "lm_proposalId (lfg_SetState E g st m) = lm_proposalId m" "lm_out (lfg_SetState E g st m) = lm_out m"
  "lm_queues (RestoreState E g m) = lm_queues m" "lm_proposals (RestoreState E g m) = lm_proposals m"
  "lm_roleChecks (RestoreState E g m) = lm_roleChecks m" "lm_boots (RestoreState E g m) = lm_boots m"
  "lm_proposalId (RestoreState E g m) = lm_proposalId m" "lm_out (RestoreState E g m) = lm_out m"
  by (simp_all add: lfg_SetState_def RestoreState_def)

lemma same_lfg_FindNewGroups:
  "same_lfg E m (snd (snd (snd (FindNewGroups E check all q m))))"
proof -
  have probe: "same_lfg E m (snd (snd (probe E check q m)))" for check q m
  proof -
    define r where "r = (if GetCompatibles (ConcatenateGuids check) q = LFG_COMPATIBILITY_PENDING
      then CheckCompatibility E check q m else (GetCompatibles (ConcatenateGuids check) q, q, m))"
    obtain c q1 m1 where r: "r = (c, q1, m1)" by (metis prod_cases3)
    have s: "same_lfg E m m1" using CheckCompatibility_frame [of E q check m] r by (auto simp: r_def split: if_splits)
    obtain qd m2 where a: "(if c = LFG_COMPATIBLES_BAD_STATES then AllQueued E check m1 else (False, m1)) = (qd, m2)"
      by fastforce
    then have "same_lfg E m m2"
      using s same_lfg_trans [OF s same_lfg_AllQueued [of E m1 check]] by (auto split: if_splits)
    then show ?thesis
      unfolding probe_def Let_def r_def [symmetric] r split_conv a by simp
  qed
  have greedy: "same_lfg E m (snd (snd (snd (greedy E check all q m))))" for check all q m
  proof (induction all arbitrary: check q m)
    case (Cons a all)
    obtain c q1 m1 where p: "probe E (check @ [a]) q m = (c, q1, m1)" by (metis prod_cases3)
    then have s: "same_lfg E m m1" using probe [of m "check @ [a]" q] by simp
    from same_lfg_trans [OF s Cons] s p show ?case by simp
  qed simp
  obtain c q1 m1 where p: "probe E check q m = (c, q1, m1)" by (metis prod_cases3)
  then have s: "same_lfg E m m1" using probe [of m check q] by simp
  from same_lfg_trans [OF s greedy] s p show ?thesis by (simp add: FindNewGroups_probe find_loop_greedy)
qed

lemma same_lfg_FindGroups: "same_lfg E m (snd (snd (FindGroups E n q m)))"
proof (induction E n q m rule: FindGroups.induct)
  case (1 E n q m)
  show ?case
  proof (cases "newToQueueStore q")
    case (Cons front rest)
    obtain c all' q1 m1 where r: "FindNewGroups E [front] (currentQueueStore q) (RemoveFromNewQueue front q) m = (c, all', q1, m1)"
      by (metis prod_cases4)
    then have s: "same_lfg E m m1"
      using same_lfg_FindNewGroups [of E m "[front]" "currentQueueStore q" "RemoveFromNewQueue front q"] by simp
    show ?thesis
      using 1 Cons r same_lfg_trans [OF s] by (subst FindGroups.simps) simp
  qed (simp add: FindGroups.simps)
qed

section \<open>Well-formed states\<close>

definition lasting :: "lfg_state \<Rightarrow> bool" where
  "lasting st \<longleftrightarrow> st = LFG_STATE_NONE \<or> st = LFG_STATE_DUNGEON \<or> st = LFG_STATE_FINISHED_DUNGEON"

definition good_state :: "lfg_state \<Rightarrow> lfg_state \<Rightarrow> bool" where
  "good_state st old \<longleftrightarrow> lasting old \<and> (lasting st \<longrightarrow> old = st)"

definition good_player :: "lfg_player_data \<Rightarrow> bool" where
  "good_player p \<longleftrightarrow> good_state (pd_State p) (pd_OldState p)"

definition good_group :: "lfg_group_data \<Rightarrow> bool" where
  "good_group g \<longleftrightarrow> good_state (gd_State g) (gd_OldState g)"

definition states_ok :: "lfg_mgr \<Rightarrow> bool" where
  "states_ok m \<longleftrightarrow> (\<forall>g. good_player (lm_players m g)) \<and> (\<forall>g d. lm_groups m g = Some d \<longrightarrow> good_group d)"

lemma good_new [simp]: "good_player LfgPlayerData_new" "good_group (LfgGroupData_new t)"
  by (simp_all add: good_player_def good_group_def good_state_def lasting_def LfgPlayerData_new_def LfgGroupData_new_def)

lemma good_group_at: "states_ok m \<Longrightarrow> good_group (group_at E g m)"
  by (auto simp: states_ok_def group_at_def split: option.split)

lemma fold_holds: "P s \<Longrightarrow> (\<And>x s. P s \<Longrightarrow> P (f x s)) \<Longrightarrow> P (fold f xs s)"
  by (induction xs arbitrary: s) auto


section \<open>Invariants\<close>

text \<open>Who is on a list of a queue has queue data.\<close>

definition data_keys :: "lfg_queue \<Rightarrow> uint64 set" where
  "data_keys q = fst ` set (QueueDataStore q)"

definition queued_in :: "lfg_queue \<Rightarrow> bool" where
  "queued_in q \<longleftrightarrow> set (newToQueueStore q) \<union> set (currentQueueStore q) \<subseteq> data_keys q"

definition queues_ok :: "lfg_mgr \<Rightarrow> bool" where
  "queues_ok m \<longleftrightarrow> (\<forall>e \<in> set (lm_queues m). queued_in (snd e))"

text \<open>The two calls of the group code act on the dungeon finder through its hooks only.\<close>

definition calls_keep :: "(lfg_mgr \<Rightarrow> bool) \<Rightarrow> lfg_env \<Rightarrow> bool" where
  "calls_keep P E \<longleftrightarrow> (\<forall>p m. P m \<longrightarrow> P (MakeNewGroup E p m)) \<and> (\<forall>g p m. P m \<longrightarrow> P (RemoveFromGroup E g p m))"

named_theorems keeps

named_theorems good

lemma good_players [good]:
  assumes "good_player p"
  shows "good_player (pd_SetState st p)" "good_player (pd_RestoreState p)" "good_player (p\<lparr>pd_Roles := r\<rparr>)"
    "good_player (p\<lparr>pd_Comment := c\<rparr>)" "good_player (p\<lparr>pd_SelectedDungeons := ds\<rparr>)" "good_player (p\<lparr>pd_Group := g\<rparr>)"
  using assms by (auto simp: good_player_def pd_SetState_def pd_RestoreState_def good_state_def lasting_def Let_def)

lemma good_groups [good]:
  assumes "good_group d"
  shows "good_group (gd_SetState st d)" "good_group (gd_RestoreState d)" "good_group (d\<lparr>gd_VoteKickActive := b\<rparr>)"
    "good_group (d\<lparr>gd_VoteKickCooldown := t\<rparr>)" "good_group (gd_DecreaseKicksLeft d)" "good_group (d\<lparr>gd_Leader := l\<rparr>)"
    "good_group (gd_AddPlayer p d)" "good_group (snd (gd_RemovePlayer p d))"
  using assms by (auto simp: good_group_def gd_SetState_def gd_RestoreState_def gd_DecreaseKicksLeft_def gd_AddPlayer_def
      gd_RemovePlayer_def good_state_def lasting_def Let_def)

lemma data_keys_simps [simp]:
  "data_keys (touch_data E g q) = insert g (data_keys q)" "data_keys (SetCompatibles k c q) = data_keys q"
  "data_keys (SetCompatibilityData k x q) = data_keys q" "data_keys (RemoveFromNewQueue g q) = data_keys q"
  "data_keys (RemoveFromCurrentQueue g q) = data_keys q" "data_keys (AddToCurrentQueue g q) = data_keys q"
  by (simp_all add: data_keys_def touch_data_def fst_om_put SetCompatibles_def SetCompatibilityData_def
      RemoveFromNewQueue_def RemoveFromCurrentQueue_def AddToCurrentQueue_def)

lemma listed_queues [good]:
  assumes "queued_in q"
  shows "queued_in (RemoveFromQueue E g q)" "queued_in (AddToQueue g q)" "queued_in (AddQueueData E g t ds rs q)"
    "queued_in (UpdateWaitTimeDps w i q)" "queued_in (UpdateWaitTimeHealer w i q)" "queued_in (UpdateWaitTimeTank w i q)"
    "queued_in (UpdateWaitTimeAvg w i q)" "queued_in (fold (RemoveFromQueue E) gs q)" "queued_in (fold AddToQueue gs q)"
proof -
  have r: "queued_in (RemoveFromQueue E g q)" if "queued_in q" for g q
  proof -
    have "data_keys (RemoveFromQueue E g q) = data_keys q - {g}"
      by (auto simp: data_keys_def RemoveFromQueue_def Let_def fst_om_del image_image RemoveFromCompatibles_def
          RemoveFromCurrentQueue_def RemoveFromNewQueue_def)
    moreover have "newToQueueStore (RemoveFromQueue E g q) = filter (\<lambda>x. x \<noteq> g) (newToQueueStore q)"
      "currentQueueStore (RemoveFromQueue E g q) = filter (\<lambda>x. x \<noteq> g) (currentQueueStore q)"
      by (simp_all add: RemoveFromQueue_def Let_def RemoveFromCompatibles_def RemoveFromCurrentQueue_def
          RemoveFromNewQueue_def)
    ultimately show ?thesis using that by (auto simp: queued_in_def)
  qed
  have a: "queued_in (AddToQueue g q)" if "queued_in q" for g q
    using that by (auto simp: queued_in_def AddToQueue_def AddToNewQueue_def data_keys_def map_of_eq_None_iff)
  show "queued_in (RemoveFromQueue E g q)" "queued_in (AddToQueue g q)" using r a assms by auto
  show "queued_in (fold (RemoveFromQueue E) gs q)" "queued_in (fold AddToQueue gs q)"
    using r a assms by (auto intro: fold_holds)
  show "queued_in (AddQueueData E g t ds rs q)" unfolding AddQueueData_def
    by (rule a) (use assms in \<open>auto simp: queued_in_def data_keys_def fst_om_put\<close>)
qed (use assms in \<open>auto simp: queued_in_def data_keys_def UpdateWaitTimeDps_def UpdateWaitTimeHealer_def
      UpdateWaitTimeTank_def UpdateWaitTimeAvg_def\<close>)

locale lfg_invariant =
  fixes P :: "lfg_mgr \<Rightarrow> bool"
  assumes player: "P m \<Longrightarrow> (\<And>p. good_player p \<Longrightarrow> good_player (f p)) \<Longrightarrow> P (upd_player g f m)"
    and group: "P m \<Longrightarrow> (\<And>d. good_group d \<Longrightarrow> good_group (h d)) \<Longrightarrow> P (upd_group E g h m)"
    and drop_group: "P m \<Longrightarrow> P (m\<lparr>lm_groups := (lm_groups m)(g := None)\<rparr>)"
    and emit: "P m \<Longrightarrow> P (lm_emit xs m)"
    and queue: "P m \<Longrightarrow> (\<And>q. queued_in q \<Longrightarrow> queued_in (u q)) \<Longrightarrow> P (upd_queue k u m)"
    and find: "P m \<Longrightarrow> P (find_in_queue E k m)"
    and timer: "P m \<Longrightarrow> UpdateQueueTimers E k t (c, queue_at k m, m) = (c', q, m') \<Longrightarrow> P (upd_queue k (\<lambda>_. q) m')"
    and stores: "P m \<Longrightarrow> P (m\<lparr>lm_proposals := ps\<rparr>)" "P m \<Longrightarrow> P (m\<lparr>lm_roleChecks := rs\<rparr>)"
      "P m \<Longrightarrow> P (m\<lparr>lm_boots := bs\<rparr>)" "P m \<Longrightarrow> P (m\<lparr>lm_queueTimer := qt\<rparr>)"
      "P m \<Longrightarrow> P (m\<lparr>lm_callToArmsRoles := ca\<rparr>)"
begin

lemmas base [keeps] = emit find stores

lemma keeps_fold: "P m \<Longrightarrow> (\<And>x m. P m \<Longrightarrow> P (f x m)) \<Longrightarrow> P (fold f xs m)"
  by (rule fold_holds)

lemma keeps_send [keeps]: "P m \<Longrightarrow> P (lm_send E g x m)"
  by (simp add: lm_send_def emit)

lemma keeps_queue [keeps]:
  assumes "P m"
  shows "P (upd_queue k (\<lambda>q. q) m)" "P (upd_queue k (RemoveFromQueue E g) m)" "P (upd_queue k (AddQueueData E g t ds rs) m)"
    "P (upd_queue k (fold (RemoveFromQueue E) gs) m)" "P (upd_queue k (fold AddToQueue gs) m)"
  using assms by (auto intro!: queue good)

lemma keeps_data [keeps]:
  assumes "P m"
  shows "P (lfg_SetState E g st m)" "P (RestoreState E g m)" "P (see_group E g m)"
    "P (see_state E g m)" "P (SetVoteKick E g b m)" "P (SetVoteKickCooldown E g t m)"
    "P (DecreaseKicksLeft E g m)" "P (SetLeader E g l m)" "P (AddPlayerToGroup E g p m)"
    "P (snd (RemovePlayerFromGroup E g p m))" "P (lfg_SetRoles p r m)" "P (SetComment p c m)"
    "P (SetSelectedDungeons p ds m)" "P (SetGroup p g m)"
  using assms
  unfolding lfg_SetState_def RestoreState_def see_group_def see_state_def SetVoteKick_def SetVoteKickCooldown_def
    DecreaseKicksLeft_def SetLeader_def AddPlayerToGroup_def RemovePlayerFromGroup_def lfg_SetRoles_def SetComment_def
    SetSelectedDungeons_def SetGroup_def
  by (auto intro!: player group good)

lemma keeps_GetQueue [keeps]: "P m \<Longrightarrow> P (snd (GetQueue E g m))"
  by (auto simp: GetQueue_def intro: keeps)

lemma keeps_role_notify [keeps]: "P m \<Longrightarrow> P (role_notify E c g r ds rc x m)"
  by (auto simp: role_notify_def Let_def intro!: keeps split: lfg_role_check_state.split)

lemma keeps_UpdateRoleCheck [keeps]:
  assumes "P m"
  shows "P (UpdateRoleCheck E gguid guid roles m)"
proof (cases "gguid = 0 \<or> map_of (lm_roleChecks m) gguid = None")
  case False
  then obtain rc where rc: "map_of (lm_roleChecks m) gguid = Some rc" by auto
  show ?thesis using False assms
    by (auto simp: UpdateRoleCheck_def rc Let_def split_beta intro!: keeps keeps_fold)
qed (use assms in \<open>auto simp: UpdateRoleCheck_def\<close>)

lemma keeps_mark [keeps]: "P (snd s) \<Longrightarrow> P (snd (mark_deniers E ps s))"
proof (induction ps arbitrary: s)
  case (Cons e ps)
  have step: "mark_deniers E (e # ps) s = mark_deniers E ps (if pp_accept (snd e) = LFG_ANSWER_DENY
      then (set_put (pp_entry e) (fst s), lm_send E (pp_entry e) (CastDeserter (pp_entry e)) (snd s)) else s)"
    by (simp add: mark_deniers_def)
  show ?case unfolding step by (rule Cons.IH) (use Cons.prems in \<open>auto intro: keeps\<close>)
qed (simp add: mark_deniers_def)

lemma keeps_notify_failed [keeps]: "P m \<Longrightarrow> P (notify_failed E t p rs e m)"
  by (auto simp: notify_failed_def Let_def intro!: keeps)

lemma keeps_RemoveProposal [keeps]: "P m \<Longrightarrow> P (RemoveProposal E i t m)"
  by (auto simp: RemoveProposal_def Let_def split_beta split: option.split intro!: keeps keeps_fold)

lemma keeps_accept: "P (snd s) \<Longrightarrow> P (snd (fold (accept_player E b p k) es s))"
proof (induction es arbitrary: s)
  case (Cons e es)
  have "P (snd (accept_player E b p k e s))"
    using Cons.prems by (cases s) (auto simp: accept_player_def Let_def intro!: keeps queue good)
  with Cons.IH show ?case by simp
qed simp

lemma keeps_UpdateProposal [keeps]: "calls_keep P E \<Longrightarrow> P m \<Longrightarrow> P (UpdateProposal E i g a m)"
proof -
  assume c: "calls_keep P E" and ok: "P m"
  have make: "P m \<Longrightarrow> P (MakeNewGroup E p m)" for p m using c by (simp add: calls_keep_def)
  show ?thesis using ok
    by (auto simp: UpdateProposal_def Let_def split_beta split: option.split
        intro!: keeps keeps_fold make keeps_accept)
qed

lemma keeps_boot [keeps]:
  assumes "P m"
  shows "P (InitBoot E g k v r m)" "calls_keep P E \<Longrightarrow> P (UpdateBoot E p a m)"
proof -
  show "P (InitBoot E g k v r m)"
    using assms by (auto simp: InitBoot_def Let_def intro!: keeps keeps_fold)
  assume c: "calls_keep P E"
  have remove: "P m \<Longrightarrow> P (RemoveFromGroup E g p m)" for g p m using c by (simp add: calls_keep_def)
  have e: "P (end_boot E gguid b m)" if "P m" for gguid b m
    using that by (auto simp: end_boot_def Let_def intro!: keeps keeps_fold remove)
  show "P (UpdateBoot E p a m)"
    using assms by (auto simp: UpdateBoot_def Let_def split: option.split intro!: keeps e)
qed

lemma keeps_LeaveLfg [keeps]:
  assumes "P m"
  shows "P (LeaveLfg E g d m)"
proof -
  have ok: "P (see_state E g m)" using assms by (rule keeps)
  show ?thesis
  proof (cases "lfg_GetState E g (see_state E g m)")
    case LFG_STATE_QUEUED
    with ok show ?thesis by (auto simp: LeaveLfg_def Let_def split_beta intro!: keeps keeps_fold)
  next
    case LFG_STATE_PROPOSAL
    with ok show ?thesis by (auto simp: LeaveLfg_def Let_def split_beta split: option.split intro!: keeps)
  qed (use ok in \<open>auto simp: LeaveLfg_def Let_def intro!: keeps\<close>)
qed

lemma keeps_JoinLfg [keeps]:
  assumes "P m"
  shows "P (JoinLfg E p g r ds c m)"
proof -
  have b: "P (begin_role_check E guid g ic r ds rd c m)" if "P m" for guid g ic ds rd m
    using that by (auto simp: begin_role_check_def Let_def intro!: keeps keeps_fold)
  have j: "P (join_alone E guid ic r ds rd c m)" if "P m" for guid ic ds rd m
    using that by (auto simp: join_alone_def Let_def split_beta intro!: keeps)
  show ?thesis
  proof (cases "ds = []")
    case False
    define gg where "gg = (case g of None \<Rightarrow> jp_guid p | Some x \<Rightarrow> jg_guid x)"
    define m1 where "m1 = see_state E gg m"
    define m2 where "m2 = (if lfg_GetState E gg m1 = LFG_STATE_QUEUED
      then case GetQueue E gg m1 of (k, n) \<Rightarrow> upd_queue k (RemoveFromQueue E gg) n else m1)"
    have "P m1" using assms unfolding m1_def by (rule keeps)
    then have ok: "P m2" by (auto simp: m2_def split_beta intro!: keeps)
    show ?thesis using False ok
      unfolding JoinLfg_def Let_def gg_def [symmetric] m1_def [symmetric] m2_def [symmetric]
      by (auto split: prod.split option.split intro!: keeps b j)
  qed (use assms in \<open>simp add: JoinLfg_def\<close>)
qed

lemma keeps_expire [keeps]:
  assumes "P m"
  shows "P (expire_role_check E c m)" "P (expire_proposal E p m)" "P (expire_boot E b m)"
  using assms
  by (auto simp: expire_role_check_def expire_proposal_def expire_boot_def Let_def intro!: keeps keeps_fold)

lemma keeps_announce [keeps]:
  assumes "calls_keep P E" and "P m"
  shows "P (announce E e m)"
proof -
  have "P (announce_player E p g m)" if "P m" for p g m
    using that by (auto simp: announce_player_def Let_def intro!: keeps)
  then show ?thesis using assms by (auto simp: announce_def Let_def intro!: keeps keeps_fold)
qed

lemma keeps_timers [keeps]:
  assumes "P m"
  shows "P (update_timers E diff m)"
proof -
  let ?f = "\<lambda>k s. case s of (counts, n) \<Rightarrow> case UpdateQueueTimers E k (le_now E) (counts, queue_at k n, n) of
      (counts', q, n') \<Rightarrow> (counts', upd_queue k (\<lambda>_. q) n')"
  have "P (snd (fold ?f ks s))" if "P (snd s)" for ks s
  proof (rule fold_holds [where P = "\<lambda>s. P (snd s)", OF that])
    fix k and s :: "(uint32 \<times> uint32 \<times> uint32) \<times> lfg_mgr"
    assume "P (snd s)"
    then show "P (snd (?f k s))"
      using timer [of "snd s" E k "le_now E" "fst s"] by (auto split: prod.split)
  qed
  from this [of "((0, 0, 0), m\<lparr>lm_queueTimer := 0\<rparr>)" "map fst (lm_queues m)"] assms show ?thesis
    by (auto simp: update_timers_def split_beta intro!: keeps)
qed

lemma keeps_Update [keeps]: "calls_keep P E \<Longrightarrow> P m \<Longrightarrow> P (lfg_Update E diff m)"
  unfolding lfg_Update_def lfg_expire_def Let_def
  by (auto intro!: keeps keeps_fold)

lemma keeps_hooks [keeps]:
  assumes "P m"
  shows "P (OnLogout E g a b m)" "P (OnAddMember E gg l g m)"
    "P (OnRemoveMember E nm ct ins gg lfg g mt k r m)" "P (OnDisband E gg m)"
    "P (OnChangeLeader E gg l m)" "P (OnInviteMember E gg l m)"
proof -
  show "P (OnLogout E g a b m)" "P (OnAddMember E gg l g m)"
    "P (OnChangeLeader E gg l m)" "P (OnInviteMember E gg l m)"
    using assms by (auto simp: OnLogout_def OnAddMember_def OnChangeLeader_def OnInviteMember_def Let_def intro!: keeps)
  show "P (OnRemoveMember E nm ct ins gg lfg g mt k r m)"
    using assms by (auto simp: OnRemoveMember_def Let_def split_beta split: option.split intro!: keeps)
  show "P (OnDisband E gg m)"
    using assms
    by (auto simp: OnDisband_def RemoveGroupData_def Let_def split: option.split intro!: keeps keeps_fold drop_group)
qed


end


section \<open>Runs of the manager\<close>

datatype lfg_event =
    EvUpdate uint32
  | EvJoin lfg_join_player "lfg_join_group option" uint8 "uint32 list" string
  | EvLeave uint64 bool
  | EvRoleCheck uint64 uint64 uint8
  | EvProposal uint32 uint64 bool
  | EvBoot uint64 bool
  | EvLogout uint64 bool bool
  | EvAddMember uint64 uint64 uint64
  | EvRemoveMember "string option" bool bool uint64 bool uint64 remove_method uint64 string
  | EvDisband uint64
  | EvChangeLeader uint64 uint64
  | EvInvite uint64 uint64

fun lfg_handle :: "lfg_env \<Rightarrow> lfg_event \<Rightarrow> lfg_mgr \<Rightarrow> lfg_mgr" where
  "lfg_handle E (EvUpdate diff) = lfg_Update E diff"
| "lfg_handle E (EvJoin p g r ds c) = JoinLfg E p g r ds c"
| "lfg_handle E (EvLeave g d) = LeaveLfg E g d"
| "lfg_handle E (EvRoleCheck gg g r) = UpdateRoleCheck E gg g r"
| "lfg_handle E (EvProposal i g a) = UpdateProposal E i g a"
| "lfg_handle E (EvBoot g a) = UpdateBoot E g a"
| "lfg_handle E (EvLogout g a d) = OnLogout E g a d"
| "lfg_handle E (EvAddMember gg l g) = OnAddMember E gg l g"
| "lfg_handle E (EvRemoveMember n c i gg lfg g mt k r) = OnRemoveMember E n c i gg lfg g mt k r"
| "lfg_handle E (EvDisband gg) = OnDisband E gg"
| "lfg_handle E (EvChangeLeader gg l) = OnChangeLeader E gg l"
| "lfg_handle E (EvInvite gg l) = OnInviteMember E gg l"

definition LFGMgr_new :: "uint32 \<Rightarrow> (nat \<Rightarrow> nat) \<Rightarrow> lfg_mgr" where
  "LFGMgr_new options rand =
     \<lparr>lm_players = (\<lambda>_. LfgPlayerData_new), lm_groups = (\<lambda>_. None), lm_queues = [], lm_proposals = [], lm_roleChecks = [],
      lm_boots = [], lm_proposalId = 1, lm_queueTimer = 0, lm_options = options,
      lm_callToArmsRoles = PLAYER_ROLE_TANK OR PLAYER_ROLE_HEALER, lm_out = [], lm_rand = rand\<rparr>"

text \<open>The states after any events, each in an environment of its own: time passes, players log in and out.\<close>

inductive lfg_reach :: "(lfg_env \<Rightarrow> bool) \<Rightarrow> lfg_mgr \<Rightarrow> bool" for A where
  start: "lfg_reach A (LFGMgr_new options rand)"
| event: "lfg_reach A m \<Longrightarrow> A E \<Longrightarrow> lfg_reach A (lfg_handle E ev m)"

context lfg_invariant
begin

lemma handle_keeps: "calls_keep P E \<Longrightarrow> P m \<Longrightarrow> P (lfg_handle E ev m)"
  by (cases ev) (auto intro: keeps)

lemma reach_keeps:
  assumes "lfg_reach A m" and "\<And>E. A E \<Longrightarrow> calls_keep P E" and "\<And>options rand. P (LFGMgr_new options rand)"
  shows "P m"
  using assms(1) by induction (use assms(2,3) handle_keeps in auto)

end

section \<open>The two invariants\<close>

lemma keeps_same:
  "states_ok m \<Longrightarrow> lm_players m' = lm_players m \<Longrightarrow> lm_groups m' = lm_groups m \<Longrightarrow> states_ok m'"
  by (simp add: states_ok_def)

lemma states_same_lfg: "states_ok m \<Longrightarrow> same_lfg E m m' \<Longrightarrow> states_ok m'"
  unfolding states_ok_def same_lfg_def
  by (metis (mono_tags, lifting) good_group_at group_at_def option.simps(5) states_ok_def)

lemma timers_frame:
  "lm_players (snd (snd (UpdateQueueTimers E k t s))) = lm_players (snd (snd s)) \<and>
   lm_groups (snd (snd (UpdateQueueTimers E k t s))) = lm_groups (snd (snd s)) \<and>
   lm_queues (snd (snd (UpdateQueueTimers E k t s))) = lm_queues (snd (snd s))"
proof -
  let ?F = "\<lambda>s :: (uint32 \<times> uint32 \<times> uint32) \<times> lfg_queue \<times> lfg_mgr.
    (lm_players (snd (snd s)), lm_groups (snd (snd s)), lm_queues (snd (snd s)))"
  have send: "lm_players (fold (\<lambda>r. lm_send E (fst r) (x r)) rs m) = lm_players m"
    "lm_groups (fold (\<lambda>r. lm_send E (fst r) (x r)) rs m) = lm_groups m"
    "lm_queues (fold (\<lambda>r. lm_send E (fst r) (x r)) rs m) = lm_queues m" for x and rs :: roles_map and m
    by (rule fold_frame, simp)+
  have "?F (update_timer E k t g s) = ?F s" for g s
    by (cases s) (auto simp: update_timer_def Let_def send split: list.split)
  then have "?F (UpdateQueueTimers E k t s) = ?F s" unfolding UpdateQueueTimers_def by (rule fold_frame [where F = ?F])
  then show ?thesis by simp
qed

interpretation st: lfg_invariant states_ok
proof
  show "states_ok (upd_player g f m)" if "states_ok m" "\<And>p. good_player p \<Longrightarrow> good_player (f p)" for m f g
    using that by (auto simp: states_ok_def upd_player_def)
  show "states_ok (upd_group E g h m)" if "states_ok m" "\<And>d. good_group d \<Longrightarrow> good_group (h d)" for m h E g
    using that good_group_at [of m E g] by (auto simp: states_ok_def upd_group_def)
  show "states_ok (find_in_queue E k m)" if "states_ok m" for m E k
    using states_same_lfg [OF that same_lfg_FindGroups [of E m 0 "queue_at k m"]]
    by (simp add: find_in_queue_def split_beta keeps_same)
  show "states_ok (upd_queue k (\<lambda>_. q) m')"
    if "states_ok m" "UpdateQueueTimers E k t (c, queue_at k m, m) = (c', q, m')" for m E k t c c' q m'
    using that timers_frame [of E k t "(c, queue_at k m, m)"] by (simp add: keeps_same)
qed (auto simp: states_ok_def)


lemma data_keys_fold: "(\<And>x q. data_keys q \<subseteq> data_keys (f x q)) \<Longrightarrow> data_keys q \<subseteq> data_keys (fold f xs q)"
  by (rule fold_holds [where P = "\<lambda>q'. data_keys q \<subseteq> data_keys q'"]) auto

lemma data_keys_make_proposal: "data_keys q \<subseteq> data_keys (fst (snd (make_proposal E check i c rs q m)))"
proof -
  have "data_keys q \<subseteq> data_keys (fold (\<lambda>g. RemoveFromCurrentQueue g \<circ> RemoveFromNewQueue g) check q)"
    by (rule data_keys_fold) simp
  then show ?thesis by (simp add: make_proposal_def Let_def split_beta)
qed

lemma data_keys_update [simp]:
  "data_keys (q\<lparr>QueueDataStore := map (\<lambda>e. if fst e = g then (g, f (snd e)) else e) (QueueDataStore q)\<rparr>) = data_keys q"
proof -
  have "map fst (map (\<lambda>e. if fst e = g then (g, f (snd e)) else e) S) = map fst S" for S by (induction S) auto
  from arg_cong [OF this, of set "QueueDataStore q"] show ?thesis unfolding set_map data_keys_def by simp
qed

lemma data_keys_check_roles: "data_keys q \<subseteq> data_keys (fst (snd (check_roles E check i d c q m)))"
proof -
  have "data_keys q \<subseteq> data_keys (fold (\<lambda>g q'. q'\<lparr>QueueDataStore :=
      map (\<lambda>e. if fst e = g then (g, update_best E k rs (snd e)) else e) (QueueDataStore q')\<rparr>) check q)" for k rs
    by (rule data_keys_fold) simp
  then show ?thesis using data_keys_make_proposal by (simp add: check_roles_def Let_def split_beta)
qed

lemma data_keys_check_body: "data_keys q \<subseteq> data_keys (fst (snd (check_body E check q m)))"
proof -
  have t: "data_keys q \<subseteq> data_keys (fold (touch_data E) check q)" by (rule data_keys_fold) auto
  show ?thesis
  proof (cases rule: check_body_cases [of E check q m])
    case (2 i d c m1 m2)
    then show ?thesis using subset_trans [OF t data_keys_check_roles] by simp
  qed (use t in simp_all)
qed

lemma data_keys_CheckCompatibility: "data_keys q \<subseteq> data_keys (fst (snd (CheckCompatibility E check q m)))"
proof (induction check arbitrary: q m)
  case (Cons g gs)
  obtain ch q1 m1 where r: "CheckCompatibility E gs q m = (ch, q1, m1)" by (metis prod_cases3)
  then have "data_keys q \<subseteq> data_keys q1" using Cons [of q m] by simp
  from subset_trans [OF this data_keys_check_body] this r show ?case by (simp add: data_keys_check_body)
qed simp

lemma data_keys_probe: "data_keys q \<subseteq> data_keys (fst (snd (probe E check q m)))"
proof -
  define r where "r = (if GetCompatibles (ConcatenateGuids check) q = LFG_COMPATIBILITY_PENDING
    then CheckCompatibility E check q m else (GetCompatibles (ConcatenateGuids check) q, q, m))"
  obtain c q1 m1 where r: "r = (c, q1, m1)" by (metis prod_cases3)
  have "data_keys q \<subseteq> data_keys q1"
    using data_keys_CheckCompatibility [of q E check m] r by (auto simp: r_def split: if_splits)
  then show ?thesis unfolding probe_def Let_def r_def [symmetric] r split_conv by (simp add: split_beta)
qed

lemma data_keys_FindNewGroups: "data_keys q \<subseteq> data_keys (fst (snd (snd (FindNewGroups E check all q m))))"
proof -
  have greedy: "data_keys q \<subseteq> data_keys (fst (snd (snd (greedy E check all q m))))" for check q m
  proof (induction all arbitrary: check q m)
    case (Cons a all)
    obtain c q1 m1 where p: "probe E (check @ [a]) q m = (c, q1, m1)" by (metis prod_cases3)
    then have s: "data_keys q \<subseteq> data_keys q1" using data_keys_probe [of q E "check @ [a]" m] by simp
    from subset_trans [OF s Cons] s p show ?case by simp
  qed simp
  obtain c q1 m1 where p: "probe E check q m = (c, q1, m1)" by (metis prod_cases3)
  then have s: "data_keys q \<subseteq> data_keys q1" using data_keys_probe [of q E check m] by simp
  from subset_trans [OF s greedy] s p show ?thesis by (simp add: FindNewGroups_probe find_loop_greedy)
qed

lemma listed_FindGroups: "queued_in q \<Longrightarrow> queued_in (fst (snd (FindGroups E n q m)))"
proof (induction E n q m rule: FindGroups.induct)
  case (1 E n q m)
  show ?case
  proof (cases "newToQueueStore q")
    case (Cons front rest)
    obtain c all' q1 m1 where r: "FindNewGroups E [front] (currentQueueStore q) (RemoveFromNewQueue front q) m = (c, all', q1, m1)"
      by (metis prod_cases4)
    have k: "data_keys q \<subseteq> data_keys q1"
      using data_keys_FindNewGroups [of "RemoveFromNewQueue front q" E "[front]" "currentQueueStore q" m] r by simp
    have "sub_queue (RemoveFromNewQueue front q) q1"
      using sub_queue_FindNewGroups(1) [of "RemoveFromNewQueue front q" E "[front]" "currentQueueStore q" m] r by simp
    then have l: "set (newToQueueStore q1) \<subseteq> set (newToQueueStore q)" "set (currentQueueStore q1) \<subseteq> set (currentQueueStore q)"
      by (auto simp: sub_queue_def RemoveFromNewQueue_def)
    have f: "front \<in> data_keys q" "set (newToQueueStore q) \<subseteq> data_keys q" "set (currentQueueStore q) \<subseteq> data_keys q"
      using 1(3) Cons by (auto simp: queued_in_def)
    have "queued_in q1" unfolding queued_in_def using k l f by blast
    moreover from this have "queued_in (AddToCurrentQueue front q1)"
      using k f unfolding queued_in_def data_keys_simps by (auto simp: AddToCurrentQueue_def)
    ultimately show ?thesis using 1(1,2) Cons r by (subst FindGroups.simps) simp
  qed (use 1 in \<open>simp add: FindGroups.simps\<close>)
qed

lemma listed_timers: "queued_in (fst (snd s)) \<Longrightarrow> queued_in (fst (snd (UpdateQueueTimers E k t s)))"
  unfolding UpdateQueueTimers_def
proof (rule fold_holds [where P = "\<lambda>s. queued_in (fst (snd s))"])
  fix g and s :: "(uint32 \<times> uint32 \<times> uint32) \<times> lfg_queue \<times> lfg_mgr"
  assume "queued_in (fst (snd s))"
  then show "queued_in (fst (snd (update_timer E k t g s)))"
    by (cases s) (auto simp: update_timer_def Let_def queued_in_def data_keys_def fst_om_put split: list.split; blast)
qed

lemma listed_new [simp]: "queued_in LFGQueue_new"
  by (simp add: queued_in_def LFGQueue_new_def)

lemma listed_queue_at: "queues_ok m \<Longrightarrow> queued_in (queue_at k m)"
  by (fastforce simp: queues_ok_def queue_at_def split: option.split dest: map_of_SomeD)

lemma queues_upd: "queues_ok m \<Longrightarrow> queued_in (f (queue_at k m)) \<Longrightarrow> queues_ok (upd_queue k f m)"
  using set_om_put_subset by (fastforce simp: queues_ok_def upd_queue_def)

interpretation qu: lfg_invariant queues_ok
proof
  show "queues_ok (upd_queue k u m)" if "queues_ok m" "\<And>q. queued_in q \<Longrightarrow> queued_in (u q)" for m u k
    using that listed_queue_at by (auto intro: queues_upd)
  show "queues_ok (find_in_queue E k m)" if "queues_ok m" for m E k
  proof -
    let ?r = "FindGroups E 0 (queue_at k m) m"
    have "queues_ok (snd (snd ?r))"
      using that same_lfg_FindGroups [of E m 0 "queue_at k m"] by (simp add: same_lfg_def queues_ok_def)
    then show ?thesis
      unfolding find_in_queue_def split_beta
      by (rule queues_upd) (rule listed_FindGroups [OF listed_queue_at [OF that]])
  qed
  show "queues_ok (upd_queue k (\<lambda>_. q) m')"
    if "queues_ok m" "UpdateQueueTimers E k t (c, queue_at k m, m) = (c', q, m')" for m E k t c c' q m'
  proof (rule queues_upd)
    show "queues_ok m'" using that timers_frame [of E k t "(c, queue_at k m, m)"] by (simp add: queues_ok_def)
    show "queued_in q" using that listed_queue_at [OF that(1), of k] listed_timers [of "(c, queue_at k m, m)" E k t] by simp
  qed
qed (auto simp: queues_ok_def)


text \<open>An environment whose group code calls the hooks, and a run in it: a player joins, the group of a friend takes
  him in, he leaves.\<close>

definition hook_town :: lfg_env where
  "hook_town = town\<lparr>
     MakeNewGroup := (\<lambda>p m. fold (\<lambda>e. OnAddMember town (0x1F50000000000000 + ucast (lp_id p)) (lp_leader p) (fst e)) (lp_players p) m),
     RemoveFromGroup := (\<lambda>g v. OnRemoveMember town None True False (0x1F50000000000000 + ucast g) True v GROUP_REMOVEMETHOD_KICK_LFG 0 [])\<rparr>"

definition short_run :: lfg_mgr where
  "short_run = lfg_handle hook_town (EvLeave 5 False) (lfg_handle hook_town (EvAddMember 0x1F50000000000007 6 5)
     (lfg_handle hook_town (EvJoin \<lparr>jp_guid = 5, jp_deserter = False, jp_cooldown = False, jp_battleground = False\<rparr> None 8 [7] [])
       (LFGMgr_new 1 (\<lambda>n. n))))"

lemma hook_calls: "calls_keep states_ok hook_town" "calls_keep queues_ok hook_town"
proof -
  show "calls_keep states_ok hook_town"
    by (auto simp: calls_keep_def hook_town_def intro!: st.keeps_fold st.keeps_hooks)
  show "calls_keep queues_ok hook_town"
    by (auto simp: calls_keep_def hook_town_def intro!: qu.keeps_fold qu.keeps_hooks)
qed

lemma short_run_reach: "A hook_town \<Longrightarrow> lfg_reach A short_run"
  unfolding short_run_def by (intro lfg_reach.intros)


text \<open>C15. Everybody who is on a list of a queue has queue data, in every run: the search never meets an entry
  without roles and dungeons, and the branch of \<^verbatim>\<open>CheckCompatibility\<close> for such an entry is not needed.\<close>

theorem lfg_lists_reachable:
  assumes "lfg_reach (calls_keep queues_ok) m"
  shows "queues_ok m"
  using assms by (rule qu.reach_keeps) (auto simp: queues_ok_def LFGMgr_new_def)

theorem lfg_lists_reachable_witness: "queues_ok short_run"
  by (rule lfg_lists_reachable) (rule short_run_reach, rule hook_calls)

end
