(* ===== verification/LFG_Mgr_Props.thy ===== *)
theory LFG_Mgr_Props
  imports LFG_States
begin

text \<open>
  The handlers of the dungeon finder: how a role check is decided, what becomes of the players and groups of a proposal
  that fails, and the cases where the manager does not do what it means to: proposals nobody
  hears of, votes that count as no, and checks that a second join skips.
\<close>

section \<open>Loops over players\<close>

text \<open>A loop whose rounds each change the data of one player, all of them different.\<close>

lemma fold_players:
  assumes "distinct (map fst rs)"
    and "\<And>r m. r \<in> set rs \<Longrightarrow> lm_players (F r m) = (lm_players m)(fst r := f r (lm_players m (fst r)))"
  shows "lm_players (fold F rs m) x = (case map_of rs x of None \<Rightarrow> lm_players m x | Some v \<Rightarrow> f (x, v) (lm_players m x))"
  using assms
proof (induction rs arbitrary: m)
  case (Cons r rs)
  then have "lm_players (fold F rs (F r m)) x =
      (case map_of rs x of None \<Rightarrow> lm_players (F r m) x | Some v \<Rightarrow> f (x, v) (lm_players (F r m) x))"
    by simp
  moreover have "lm_players (F r m) = (lm_players m)(fst r := f r (lm_players m (fst r)))"
    by (rule Cons.prems(2)) simp
  moreover have "map_of rs (fst r) = None" using Cons.prems(1) by (simp add: map_of_eq_None_iff)
  ultimately show ?case by (cases r) (auto split: option.split)
qed simp

lemma fold_frame_on: "(\<And>x m. x \<in> set xs \<Longrightarrow> F (f x m) = F m) \<Longrightarrow> F (fold f xs m) = F m"
  by (induction xs arbitrary: m) auto

lemma player_state_simps [simp]:
  "\<not> IS_GROUP_GUID g \<Longrightarrow> lfg_GetState E g m = pd_State (lm_players m g)"
  "\<not> IS_GROUP_GUID g \<Longrightarrow> GetOldState E g m = pd_OldState (lm_players m g)"
  "IS_GROUP_GUID g \<Longrightarrow> lfg_GetState E g m = gd_State (group_at E g m)"
  "IS_GROUP_GUID g \<Longrightarrow> GetOldState E g m = gd_OldState (group_at E g m)"
  "\<not> IS_GROUP_GUID g \<Longrightarrow> lm_players (lfg_SetState E g st m) = (lm_players m)(g := pd_SetState st (lm_players m g))"
  "\<not> IS_GROUP_GUID g \<Longrightarrow> lm_groups (lfg_SetState E g st m) = lm_groups m"
  "\<not> IS_GROUP_GUID g \<Longrightarrow> lm_players (RestoreState E g m) = (lm_players m)(g := pd_RestoreState (lm_players m g))"
  "\<not> IS_GROUP_GUID g \<Longrightarrow> lm_groups (RestoreState E g m) = lm_groups m"
  "IS_GROUP_GUID g \<Longrightarrow> lm_players (lfg_SetState E g st m) = lm_players m"
  "IS_GROUP_GUID g \<Longrightarrow> lm_players (RestoreState E g m) = lm_players m"
  by (simp_all add: lfg_GetState_def GetOldState_def lfg_SetState_def RestoreState_def upd_player_def)

lemma SetRoles_frame [simp]:
  "lm_players (lfg_SetRoles g r m) = (lm_players m)(g := (lm_players m g)\<lparr>pd_Roles := r\<rparr>)"
  "lm_groups (lfg_SetRoles g r m) = lm_groups m" "lm_queues (lfg_SetRoles g r m) = lm_queues m"
  "lm_roleChecks (lfg_SetRoles g r m) = lm_roleChecks m"
  by (simp_all add: lfg_SetRoles_def upd_player_def)

lemma pd_states [simp]:
  "pd_State (pd_SetState st p) = st" "pd_State (pd_RestoreState p) = pd_OldState p" "pd_Team (pd_SetState st p) = pd_Team p"
  "pd_Team (pd_RestoreState p) = pd_Team p"
  by (simp_all add: pd_SetState_def pd_RestoreState_def Let_def)

section \<open>Role checks\<close>

definition check_dungeon :: "lfg_env \<Rightarrow> lfg_role_check \<Rightarrow> lfg_dungeon option" where
  "check_dungeon E rc = (case (if rc_rDungeonId rc \<noteq> 0 then [rc_rDungeonId rc] else rc_dungeons rc) of
     [] \<Rightarrow> None | i # _ \<Rightarrow> GetLFGDungeon E i)"

lemma role_notify_frame:
  "lm_queues (role_notify E c g ro ds rc r m) = lm_queues m" "lm_roleChecks (role_notify E c g ro ds rc r m) = lm_roleChecks m"
  by (simp_all add: role_notify_def Let_def split: lfg_role_check_state.split)

lemma role_notify_players:
  assumes "\<not> IS_GROUP_GUID (fst r)"
  shows "lm_players (role_notify E c g ro ds rc r m) = (lm_players m)(fst r :=
      (case rc_state rc of LFG_ROLECHECK_INITIALITING \<Rightarrow> lm_players m (fst r)
       | LFG_ROLECHECK_FINISHED \<Rightarrow> (pd_SetState LFG_STATE_QUEUED (lm_players m (fst r)))\<lparr>pd_Roles := snd r\<rparr>
       | _ \<Rightarrow> pd_RestoreState (lm_players m (fst r))))"
    and "lm_groups (role_notify E c g ro ds rc r m) = lm_groups m"
  using assms by (auto simp: role_notify_def Let_def fun_eq_iff split: lfg_role_check_state.split)

text \<open>A check that is not finished ends without a place in the queue.\<close>

definition check_ended :: "uint64 \<Rightarrow> lfg_role_check \<Rightarrow> lfg_env \<Rightarrow> lfg_mgr \<Rightarrow> lfg_mgr \<Rightarrow> bool" where
  "check_ended gguid rc E m m' \<longleftrightarrow>
     map_of (lm_roleChecks m') gguid = None \<and> lm_queues m' = lm_queues m \<and>
     (\<forall>g \<in> insert gguid (fst ` set (rc_roles rc)). lfg_GetState E g m' = GetOldState E g m)"

definition check_queued :: "uint64 \<Rightarrow> roles_map \<Rightarrow> uint32 list \<Rightarrow> lfg_env \<Rightarrow> lfg_mgr \<Rightarrow> bool" where
  "check_queued gguid rs ds E m' \<longleftrightarrow>
     map_of (lm_roleChecks m') gguid = None \<and>
     (\<forall>g \<in> insert gguid (fst ` set rs). lfg_GetState E g m' = LFG_STATE_QUEUED) \<and>
     (\<forall>r \<in> set rs. pd_Roles (lm_players m' (fst r)) = snd r) \<and>
     (let q = queue_at (GetQueueId E gguid m') m'
      in map_of (QueueDataStore q) gguid = Some (LfgQueueData_init E (le_now E) ds rs) \<and>
         newToQueueStore q \<noteq> [] \<and> last (newToQueueStore q) = gguid)"

definition check_waits :: "uint64 \<Rightarrow> roles_map \<Rightarrow> lfg_role_check \<Rightarrow> lfg_mgr \<Rightarrow> lfg_mgr \<Rightarrow> bool" where
  "check_waits gguid rs rc m m' \<longleftrightarrow>
     map_of (lm_roleChecks m') gguid = Some (rc\<lparr>rc_roles := rs, rc_isBeginning := False\<rparr>) \<and>
     lm_players m' = lm_players m \<and> lm_groups m' = lm_groups m \<and> lm_queues m' = lm_queues m"


lemma notify_all:
  assumes "distinct (map fst rs)" and "\<forall>r \<in> set rs. \<not> IS_GROUP_GUID (fst r)"
  shows "lm_groups (fold (role_notify E c g ro ds rc) rs m) = lm_groups m"
    and "lm_queues (fold (role_notify E c g ro ds rc) rs m) = lm_queues m"
    and "lm_roleChecks (fold (role_notify E c g ro ds rc) rs m) = lm_roleChecks m"
    and "lm_players (fold (role_notify E c g ro ds rc) rs m) x =
      (case map_of rs x of None \<Rightarrow> lm_players m x
       | Some v \<Rightarrow> (case rc_state rc of LFG_ROLECHECK_INITIALITING \<Rightarrow> lm_players m x
            | LFG_ROLECHECK_FINISHED \<Rightarrow> (pd_SetState LFG_STATE_QUEUED (lm_players m x))\<lparr>pd_Roles := v\<rparr>
            | _ \<Rightarrow> pd_RestoreState (lm_players m x)))"
proof -
  show "lm_groups (fold (role_notify E c g ro ds rc) rs m) = lm_groups m"
    using assms(2) role_notify_players(2) by (intro fold_frame_on) auto
  show "lm_queues (fold (role_notify E c g ro ds rc) rs m) = lm_queues m"
    "lm_roleChecks (fold (role_notify E c g ro ds rc) rs m) = lm_roleChecks m"
    by (intro fold_frame role_notify_frame)+
  let ?f = "\<lambda>r p. case rc_state rc of LFG_ROLECHECK_INITIALITING \<Rightarrow> p
       | LFG_ROLECHECK_FINISHED \<Rightarrow> (pd_SetState LFG_STATE_QUEUED p)\<lparr>pd_Roles := snd r\<rparr>
       | _ \<Rightarrow> pd_RestoreState p"
  show "lm_players (fold (role_notify E c g ro ds rc) rs m) x =
      (case map_of rs x of None \<Rightarrow> lm_players m x
       | Some v \<Rightarrow> (case rc_state rc of LFG_ROLECHECK_INITIALITING \<Rightarrow> lm_players m x
            | LFG_ROLECHECK_FINISHED \<Rightarrow> (pd_SetState LFG_STATE_QUEUED (lm_players m x))\<lparr>pd_Roles := v\<rparr>
            | _ \<Rightarrow> pd_RestoreState (lm_players m x)))"
    using fold_players [OF assms(1), of "role_notify E c g ro ds rc" ?f m x] assms(2) role_notify_players(1)
    by (simp split: option.split lfg_role_check_state.split)
qed

lemma group_at_set [simp]:
  "IS_GROUP_GUID g \<Longrightarrow> gd_State (group_at E g (lfg_SetState E g st m)) = st"
  "IS_GROUP_GUID g \<Longrightarrow> gd_Players (group_at E g (lfg_SetState E g st m)) = gd_Players (group_at E g m)"
  "IS_GROUP_GUID g \<Longrightarrow> gd_State (group_at E g (RestoreState E g m)) = gd_OldState (group_at E g m)"
  "group_at E g (upd_queue k f m) = group_at E g m" "group_at E g (see_state E h m) = group_at E g m"
  "group_at E g (m\<lparr>lm_roleChecks := x\<rparr>) = group_at E g m" "group_at E g (m\<lparr>lm_proposals := y\<rparr>) = group_at E g m"
  by (auto simp: group_at_def lfg_SetState_def RestoreState_def upd_group_def gd_SetState_def gd_RestoreState_def
      upd_queue_def see_state_def see_group_def Let_def)

lemma GetState_stores [simp]:
  "lfg_GetState E g (m\<lparr>lm_roleChecks := x\<rparr>) = lfg_GetState E g m" "lfg_GetState E g (m\<lparr>lm_proposals := y\<rparr>) = lfg_GetState E g m"
  "lfg_GetState E g (upd_queue k f m) = lfg_GetState E g m"
  by (simp_all add: lfg_GetState_def)

lemma group_at_cong: "lm_groups m' = lm_groups m \<Longrightarrow> group_at E g m' = group_at E g m"
  by (simp add: group_at_def)

definition enqueue_group :: "lfg_env \<Rightarrow> uint64 \<Rightarrow> uint32 list \<Rightarrow> roles_map \<Rightarrow> lfg_mgr \<Rightarrow> lfg_mgr" where
  "enqueue_group E g ds rs m =
     (case GetQueue E g (lfg_SetState E g LFG_STATE_QUEUED m) of (i, m2) \<Rightarrow>
        let m3 = upd_queue i (AddQueueData E g (le_now E) ds rs) m2
        in m3\<lparr>lm_roleChecks := om_del g (lm_roleChecks m3)\<rparr>)"

lemma enqueue_group_result:
  assumes "IS_GROUP_GUID g"
  shows "lm_players (enqueue_group E g ds rs m) = lm_players m"
    and "lfg_GetState E g (enqueue_group E g ds rs m) = LFG_STATE_QUEUED"
    and "map_of (lm_roleChecks (enqueue_group E g ds rs m)) g = None"
    and "let q = queue_at (GetQueueId E g (enqueue_group E g ds rs m)) (enqueue_group E g ds rs m)
      in map_of (QueueDataStore q) g = Some (LfgQueueData_init E (le_now E) ds rs) \<and>
         newToQueueStore q \<noteq> [] \<and> last (newToQueueStore q) = g"
proof -
  define m2 where "m2 = lfg_SetState E g LFG_STATE_QUEUED m"
  define k where "k = GetQueueId E g m2"
  define m' where "m' = enqueue_group E g ds rs m"
  have m': "lm_players m' = lm_players m" "group_at E g m' = group_at E g m2" "map_of (lm_roleChecks m') g = None"
      "queue_at k m' = AddQueueData E g (le_now E) ds rs (queue_at k m2)"
    using assms unfolding m'_def enqueue_group_def m2_def k_def
    by (simp_all add: GetQueue_def Let_def queue_at_def upd_queue_def group_at_def see_state_def see_group_def upd_group_def)
  have k: "GetQueueId E g m' = k" using m'(1,2) assms by (simp add: k_def m2_def GetQueueId_def Let_def)
  show "lm_players (enqueue_group E g ds rs m) = lm_players m" using m'(1) by (simp add: m'_def)
  show "map_of (lm_roleChecks (enqueue_group E g ds rs m)) g = None" using m'(3) by (simp add: m'_def)
  show "lfg_GetState E g (enqueue_group E g ds rs m) = LFG_STATE_QUEUED"
    using m'(2) assms by (simp add: m2_def m'_def [symmetric])
  show "let q = queue_at (GetQueueId E g (enqueue_group E g ds rs m)) (enqueue_group E g ds rs m)
      in map_of (QueueDataStore q) g = Some (LfgQueueData_init E (le_now E) ds rs) \<and>
         newToQueueStore q \<noteq> [] \<and> last (newToQueueStore q) = g"
    using m'(4) unfolding m'_def [symmetric] k
    by (simp add: Let_def AddQueueData_def AddToQueue_def AddToNewQueue_def)
qed

text \<open>C10. A role check is decided by the roles.  When a member of a group answers with a role, then: as long as
  somebody has not answered, the check waits and nobody changes; when all have, and the dungeon can be
  staffed with the roles offered, the check is over, the group and all members are in the state queued,
  each with the roles he chose, and the group is the last of the new entries of its queue, with
  these roles and the dungeons of the request; otherwise the check is over, the queues are as before,
  and the group and all members are back in the state they were in before it.\<close>

theorem role_check_decided:
  assumes rc: "map_of (lm_roleChecks m) gguid = Some rc" and st: "rc_state rc = LFG_ROLECHECK_INITIALITING"
    and g: "IS_GROUP_GUID gguid" "guid \<noteq> 0" "\<not> roles < PLAYER_ROLE_TANK"
    and rs: "rs = om_put guid roles (rc_roles rc)" "om_ok (rc_roles rc)" "length rs < 256"
    and pl: "\<forall>r \<in> set rs. \<not> IS_GROUP_GUID (fst r)"
  shows "if \<exists>r \<in> set rs. snd r = PLAYER_ROLE_NONE then check_waits gguid rs rc m (UpdateRoleCheck E gguid guid roles m)
    else if \<exists>d. check_dungeon E rc = Some d \<and> assignable d rs
    then check_queued gguid rs (rc_dungeons rc) E (UpdateRoleCheck E gguid guid roles m)
    else check_ended gguid (rc\<lparr>rc_roles := rs\<rparr>) E m (UpdateRoleCheck E gguid guid roles m)"
proof -
  have dis: "distinct (map fst rs)" using rs om_ok_distinct [of rs] by simp
  have g0: "gguid \<noteq> 0" using g(1) by (auto simp: IS_GROUP_GUID_def GUID_HIPART_def)
  define ds where "ds = (if rc_rDungeonId rc \<noteq> 0 then [rc_rDungeonId rc] else rc_dungeons rc)"
  define rc1 where "rc1 = role_answer (check_dungeon E rc) guid roles rc"
  define m1 where "m1 = fold (role_notify E (rc_state rc \<noteq> LFG_ROLECHECK_DEFAULT \<and> guid \<noteq> 0) guid roles ds rc1) rs m"
  have rc1_roles: "rc_roles rc1 = rs" "rc_dungeons rc1 = rc_dungeons rc"
    using g rs by (auto simp: rc1_def role_answer_def Let_def split: option.split)
  note n = notify_all [OF dis pl, of E "rc_state rc \<noteq> LFG_ROLECHECK_DEFAULT \<and> guid \<noteq> 0" guid roles ds rc1 m, folded m1_def]
  have U: "UpdateRoleCheck E gguid guid roles m =
      (if rc_state rc1 = LFG_ROLECHECK_FINISHED
       then case GetQueue E gguid (lfg_SetState E gguid LFG_STATE_QUEUED m1) of (i, m2) \<Rightarrow>
              let m3 = upd_queue i (AddQueueData E gguid (le_now E) (rc_dungeons rc) rs) m2
              in m3\<lparr>lm_roleChecks := om_del gguid (lm_roleChecks m3)\<rparr>
       else if rc_state rc1 = LFG_ROLECHECK_INITIALITING
       then m1\<lparr>lm_roleChecks := om_put gguid (rc1\<lparr>rc_isBeginning := False\<rparr>) (lm_roleChecks m1)\<rparr>
       else let m2 = RestoreState E gguid m1 in m2\<lparr>lm_roleChecks := om_del gguid (lm_roleChecks m2)\<rparr>)"
    using g0 rc rc1_roles unfolding UpdateRoleCheck_def Let_def ds_def rc1_def check_dungeon_def m1_def by simp
  have assign: "fst (CheckGroupRoles d rs) \<longleftrightarrow> assignable d rs" for d
    using CheckGroupRoles_result [OF rs(3), of d] rs(1) solution_assignment by (auto split: if_splits)
  have some: "x \<in> fst ` set rs \<Longrightarrow> \<exists>v. map_of rs x = Some v" for x by (simp add: map_of_eq_None_iff not_None_eq [symmetric])
  show ?thesis
  proof (cases "\<exists>r \<in> set rs. snd r = PLAYER_ROLE_NONE")
    case True
    then have "rc1 = rc\<lparr>rc_roles := rs\<rparr>"
      using g rs by (auto simp: rc1_def role_answer_def Let_def list_all_iff)
    moreover from this have "lm_players m1 = lm_players m" using n(4) st by (simp add: fun_eq_iff split: option.split)
    ultimately show ?thesis using True U n st by (simp add: check_waits_def)
  next
    case all: False
    show ?thesis
    proof (cases "\<exists>d. check_dungeon E rc = Some d \<and> assignable d rs")
      case True
      then have fin: "rc_state rc1 = LFG_ROLECHECK_FINISHED"
        using g rs all assign by (auto simp: rc1_def role_answer_def Let_def list_all_iff)
      define m' where "m' = UpdateRoleCheck E gguid guid roles m"
      have m': "m' = enqueue_group E gguid (rc_dungeons rc) rs m1" using U fin by (simp add: m'_def enqueue_group_def)
      note q = enqueue_group_result [OF g(1), of E "rc_dungeons rc" rs m1, folded m']
      have "lfg_GetState E x m' = LFG_STATE_QUEUED" if "x \<in> fst ` set rs" for x
        using that pl n(4) fin some [OF that] q(1) by auto
      moreover have "pd_Roles (lm_players m' (fst r)) = snd r" if "r \<in> set rs" for r
        using that n(4) fin q(1) map_of_is_SomeI [OF dis, of "fst r" "snd r"] by simp
      ultimately have "check_queued gguid rs (rc_dungeons rc) E m'"
        using q by (simp add: check_queued_def)
      then show ?thesis using True all by (simp add: m'_def)
    next
      case False
      then have fail: "rc_state rc1 = LFG_ROLECHECK_WRONG_ROLES"
        using g rs all assign by (auto simp: rc1_def role_answer_def Let_def list_all_iff split: option.split)
      have "lfg_GetState E x (RestoreState E gguid m1) = GetOldState E x m" if "x \<in> fst ` set rs" for x
        using that pl n(4) fail some [OF that] g(1) by auto
      moreover have "lfg_GetState E gguid (RestoreState E gguid m1) = GetOldState E gguid m"
        using g(1) group_at_cong [OF n(1)] by simp
      ultimately have "\<forall>x \<in> insert gguid (fst ` set rs). lfg_GetState E x (RestoreState E gguid m1) = GetOldState E x m"
        by (metis insertE)
      then have "check_ended gguid (rc\<lparr>rc_roles := rs\<rparr>) E m (UpdateRoleCheck E gguid guid roles m)"
        using U fail n(2) unfolding check_ended_def Let_def by (simp del: player_state_simps)
      then show ?thesis using False all by auto
    qed
  qed
qed


text \<open>A group of three: two have chosen, the third answers that he heals.\<close>

definition trio :: uint64 where "trio = 0x1F50000000000007"

definition trio_check :: lfg_role_check where
  "trio_check = \<lparr>rc_cancelTime = 1040, rc_roles = [(1, 2), (2, 8), (3, 0)], rc_state = LFG_ROLECHECK_INITIALITING,
     rc_dungeons = [7], rc_rDungeonId = 0, rc_leader = 1, rc_isBeginning = False\<rparr>"

definition trio_mgr :: lfg_mgr where
  "trio_mgr = (LFGMgr_new 1 (\<lambda>n. n))\<lparr>lm_roleChecks := [(trio, trio_check)]\<rparr>"

theorem role_check_decided_witness:
  "check_queued trio [(1, 2), (2, 8), (3, 4)] [7] town (UpdateRoleCheck town trio 3 4 trio_mgr)"
proof -
  have "role_assignment scenario [(1, 2), (2, 8), (3, 4)] [2, 8, 4]"
    by (simp add: role_assignment_def role_options_def role_fits_def role_bit_def role_defs scenario_def dungeon_of_five_def)
  then have "check_dungeon town trio_check = Some scenario \<and> assignable scenario [(1, 2), (2, 8), (3, 4)]"
    by (auto simp: check_dungeon_def trio_check_def town_def assignable_def)
  moreover have "IS_GROUP_GUID trio" "\<not> IS_GROUP_GUID 1" "\<not> IS_GROUP_GUID 2" "\<not> IS_GROUP_GUID 3" by code_simp+
  moreover have "map_of (lm_roleChecks trio_mgr) trio = Some trio_check" by (simp add: trio_mgr_def)
  moreover have "om_ok (rc_roles trio_check)" "\<not> (4 :: uint8) < PLAYER_ROLE_TANK"
    by (simp_all add: trio_check_def om_ok_def PLAYER_ROLE_TANK_def)
  ultimately show ?thesis
    using role_check_decided [of trio_mgr trio trio_check 3 4 "[(1, 2), (2, 8), (3, 4)]" town]
    by (auto simp: trio_check_def PLAYER_ROLE_NONE_def)
qed

section \<open>Proposals that fail\<close>

text \<open>The answers as they are counted, and the entries of those who did not agree.\<close>

definition final_answers :: "lfg_update_type \<Rightarrow> lfg_proposal \<Rightarrow> (uint64 \<times> lfg_proposal_player) list" where
  "final_answers type p =
     (if type = LFG_UPDATETYPE_PROPOSAL_FAILED then map deny_pending (lp_players p) else lp_players p)"

definition deniers :: "lfg_update_type \<Rightarrow> lfg_proposal \<Rightarrow> uint64 set" where
  "deniers type p = pp_entry ` {e \<in> set (lp_players p).
     (pp_accept (snd e) = LFG_ANSWER_DENY \<or>
      type = LFG_UPDATETYPE_PROPOSAL_FAILED \<and> pp_accept (snd e) = LFG_ANSWER_PENDING)}"

lemma set_set_put [simp]: "set (set_put x xs) = insert x (set xs)"
  by (induction xs) auto

lemma deny_pending_simps [simp]: "fst (deny_pending e) = fst e" "pp_entry (deny_pending e) = pp_entry e"
  by (simp_all add: deny_pending_def pp_entry_def)

lemma set_mark_deniers: "set (fst (mark_deniers E ps s)) =
    set (fst s) \<union> pp_entry ` {e \<in> set ps. pp_accept (snd e) = LFG_ANSWER_DENY}"
  unfolding mark_deniers_def by (induction ps arbitrary: s) auto

lemma mark_deniers_frame:
  "lm_players (snd (mark_deniers E ps s)) = lm_players (snd s)" "lm_groups (snd (mark_deniers E ps s)) = lm_groups (snd s)"
  "lm_queues (snd (mark_deniers E ps s)) = lm_queues (snd s)" "lm_proposals (snd (mark_deniers E ps s)) = lm_proposals (snd s)"
  unfolding mark_deniers_def by (rule fold_frame [where F = "\<lambda>s. _ (snd s)"], simp)+

lemma deny_pending_accept: "pp_accept (snd (deny_pending e)) = LFG_ANSWER_DENY \<longleftrightarrow>
    pp_accept (snd e) = LFG_ANSWER_DENY \<or> pp_accept (snd e) = LFG_ANSWER_PENDING"
  by (cases "pp_accept (snd e)") (simp_all add: deny_pending_def)

lemma deniers_marked: "set (fst (mark_deniers E (final_answers type p) ([], m))) = deniers type p"
proof (cases "type = LFG_UPDATETYPE_PROPOSAL_FAILED")
  case True
  have "{e \<in> deny_pending ` S. pp_accept (snd e) = LFG_ANSWER_DENY} =
      deny_pending ` {e \<in> S. pp_accept (snd (deny_pending e)) = LFG_ANSWER_DENY}" for S by blast
  then show ?thesis using True
    by (simp add: set_mark_deniers final_answers_def deniers_def image_image deny_pending_accept Setcompr_eq_image)
next
  case False
  then show ?thesis by (simp add: set_mark_deniers final_answers_def deniers_def Setcompr_eq_image)
qed

lemma notify_failed_frame:
  "lm_queues (notify_failed E type p rs e m) = lm_queues m" "lm_proposals (notify_failed E type p rs e m) = lm_proposals m"
  by (simp_all add: notify_failed_def Let_def)

lemma notify_failed_players:
  assumes "\<not> IS_GROUP_GUID (fst e)" and "pp_group (snd e) = 0 \<or> IS_GROUP_GUID (pp_group (snd e))"
  shows "lm_players (notify_failed E type p rs e m) = (lm_players m)(fst e :=
    (if pp_entry e \<in> set rs then pd_RestoreState else pd_SetState LFG_STATE_QUEUED) (lm_players m (fst e)))"
  using assms by (auto simp: notify_failed_def Let_def pp_entry_def)

lemma RemoveFromQueue_lists:
  "newToQueueStore (RemoveFromQueue E g q) = filter (\<lambda>x. x \<noteq> g) (newToQueueStore q)"
  "currentQueueStore (RemoveFromQueue E g q) = filter (\<lambda>x. x \<noteq> g) (currentQueueStore q)"
  "data_keys (RemoveFromQueue E g q) = data_keys q - {g}"
  by (auto simp: RemoveFromQueue_def Let_def RemoveFromCompatibles_def RemoveFromCurrentQueue_def RemoveFromNewQueue_def
      data_keys_def fst_om_del image_image)

lemma fold_RemoveFromQueue:
  "newToQueueStore (fold (RemoveFromQueue E) gs q) = filter (\<lambda>g. g \<notin> set gs) (newToQueueStore q) \<and>
   currentQueueStore (fold (RemoveFromQueue E) gs q) = filter (\<lambda>g. g \<notin> set gs) (currentQueueStore q) \<and>
   data_keys (fold (RemoveFromQueue E) gs q) = data_keys q - set gs"
proof (induction gs arbitrary: q)
  case (Cons g gs)
  then show ?case by (auto simp: RemoveFromQueue_lists)
qed simp

lemma fold_AddToQueue:
  "newToQueueStore (fold AddToQueue gs q) = newToQueueStore q @ filter (\<lambda>g. g \<in> data_keys q) gs \<and>
   currentQueueStore (fold AddToQueue gs q) = currentQueueStore q \<and> data_keys (fold AddToQueue gs q) = data_keys q"
proof (induction gs arbitrary: q)
  case (Cons g gs)
  have "g \<in> data_keys q \<longleftrightarrow> map_of (QueueDataStore q) g \<noteq> None" by (simp add: data_keys_def map_of_eq_None_iff)
  with Cons [of "AddToQueue g q"] show ?case
    by (auto simp: AddToQueue_def AddToNewQueue_def data_keys_def)
qed simp


text \<open>What a failed proposal leaves behind in the queue it came from.\<close>

definition requeued :: "lfg_proposal \<Rightarrow> uint64 set \<Rightarrow> lfg_queue \<Rightarrow> lfg_queue \<Rightarrow> bool" where
  "requeued p D q q' \<longleftrightarrow>
     newToQueueStore q' = filter (\<lambda>g. g \<notin> D) (newToQueueStore q) @
       filter (\<lambda>g. g \<notin> D \<and> g \<in> data_keys q) (lp_queues p) \<and>
     currentQueueStore q' = filter (\<lambda>g. g \<notin> D) (currentQueueStore q) \<and> data_keys q' = data_keys q - D"

lemma requeue: "set gs = D \<Longrightarrow>
   requeued p D q (fold AddToQueue (filter (\<lambda>g. g \<notin> set gs) (lp_queues p)) (fold (RemoveFromQueue E) gs q))"
  using fold_RemoveFromQueue [of E gs q] fold_AddToQueue [of "filter (\<lambda>g. g \<notin> set gs) (lp_queues p)" "fold (RemoveFromQueue E) gs q"]
  by (auto simp: requeued_def conj_commute cong: filter_cong)

lemma final_answers_keys: "map fst (final_answers type p) = map fst (lp_players p)"
  by (simp add: final_answers_def)

lemma final_answer_of:
  "map_of (lp_players p) x = Some pp \<Longrightarrow>
   \<exists>pp'. map_of (final_answers type p) x = Some pp' \<and> pp_group pp' = pp_group pp"
proof (cases "type = LFG_UPDATETYPE_PROPOSAL_FAILED")
  case True
  have "map_of (map deny_pending ps) x = map_option (\<lambda>v. snd (deny_pending (x, v))) (map_of ps x)" for ps
    by (induction ps) (auto simp: deny_pending_def)
  moreover assume "map_of (lp_players p) x = Some pp"
  ultimately show ?thesis using True by (auto simp: final_answers_def deny_pending_def)
qed (simp add: final_answers_def)

lemma queue_at_upd: "queue_at k (upd_queue j f m) = (if k = j then f (queue_at k m) else queue_at k m)"
  by (simp add: queue_at_def upd_queue_def)

lemma queue_at_cong: "lm_queues m' = lm_queues m \<Longrightarrow> queue_at k m' = queue_at k m"
  by (simp add: queue_at_def)

text \<open>C9. A proposal that fails costs exactly those their place who did not agree.  When a proposal is declined or
  expires it is gone; an entry of the queue, a player or a group, is taken off it with all its data when
  one of its players said no (or, when time has run out, did not answer), and its players are back
  in their state from before; the players of all other entries are in the state queued again, and these
  entries are, in the order of the proposal, at the end of the new entries, with the data they had.\<close>

theorem proposal_failed:
  assumes p: "map_of (lm_proposals m) i = Some p" and ok: "om_ok (lp_players p)" "lp_players p \<noteq> []"
    and pl: "\<forall>e \<in> set (lp_players p). \<not> IS_GROUP_GUID (fst e) \<and> (pp_group (snd e) = 0 \<or> IS_GROUP_GUID (pp_group (snd e)))"
    and k: "k = pd_Team (lm_players m (fst (hd (lp_players p))))"
  shows "map_of (lm_proposals (RemoveProposal E i type m)) = (map_of (lm_proposals m))(i := None) \<and>
    requeued p (deniers type p) (queue_at k m) (queue_at k (RemoveProposal E i type m)) \<and>
    (\<forall>e \<in> set (lp_players p). lfg_GetState E (fst e) (RemoveProposal E i type m) =
       (if pp_entry e \<in> deniers type p then GetOldState E (fst e) m else LFG_STATE_QUEUED))"
proof -
  let ?P = "final_answers type p"
  let ?p = "p\<lparr>lp_state := LFG_PROPOSAL_FAILED, lp_players := ?P\<rparr>"
  obtain rm m1 where mark: "mark_deniers E ?P ([], m) = (rm, m1)" by fastforce
  then have rm: "set rm = deniers type p" using deniers_marked [of E type p m] by simp
  have m1: "lm_players m1 = lm_players m" "lm_queues m1 = lm_queues m" "lm_proposals m1 = lm_proposals m"
    using mark_deniers_frame [of E ?P "([], m)"] mark by simp_all
  define m2 where "m2 = fold (notify_failed E type ?p rm) ?P m1"
  have keys: "map fst ?P = map fst (lp_players p)" by (rule final_answers_keys)
  have dis: "distinct (map fst ?P)" using keys om_ok_distinct [OF ok(1)] by simp
  have pl': "\<not> IS_GROUP_GUID (fst e) \<and> (pp_group (snd e) = 0 \<or> IS_GROUP_GUID (pp_group (snd e)))" if "e \<in> set ?P" for e
    using that pl by (auto simp: final_answers_def deny_pending_def split: if_splits)
  have m2: "lm_queues m2 = lm_queues m" "lm_proposals m2 = lm_proposals m"
    unfolding m2_def using fold_frame [of lm_queues] fold_frame [of lm_proposals] notify_failed_frame m1 by metis+
  let ?f = "\<lambda>e. if pp_entry e \<in> set rm then pd_RestoreState else pd_SetState LFG_STATE_QUEUED"
  have "lm_players m2 x = (case map_of ?P x of None \<Rightarrow> lm_players m1 x | Some v \<Rightarrow> ?f (x, v) (lm_players m1 x))" for x
    unfolding m2_def
    by (rule fold_players [OF dis]) (rule notify_failed_players; use pl' in blast)
  note pl2 = this [unfolded m1]
  have P0: "?P \<noteq> []" "fst (hd ?P) = fst (hd (lp_players p))"
    using ok(2) keys by (auto simp: final_answers_def hd_map)
  have hd: "\<not> IS_GROUP_GUID (fst (hd ?P))" using pl' P0(1) by simp
  have "pd_Team (lm_players m2 x) = pd_Team (lm_players m x)" for x by (simp add: pl2 split: option.split)
  then have q: "GetQueue E (fst (hd ?P)) m2 = (k, upd_queue k (\<lambda>q. q) m2)"
    using hd P0(2) k by (simp add: GetQueue_def GetQueueId_def see_state_def)
  define m' where "m' = RemoveProposal E i type m"
  have m': "m' = (upd_queue k (fold AddToQueue (filter (\<lambda>g. g \<notin> set rm) (lp_queues p)))
      (upd_queue k (fold (RemoveFromQueue E) rm) (upd_queue k (\<lambda>q. q) m2)))\<lparr>lm_proposals := om_del i (lm_proposals m2)\<rparr>"
    using p mark q by (simp add: m'_def RemoveProposal_def Let_def final_answers_def [symmetric] m2_def [symmetric])
  have "requeued p (deniers type p) (queue_at k m) (queue_at k m')"
    using requeue [OF rm, of p "queue_at k m" E] queue_at_cong [OF m2(1)]
    by (simp add: m' queue_at_upd queue_at_cong [of "upd_queue _ _ _\<lparr>lm_proposals := _\<rparr>" "upd_queue _ _ _"])
  moreover have "lfg_GetState E (fst e) m' = (if pp_entry e \<in> deniers type p then GetOldState E (fst e) m else LFG_STATE_QUEUED)"
    if e: "e \<in> set (lp_players p)" for e
  proof -
    have "map_of (lp_players p) (fst e) = Some (snd e)" using e om_ok_distinct [OF ok(1)] by simp
    from final_answer_of [OF this, of type] obtain pp' where "map_of ?P (fst e) = Some pp'" "pp_group pp' = pp_group (snd e)" by blast
    then show ?thesis using e pl pl2 [of "fst e"] rm by (simp add: m' pp_entry_def)
  qed
  ultimately show ?thesis by (simp add: m'_def [symmetric]) (simp add: m' m2)
qed


definition split_proposal :: lfg_proposal where
  "split_proposal = \<lparr>lp_id = 2, lp_dungeonId = 7, lp_state = LFG_PROPOSAL_INITIATING, lp_group = 0, lp_leader = 2,
     lp_cancelTime = 1040, lp_isNew = True, lp_queues = [1, 2, 3],
     lp_players = [(1, \<lparr>pp_role = 2, pp_accept = LFG_ANSWER_PENDING, pp_group = 0\<rparr>),
       (2, \<lparr>pp_role = 4, pp_accept = LFG_ANSWER_AGREE, pp_group = 0\<rparr>),
       (3, \<lparr>pp_role = 8, pp_accept = LFG_ANSWER_DENY, pp_group = 0\<rparr>)]\<rparr>"

definition split_mgr :: lfg_mgr where
  "split_mgr = town_mgr\<lparr>lm_proposals := [(2, split_proposal)], lm_proposalId := 2,
     lm_queues := [(0, town_queue\<lparr>newToQueueStore := [], currentQueueStore := []\<rparr>)]\<rparr>"

theorem proposal_failed_witness:
  "lm_proposals (RemoveProposal town 2 LFG_UPDATETYPE_PROPOSAL_DECLINED split_mgr) = [] \<and>
   newToQueueStore (queue_at 0 (RemoveProposal town 2 LFG_UPDATETYPE_PROPOSAL_DECLINED split_mgr)) = [1, 2] \<and>
   lfg_GetState town 1 (RemoveProposal town 2 LFG_UPDATETYPE_PROPOSAL_DECLINED split_mgr) = LFG_STATE_QUEUED \<and>
   lfg_GetState town 3 (RemoveProposal town 2 LFG_UPDATETYPE_PROPOSAL_DECLINED split_mgr) = LFG_STATE_NONE"
proof -
  let ?m = "RemoveProposal town 2 LFG_UPDATETYPE_PROPOSAL_DECLINED split_mgr"
  have g: "\<not> IS_GROUP_GUID 1" "\<not> IS_GROUP_GUID 2" "\<not> IS_GROUP_GUID 3" by code_simp+
  have D: "deniers LFG_UPDATETYPE_PROPOSAL_DECLINED split_proposal = {3}"
    by code_simp
  have q: "data_keys (queue_at 0 split_mgr) = {1, 2, 3}" "newToQueueStore (queue_at 0 split_mgr) = []"
    by (simp_all add: queue_at_def split_mgr_def town_queue_def data_keys_def)
  have "map_of (lm_proposals ?m) = (map_of (lm_proposals split_mgr))(2 := None) \<and>
    requeued split_proposal {3} (queue_at 0 split_mgr) (queue_at 0 ?m) \<and>
    (\<forall>e \<in> set (lp_players split_proposal). lfg_GetState town (fst e) ?m =
       (if pp_entry e \<in> {3} then GetOldState town (fst e) split_mgr else LFG_STATE_QUEUED))"
    unfolding D [symmetric]
    by (rule proposal_failed)
      (use g in \<open>simp_all add: split_mgr_def split_proposal_def town_mgr_def om_ok_def LfgPlayerData_new_def\<close>)
  then show ?thesis using g q
    by (auto simp: requeued_def split_proposal_def pp_entry_def split_mgr_def town_mgr_def LfgPlayerData_new_def
        map_of_eq_empty_iff)
qed

section \<open>Proposals nobody hears of\<close>

lemma announce_player_other:
  assumes "\<not> IS_GROUP_GUID g" "x \<noteq> g" "IS_GROUP_GUID (pd_Group (lm_players m g)) \<or> pd_Group (lm_players m g) = 0"
  shows "lm_players (announce_player E p g m) x = lm_players m x"
  using assms by (auto simp: announce_player_def Let_def pd_SetState_def)

text \<open>Only the newest proposal is announced.  When the search of one update makes several proposals, the loop that
  announces them starts at the number of the last one: the list it goes through is that one
  proposal, whatever others were made before it.\<close>

theorem only_newest_announced:
  assumes "om_ok (lm_proposals m)" and "\<forall>e \<in> set (lm_proposals m). fst e \<le> lm_proposalId m"
  shows "to_announce lastId m =
    (if lastId = lm_proposalId m then []
     else case last_proposal m of None \<Rightarrow> [] | Some p \<Rightarrow> [(lm_proposalId m, p)])"
proof (cases "map_of (lm_proposals m) (lm_proposalId m)")
  case (Some p)
  have "dropWhile (\<lambda>e. fst e \<noteq> i) xs = [(i, p)]" if "om_ok xs" "\<forall>e \<in> set xs. fst e \<le> i" "map_of xs i = Some p" for xs and i :: uint32
    using that
  proof (induction xs)
    case (Cons e xs)
    then show ?case by (cases e; cases xs) (auto simp: om_ok_Cons split: if_splits)
  qed simp
  with Some assms show ?thesis by (simp add: to_announce_def last_proposal_def)
qed (simp add: to_announce_def last_proposal_def)


theorem only_newest_announced_witness:
  "to_announce 0 (town_mgr\<lparr>lm_proposals := [(1, split_proposal), (2, split_proposal)], lm_proposalId := 2\<rparr>) =
   [(2, split_proposal)]"
  using only_newest_announced
    [of "town_mgr\<lparr>lm_proposals := [(1, split_proposal), (2, split_proposal)], lm_proposalId := 2\<rparr>" 0]
  by (simp add: om_ok_def last_proposal_def)









section \<open>Votes that count as no\<close>

text \<open>A yes can count as a no.  A member of the group who has no entry in the vote to kick, because he came
  after it was started, is given one by the check that he has not voted yet: it is a denial, whatever he
  answers, and stays.\<close>

theorem late_vote_denies:
  assumes "pd_Group (lm_players m guid) = gguid" and "gguid \<noteq> 0" and "map_of (lm_boots m) gguid = Some b"
    and "map_of (lb_votes b) guid = None"
  shows "UpdateBoot E guid accept m =
    m\<lparr>lm_boots := om_put gguid (b\<lparr>lb_votes := om_put guid LFG_ANSWER_DENY (lb_votes b)\<rparr>) (lm_boots m)\<rparr>"
  using assms by (simp add: UpdateBoot_def Let_def)

text \<open>A vote of a group of four, two of whom came late: after their yes and that of the one member who may vote,
  four are for the kick, and it is over without one.\<close>

definition kick_town :: lfg_env where
  "kick_town = town\<lparr>le_isLFRGroup := (\<lambda>_. Some False), RemoveFromGroup := (\<lambda>_ v. lm_emit [TeleportOut v])\<rparr>"

definition kick_mgr :: lfg_mgr where
  "kick_mgr = town_mgr\<lparr>lm_players := (\<lambda>_. LfgPlayerData_new\<lparr>pd_Group := trio\<rparr>),
     lm_boots := [(trio, \<lparr>lb_cancelTime = 1100, lb_inProgress = True,
       lb_votes = [(1, LFG_ANSWER_AGREE), (2, LFG_ANSWER_PENDING), (3, LFG_ANSWER_DENY)], lb_victim = 3, lb_reason = ''afk''\<rparr>)]\<rparr>"

lemma kick_fails:
  "let m = UpdateBoot kick_town 2 True (UpdateBoot kick_town 5 True (UpdateBoot kick_town 4 True kick_mgr))
   in map fst (lm_boots m) = [] \<and> \<not> list_ex (\<lambda>x. x = TeleportOut 3) (lm_out m)"
  by code_simp

theorem late_vote_denies_witness:
  "lm_boots (UpdateBoot kick_town 4 True kick_mgr) =
     [(trio, \<lparr>lb_cancelTime = 1100, lb_inProgress = True,
       lb_votes = [(1, LFG_ANSWER_AGREE), (2, LFG_ANSWER_PENDING), (3, LFG_ANSWER_DENY), (4, LFG_ANSWER_DENY)],
       lb_victim = 3, lb_reason = ''afk''\<rparr>)]"
  using late_vote_denies [of kick_mgr 4 trio "\<lparr>lb_cancelTime = 1100, lb_inProgress = True,
       lb_votes = [(1, LFG_ANSWER_AGREE), (2, LFG_ANSWER_PENDING), (3, LFG_ANSWER_DENY)], lb_victim = 3,
       lb_reason = ''afk''\<rparr>" kick_town True]
  by (simp add: kick_mgr_def town_mgr_def trio_def)

section \<open>Joining again\<close>

lemma join_one_dungeon:
  assumes "GetLFGDungeon E i = Some d" and "ld_type d = LFG_TYPE_DUNGEON"
  shows "join_types E [i] [i] \<lparr>jk_result = LFG_JOIN_OK, jk_isRaid = False, jk_isDungeon = False, jk_rDungeonId = 0\<rparr> =
    \<lparr>jk_result = LFG_JOIN_OK, jk_isRaid = False, jk_isDungeon = True, jk_rDungeonId = 0\<rparr>"
  using assms by (simp add: GetDungeonType_def LFG_TYPE_DUNGEON_def LFG_TYPE_RANDOM_def Let_def)

lemma GetCompatibleDungeons_nobody [simp]: "GetCompatibleDungeons [] c m ds = ds"
  by (simp add: GetCompatibleDungeons_def)

lemma join_types_stop: "jk_result k \<noteq> LFG_JOIN_OK \<Longrightarrow> join_types E ds is k = k"
  by (cases "is") simp_all

lemma join_checks_refused:
  "join_players E p g ds = (r, ps) \<Longrightarrow> r \<noteq> LFG_JOIN_OK \<Longrightarrow> fst (join_checks E p g False c ds m) = r"
  by (simp add: join_checks_def Let_def join_types_stop)

lemma join_alone_data:
  assumes "\<not> IS_GROUP_GUID g"
  shows "map_of (QueueDataStore (queue_at (pd_Team (lm_players n g)) (join_alone E g ic r ds rd c n))) g =
    Some (LfgQueueData_init E (le_now E) ds [(g, r)])"
proof -
  let ?k = "pd_Team (lm_players n g)"
  let ?n = "upd_queue ?k (AddQueueData E g (le_now E) ds [(g, r)]) (upd_queue ?k (\<lambda>q. q) n)"
  have "lm_queues (join_alone E g ic r ds rd c n) = lm_queues ?n"
    using assms by (simp add: join_alone_def Let_def GetQueue_def GetQueueId_def see_state_def SetSelectedDungeons_def)
  then have "queue_at ?k (join_alone E g ic r ds rd c n) = queue_at ?k ?n" by (rule queue_at_cong)
  then show ?thesis by (simp add: queue_at_upd AddQueueData_def AddToQueue_def AddToNewQueue_def)
qed

text \<open>Who is in the queue already can join again past the checks.  A player with the mark of a deserter who asks
  for a dungeon is refused, and the queues stay as they are, unless he is in the state queued: then neither
  the mark, nor a battleground, nor a lock of the dungeon is looked at, and he is in the queue for it.\<close>

theorem rejoin_unchecked:
  assumes "GetLFGDungeon E i = Some d" and "ld_type d = LFG_TYPE_DUNGEON" and "\<not> IS_GROUP_GUID (jp_guid p)"
  shows "if lfg_GetState E (jp_guid p) m = LFG_STATE_QUEUED
    then map_of (QueueDataStore (queue_at (pd_Team (lm_players m (jp_guid p))) (JoinLfg E p None r [i] c m))) (jp_guid p)
           = Some (LfgQueueData_init E (le_now E) [i] [(jp_guid p, r)])
    else jp_deserter p \<longrightarrow> lm_queues (JoinLfg E p None r [i] c m) = lm_queues m"
proof (cases "lfg_GetState E (jp_guid p) m = LFG_STATE_QUEUED")
  case True
  have checks: "join_checks E p None True False [i] n =
      (LFG_JOIN_OK, \<lparr>jk_result = LFG_JOIN_OK, jk_isRaid = False, jk_isDungeon = True, jk_rDungeonId = 0\<rparr>, [i])" for n
    using join_one_dungeon [OF assms(1,2)] by (simp add: join_checks_def)
  define k where "k = pd_Team (lm_players m (jp_guid p))"
  define n where "n = SetComment (jp_guid p) c (upd_queue k (RemoveFromQueue E (jp_guid p)) (upd_queue k (\<lambda>q. q) m))"
  have "JoinLfg E p None r [i] c m = join_alone E (jp_guid p) False r [i] 0 c n"
    using True assms(3) checks by (simp add: JoinLfg_def Let_def see_state_def GetQueue_def GetQueueId_def n_def k_def)
  moreover have "pd_Team (lm_players n (jp_guid p)) = k"
    by (simp add: n_def SetComment_def upd_player_def k_def)
  ultimately show ?thesis using True join_alone_data [OF assms(3), of n E False r "[i]" 0 c] by (simp add: k_def)
next
  case False
  obtain r0 k0 o0 where j: "join_checks E p None False False [i] m = (r0, k0, o0)" by (metis prod_cases3)
  have "r0 \<noteq> LFG_JOIN_OK" if "jp_deserter p"
  proof -
    have "\<exists>x. x \<noteq> LFG_JOIN_OK \<and> join_players E p None [i] = (x, [])"
      using that by (simp add: join_players_def)
    then show ?thesis using join_checks_refused j by (metis fst_conv)
  qed
  then show ?thesis using False assms(3) j by (simp add: JoinLfg_def see_state_def Let_def)
qed

theorem rejoin_unchecked_witness:
  "map_of (QueueDataStore (queue_at 0 (JoinLfg town \<lparr>jp_guid = 1, jp_deserter = True, jp_cooldown = True, jp_battleground = True\<rparr>
       None 8 [7] ''dps'' town_mgr))) 1 = Some (LfgQueueData_init town 1000 [7] [(1, 8)])"
proof -
  let ?p = "\<lparr>jp_guid = 1, jp_deserter = True, jp_cooldown = True, jp_battleground = True\<rparr>"
  have g: "\<not> IS_GROUP_GUID (jp_guid ?p)" "lfg_GetState town (jp_guid ?p) town_mgr = LFG_STATE_QUEUED" by code_simp+
  have d: "GetLFGDungeon town 7 = Some scenario" "ld_type scenario = LFG_TYPE_DUNGEON" "le_now town = 1000"
      "pd_Team (lm_players town_mgr 1) = 0" by code_simp+
  show ?thesis using rejoin_unchecked [OF d(1,2) g(1), of town_mgr 8 "''dps''"] g(2) d(3,4) by simp
qed

end
