(* ===== verification/Auction.thy ===== *)
theory Auction
  imports ByteBuf String_Util Float32
begin

text \<open>
  The auction house: \<^verbatim>\<open>game/AuctionHouse/AuctionHouseMgr\<close> and the packet handlers of
  \<^verbatim>\<open>game/Handlers/AuctionHouseHandler.cpp\<close> that create, bid on and cancel auctions.

  The state holds the three houses, the items that lie in them, the next free ids, the money and the
  bags of the players, and a log of what was sent: packets, mails and database statements, in their
  order.  The stores of the client data, who is online, the accounts, the rates and the clock are
  fields of the environment.  Script hooks and the command log of game masters are left out.
\<close>

unbundle bit_operations_syntax

section \<open>Data\<close>

datatype auction_error =
    ERR_AUCTION_OK
  | ERR_AUCTION_INVENTORY
  | ERR_AUCTION_DATABASE_ERROR
  | ERR_AUCTION_NOT_ENOUGHT_MONEY
  | ERR_AUCTION_ITEM_NOT_FOUND
  | ERR_AUCTION_HIGHER_BID
  | ERR_AUCTION_BID_INCREMENT
  | ERR_AUCTION_BID_OWN
  | ERR_RESTRICTED_ACCOUNT

datatype auction_action = AUCTION_SELL_ITEM | AUCTION_CANCEL | AUCTION_PLACE_BID

datatype mail_auction_answer =
    AUCTION_OUTBIDDED
  | AUCTION_WON
  | AUCTION_SUCCESSFUL
  | AUCTION_EXPIRED
  | AUCTION_CANCELLED_TO_BIDDER
  | AUCTION_CANCELED
  | AUCTION_SALE_PENDING

fun answer_num :: "mail_auction_answer \<Rightarrow> nat" where
  "answer_num AUCTION_OUTBIDDED = 0"
| "answer_num AUCTION_WON = 1"
| "answer_num AUCTION_SUCCESSFUL = 2"
| "answer_num AUCTION_EXPIRED = 3"
| "answer_num AUCTION_CANCELLED_TO_BIDDER = 4"
| "answer_num AUCTION_CANCELED = 5"
| "answer_num AUCTION_SALE_PENDING = 6"

record auction_house =
  houseId :: uint32
  houseFaction :: uint32
  depositPercent :: uint32
  cutPercent :: uint32

record auction =
  au_Id :: uint32
  au_auctioneer :: uint32
  au_itemGUIDLow :: uint32
  au_itemEntry :: uint32
  au_itemCount :: uint32
  au_owner :: uint32
  au_startbid :: uint64
  au_bid :: uint64
  au_buyout :: uint64
  au_expire_time :: int
  au_bidder :: uint32
  au_deposit :: uint32
  au_house :: auction_house
  au_factionTemplateId :: uint32

text \<open>What the auction house reads of an item and of its template.\<close>

record ah_item =
  ai_guidLow :: uint32
  ai_entry :: uint32
  ai_count :: uint32
  ai_duration :: uint32
  ai_randomPropertyId :: int32
  ai_tradeable :: bool
  ai_notEmptyBag :: bool

record item_template =
  it_SellPrice :: uint32
  it_Flags :: uint32
  it_maxStackSize :: uint32

definition ITEM_PROTO_FLAG_CONJURED :: uint32 where "ITEM_PROTO_FLAG_CONJURED = 2"
definition AH_MINIMUM_DEPOSIT :: uint32 where "AH_MINIMUM_DEPOSIT = 100"
definition MIN_AUCTION_TIME :: uint32 where "MIN_AUCTION_TIME = 12 * 3600"
definition MAX_AUCTION_ITEMS :: nat where "MAX_AUCTION_ITEMS = 160"
definition MAX_MONEY_AMOUNT :: uint64 where "MAX_MONEY_AMOUNT = 9999999999"
definition FACTION_MASK_ALLIANCE :: uint32 where "FACTION_MASK_ALLIANCE = 2"
definition FACTION_MASK_HORDE :: uint32 where "FACTION_MASK_HORDE = 4"

lemmas ah_consts = ITEM_PROTO_FLAG_CONJURED_def AH_MINIMUM_DEPOSIT_def MIN_AUCTION_TIME_def MAX_AUCTION_ITEMS_def
  MAX_MONEY_AMOUNT_def FACTION_MASK_ALLIANCE_def FACTION_MASK_HORDE_def

text \<open>A row of the table \<^verbatim>\<open>auctionhouse\<close>.\<close>

record auction_row =
  ar_auctioneerguid :: uint32
  ar_itemguid :: uint32
  ar_itemowner :: uint32
  ar_buyoutprice :: uint32
  ar_time :: uint32
  ar_buyguid :: uint32
  ar_lastbid :: uint32
  ar_startbid :: uint32
  ar_deposit :: uint32

record ah_mail =
  am_receiver :: uint32
  am_subject :: string
  am_body :: string
  am_gold :: uint64
  am_itemGuids :: "uint32 list"
  am_delay :: uint32

datatype ah_out =
    CommandResult uint32 uint32 auction_action auction_error "uint64 list"
  | BidderNotification uint32 uint32 uint32 uint64 uint32 uint32 uint32
  | OwnerNotification uint32 uint32 uint64 uint32
  | RemovedNotification uint32 uint32 uint32 int32
  | AhMail ah_mail
  | AhCriteria uint32 string uint64
  | CHAR_INS_AUCTION uint32 auction_row
  | CHAR_UPD_AUCTION_BID uint32 uint32 uint32
  | CHAR_DEL_AUCTION uint32
  | CHAR_UPD_ITEM_OWNER uint32 uint32
  | SaveInventoryAndGold uint32 uint64
  | SaveItem ah_item
  | DeleteItemFromInventory uint32
  | DeleteItem uint32

record ah_env =
  ahe_now :: int
  ahe_gameTime :: int
  ahe_localtime :: "int \<Rightarrow> tm"
  ahe_online :: "uint32 \<Rightarrow> bool"
  ahe_account :: "uint32 \<Rightarrow> uint32"
  ahe_npc :: "uint64 \<Rightarrow> uint32 option"
  ahe_factionMask :: "uint32 \<Rightarrow> uint32 option"
  ahe_houseStore :: "uint32 \<Rightarrow> auction_house option"
  ahe_auctioneerFaction :: "uint32 \<Rightarrow> uint32 option"
  ahe_template :: "uint32 \<Rightarrow> item_template"
  ahe_twoSide :: bool
  ahe_gmLogTrade :: bool
  ahe_mailDelay :: uint32
  RATE_AUCTION_TIME :: float32
  RATE_AUCTION_DEPOSIT :: float32
  RATE_AUCTION_CUT :: float32
  ahe_uninitialised :: uint32

datatype house_side = Horde | Alliance | Neutral

record ah_mgr =
  am_horde :: "(uint32 \<times> auction) list"
  am_alliance :: "(uint32 \<times> auction) list"
  am_neutral :: "(uint32 \<times> auction) list"
  mAitems :: "(uint32 \<times> ah_item) list"
  am_auctionId :: uint32
  am_itemGuid :: uint32
  am_money :: "uint32 \<Rightarrow> uint64"
  am_bags :: "uint32 \<Rightarrow> (uint64 \<times> ah_item) list"
  am_out :: "ah_out list"

definition ah_emit :: "ah_out list \<Rightarrow> ah_mgr \<Rightarrow> ah_mgr" where
  "ah_emit xs m = m\<lparr>am_out := am_out m @ xs\<rparr>"

fun auctions_at :: "house_side \<Rightarrow> ah_mgr \<Rightarrow> (uint32 \<times> auction) list" where
  "auctions_at Horde m = am_horde m"
| "auctions_at Alliance m = am_alliance m"
| "auctions_at Neutral m = am_neutral m"

fun set_auctions :: "house_side \<Rightarrow> (uint32 \<times> auction) list \<Rightarrow> ah_mgr \<Rightarrow> ah_mgr" where
  "set_auctions Horde xs m = m\<lparr>am_horde := xs\<rparr>"
| "set_auctions Alliance xs m = m\<lparr>am_alliance := xs\<rparr>"
| "set_auctions Neutral xs m = m\<lparr>am_neutral := xs\<rparr>"

section \<open>Money\<close>

text \<open>
  The percentage template for each type it is used at, and \<^verbatim>\<open>Player::ModifyMoney\<close>, whose signed
  amount is an \<^typ>\<open>int\<close>; the notification for too much money is left out.
\<close>

definition CalculatePct_uint64 :: "uint64 \<Rightarrow> uint32 \<Rightarrow> uint64" where
  "CalculatePct_uint64 base pct = f_to_uint64 (f_div (f_mul (f_of_int (uint base)) (f_of_int (uint pct))) (f_of_int 100))"

definition CalculatePct_float :: "float32 \<Rightarrow> uint32 \<Rightarrow> float32" where
  "CalculatePct_float base pct = f_div (f_mul base (f_of_int (uint pct))) (f_of_int 100)"

definition HasEnoughMoney :: "uint64 \<Rightarrow> uint64 \<Rightarrow> bool" where
  "HasEnoughMoney amount money \<longleftrightarrow> amount \<le> money"

definition ModifyMoney :: "int \<Rightarrow> uint64 \<Rightarrow> uint64" where
  "ModifyMoney amount money =
     (if amount = 0 then money
      else if amount < 0
      then (if word_of_int (- amount) < money then money + word_of_int amount else 0)
      else if money < MAX_MONEY_AMOUNT - word_of_int amount then money + word_of_int amount else money)"

definition s64 :: "int \<Rightarrow> int" where
  "s64 x = signed_take_bit 63 x"

definition take_money :: "uint32 \<Rightarrow> int \<Rightarrow> ah_mgr \<Rightarrow> ah_mgr" where
  "take_money p amount m = m\<lparr>am_money := (am_money m)(p := ModifyMoney amount (am_money m p))\<rparr>"

section \<open>Entries of an auction\<close>

definition GetAuctionCut :: "ah_env \<Rightarrow> auction \<Rightarrow> uint32" where
  "GetAuctionCut E a =
     word_of_int (max 0 (f_to_int32 (f_mul (f_of_int (uint (CalculatePct_uint64 (au_bid a) (cutPercent (au_house a)))))
       (RATE_AUCTION_CUT E))))"

definition GetAuctionOutBid :: "auction \<Rightarrow> uint32" where
  "GetAuctionOutBid a =
     (let outbid = ucast (CalculatePct_uint64 (au_bid a) 5) :: uint32 in if outbid \<noteq> 0 then outbid else 1)"

definition outbid_or_0 :: "auction \<Rightarrow> uint64" where
  "outbid_or_0 a = (if au_bid a \<noteq> 0 then ucast (GetAuctionOutBid a) else 0)"

definition row_of :: "auction \<Rightarrow> auction_row" where
  "row_of a = \<lparr>ar_auctioneerguid = au_auctioneer a, ar_itemguid = au_itemGUIDLow a, ar_itemowner = au_owner a,
     ar_buyoutprice = ucast (au_buyout a), ar_time = word_of_int (au_expire_time a), ar_buyguid = au_bidder a,
     ar_lastbid = ucast (au_bid a), ar_startbid = ucast (au_startbid a), ar_deposit = au_deposit a\<rparr>"

definition au_DeleteFromDB :: "auction \<Rightarrow> ah_mgr \<Rightarrow> ah_mgr" where
  "au_DeleteFromDB a m = ah_emit [CHAR_DEL_AUCTION (au_Id a)] m"

definition au_SaveToDB :: "auction \<Rightarrow> ah_mgr \<Rightarrow> ah_mgr" where
  "au_SaveToDB a m = ah_emit [CHAR_INS_AUCTION (au_Id a) (row_of a)] m"

definition BuildAuctionMailSubject :: "mail_auction_answer \<Rightarrow> auction \<Rightarrow> string" where
  "BuildAuctionMailSubject response a =
     dec_str (unat (au_itemEntry a)) @ '':0:'' @ dec_str (answer_num response) @ '':'' @ dec_str (unat (au_Id a))
     @ '':'' @ dec_str (unat (au_itemCount a))"

text \<open>Lower case hexadecimal digits; the GUID of a player is his low GUID.\<close>

fun hex_str :: "nat \<Rightarrow> string" where
  "hex_str n =
     (let d = [char_of (if n mod 16 < 10 then 48 + n mod 16 else 87 + n mod 16)]
      in if n < 16 then d else hex_str (n div 16) @ d)"

declare hex_str.simps [simp del]

definition secsToTimeBitFields :: "(int \<Rightarrow> tm) \<Rightarrow> int \<Rightarrow> uint32" where
  "secsToTimeBitFields localtime secs = packed_date (localtime secs)"

definition BuildAuctionMailBody :: "ah_env \<Rightarrow> uint32 \<Rightarrow> uint32 \<Rightarrow> uint32 \<Rightarrow> uint32 \<Rightarrow> uint32 \<Rightarrow> int \<Rightarrow> string" where
  "BuildAuctionMailBody E lowGuid bid buyout deposit cutv distrTime =
     (let h = hex_str (unat lowGuid)
      in replicate (16 - length h) CHR '' '' @ h)
     @ '':'' @ dec_str (unat bid) @ '':'' @ dec_str (unat buyout) @ '':'' @ dec_str (unat deposit) @ '':'' @ dec_str (unat cutv)
     @ (if distrTime \<noteq> 0 then '':0:'' @ dec_str (unat (secsToTimeBitFields (ahe_localtime E) distrTime)) else [])"


section \<open>The houses and their items\<close>

definition GetAuctionsMap :: "ah_env \<Rightarrow> uint32 \<Rightarrow> house_side" where
  "GetAuctionsMap E factionTemplateId =
     (if ahe_twoSide E then Neutral
      else case ahe_factionMask E factionTemplateId of
             None \<Rightarrow> Neutral
           | Some ourMask \<Rightarrow>
               if ourMask AND FACTION_MASK_ALLIANCE \<noteq> 0 then Alliance
               else if ourMask AND FACTION_MASK_HORDE \<noteq> 0 then Horde else Neutral)"

definition house_of_mask :: "uint32 option \<Rightarrow> uint32" where
  "house_of_mask u = (case u of None \<Rightarrow> 7
     | Some ourMask \<Rightarrow> if ourMask AND FACTION_MASK_ALLIANCE \<noteq> 0 then 1
                       else if ourMask AND FACTION_MASK_HORDE \<noteq> 0 then 6 else 7)"

definition GetAuctionHouseEntry :: "ah_env \<Rightarrow> uint32 \<Rightarrow> auction_house option" where
  "GetAuctionHouseEntry E factionTemplateId =
     ahe_houseStore E
       (if ahe_twoSide E then 7
        else case map_of [(12, 1), (29, 6), (55, 2), (68, 4), (80, 3), (104, 5), (120, 7), (474, 7), (855, 7), (1604, 6)]
                    factionTemplateId of
               Some h \<Rightarrow> h
             | None \<Rightarrow> house_of_mask (ahe_factionMask E factionTemplateId))"

definition GetAuctionDeposit :: "ah_env \<Rightarrow> auction_house \<Rightarrow> uint32 \<Rightarrow> ah_item \<Rightarrow> uint32 \<Rightarrow> uint32" where
  "GetAuctionDeposit E h time item n =
     (let MSV = it_SellPrice (ahe_template E (ai_entry item))
      in if MSV = 0 then AH_MINIMUM_DEPOSIT
         else let multiplier = CalculatePct_float (f_of_int (uint (depositPercent h))) 3;
                  timeHr = time div 60 div 60 div 12;
                  x = f_div (f_mul (f_mul multiplier (f_of_int (uint MSV))) (f_of_int (uint n))) (f_of_int 3);
                  deposit = f_to_uint32 (f_mul (f_mul (f_mul x (f_of_int (uint timeHr))) (f_of_int 3)) (RATE_AUCTION_DEPOSIT E))
              in if deposit < AH_MINIMUM_DEPOSIT then AH_MINIMUM_DEPOSIT else deposit)"

definition GetAItem :: "uint32 \<Rightarrow> ah_mgr \<Rightarrow> ah_item option" where
  "GetAItem i m = map_of (mAitems m) i"

text \<open>\<^verbatim>\<open>AddAItem\<close> asserts that the item is not there; a failed assertion, which ends the process, is \<open>None\<close>.\<close>

definition AddAItem :: "ah_item \<Rightarrow> ah_mgr \<Rightarrow> ah_mgr option" where
  "AddAItem it m =
     (if GetAItem (ai_guidLow it) m \<noteq> None then None
      else Some (m\<lparr>mAitems := om_put (ai_guidLow it) it (mAitems m)\<rparr>))"

definition RemoveAItem :: "uint32 \<Rightarrow> ah_mgr \<Rightarrow> ah_mgr" where
  "RemoveAItem i m = m\<lparr>mAitems := om_del i (mAitems m)\<rparr>"

definition GetAuction :: "house_side \<Rightarrow> uint32 \<Rightarrow> ah_mgr \<Rightarrow> auction option" where
  "GetAuction side i m = map_of (auctions_at side m) i"

definition AddAuction :: "house_side \<Rightarrow> auction \<Rightarrow> ah_mgr \<Rightarrow> ah_mgr" where
  "AddAuction side a m = set_auctions side (om_put (au_Id a) a (auctions_at side m)) m"

definition RemoveAuction :: "house_side \<Rightarrow> auction \<Rightarrow> ah_mgr \<Rightarrow> ah_mgr" where
  "RemoveAuction side a m = set_auctions side (om_del (au_Id a) (auctions_at side m)) m"

section \<open>Mails and packets\<close>

definition auction_mail :: "uint32 \<Rightarrow> mail_auction_answer \<Rightarrow> auction \<Rightarrow> string \<Rightarrow> uint64 \<Rightarrow> uint32 list \<Rightarrow> uint32 \<Rightarrow> ah_out" where
  "auction_mail receiver answer a body gold items delay =
     AhMail \<lparr>am_receiver = receiver, am_subject = BuildAuctionMailSubject answer a, am_body = body, am_gold = gold,
             am_itemGuids = items, am_delay = delay\<rparr>"

text \<open>A character exists when he is online or the account of his GUID is known.\<close>

definition exists_char :: "ah_env \<Rightarrow> uint32 \<Rightarrow> bool" where
  "exists_char E p \<longleftrightarrow> ahe_online E p \<or> ahe_account E p \<noteq> 0"

definition SendAuctionWonMail :: "ah_env \<Rightarrow> auction \<Rightarrow> ah_mgr \<Rightarrow> ah_mgr" where
  "SendAuctionWonMail E a m =
     (case GetAItem (au_itemGUIDLow a) m of
        None \<Rightarrow> m
      | Some pItem \<Rightarrow>
          let bidder = ahe_online E (au_bidder a);
              bidder_accId = (if ahe_gmLogTrade E then ahe_account E (au_bidder a) else 0)
          in if bidder \<or> bidder_accId \<noteq> 0
             then ah_emit
               (CHAR_UPD_ITEM_OWNER (au_bidder a) (ai_guidLow pItem) #
                (if bidder
                 then [BidderNotification (au_bidder a) (houseId (au_house a)) (au_Id a) (ucast (au_bidder a)) 0 0 (au_itemEntry a),
                       AhCriteria (au_bidder a) ''WON_AUCTIONS'' 1]
                 else []) @
                [auction_mail (au_bidder a) AUCTION_WON a
                   (BuildAuctionMailBody E (au_owner a) (ucast (au_bid a)) (ucast (au_buyout a)) 0 0 0) 0 [ai_guidLow pItem] 0]) m
             else m)"

definition SendAuctionSalePendingMail :: "ah_env \<Rightarrow> auction \<Rightarrow> ah_mgr \<Rightarrow> ah_mgr" where
  "SendAuctionSalePendingMail E a m =
     (if exists_char E (au_owner a)
      then ah_emit [auction_mail (au_owner a) AUCTION_SALE_PENDING a
             (BuildAuctionMailBody E (au_bidder a) (ucast (au_bid a)) (ucast (au_buyout a)) (au_deposit a) (GetAuctionCut E a)
               (ahe_now E + uint (ahe_mailDelay E))) 0 [] 0] m
      else m)"

definition sale_profit :: "ah_env \<Rightarrow> auction \<Rightarrow> uint32" where
  "sale_profit E a = ucast (au_bid a + ucast (au_deposit a) - ucast (GetAuctionCut E a))"

definition SendAuctionSuccessfulMail :: "ah_env \<Rightarrow> auction \<Rightarrow> ah_mgr \<Rightarrow> ah_mgr" where
  "SendAuctionSuccessfulMail E a m =
     (if exists_char E (au_owner a)
      then let profit = sale_profit E a
           in ah_emit
             ((if ahe_online E (au_owner a)
               then [AhCriteria (au_owner a) ''GOLD_EARNED_BY_AUCTIONS'' (ucast profit),
                     AhCriteria (au_owner a) ''HIGHEST_AUCTION_SOLD'' (au_bid a),
                     OwnerNotification (au_owner a) (au_Id a) (au_bid a) (au_itemEntry a)]
               else []) @
              [auction_mail (au_owner a) AUCTION_SUCCESSFUL a
                 (BuildAuctionMailBody E (au_bidder a) (ucast (au_bid a)) (ucast (au_buyout a)) (au_deposit a) (GetAuctionCut E a) 0)
                 (ucast profit) [] (ahe_mailDelay E)]) m
      else m)"

definition SendAuctionExpiredMail :: "ah_env \<Rightarrow> auction \<Rightarrow> ah_mgr \<Rightarrow> ah_mgr" where
  "SendAuctionExpiredMail E a m =
     (case GetAItem (au_itemGUIDLow a) m of
        None \<Rightarrow> m
      | Some pItem \<Rightarrow>
          if exists_char E (au_owner a)
          then ah_emit
            ((if ahe_online E (au_owner a) then [OwnerNotification (au_owner a) (au_Id a) (au_bid a) (au_itemEntry a)] else []) @
             [auction_mail (au_owner a) AUCTION_EXPIRED a
                (BuildAuctionMailBody E 0 0 (ucast (au_buyout a)) (au_deposit a) 0 0) 0 [ai_guidLow pItem] 0]) m
          else m)"

definition SendAuctionOutbiddedMail :: "ah_env \<Rightarrow> auction \<Rightarrow> uint32 \<Rightarrow> uint32 \<Rightarrow> ah_mgr \<Rightarrow> ah_mgr" where
  "SendAuctionOutbiddedMail E a newPrice newBidder m =
     (if exists_char E (au_bidder a)
      then ah_emit
        ((if ahe_online E (au_bidder a)
          then [BidderNotification (au_bidder a) (houseId (au_house a)) (au_Id a) (ucast newBidder) newPrice
                  (GetAuctionOutBid a) (au_itemEntry a)]
          else []) @
         [auction_mail (au_bidder a) AUCTION_OUTBIDDED a
            (BuildAuctionMailBody E (au_owner a) (ucast (au_bid a)) (ucast (au_buyout a)) (au_deposit a) (GetAuctionCut E a) 0)
            (au_bid a) [] 0]) m
      else m)"

definition SendAuctionCancelledToBidderMail :: "ah_env \<Rightarrow> auction \<Rightarrow> ah_item \<Rightarrow> ah_mgr \<Rightarrow> ah_mgr" where
  "SendAuctionCancelledToBidderMail E a item m =
     ah_emit
       ((if ahe_online E (au_bidder a)
         then [RemovedNotification (au_bidder a) (au_Id a) (au_itemEntry a) (ai_randomPropertyId item)] else []) @
        (if exists_char E (au_bidder a)
         then [auction_mail (au_bidder a) AUCTION_CANCELLED_TO_BIDDER a
                (BuildAuctionMailBody E (au_owner a) (ucast (au_bid a)) (ucast (au_buyout a)) (au_deposit a) 0 0) (au_bid a) [] 0]
         else [])) m"

text \<open>The packet for the player who acts; \<open>ERR_AUCTION_INVENTORY\<close> is never sent by the modelled handlers.\<close>

definition SendAuctionCommandResult :: "uint32 \<Rightarrow> auction option \<Rightarrow> auction_action \<Rightarrow> auction_error \<Rightarrow> ah_mgr \<Rightarrow> ah_mgr" where
  "SendAuctionCommandResult player auction action errorCode m =
     ah_emit [CommandResult player (case auction of None \<Rightarrow> 0 | Some a \<Rightarrow> au_Id a) action errorCode
       (case auction of
          None \<Rightarrow> []
        | Some a \<Rightarrow>
            if errorCode = ERR_AUCTION_OK \<and> action = AUCTION_PLACE_BID then [outbid_or_0 a]
            else if errorCode = ERR_AUCTION_HIGHER_BID then [ucast (au_bidder a), au_bid a, outbid_or_0 a]
            else [])] m"

section \<open>Bidding and cancelling\<close>

definition bid_on :: "ah_env \<Rightarrow> uint32 \<Rightarrow> house_side \<Rightarrow> auction \<Rightarrow> uint64 \<Rightarrow> ah_mgr \<Rightarrow> ah_mgr" where
  "bid_on E player side a price m =
     (let m1 = (if au_bidder a > 0
                then if au_bidder a = player then take_money player (- s64 (uint (price - au_bid a))) m
                     else take_money player (- s64 (uint price)) (SendAuctionOutbiddedMail E a (ucast price) player m)
                else take_money player (- s64 (uint price)) m);
          a1 = a\<lparr>au_bidder := player, au_bid := price\<rparr>;
          m2 = set_auctions side (om_put (au_Id a) a1 (auctions_at side m1)) m1
      in SendAuctionCommandResult player (Some a1) AUCTION_PLACE_BID ERR_AUCTION_OK
           (ah_emit [AhCriteria player ''HIGHEST_AUCTION_BID'' price, CHAR_UPD_AUCTION_BID player (ucast price) (au_Id a)] m2))"

definition buy_out :: "ah_env \<Rightarrow> uint32 \<Rightarrow> house_side \<Rightarrow> auction \<Rightarrow> ah_mgr \<Rightarrow> ah_mgr" where
  "buy_out E player side a m =
     (let m1 = (if player = au_bidder a then take_money player (- s64 (uint (au_buyout a - au_bid a))) m
                else let n = take_money player (- s64 (uint (au_buyout a))) m
                     in if au_bidder a \<noteq> 0 then SendAuctionOutbiddedMail E a (ucast (au_buyout a)) player n else n);
          a1 = a\<lparr>au_bidder := player, au_bid := au_buyout a\<rparr>;
          m2 = ah_emit [AhCriteria player ''HIGHEST_AUCTION_BID'' (au_buyout a)] m1;
          m3 = SendAuctionWonMail E a1 (SendAuctionSuccessfulMail E a1 (SendAuctionSalePendingMail E a1 m2));
          m4 = au_DeleteFromDB a1 (SendAuctionCommandResult player (Some a1) AUCTION_PLACE_BID ERR_AUCTION_OK m3)
      in RemoveAuction side a1 (RemoveAItem (au_itemGUIDLow a1) m4))"

definition HandleAuctionPlaceBid :: "ah_env \<Rightarrow> uint32 \<Rightarrow> uint64 \<Rightarrow> uint32 \<Rightarrow> uint64 \<Rightarrow> ah_mgr \<Rightarrow> ah_mgr" where
  "HandleAuctionPlaceBid E player auctioneer auctionId price m =
     (if auctionId = 0 \<or> price = 0 then m
      else case ahe_npc E auctioneer of
             None \<Rightarrow> m
           | Some faction \<Rightarrow>
               let side = GetAuctionsMap E faction
               in case GetAuction side auctionId m of
                    None \<Rightarrow> SendAuctionCommandResult player None AUCTION_PLACE_BID ERR_AUCTION_BID_OWN m
                  | Some a \<Rightarrow>
                      if au_owner a = player then SendAuctionCommandResult player None AUCTION_PLACE_BID ERR_AUCTION_BID_OWN m
                      else if price \<le> au_bid a \<or> price < au_startbid a then m
                      else if (price < au_buyout a \<or> au_buyout a = 0) \<and> price < au_bid a + ucast (GetAuctionOutBid a)
                      then SendAuctionCommandResult player (Some a) AUCTION_PLACE_BID ERR_AUCTION_HIGHER_BID m
                      else if \<not> HasEnoughMoney price (am_money m player)
                      then SendAuctionCommandResult player (Some a) AUCTION_PLACE_BID ERR_AUCTION_NOT_ENOUGHT_MONEY m
                      else let m1 = (if price < au_buyout a \<or> au_buyout a = 0 then bid_on E player side a price m
                                     else buy_out E player side a m)
                           in ah_emit [SaveInventoryAndGold player (am_money m1 player)] m1)"

definition HandleAuctionRemoveItem :: "ah_env \<Rightarrow> uint32 \<Rightarrow> uint64 \<Rightarrow> uint32 \<Rightarrow> ah_mgr \<Rightarrow> ah_mgr" where
  "HandleAuctionRemoveItem E player auctioneer auctionId m =
     (case ahe_npc E auctioneer of
        None \<Rightarrow> m
      | Some faction \<Rightarrow>
          let side = GetAuctionsMap E faction
          in case GetAuction side auctionId m of
               None \<Rightarrow> SendAuctionCommandResult player None AUCTION_CANCEL ERR_AUCTION_DATABASE_ERROR m
             | Some a \<Rightarrow>
                 if au_owner a \<noteq> player then SendAuctionCommandResult player None AUCTION_CANCEL ERR_AUCTION_DATABASE_ERROR m
                 else case GetAItem (au_itemGUIDLow a) m of
                        None \<Rightarrow> SendAuctionCommandResult player None AUCTION_CANCEL ERR_AUCTION_DATABASE_ERROR m
                      | Some pItem \<Rightarrow>
                          if au_bidder a > 0 \<and> \<not> HasEnoughMoney (ucast (GetAuctionCut E a)) (am_money m player) then m
                          else let m1 = (if au_bidder a > 0
                                         then take_money player (- uint (GetAuctionCut E a))
                                                (SendAuctionCancelledToBidderMail E a pItem m)
                                         else m);
                                   m2 = ah_emit [auction_mail player AUCTION_CANCELED a
                                          (BuildAuctionMailBody E 0 0 (ucast (au_buyout a)) (au_deposit a) 0 0) 0
                                          [ai_guidLow pItem] 0] m1;
                                   m3 = SendAuctionCommandResult player (Some a) AUCTION_CANCEL ERR_AUCTION_OK m2;
                                   m4 = au_DeleteFromDB a (ah_emit [SaveInventoryAndGold player (am_money m3 player)] m3)
                               in RemoveAuction side a (RemoveAItem (au_itemGUIDLow a) m4))"


section \<open>Selling\<close>

text \<open>
  \<open>sell_items\<close> is the loop that looks up and checks the items; it gives the items with their counts,
  the template and the sum of the counts, or the error that is sent.
\<close>

definition may_sell :: "ah_env \<Rightarrow> ah_mgr \<Rightarrow> uint32 \<Rightarrow> uint32 \<Rightarrow> ah_item \<Rightarrow> bool" where
  "may_sell E m entry n item \<longleftrightarrow>
     GetAItem (ai_guidLow item) m = None \<and> ai_tradeable item \<and> \<not> ai_notEmptyBag item \<and>
     it_Flags (ahe_template E (ai_entry item)) AND ITEM_PROTO_FLAG_CONJURED = 0 \<and> ai_duration item = 0 \<and>
     \<not> ai_count item < n \<and> entry = ai_entry item"

fun sell_items :: "ah_env \<Rightarrow> ah_mgr \<Rightarrow> uint32 \<Rightarrow> (uint64 \<times> uint32) list \<Rightarrow> uint32
    \<Rightarrow> auction_error + (ah_item \<times> uint32) list" where
  "sell_items E m player [] entry = Inr []"
| "sell_items E m player ((guid, n) # gs) entry =
     (case map_of (am_bags m player) guid of
        None \<Rightarrow> Inl ERR_AUCTION_ITEM_NOT_FOUND
      | Some item \<Rightarrow>
          let entry1 = (if entry = 0 then ai_entry item else entry)
          in if \<not> may_sell E m entry1 n item then Inl ERR_AUCTION_DATABASE_ERROR
             else bind_res (sell_items E m player gs entry1) (\<lambda>is. Inr ((item, n) # is)))"

text \<open>\<^verbatim>\<open>Item::CloneItem\<close>: the new item has the next free GUID and at most a full stack.\<close>

definition CloneItem :: "ah_env \<Rightarrow> ah_item \<Rightarrow> uint32 \<Rightarrow> ah_mgr \<Rightarrow> (ah_item \<times> ah_mgr) option" where
  "CloneItem E item n m =
     (if n < 1 then None
      else Some (item\<lparr>ai_guidLow := am_itemGuid m,
                      ai_count := min n (it_maxStackSize (ahe_template E (ai_entry item)))\<rparr>,
                 m\<lparr>am_itemGuid := am_itemGuid m + 1\<rparr>))"

definition item_guid :: "ah_item \<Rightarrow> uint64" where
  "item_guid item = ucast (ai_guidLow item) OR push_bit 52 0x400"

definition MoveItemFromInventory :: "uint32 \<Rightarrow> ah_item \<Rightarrow> ah_mgr \<Rightarrow> ah_mgr" where
  "MoveItemFromInventory player item m =
     m\<lparr>am_bags := (am_bags m)(player := om_del (item_guid item) (am_bags m player))\<rparr>"

text \<open>What is left in the bags of an item of which a part, or all, was put into the clone.\<close>

definition take_from_stack :: "uint32 \<Rightarrow> ah_item \<times> uint32 \<Rightarrow> ah_mgr \<Rightarrow> ah_mgr" where
  "take_from_stack player e m =
     (let item2 = fst e
      in if ai_count item2 = snd e
         then ah_emit [DeleteItemFromInventory (ai_guidLow item2), DeleteItem (ai_guidLow item2)]
                (MoveItemFromInventory player item2 m)
         else let item3 = item2\<lparr>ai_count := ai_count item2 - snd e\<rparr>
              in ah_emit [SaveItem item3]
                   (m\<lparr>am_bags := (am_bags m)(player := om_put (item_guid item2) item3 (am_bags m player))\<rparr>))"

text \<open>The next id; the request to stop the server when the ids run out is left out.\<close>

definition GenerateAuctionID :: "ah_mgr \<Rightarrow> uint32 \<times> ah_mgr" where
  "GenerateAuctionID m = (am_auctionId m, m\<lparr>am_auctionId := am_auctionId m + 1\<rparr>)"

definition new_auction ::
  "ah_env \<Rightarrow> uint32 \<Rightarrow> uint64 \<Rightarrow> auction_house \<Rightarrow> uint32 \<Rightarrow> uint64 \<Rightarrow> uint64 \<Rightarrow> uint32 \<Rightarrow> uint32 \<Rightarrow> ah_item \<Rightarrow> auction" where
  "new_auction E i auctioneer h player bid buyout auctionTime deposit item =
     \<lparr>au_Id = i, au_auctioneer = (if ahe_twoSide E then 82663 else ucast auctioneer), au_itemGUIDLow = ai_guidLow item,
      au_itemEntry = ai_entry item, au_itemCount = ai_count item, au_owner = player, au_startbid = bid, au_bid = 0,
      au_buyout = buyout, au_expire_time = ahe_now E + uint auctionTime, au_bidder = 0, au_deposit = deposit,
      au_house = h, au_factionTemplateId = ahe_uninitialised E\<rparr>"

text \<open>
  The end of the handler, from the deposit on.  \<open>items\<close> are the checked items with their counts, not
  empty; the loop over them in the code returns in its first round.
\<close>

definition put_up ::
  "ah_env \<Rightarrow> uint32 \<Rightarrow> uint64 \<Rightarrow> house_side \<Rightarrow> auction_house \<Rightarrow> uint64 \<Rightarrow> uint64 \<Rightarrow> uint32 \<Rightarrow> (ah_item \<times> uint32) list \<Rightarrow> uint32
    \<Rightarrow> ah_mgr \<Rightarrow> ah_mgr option" where
  "put_up E player auctioneer side h bid buyout etime items finalCount m =
     (let item = fst (hd items);
          auctionTime = f_to_uint32 (f_mul (f_of_int (uint etime)) (RATE_AUCTION_TIME E));
          deposit = GetAuctionDeposit E h etime item finalCount
      in if \<not> HasEnoughMoney (ucast deposit) (am_money m player)
         then Some (SendAuctionCommandResult player None AUCTION_SELL_ITEM ERR_AUCTION_NOT_ENOUGHT_MONEY m)
         else case GenerateAuctionID (take_money player (s32 (- s32 (uint deposit))) m) of (i, m1) \<Rightarrow>
           if length items = 1 \<and> ai_count item = snd (hd items)
           then let a = new_auction E i auctioneer h player bid buyout auctionTime deposit item
                in case AddAItem item m1 of
                     None \<Rightarrow> None
                   | Some m2 \<Rightarrow>
                       let m3 = MoveItemFromInventory player item (AddAuction side a m2);
                           m4 = au_SaveToDB a (ah_emit [DeleteItemFromInventory (ai_guidLow item), SaveItem item] m3);
                           m5 = ah_emit [SaveInventoryAndGold player (am_money m4 player)] m4
                       in Some (ah_emit [AhCriteria player ''CREATE_AUCTION'' 1]
                            (SendAuctionCommandResult player (Some a) AUCTION_SELL_ITEM ERR_AUCTION_OK m5))
           else case CloneItem E item finalCount m1 of
                  None \<Rightarrow> Some (SendAuctionCommandResult player None AUCTION_SELL_ITEM ERR_AUCTION_DATABASE_ERROR m1)
                | Some (newItem, m2) \<Rightarrow>
                    let a = new_auction E i auctioneer h player bid buyout auctionTime deposit newItem
                    in case AddAItem newItem m2 of
                         None \<Rightarrow> None
                       | Some m3 \<Rightarrow>
                           let m4 = fold (take_from_stack player) items (AddAuction side a m3);
                               m5 = au_SaveToDB a (ah_emit [SaveItem newItem] m4);
                               m6 = ah_emit [SaveInventoryAndGold player (am_money m5 player)] m5
                           in Some (ah_emit [AhCriteria player ''CREATE_AUCTION'' 1]
                                (SendAuctionCommandResult player (Some a) AUCTION_SELL_ITEM ERR_AUCTION_OK m6)))"

definition HandleAuctionSellItem ::
  "ah_env \<Rightarrow> uint32 \<Rightarrow> uint64 \<Rightarrow> (uint64 \<times> uint32) list \<Rightarrow> uint64 \<Rightarrow> uint64 \<Rightarrow> uint32 \<Rightarrow> ah_mgr \<Rightarrow> ah_mgr option" where
  "HandleAuctionSellItem E player auctioneer gs bid buyout etime0 m =
     (let refuse = (\<lambda>err. Some (SendAuctionCommandResult player None AUCTION_SELL_ITEM err m));
          etime = etime0 * 60
      in if MAX_AUCTION_ITEMS < length gs then refuse ERR_AUCTION_DATABASE_ERROR
         else if list_ex (\<lambda>(guid, n). guid = 0 \<or> n = 0 \<or> n > 1000) gs \<or> bid = 0 \<or> etime0 = 0 then Some m
         else if bid > MAX_MONEY_AMOUNT \<or> buyout > MAX_MONEY_AMOUNT then refuse ERR_AUCTION_DATABASE_ERROR
         else case ahe_npc E auctioneer of
                None \<Rightarrow> Some m
              | Some faction \<Rightarrow>
                  case GetAuctionHouseEntry E faction of
                    None \<Rightarrow> Some m
                  | Some h \<Rightarrow>
                      if etime \<notin> {MIN_AUCTION_TIME, 2 * MIN_AUCTION_TIME, 4 * MIN_AUCTION_TIME} then Some m
                      else case sell_items E m player gs 0 of
                             Inl err \<Rightarrow> refuse err
                           | Inr items \<Rightarrow>
                               let finalCount = sum_list (map snd items)
                               in if finalCount = 0 \<or> \<not> distinct (map fst gs) \<or>
                                     list_ex (\<lambda>e. it_maxStackSize (ahe_template E (ai_entry (fst e))) < finalCount) items
                                  then refuse ERR_AUCTION_DATABASE_ERROR
                                  else put_up E player auctioneer (GetAuctionsMap E faction) h bid buyout etime items finalCount m)"

section \<open>Expiry, start and loading\<close>

text \<open>
  The rows of the queries are arguments: the ids of \<^verbatim>\<open>CHAR_SEL_AUCTION_BY_TIME\<close>, and the id, the row, the
  template and the count of the item that \<^verbatim>\<open>CHAR_SEL_AUCTIONS\<close> and \<^verbatim>\<open>CHAR_SEL_EXPIRED_AUCTIONS\<close> join.
\<close>

definition close_auction :: "ah_env \<Rightarrow> auction \<Rightarrow> ah_mgr \<Rightarrow> ah_mgr" where
  "close_auction E a m =
     (if au_bidder a = 0 then SendAuctionExpiredMail E a m
      else SendAuctionWonMail E a (SendAuctionSuccessfulMail E a m))"

definition expire_auction :: "ah_env \<Rightarrow> house_side \<Rightarrow> uint32 \<Rightarrow> ah_mgr \<Rightarrow> ah_mgr" where
  "expire_auction E side i m =
     (case GetAuction side i m of
        None \<Rightarrow> m
      | Some a \<Rightarrow> RemoveAuction side a (RemoveAItem (au_itemGUIDLow a) (au_DeleteFromDB a (close_auction E a m))))"

definition house_Update :: "ah_env \<Rightarrow> house_side \<Rightarrow> uint32 list \<Rightarrow> ah_mgr \<Rightarrow> ah_mgr" where
  "house_Update E side ids m = (if auctions_at side m = [] then m else fold (expire_auction E side) ids m)"

definition ah_Update :: "ah_env \<Rightarrow> uint32 list \<Rightarrow> uint32 list \<Rightarrow> uint32 list \<Rightarrow> ah_mgr \<Rightarrow> ah_mgr" where
  "ah_Update E ids1 ids2 ids3 m = house_Update E Neutral ids3 (house_Update E Alliance ids2 (house_Update E Horde ids1 m))"

definition LoadFromFieldList :: "ah_env \<Rightarrow> uint32 \<times> auction_row \<times> uint32 \<times> uint32 \<Rightarrow> auction option" where
  "LoadFromFieldList E f =
     (case f of (i, r, entry, n) \<Rightarrow>
        case ahe_auctioneerFaction E (ar_auctioneerguid r) of
          None \<Rightarrow> None
        | Some faction \<Rightarrow>
            case GetAuctionHouseEntry E faction of
              None \<Rightarrow> None
            | Some h \<Rightarrow> Some
                \<lparr>au_Id = i, au_auctioneer = ar_auctioneerguid r, au_itemGUIDLow = ar_itemguid r, au_itemEntry = entry,
                 au_itemCount = n, au_owner = ar_itemowner r, au_startbid = ucast (ar_startbid r), au_bid = ucast (ar_lastbid r),
                 au_buyout = ucast (ar_buyoutprice r), au_expire_time = uint (ar_time r), au_bidder = ar_buyguid r,
                 au_deposit = ar_deposit r, au_house = h, au_factionTemplateId = faction\<rparr>)"

definition au_LoadFromDB :: "ah_env \<Rightarrow> uint32 \<times> auction_row \<times> uint32 \<times> uint32 \<Rightarrow> ah_mgr \<Rightarrow> auction option" where
  "au_LoadFromDB E f m =
     (case LoadFromFieldList E f of
        None \<Rightarrow> None
      | Some a \<Rightarrow> if GetAItem (au_itemGUIDLow a) m = None then None else Some a)"

definition delete_expired :: "ah_env \<Rightarrow> uint32 \<times> auction_row \<times> uint32 \<times> uint32 \<Rightarrow> ah_mgr \<Rightarrow> ah_mgr" where
  "delete_expired E f m =
     (case LoadFromFieldList E f of None \<Rightarrow> m | Some a \<Rightarrow> au_DeleteFromDB a (close_auction E a m))"

definition DeleteExpiredAuctionsAtStartup :: "ah_env \<Rightarrow> (uint32 \<times> auction_row \<times> uint32 \<times> uint32) list \<Rightarrow> ah_mgr \<Rightarrow> ah_mgr" where
  "DeleteExpiredAuctionsAtStartup E fs m = fold (delete_expired E) fs m"

text \<open>The items that \<^verbatim>\<open>Item::LoadFromDB\<close> makes of the rows; rows it refuses are left out.\<close>

fun add_items :: "ah_item list \<Rightarrow> ah_mgr \<Rightarrow> ah_mgr option" where
  "add_items [] m = Some m"
| "add_items (it # is) m = (case AddAItem it m of None \<Rightarrow> None | Some m1 \<Rightarrow> add_items is m1)"

definition LoadAuctionItems :: "ah_item list \<Rightarrow> ah_mgr \<Rightarrow> ah_mgr option" where
  "LoadAuctionItems items m = add_items items (m\<lparr>mAitems := []\<rparr>)"

definition load_auction :: "ah_env \<Rightarrow> uint32 \<times> auction_row \<times> uint32 \<times> uint32 \<Rightarrow> ah_mgr \<Rightarrow> ah_mgr" where
  "load_auction E f m =
     (case au_LoadFromDB E f m of
        None \<Rightarrow> ah_emit [CHAR_DEL_AUCTION (fst f)] m
      | Some a \<Rightarrow> AddAuction (GetAuctionsMap E (au_factionTemplateId a)) a m)"

definition LoadAuctions :: "ah_env \<Rightarrow> (uint32 \<times> auction_row \<times> uint32 \<times> uint32) list \<Rightarrow> ah_mgr \<Rightarrow> ah_mgr" where
  "LoadAuctions E fs m = fold (load_auction E) fs m"

text \<open>The lists of a player's bids and of his own auctions: those shown, and how many there are.\<close>

definition BuildListItems :: "(auction \<Rightarrow> bool) \<Rightarrow> house_side \<Rightarrow> ah_mgr \<Rightarrow> auction list \<times> nat" where
  "BuildListItems P side m =
     (let mine = filter P (map snd (auctions_at side m))
      in (filter (\<lambda>a. GetAItem (au_itemGUIDLow a) m \<noteq> None) mine, length mine))"

definition BuildListBidderItems :: "uint32 \<Rightarrow> house_side \<Rightarrow> ah_mgr \<Rightarrow> auction list \<times> nat" where
  "BuildListBidderItems player = BuildListItems (\<lambda>a. au_bidder a = player)"

definition BuildListOwnerItems :: "uint32 \<Rightarrow> house_side \<Rightarrow> ah_mgr \<Rightarrow> auction list \<times> nat" where
  "BuildListOwnerItems player = BuildListItems (\<lambda>a. au_owner a = player)"

section \<open>The server's start\<close>

text \<open>
  \<^verbatim>\<open>World::SetInitialWorldSettings\<close> deletes the expired auctions, then loads the items, then the
  auctions.
\<close>

definition ah_startup ::
  "ah_env \<Rightarrow> (uint32 \<times> auction_row \<times> uint32 \<times> uint32) list \<Rightarrow> ah_item list \<Rightarrow> (uint32 \<times> auction_row \<times> uint32 \<times> uint32) list
    \<Rightarrow> ah_mgr \<Rightarrow> ah_mgr option" where
  "ah_startup E expired items fs m =
     (case LoadAuctionItems items (DeleteExpiredAuctionsAtStartup E expired m) of
        None \<Rightarrow> None
      | Some m1 \<Rightarrow> Some (LoadAuctions E fs m1))"

end
