(* ===== verification/Auction_Props.thy ===== *)
theory Auction_Props
  imports Auction
begin

text \<open>
  Properties of the auction house.  \<open>ah_inv\<close> is the invariant of its state; \<open>ah_session\<close> are the
  runs of its handlers and of the update.  Three things are kept along with the invariant: the gold
  in circulation does not grow, the table of the auctions is in step with the memory, and no assertion
  fails.  What an operation sends besides is summed up by \<open>says\<close>.
\<close>

unbundle bit_operations_syntax

section \<open>Sums over ordered maps\<close>

lemma sum_om_del:
  assumes "om_ok xs" and "map_of xs k = Some v"
  shows "sum_list (map f xs) = (f (k, v) :: nat) + sum_list (map f (om_del k xs))"
  using assms
proof (induction xs)
  case (Cons e xs)
  have "om_del (fst e) xs = xs" using Cons.prems(1) by (force simp: om_ok_Cons om_del_def filter_id_conv)
  with Cons show ?case by (cases e) (auto simp: om_del_def om_ok_Cons)
qed simp

lemma sum_om_put:
  assumes "om_ok xs"
  shows "sum_list (map f (om_put k v xs)) = (f (k, v) :: nat) + sum_list (map f (om_del k xs))"
  using assms
proof (induction xs)
  case (Cons e xs)
  have "k \<le> fst e \<Longrightarrow> om_del k xs = xs" using Cons.prems by (force simp: om_ok_Cons om_del_def filter_id_conv)
  with Cons show ?case by (cases e) (auto simp: om_del_def om_ok_Cons)
qed (simp add: om_del_def)

lemma om_del_none: "map_of xs k = None \<Longrightarrow> om_del k xs = xs"
  by (auto simp: om_del_def filter_id_conv map_of_eq_None_iff)

section \<open>Reading the state\<close>

lemma auctions_at_set [simp]: "auctions_at s (set_auctions t xs m) = (if s = t then xs else auctions_at s m)"
  by (cases s; cases t) simp_all

lemma set_auctions_frame [simp]:
  "mAitems (set_auctions t xs m) = mAitems m" "am_auctionId (set_auctions t xs m) = am_auctionId m"
  "am_itemGuid (set_auctions t xs m) = am_itemGuid m" "am_money (set_auctions t xs m) = am_money m"
  "am_bags (set_auctions t xs m) = am_bags m" "am_out (set_auctions t xs m) = am_out m"
  by (cases t; simp)+

lemma auctions_at_frame [simp]:
  "auctions_at s (m\<lparr>mAitems := x1\<rparr>) = auctions_at s m" "auctions_at s (m\<lparr>am_auctionId := x2\<rparr>) = auctions_at s m"
  "auctions_at s (m\<lparr>am_itemGuid := x3\<rparr>) = auctions_at s m" "auctions_at s (m\<lparr>am_money := x4\<rparr>) = auctions_at s m"
  "auctions_at s (m\<lparr>am_bags := x5\<rparr>) = auctions_at s m" "auctions_at s (m\<lparr>am_out := x6\<rparr>) = auctions_at s m"
  by (cases s; simp)+

lemma ah_emit_frame [simp]:
  "auctions_at s (ah_emit xs m) = auctions_at s m" "mAitems (ah_emit xs m) = mAitems m"
  "am_auctionId (ah_emit xs m) = am_auctionId m" "am_itemGuid (ah_emit xs m) = am_itemGuid m"
  "am_money (ah_emit xs m) = am_money m" "am_bags (ah_emit xs m) = am_bags m" "am_out (ah_emit xs m) = am_out m @ xs"
  by (cases s; simp add: ah_emit_def)+

declare auctions_at.simps [simp del] set_auctions.simps [simp del]

lemma ah_emit_emit [simp]: "ah_emit ys (ah_emit xs m) = ah_emit (xs @ ys) m"
  by (simp add: ah_emit_def)

lemma ah_emit_Nil [simp]: "ah_emit [] m = m"
  by (simp add: ah_emit_def)

definition held :: "auction \<Rightarrow> nat" where
  "held a = unat (au_deposit a) + (if au_bidder a \<noteq> 0 then unat (au_bid a) else 0)"

text \<open>The gold in the mails of a log.\<close>

fun out_gold :: "ah_out \<Rightarrow> nat" where
  "out_gold (AhMail x) = unat (am_gold x)"
| "out_gold _ = 0"

fun out_items :: "ah_out \<Rightarrow> uint32 list" where
  "out_items (AhMail x) = am_itemGuids x"
| "out_items _ = []"

definition mailed :: "ah_out list \<Rightarrow> nat" where
  "mailed xs = sum_list (map out_gold xs)"

definition house_held :: "house_side \<Rightarrow> ah_mgr \<Rightarrow> nat" where
  "house_held s m = sum_list (map (held \<circ> snd) (auctions_at s m))"

text \<open>All gold: in the purses of the players, in the mails, and held by the houses as bids and deposits.\<close>

definition total_gold :: "ah_mgr \<Rightarrow> nat" where
  "total_gold m = (\<Sum>p\<in>UNIV. unat (am_money m p)) + mailed (am_out m)
     + house_held Horde m + house_held Alliance m + house_held Neutral m"

text \<open>The effect of the statements on the table of auctions.\<close>

fun run_ah :: "ah_out \<Rightarrow> (uint32 \<rightharpoonup> auction_row) \<Rightarrow> (uint32 \<rightharpoonup> auction_row)" where
  "run_ah (CHAR_INS_AUCTION i r) db = db(i \<mapsto> r)"
| "run_ah (CHAR_UPD_AUCTION_BID b l i) db =
     (case db i of None \<Rightarrow> db | Some r \<Rightarrow> db(i \<mapsto> r\<lparr>ar_buyguid := b, ar_lastbid := l\<rparr>))"
| "run_ah (CHAR_DEL_AUCTION i) db = db(i := None)"
| "run_ah _ db = db"

definition ah_db :: "ah_out list \<Rightarrow> (uint32 \<rightharpoonup> auction_row) \<Rightarrow> (uint32 \<rightharpoonup> auction_row)" where
  "ah_db xs db = fold run_ah xs db"

lemma ah_db_append [simp]: "ah_db (xs @ ys) db = ah_db ys (ah_db xs db)"
  by (simp add: ah_db_def)

definition find_auction :: "uint32 \<Rightarrow> ah_mgr \<Rightarrow> auction option" where
  "find_auction i m = (case GetAuction Horde i m of Some a \<Rightarrow> Some a
     | None \<Rightarrow> case GetAuction Alliance i m of Some a \<Rightarrow> Some a | None \<Rightarrow> GetAuction Neutral i m)"

definition mirrored :: "(uint32 \<rightharpoonup> auction_row) \<Rightarrow> ah_mgr \<Rightarrow> bool" where
  "mirrored db m \<longleftrightarrow> ah_db (am_out m) db = (\<lambda>i. map_option row_of (find_auction i m))"

section \<open>The invariant\<close>

definition bid_ok :: "auction \<Rightarrow> bool" where
  "bid_ok a \<longleftrightarrow> (if au_bidder a = 0 then au_bid a = 0
     else au_bidder a \<noteq> au_owner a \<and> au_startbid a \<le> au_bid a \<and> (au_buyout a = 0 \<or> au_bid a < au_buyout a))"

definition auctions_ok :: "ah_mgr \<Rightarrow> bool" where
  "auctions_ok m \<longleftrightarrow> (\<forall>s. om_ok (auctions_at s m)) \<and>
     (\<forall>s i a. GetAuction s i m = Some a \<longrightarrow> au_Id a = i \<and> i < am_auctionId m \<and> bid_ok a) \<and>
     (\<forall>s t i a b. GetAuction s i m = Some a \<and> GetAuction t i m = Some b \<longrightarrow> s = t)"

definition lots_ok :: "ah_mgr \<Rightarrow> bool" where
  "lots_ok m \<longleftrightarrow> (\<forall>s i a. GetAuction s i m = Some a \<longrightarrow> GetAItem (au_itemGUIDLow a) m \<noteq> None) \<and>
     (\<forall>s t i j a b. GetAuction s i m = Some a \<and> GetAuction t j m = Some b \<and> au_itemGUIDLow a = au_itemGUIDLow b \<longrightarrow> i = j)"

definition items_ok :: "ah_mgr \<Rightarrow> bool" where
  "items_ok m \<longleftrightarrow> (\<forall>k it. GetAItem k m = Some it \<longrightarrow> ai_guidLow it = k \<and> k < am_itemGuid m) \<and>
     (\<forall>p g it. map_of (am_bags m p) g = Some it \<longrightarrow>
        g = item_guid it \<and> ai_guidLow it < am_itemGuid m \<and> GetAItem (ai_guidLow it) m = None \<and>
        (\<forall>q. q \<noteq> p \<longrightarrow> map_of (am_bags m q) g = None))"

definition purses_ok :: "ah_mgr \<Rightarrow> bool" where
  "purses_ok m \<longleftrightarrow> (\<forall>p. am_money m p < 0x8000000000000000)"

definition ah_inv :: "ah_mgr \<Rightarrow> bool" where
  "ah_inv m \<longleftrightarrow> auctions_ok m \<and> lots_ok m \<and> items_ok m \<and> purses_ok m"

lemma auctions_okI:
  assumes "\<And>s. om_ok (auctions_at s m)"
    and "\<And>s i a. GetAuction s i m = Some a \<Longrightarrow> au_Id a = i \<and> i < am_auctionId m \<and> bid_ok a"
    and "\<And>s t i a b. GetAuction s i m = Some a \<Longrightarrow> GetAuction t i m = Some b \<Longrightarrow> s = t"
  shows "auctions_ok m"
  using assms unfolding auctions_ok_def by blast

lemma auctions_okD:
  assumes "auctions_ok m"
  shows "om_ok (auctions_at s m)" "GetAuction s i m = Some a \<Longrightarrow> au_Id a = i \<and> i < am_auctionId m \<and> bid_ok a"
    "GetAuction s i m = Some a \<Longrightarrow> GetAuction t i m = Some b \<Longrightarrow> s = t"
  using assms unfolding auctions_ok_def by blast+

lemma lots_okI:
  assumes "\<And>s i a. GetAuction s i m = Some a \<Longrightarrow> GetAItem (au_itemGUIDLow a) m \<noteq> None"
    and "\<And>s t i j a b. GetAuction s i m = Some a \<Longrightarrow> GetAuction t j m = Some b \<Longrightarrow> au_itemGUIDLow a = au_itemGUIDLow b \<Longrightarrow> i = j"
  shows "lots_ok m"
  using assms unfolding lots_ok_def by blast

lemma lots_okD:
  assumes "lots_ok m"
  shows "GetAuction s i m = Some a \<Longrightarrow> GetAItem (au_itemGUIDLow a) m \<noteq> None"
    "GetAuction s i m = Some a \<Longrightarrow> GetAuction t j m = Some b \<Longrightarrow> au_itemGUIDLow a = au_itemGUIDLow b \<Longrightarrow> i = j"
  using assms unfolding lots_ok_def by blast+

lemma ah_invD: "ah_inv m \<Longrightarrow> auctions_ok m" "ah_inv m \<Longrightarrow> lots_ok m" "ah_inv m \<Longrightarrow> items_ok m" "ah_inv m \<Longrightarrow> purses_ok m"
  by (simp_all add: ah_inv_def)

section \<open>What is said\<close>

fun is_stmt :: "ah_out \<Rightarrow> bool" where
  "is_stmt (CHAR_INS_AUCTION i r) = True"
| "is_stmt (CHAR_UPD_AUCTION_BID b l i) = True"
| "is_stmt (CHAR_DEL_AUCTION i) = True"
| "is_stmt _ = False"

text \<open>Only packets, mails with \<open>g\<close> gold together, and statements that leave the table of auctions alone.\<close>

definition says :: "nat \<Rightarrow> ah_mgr \<Rightarrow> ah_mgr \<Rightarrow> bool" where
  "says g m m' \<longleftrightarrow> (\<exists>xs. m' = ah_emit xs m \<and> mailed xs = g \<and> list_all (\<lambda>x. \<not> is_stmt x) xs)"

lemma says_emit: "mailed xs = g \<Longrightarrow> list_all (\<lambda>x. \<not> is_stmt x) xs \<Longrightarrow> says g m (ah_emit xs m)"
  by (auto simp: says_def)

lemma says_refl: "says 0 m m"
  unfolding says_def by (rule exI [of _ "[]"]) (simp add: mailed_def)

lemma mailed_append [simp]: "mailed (xs @ ys) = mailed xs + mailed ys"
  by (simp add: mailed_def)

lemma says_trans: "says g m m1 \<Longrightarrow> says h m1 m2 \<Longrightarrow> says (g + h) m m2"
  unfolding says_def by (metis ah_emit_emit list_all_append mailed_append)

lemma run_ah_quiet: "list_all (\<lambda>x. \<not> is_stmt x) xs \<Longrightarrow> ah_db xs db = db"
proof (induction xs arbitrary: db)
  case (Cons x xs)
  have "run_ah x db = db" using Cons.prems by (cases x) simp_all
  with Cons show ?case by (simp add: ah_db_def)
qed (simp add: ah_db_def)

lemma says_frame:
  assumes "says g m m'"
  shows "auctions_at s m' = auctions_at s m" "mAitems m' = mAitems m" "am_auctionId m' = am_auctionId m"
    "am_itemGuid m' = am_itemGuid m" "am_money m' = am_money m" "am_bags m' = am_bags m"
    "mailed (am_out m') = mailed (am_out m) + g" "ah_db (am_out m') db = ah_db (am_out m) db"
  using assms by (auto simp: says_def run_ah_quiet)

lemma says_reads:
  assumes "says g m m'"
  shows "GetAuction s i m' = GetAuction s i m" "GetAItem k m' = GetAItem k m" "find_auction i m' = find_auction i m"
proof -
  have g: "GetAuction s i m' = GetAuction s i m" for s by (simp add: GetAuction_def says_frame [OF assms])
  then show "GetAuction s i m' = GetAuction s i m" "find_auction i m' = find_auction i m" by (simp_all add: find_auction_def split: option.split)
  show "GetAItem k m' = GetAItem k m" by (simp add: GetAItem_def says_frame [OF assms])
qed

lemma says_inv: "says g m m' \<Longrightarrow> ah_inv m' = ah_inv m"
  by (simp add: ah_inv_def auctions_ok_def lots_ok_def items_ok_def purses_ok_def says_frame says_reads)

lemma says_total: "says g m m' \<Longrightarrow> total_gold m' = total_gold m + g"
  by (simp add: total_gold_def house_held_def says_frame)

lemma says_mirrored: "says g m m' \<Longrightarrow> mirrored db m' = mirrored db m"
  by (simp add: mirrored_def says_frame says_reads)

lemma unat_ucast_up: "unat (ucast (w :: uint32) :: uint64) = unat w"
  using unsigned_less [of w, where ?'a = nat] by (simp add: unsigned_ucast_eq take_bit_nat_eq_self_iff)

lemmas mail_defs = auction_mail_def mailed_def Let_def

lemma says_mails:
  "says 0 m (SendAuctionWonMail E a m)"
  "says 0 m (SendAuctionSalePendingMail E a m)"
  "says (if exists_char E (au_owner a) then unat (sale_profit E a) else 0) m (SendAuctionSuccessfulMail E a m)"
  "says 0 m (SendAuctionExpiredMail E a m)"
  "says (if exists_char E (au_bidder a) then unat (au_bid a) else 0) m (SendAuctionOutbiddedMail E a np nb m)"
  "says (if exists_char E (au_bidder a) then unat (au_bid a) else 0) m (SendAuctionCancelledToBidderMail E a it m)"
  "says 0 m (SendAuctionCommandResult p ao act err m)"
proof -
  show "says 0 m (SendAuctionWonMail E a m)"
    by (auto simp: SendAuctionWonMail_def mail_defs says_refl intro!: says_emit split: option.split)
  show "says 0 m (SendAuctionSalePendingMail E a m)"
    by (auto simp: SendAuctionSalePendingMail_def mail_defs says_refl intro!: says_emit)
  show "says (if exists_char E (au_owner a) then unat (sale_profit E a) else 0) m (SendAuctionSuccessfulMail E a m)"
    by (auto simp: SendAuctionSuccessfulMail_def mail_defs says_refl unat_ucast_up intro!: says_emit)
  show "says 0 m (SendAuctionExpiredMail E a m)"
    by (auto simp: SendAuctionExpiredMail_def mail_defs says_refl intro!: says_emit split: option.split)
  show "says (if exists_char E (au_bidder a) then unat (au_bid a) else 0) m (SendAuctionOutbiddedMail E a np nb m)"
    by (auto simp: SendAuctionOutbiddedMail_def mail_defs says_refl intro!: says_emit)
  show "says (if exists_char E (au_bidder a) then unat (au_bid a) else 0) m (SendAuctionCancelledToBidderMail E a it m)"
    by (auto simp: SendAuctionCancelledToBidderMail_def mail_defs says_refl intro!: says_emit)
  show "says 0 m (SendAuctionCommandResult p ao act err m)"
    by (auto simp: SendAuctionCommandResult_def mail_defs intro!: says_emit)
qed


section \<open>Changes of the state\<close>

lemma GetAuction_changes:
  "GetAuction t i (AddAuction s a m) = (if s = t \<and> i = au_Id a then Some a else GetAuction t i m)"
  "GetAuction t i (RemoveAuction s a m) = (if s = t \<and> i = au_Id a then None else GetAuction t i m)"
  "GetAuction t i (RemoveAItem k m) = GetAuction t i m"
  by (auto simp: GetAuction_def AddAuction_def RemoveAuction_def RemoveAItem_def)

lemma GetAItem_changes:
  "GetAItem k (AddAuction s a m) = GetAItem k m" "GetAItem k (RemoveAuction s a m) = GetAItem k m"
  "GetAItem k (RemoveAItem k' m) = (if k = k' then None else GetAItem k m)"
  by (auto simp: GetAItem_def AddAuction_def RemoveAuction_def RemoveAItem_def)

lemma change_frame [simp]:
  "am_auctionId (AddAuction s a m) = am_auctionId m" "am_itemGuid (AddAuction s a m) = am_itemGuid m"
  "am_money (AddAuction s a m) = am_money m" "am_bags (AddAuction s a m) = am_bags m" "am_out (AddAuction s a m) = am_out m"
  "am_auctionId (RemoveAuction s a m) = am_auctionId m" "am_itemGuid (RemoveAuction s a m) = am_itemGuid m"
  "am_money (RemoveAuction s a m) = am_money m" "am_bags (RemoveAuction s a m) = am_bags m" "am_out (RemoveAuction s a m) = am_out m"
  "am_auctionId (RemoveAItem k m) = am_auctionId m" "am_itemGuid (RemoveAItem k m) = am_itemGuid m"
  "am_money (RemoveAItem k m) = am_money m" "am_bags (RemoveAItem k m) = am_bags m" "am_out (RemoveAItem k m) = am_out m"
  "auctions_at t (RemoveAItem k m) = auctions_at t m"
  by (simp_all add: AddAuction_def RemoveAuction_def RemoveAItem_def)

lemma auctions_at_changes:
  "auctions_at t (AddAuction s a m) = (if s = t then om_put (au_Id a) a (auctions_at s m) else auctions_at t m)"
  "auctions_at t (RemoveAuction s a m) = (if s = t then om_del (au_Id a) (auctions_at s m) else auctions_at t m)"
  by (simp_all add: AddAuction_def RemoveAuction_def)

lemma find_auction_unique:
  assumes "auctions_ok m" and "GetAuction s i m = Some a"
  shows "find_auction i m = Some a"
proof -
  have "GetAuction t i m = None" if "t \<noteq> s" for t
    using assms that unfolding auctions_ok_def by (metis option.exhaust)
  with assms(2) show ?thesis by (cases s) (simp_all add: find_auction_def)
qed

lemma find_auction_none: "(\<forall>s. GetAuction s i m = None) \<Longrightarrow> find_auction i m = None"
  by (simp add: find_auction_def)

lemma find_auction_cong: "(\<And>s. GetAuction s i m = GetAuction s i m') \<Longrightarrow> find_auction i m = find_auction i m'"
  unfolding find_auction_def by (simp split: option.split)

text \<open>Gold that a player pays.\<close>

definition pays :: "uint32 \<Rightarrow> uint64 \<Rightarrow> ah_mgr \<Rightarrow> ah_mgr" where
  "pays p c m = m\<lparr>am_money := (am_money m)(p := am_money m p - c)\<rparr>"

lemma ModifyMoney_pays:
  assumes "c \<le> money"
  shows "ModifyMoney (- uint c) money = money - c"
proof (cases "c = 0")
  case False
  then have "- uint c < 0" by (simp add: word_less_def word_neq_0_conv flip: word_gt_0)
  moreover have "c = money" if "\<not> c < money" using assms that by simp
  ultimately show ?thesis using False by (auto simp: ModifyMoney_def)
qed (simp add: ModifyMoney_def)

lemma s64_uint: "c < 0x8000000000000000 \<Longrightarrow> s64 (uint c) = uint c" for c :: uint64
  unfolding s64_def by (rule signed_take_bit_int_eq_self) (auto simp: word_less_def intro: order_trans [OF _ uint_ge_0])

lemma take_money_pays:
  assumes "purses_ok m" and "c \<le> am_money m p"
  shows "take_money p (- s64 (uint c)) m = pays p c m" "take_money p (- uint c) m = pays p c m"
proof -
  have "c < 0x8000000000000000" using assms by (auto simp: purses_ok_def intro: le_less_trans)
  then show "take_money p (- s64 (uint c)) m = pays p c m" "take_money p (- uint c) m = pays p c m"
    using assms(2) by (simp_all add: take_money_def pays_def ModifyMoney_pays s64_uint)
qed

lemma pays_frame [simp]:
  "auctions_at s (pays p c m) = auctions_at s m" "mAitems (pays p c m) = mAitems m" "am_auctionId (pays p c m) = am_auctionId m"
  "am_itemGuid (pays p c m) = am_itemGuid m" "am_bags (pays p c m) = am_bags m" "am_out (pays p c m) = am_out m"
  "am_money (pays p c m) = (am_money m)(p := am_money m p - c)"
  by (simp_all add: pays_def)

lemma pays_reads [simp]:
  "GetAuction s i (pays p c m) = GetAuction s i m" "GetAItem k (pays p c m) = GetAItem k m"
  "find_auction i (pays p c m) = find_auction i m" "mirrored db (pays p c m) = mirrored db m"
proof -
  show g: "GetAuction s i (pays p c m) = GetAuction s i m" for s i by (simp add: GetAuction_def)
  show f: "find_auction i (pays p c m) = find_auction i m" for i by (rule find_auction_cong) (rule g)
  show "GetAItem k (pays p c m) = GetAItem k m" by (simp add: GetAItem_def)
  show "mirrored db (pays p c m) = mirrored db m" by (simp add: mirrored_def f)
qed

lemma pays_inv:
  assumes "ah_inv m" and "c \<le> am_money m p"
  shows "ah_inv (pays p c m)"
proof -
  have "am_money m p - c < 0x8000000000000000"
    using assms word_sub_le [OF assms(2)] by (auto simp: ah_inv_def purses_ok_def intro: le_less_trans)
  then show ?thesis
    using assms by (simp add: ah_inv_def auctions_ok_def lots_ok_def items_ok_def purses_ok_def)
qed

lemma pays_total:
  assumes "c \<le> am_money m p"
  shows "total_gold (pays p c m) + unat c = total_gold m"
proof -
  let ?f = "\<lambda>m q. unat (am_money m q)"
  have "(\<Sum>q\<in>UNIV. ?f (pays p c m) q) = (unat (am_money m p) - unat c) + (\<Sum>q\<in>UNIV - {p}. ?f m q)"
    using assms by (subst sum.remove [of _ p]) (simp_all add: unat_sub)
  moreover have "(\<Sum>q\<in>UNIV. ?f m q) = unat (am_money m p) + (\<Sum>q\<in>UNIV - {p}. ?f m q)"
    by (simp add: sum.remove [of _ p])
  moreover have "unat c \<le> unat (am_money m p)" using assms by (simp add: word_le_nat_alt)
  ultimately show ?thesis by (simp add: total_gold_def house_held_def)
qed

text \<open>An auction that is changed, and one that is removed with its item.\<close>

lemma change_auction:
  assumes inv: "ah_inv m" and a: "GetAuction s i m = Some a"
    and b: "au_Id b = i" "au_itemGUIDLow b = au_itemGUIDLow a" "bid_ok b"
  shows "ah_inv (AddAuction s b m)" "total_gold (AddAuction s b m) + held a = total_gold m + held b"
    "find_auction j (AddAuction s b m) = (if j = i then Some b else find_auction j m)"
proof -
  have ok: "auctions_ok m" "om_ok (auctions_at s m)" using inv by (auto simp: ah_inv_def auctions_ok_def)
  have id: "i < am_auctionId m" "au_Id a = i" using ok(1) a by (auto simp: auctions_ok_def)
  have "auctions_ok (AddAuction s b m)"
  proof (rule auctions_okI)
    show "om_ok (auctions_at t (AddAuction s b m))" for t using auctions_okD(1) [OF ok(1)] by (simp add: auctions_at_changes)
    show "au_Id x = j \<and> j < am_auctionId (AddAuction s b m) \<and> bid_ok x" if "GetAuction t j (AddAuction s b m) = Some x" for t j x
      using that b id auctions_okD(2) [OF ok(1)] by (auto simp: GetAuction_changes split: if_splits)
    show "t = u" if "GetAuction t j (AddAuction s b m) = Some x" "GetAuction u j (AddAuction s b m) = Some y" for t u j x y
      using that a b(1) auctions_okD(3) [OF ok(1)] by (auto simp: GetAuction_changes split: if_splits)
  qed
  moreover have "lots_ok (AddAuction s b m)"
  proof (rule lots_okI)
    show "GetAItem (au_itemGUIDLow x) (AddAuction s b m) \<noteq> None" if "GetAuction t j (AddAuction s b m) = Some x" for t j x
      using that a b lots_okD(1) [OF ah_invD(2) [OF inv]] by (simp add: GetAuction_changes GetAItem_changes split: if_splits)
    show "j = k" if "GetAuction t j (AddAuction s b m) = Some x" "GetAuction u k (AddAuction s b m) = Some y"
      "au_itemGUIDLow x = au_itemGUIDLow y" for t u j k x y
      using that a b lots_okD(2) [OF ah_invD(2) [OF inv]] by (simp add: GetAuction_changes split: if_splits)
  qed
  moreover have "items_ok (AddAuction s b m)" "purses_ok (AddAuction s b m)"
    using inv by (simp_all add: ah_inv_def items_ok_def purses_ok_def GetAItem_changes)
  ultimately show new: "ah_inv (AddAuction s b m)" by (simp add: ah_inv_def)
  have "house_held s (AddAuction s b m) + held a = house_held s m + held b"
    using sum_om_del [OF ok(2), of i a "held \<circ> snd"] sum_om_put [OF ok(2), of "held \<circ> snd" i b] a b(1)
    by (simp add: house_held_def auctions_at_changes GetAuction_def)
  moreover have "house_held t (AddAuction s b m) = house_held t m" if "t \<noteq> s" for t
    using that by (simp add: house_held_def auctions_at_changes)
  ultimately show "total_gold (AddAuction s b m) + held a = total_gold m + held b"
    by (cases s) (simp_all add: total_gold_def)
  show "find_auction j (AddAuction s b m) = (if j = i then Some b else find_auction j m)"
  proof (cases "j = i")
    case True
    then show ?thesis using find_auction_unique [of "AddAuction s b m" s i b] new b(1)
      by (simp add: ah_inv_def GetAuction_changes)
  next
    case False
    then show ?thesis using b(1) by (auto simp: GetAuction_changes intro!: find_auction_cong)
  qed
qed

lemma drop_auction:
  assumes inv: "ah_inv m" and a: "GetAuction s i m = Some a"
  defines "m' \<equiv> RemoveAuction s a (RemoveAItem (au_itemGUIDLow a) m)"
  shows "ah_inv m'" "total_gold m' + held a = total_gold m"
    "find_auction j m' = (if j = i then None else find_auction j m)"
proof -
  have ok: "auctions_ok m" "om_ok (auctions_at s m)" "lots_ok m" using inv by (auto simp: ah_inv_def auctions_ok_def)
  have id: "au_Id a = i" using ok(1) a by (auto simp: auctions_ok_def)
  have only: "GetAuction t i m = None" if "t \<noteq> s" for t
    using ok(1) a that unfolding auctions_ok_def by (metis option.exhaust)
  have g: "GetAuction t j m' = (if j = i then None else GetAuction t j m)" for t j
    using id only by (auto simp: m'_def GetAuction_changes)
  have ids: "am_auctionId m' = am_auctionId m" by (simp add: m'_def)
  have k: "GetAItem k m' = (if k = au_itemGUIDLow a then None else GetAItem k m)" for k
    by (simp add: m'_def GetAItem_changes)
  have "auctions_ok m'"
  proof (rule auctions_okI)
    show "om_ok (auctions_at t m')" for t using auctions_okD(1) [OF ok(1)] by (simp add: m'_def auctions_at_changes)
    show "au_Id x = j \<and> j < am_auctionId m' \<and> bid_ok x" if "GetAuction t j m' = Some x" for t j x
      using that auctions_okD(2) [OF ok(1)] by (simp add: g ids split: if_splits)
    show "t = u" if "GetAuction t j m' = Some x" "GetAuction u j m' = Some y" for t u j x y
      using that auctions_okD(3) [OF ok(1)] by (simp add: g split: if_splits)
  qed
  moreover have "lots_ok m'"
  proof (rule lots_okI)
    show "GetAItem (au_itemGUIDLow x) m' \<noteq> None" if "GetAuction t j m' = Some x" for t j x
      using that a lots_okD [OF ok(3)] by (auto simp: g k split: if_splits)
    show "j = l" if "GetAuction t j m' = Some x" "GetAuction u l m' = Some y" "au_itemGUIDLow x = au_itemGUIDLow y" for t u j l x y
      using that lots_okD(2) [OF ok(3)] by (simp add: g split: if_splits)
  qed
  moreover have "items_ok m'" "purses_ok m'"
    using inv unfolding ah_inv_def items_ok_def purses_ok_def k by (auto simp: m'_def)
  ultimately show "ah_inv m'" by (simp add: ah_inv_def)
  have "house_held s m' + held a = house_held s m"
    using sum_om_del [OF ok(2), of i a "held \<circ> snd"] a id
    by (simp add: house_held_def m'_def auctions_at_changes GetAuction_def)
  moreover have "house_held t m' = house_held t m" if "t \<noteq> s" for t
    using that by (simp add: house_held_def m'_def auctions_at_changes)
  ultimately show "total_gold m' + held a = total_gold m" by (cases s) (simp_all add: total_gold_def m'_def)
  show "find_auction j m' = (if j = i then None else find_auction j m)"
    by (auto simp: g intro!: find_auction_none find_auction_cong)
qed


text \<open>The statements that go with the changes keep the table in step.\<close>

lemma change_emit:
  "AddAuction s a (ah_emit xs m) = ah_emit xs (AddAuction s a m)"
  "RemoveAuction s a (ah_emit xs m) = ah_emit xs (RemoveAuction s a m)"
  "RemoveAItem k (ah_emit xs m) = ah_emit xs (RemoveAItem k m)"
  by (cases s; simp add: AddAuction_def RemoveAuction_def RemoveAItem_def ah_emit_def set_auctions.simps auctions_at.simps)+

lemma find_auction_emit [simp]: "find_auction i (ah_emit xs m) = find_auction i m"
  by (rule find_auction_cong) (simp add: GetAuction_def)

lemma upd_mirrored:
  assumes "ah_inv m" and "GetAuction s i m = Some a" and "mirrored db m"
    and "bid_ok (a\<lparr>au_bidder := p, au_bid := x\<rparr>)"
  shows "mirrored db (ah_emit [CHAR_UPD_AUCTION_BID p (ucast x) i] (AddAuction s (a\<lparr>au_bidder := p, au_bid := x\<rparr>) m))"
proof -
  let ?b = "a\<lparr>au_bidder := p, au_bid := x\<rparr>"
  have "au_Id a = i" using auctions_okD(2) [OF ah_invD(1) [OF assms(1)] assms(2)] by simp
  then have f: "find_auction j (AddAuction s ?b m) = (if j = i then Some ?b else find_auction j m)" for j
    by (intro change_auction(3) [OF assms(1,2)]) (use assms(4) in simp_all)
  have db: "ah_db (am_out m) db = (\<lambda>j. map_option row_of (find_auction j m))" using assms(3) by (simp add: mirrored_def)
  have row: "row_of ?b = (row_of a)\<lparr>ar_buyguid := p, ar_lastbid := ucast x\<rparr>" by (simp add: row_of_def)
  have "ah_db (am_out m) db i = Some (row_of a)"
    using find_auction_unique [OF ah_invD(1) [OF assms(1)] assms(2)] by (simp add: db)
  then have "ah_db [CHAR_UPD_AUCTION_BID p (ucast x) i] (ah_db (am_out m) db) = (ah_db (am_out m) db)(i \<mapsto> row_of ?b)"
    by (simp only: ah_db_def fold_simps run_ah.simps option.case row)
  then show ?thesis by (simp add: mirrored_def f) (simp add: db fun_eq_iff)
qed

lemma del_mirrored:
  assumes "ah_inv m" and "GetAuction s i m = Some a" and "mirrored db m"
  shows "mirrored db (ah_emit [CHAR_DEL_AUCTION i] (RemoveAuction s a (RemoveAItem (au_itemGUIDLow a) m)))"
  using drop_auction(3) [OF assms(1,2)] assms(3) by (simp add: mirrored_def fun_eq_iff ah_db_def)

text \<open>The profit of a sale is the bid and the deposit less the cut, at 32 bits.\<close>

lemma low_half: "unat (ucast (of_nat n :: uint64) :: uint32) = n mod 2 ^ 32"
  by (simp add: unsigned_ucast_eq unsigned_of_nat take_bit_eq_mod mod_mod_cancel)

lemma ucast_of_nat: "ucast w = (of_nat (unat w) :: uint64)" for w :: uint32
  by (simp add: unat_ucast_up word_unat_eq_iff unsigned_of_nat)

lemma sale_profit_eq:
  assumes "unat (GetAuctionCut E a) \<le> unat (au_bid a) + unat (au_deposit a)"
  shows "unat (sale_profit E a) = (unat (au_bid a) + unat (au_deposit a) - unat (GetAuctionCut E a)) mod 2 ^ 32"
proof -
  have b: "au_bid a = of_nat (unat (au_bid a))" by simp
  have "au_bid a + ucast (au_deposit a) - ucast (GetAuctionCut E a)
      = (of_nat (unat (au_bid a) + unat (au_deposit a) - unat (GetAuctionCut E a)) :: uint64)"
    by (subst b) (simp only: ucast_of_nat of_nat_add of_nat_diff [OF assms])
  then show ?thesis by (simp only: sale_profit_def low_half)
qed

lemma sale_profit_le:
  assumes "unat (GetAuctionCut E a) \<le> unat (au_bid a) + unat (au_deposit a)"
  shows "unat (sale_profit E a) \<le> unat (au_bid a) + unat (au_deposit a)"
  using sale_profit_eq [OF assms] mod_less_eq_dividend [of "unat (au_bid a) + unat (au_deposit a) - unat (GetAuctionCut E a)" "2 ^ 32"]
  by linarith


section \<open>The operations\<close>

text \<open>What an operation does to the invariant, the gold and the table: \<open>lost\<close> gold leaves the circulation.\<close>

definition keeps :: "nat \<Rightarrow> ah_mgr \<Rightarrow> ah_mgr \<Rightarrow> bool" where
  "keeps lost m m' \<longleftrightarrow> ah_inv m' \<and> total_gold m' + lost = total_gold m \<and> (\<forall>db. mirrored db m \<longrightarrow> mirrored db m')"

lemma keeps_says: "keeps n m m1 \<Longrightarrow> says 0 m1 m2 \<Longrightarrow> keeps n m m2"
  by (simp add: keeps_def says_inv says_total says_mirrored)

lemma keeps_refl: "ah_inv m \<Longrightarrow> keeps 0 m m"
  by (simp add: keeps_def)

lemma keeps_trans: "keeps n m m1 \<Longrightarrow> keeps k m1 m2 \<Longrightarrow> keeps (n + k) m m2"
  by (auto simp: keeps_def)

lemma keeps_first_says: "ah_inv m \<Longrightarrow> says 0 m m1 \<Longrightarrow> keeps 0 m m1"
  by (rule keeps_says [OF keeps_refl])

lemma says_quiet: "says 0 m (ah_emit [SaveInventoryAndGold p x] m)" "says 0 m (ah_emit [AhCriteria p c v] m)"
  "says 0 m (ah_emit [SaveItem it] m)" "says 0 m (ah_emit [DeleteItemFromInventory i, DeleteItem i] m)"
  "says 0 m (ah_emit [DeleteItemFromInventory i, SaveItem it] m)"
  by (rule says_emit; simp add: mailed_def)+

lemma emit_inv [simp]: "ah_inv (ah_emit xs m) = ah_inv m"
  by (simp add: ah_inv_def auctions_ok_def lots_ok_def items_ok_def purses_ok_def GetAuction_def GetAItem_def)

lemma emit_total [simp]: "total_gold (ah_emit xs m) = total_gold m + mailed xs"
  by (simp add: total_gold_def house_held_def)

lemma change_keeps:
  assumes "ah_inv m" and "GetAuction s i m = Some a" and b: "b = a\<lparr>au_bidder := p, au_bid := x\<rparr>" and ok: "bid_ok b"
  shows "ah_inv (ah_emit [CHAR_UPD_AUCTION_BID p (ucast x) i] (AddAuction s b m))"
    "total_gold (ah_emit [CHAR_UPD_AUCTION_BID p (ucast x) i] (AddAuction s b m)) + held a = total_gold m + held b"
    "mirrored db m \<Longrightarrow> mirrored db (ah_emit [CHAR_UPD_AUCTION_BID p (ucast x) i] (AddAuction s b m))"
proof -
  have "au_Id b = i" "au_itemGUIDLow b = au_itemGUIDLow a"
    using auctions_okD(2) [OF ah_invD(1) [OF assms(1)] assms(2)] by (simp_all add: b)
  note c = change_auction [OF assms(1,2) this ok]
  show "ah_inv (ah_emit [CHAR_UPD_AUCTION_BID p (ucast x) i] (AddAuction s b m))"
    "total_gold (ah_emit [CHAR_UPD_AUCTION_BID p (ucast x) i] (AddAuction s b m)) + held a = total_gold m + held b"
    using c(1,2) by (simp_all add: mailed_def)
  show "mirrored db m \<Longrightarrow> mirrored db (ah_emit [CHAR_UPD_AUCTION_BID p (ucast x) i] (AddAuction s b m))"
    using upd_mirrored [OF assms(1,2)] ok by (simp add: b)
qed

lemma RemoveAuction_same: "au_Id b = au_Id a \<Longrightarrow> RemoveAuction s b m = RemoveAuction s a m"
  by (simp add: RemoveAuction_def)

lemma drop_keeps:
  assumes "ah_inv m" and "GetAuction s i m = Some a" and "au_Id b = i" and "au_itemGUIDLow b = au_itemGUIDLow a"
  defines "m' \<equiv> RemoveAuction s b (RemoveAItem (au_itemGUIDLow b) (au_DeleteFromDB b m))"
  shows "ah_inv m'" "total_gold m' + held a = total_gold m" "mirrored db m \<Longrightarrow> mirrored db m'"
    "am_money m' = am_money m" "GetAuction s i m' = None" "GetAItem (au_itemGUIDLow b) m' = None"
proof -
  have "au_Id a = i" using auctions_okD(2) [OF ah_invD(1) [OF assms(1)] assms(2)] by simp
  then have eq: "m' = ah_emit [CHAR_DEL_AUCTION i] (RemoveAuction s a (RemoveAItem (au_itemGUIDLow a) m))"
    using assms(3,4) by (simp add: m'_def au_DeleteFromDB_def change_emit RemoveAuction_same [of b a])
  show "ah_inv m'" "total_gold m' + held a = total_gold m" "mirrored db m \<Longrightarrow> mirrored db m'"
    using drop_auction [OF assms(1,2)] del_mirrored [OF assms(1,2)] by (simp_all add: eq mailed_def)
  show "am_money m' = am_money m" "GetAuction s i m' = None" "GetAItem (au_itemGUIDLow b) m' = None"
    using assms(3) by (simp_all add: m'_def GetAuction_changes GetAItem_changes au_DeleteFromDB_def)
qed

text \<open>
  The bid is paid; the one who is outbid gets his own back, if he still exists.  \<open>refund_lost\<close> is what
  is lost otherwise.
\<close>

definition refund_lost :: "ah_env \<Rightarrow> uint32 \<Rightarrow> auction \<Rightarrow> nat" where
  "refund_lost E p a = (if au_bidder a \<noteq> 0 \<and> au_bidder a \<noteq> p \<and> \<not> exists_char E (au_bidder a) then unat (au_bid a) else 0)"

definition refunded :: "ah_env \<Rightarrow> uint32 \<Rightarrow> auction \<Rightarrow> nat" where
  "refunded E p a = (if au_bidder a \<noteq> 0 \<and> au_bidder a \<noteq> p \<and> exists_char E (au_bidder a) then unat (au_bid a) else 0)"

text \<open>What a player has to add for a price of \<open>x\<close>.\<close>

definition to_pay :: "uint32 \<Rightarrow> auction \<Rightarrow> uint64 \<Rightarrow> uint64" where
  "to_pay p a x = (if au_bidder a = p then x - au_bid a else x)"

lemma held_bid: "bid_ok a \<Longrightarrow> held a = unat (au_deposit a) + unat (au_bid a)"
  by (simp add: held_def bid_ok_def split: if_splits)

lemma to_pay_le: "au_bid a \<le> x \<Longrightarrow> x \<le> money \<Longrightarrow> to_pay p a x \<le> money"
  by (auto simp: to_pay_def intro: order_trans [OF word_sub_le])

lemma to_pay_sum:
  assumes "au_bid a \<le> x" and "bid_ok a" and "p \<noteq> 0"
  shows "unat (to_pay p a x) + unat (au_bid a) = unat x + refunded E p a + refund_lost E p a"
proof -
  have "unat (au_bid a) \<le> unat x" using assms(1) by (simp add: word_le_nat_alt)
  moreover have "au_bidder a = 0 \<Longrightarrow> au_bid a = 0" using assms(2) by (simp add: bid_ok_def)
  ultimately show ?thesis using assms by (auto simp: to_pay_def refunded_def refund_lost_def unat_sub)
qed

lemma bid_on_eq:
  assumes inv: "ah_inv m" and a: "GetAuction s i m = Some a" and c: "to_pay p a price \<le> am_money m p" and p: "p \<noteq> 0"
  shows "\<exists>m0. says (refunded E p a) m m0 \<and> bid_on E p s a price m =
    SendAuctionCommandResult p (Some (a\<lparr>au_bidder := p, au_bid := price\<rparr>)) AUCTION_PLACE_BID ERR_AUCTION_OK
      (ah_emit [CHAR_UPD_AUCTION_BID p (ucast price) i] (AddAuction s (a\<lparr>au_bidder := p, au_bid := price\<rparr>)
         (ah_emit [AhCriteria p ''HIGHEST_AUCTION_BID'' price] (pays p (to_pay p a price) m0))))"
proof -
  have id: "au_Id a = i" using auctions_okD(2) [OF ah_invD(1) [OF inv] a] by simp
  define m0 where "m0 = (if au_bidder a \<noteq> 0 \<and> au_bidder a \<noteq> p then SendAuctionOutbiddedMail E a (ucast price) p m else m)"
  have m0: "says (refunded E p a) m m0"
    using says_mails(5) [of E a m "ucast price" p] by (auto simp: m0_def refunded_def says_refl)
  have "purses_ok m0" "to_pay p a price \<le> am_money m0 p"
    using ah_invD(4) [of m0] inv c by (simp_all add: says_inv [OF m0] says_frame [OF m0])
  note t = take_money_pays [OF this]
  have "bid_on E p s a price m =
    SendAuctionCommandResult p (Some (a\<lparr>au_bidder := p, au_bid := price\<rparr>)) AUCTION_PLACE_BID ERR_AUCTION_OK
      (ah_emit [CHAR_UPD_AUCTION_BID p (ucast price) i] (AddAuction s (a\<lparr>au_bidder := p, au_bid := price\<rparr>)
         (ah_emit [AhCriteria p ''HIGHEST_AUCTION_BID'' price] (pays p (to_pay p a price) m0))))"
  proof -
    have paid: "(if au_bidder a > 0
                 then if au_bidder a = p then take_money p (- s64 (uint (price - au_bid a))) m
                      else take_money p (- s64 (uint price)) (SendAuctionOutbiddedMail E a (ucast price) p m)
                 else take_money p (- s64 (uint price)) m) = pays p (to_pay p a price) m0"
      using t(1) p by (cases "au_bidder a = p"; cases "au_bidder a = 0") (simp_all add: m0_def to_pay_def word_gt_0)
    show ?thesis unfolding bid_on_def Let_def paid by (simp only: change_emit ah_emit_emit append.simps) (simp add: AddAuction_def id)
  qed
  with m0 show ?thesis by blast
qed

lemma bid_on_keeps:
  assumes inv: "ah_inv m" and a: "GetAuction s i m = Some a"
    and p: "p \<noteq> 0" "au_owner a \<noteq> p" "price \<le> am_money m p"
    and price: "au_bid a < price" "au_startbid a \<le> price" "price < au_buyout a \<or> au_buyout a = 0"
  shows "keeps (refund_lost E p a) m (bid_on E p s a price m)"
    "GetAuction s i (bid_on E p s a price m) = Some (a\<lparr>au_bidder := p, au_bid := price\<rparr>)"
    "am_money (bid_on E p s a price m) = (am_money m)(p := am_money m p - to_pay p a price)"
proof -
  let ?b = "a\<lparr>au_bidder := p, au_bid := price\<rparr>" and ?c = "to_pay p a price"
  have id: "au_Id a = i" "bid_ok a" using auctions_okD(2) [OF ah_invD(1) [OF inv] a] by simp_all
  have b: "bid_ok ?b" using p price by (auto simp: bid_ok_def)
  have c: "?c \<le> am_money m p" using p(3) price(1) by (simp add: to_pay_le)
  obtain m0 where m0: "says (refunded E p a) m m0" and eq: "bid_on E p s a price m =
    SendAuctionCommandResult p (Some ?b) AUCTION_PLACE_BID ERR_AUCTION_OK
      (ah_emit [CHAR_UPD_AUCTION_BID p (ucast price) i] (AddAuction s ?b
         (ah_emit [AhCriteria p ''HIGHEST_AUCTION_BID'' price] (pays p ?c m0))))"
    using bid_on_eq [OF inv a c p(1)] by blast
  define m1 where "m1 = ah_emit [AhCriteria p ''HIGHEST_AUCTION_BID'' price] (pays p ?c m0)"
  have c0: "?c \<le> am_money m0 p" and inv0: "ah_inv m0" using c inv by (simp_all add: says_frame [OF m0] says_inv [OF m0])
  have m1: "says 0 (pays p ?c m0) m1" unfolding m1_def by (rule says_quiet)
  have inv1: "ah_inv m1" and a1: "GetAuction s i m1 = Some a" and t1: "total_gold m1 + unat ?c = total_gold m + refunded E p a"
    and d1: "mirrored db m1 = mirrored db m" for db
    using pays_inv [OF inv0 c0] pays_total [OF c0] a
    by (simp_all add: says_inv [OF m1] says_reads [OF m1] says_reads [OF m0] says_total [OF m0] says_total [OF m1]
        says_mirrored [OF m1] says_mirrored [OF m0])
  let ?m2 = "ah_emit [CHAR_UPD_AUCTION_BID p (ucast price) i] (AddAuction s ?b m1)"
  note k = change_keeps [OF inv1 a1 refl b]
  have "total_gold ?m2 + refund_lost E p a = total_gold m"
    using k(2) t1 to_pay_sum [OF less_imp_le [OF price(1)] id(2) p(1), of E] held_bid [OF id(2)] held_bid [OF b] by simp
  then have "keeps (refund_lost E p a) m ?m2" using k(1,3) d1 by (simp add: keeps_def)
  then show "keeps (refund_lost E p a) m (bid_on E p s a price m)"
    unfolding eq m1_def by (rule keeps_says) (rule says_mails)
  show "GetAuction s i (bid_on E p s a price m) = Some ?b"
    "am_money (bid_on E p s a price m) = (am_money m)(p := am_money m p - ?c)"
    unfolding eq using id(1)
    by (simp_all add: says_reads [OF says_mails(7)] says_frame [OF says_mails(7)] says_frame [OF m0] GetAuction_def auctions_at_changes)
qed


text \<open>
  The cut never exceeds the bid and the deposit, whatever is bid: what the configuration has to
  guarantee for a house.
\<close>

definition fair_cut :: "ah_env \<Rightarrow> auction \<Rightarrow> bool" where
  "fair_cut E a \<longleftrightarrow> (\<forall>x. unat (GetAuctionCut E (a\<lparr>au_bid := x\<rparr>)) \<le> unat x + unat (au_deposit a))"

lemma fair_cutD:
  assumes "fair_cut E a" and "au_house b = au_house a" and "au_deposit b = au_deposit a"
  shows "unat (GetAuctionCut E b) \<le> unat (au_bid b) + unat (au_deposit b)"
proof -
  have "GetAuctionCut E b = GetAuctionCut E (a\<lparr>au_bid := au_bid b\<rparr>)" using assms(2) by (simp add: GetAuctionCut_def)
  with assms(1,3) show ?thesis unfolding fair_cut_def by metis
qed

text \<open>The end of a sale: the owner is paid, the item goes to the bidder, and the auction is over.\<close>

definition sold_for :: "ah_env \<Rightarrow> auction \<Rightarrow> nat" where
  "sold_for E a = (if exists_char E (au_owner a) then unat (sale_profit E a) else 0)"

lemma sold_for_le: "fair_cut E a \<Longrightarrow> au_house b = au_house a \<Longrightarrow> au_deposit b = au_deposit a \<Longrightarrow>
    sold_for E b \<le> unat (au_bid b) + unat (au_deposit b)"
  using sale_profit_le [OF fair_cutD] by (simp add: sold_for_def)

lemma buy_out_eq:
  assumes inv: "ah_inv m" and c: "to_pay p a (au_buyout a) \<le> am_money m p" and p: "p \<noteq> 0"
  defines "b \<equiv> a\<lparr>au_bidder := p, au_bid := au_buyout a\<rparr>"
  shows "\<exists>m4. says (refunded E p a + sold_for E b) (pays p (to_pay p a (au_buyout a)) m) m4 \<and>
    buy_out E p s a m = RemoveAuction s b (RemoveAItem (au_itemGUIDLow b) (au_DeleteFromDB b m4))"
proof -
  let ?m0 = "pays p (to_pay p a (au_buyout a)) m"
  define m1 where "m1 = (if au_bidder a \<noteq> 0 \<and> au_bidder a \<noteq> p then SendAuctionOutbiddedMail E a (ucast (au_buyout a)) p ?m0 else ?m0)"
  have m1: "says (refunded E p a) ?m0 m1"
    using says_mails(5) [of E a ?m0 "ucast (au_buyout a)" p] by (auto simp: m1_def refunded_def says_refl)
  define m2 where "m2 = ah_emit [AhCriteria p ''HIGHEST_AUCTION_BID'' (au_buyout a)] m1"
  define m4 where "m4 = SendAuctionCommandResult p (Some b) AUCTION_PLACE_BID ERR_AUCTION_OK
    (SendAuctionWonMail E b (SendAuctionSuccessfulMail E b (SendAuctionSalePendingMail E b m2)))"
  have "says 0 m1 m2" unfolding m2_def by (rule says_quiet)
  note s1 = says_trans [OF m1 says_trans [OF this says_mails(2) [of _ E b]]]
  note s2 = says_trans [OF s1 says_mails(3) [of E b]]
  note s3 = says_trans [OF says_trans [OF s2 says_mails(1) [of _ E b]] says_mails(7) [of _ p "Some b" AUCTION_PLACE_BID ERR_AUCTION_OK]]
  have "says (refunded E p a + sold_for E b) ?m0 m4" using s3 by (simp add: m4_def sold_for_def)
  moreover have "buy_out E p s a m = RemoveAuction s b (RemoveAItem (au_itemGUIDLow b) (au_DeleteFromDB b m4))"
  proof -
    have t: "take_money p (- s64 (uint (to_pay p a (au_buyout a)))) m = ?m0"
      by (rule take_money_pays(1) [OF ah_invD(4) [OF inv] c])
    have paid: "(if p = au_bidder a then take_money p (- s64 (uint (au_buyout a - au_bid a))) m
                 else let n = take_money p (- s64 (uint (au_buyout a))) m
                      in if au_bidder a \<noteq> 0 then SendAuctionOutbiddedMail E a (ucast (au_buyout a)) p n else n) = m1"
      using t p by (cases "au_bidder a = p"; cases "au_bidder a = 0") (simp_all add: m1_def to_pay_def Let_def)
    show ?thesis unfolding buy_out_def paid by (simp add: Let_def m4_def m2_def b_def)
  qed
  ultimately show ?thesis by blast
qed

lemma buy_out_keeps:
  assumes inv: "ah_inv m" and a: "GetAuction s i m = Some a"
    and p: "p \<noteq> 0" "au_buyout a \<noteq> 0" "au_buyout a \<le> am_money m p" and fair: "fair_cut E a"
  defines "b \<equiv> a\<lparr>au_bidder := p, au_bid := au_buyout a\<rparr>"
  shows "keeps (refund_lost E p a + (unat (au_buyout a) + unat (au_deposit a) - sold_for E b)) m (buy_out E p s a m)"
    "GetAuction s i (buy_out E p s a m) = None"
    "am_money (buy_out E p s a m) = (am_money m)(p := am_money m p - to_pay p a (au_buyout a))"
proof -
  let ?c = "to_pay p a (au_buyout a)"
  have id: "au_Id a = i" "bid_ok a" using auctions_okD(2) [OF ah_invD(1) [OF inv] a] by simp_all
  have le: "au_bid a \<le> au_buyout a" using id(2) p(2) by (auto simp: bid_ok_def split: if_splits)
  have c: "?c \<le> am_money m p" using p(3) le by (simp add: to_pay_le)
  obtain m4 where m4: "says (refunded E p a + sold_for E b) (pays p ?c m) m4"
    and eq: "buy_out E p s a m = RemoveAuction s b (RemoveAItem (au_itemGUIDLow b) (au_DeleteFromDB b m4))"
    using buy_out_eq [OF inv c p(1)] unfolding b_def by blast
  have inv4: "ah_inv m4" and a4: "GetAuction s i m4 = Some a"
    using pays_inv [OF inv c] a by (simp_all add: says_inv [OF m4] says_reads [OF m4])
  have b: "au_Id b = i" "au_itemGUIDLow b = au_itemGUIDLow a" using id by (simp_all add: b_def)
  note d = drop_keeps [OF inv4 a4 b, folded eq]
  have "total_gold m4 + unat ?c = total_gold m + refunded E p a + sold_for E b"
    using pays_total [OF c] by (simp add: says_total [OF m4])
  moreover have "sold_for E b \<le> unat (au_buyout a) + unat (au_deposit a)"
    using sold_for_le [OF fair, of b] by (simp add: b_def)
  ultimately have "total_gold (buy_out E p s a m) + (refund_lost E p a + (unat (au_buyout a) + unat (au_deposit a) - sold_for E b)) = total_gold m"
    using d(2) to_pay_sum [OF le id(2) p(1), of E] held_bid [OF id(2)] by linarith
  then show "keeps (refund_lost E p a + (unat (au_buyout a) + unat (au_deposit a) - sold_for E b)) m (buy_out E p s a m)"
    using d(1,3) by (simp add: keeps_def says_mirrored [OF m4])
  show "GetAuction s i (buy_out E p s a m) = None" by (rule d(5))
  show "am_money (buy_out E p s a m) = (am_money m)(p := am_money m p - ?c)" unfolding d(4) by (simp add: says_frame [OF m4])
qed

text \<open>Expiry and cancellation.\<close>

lemma close_says: "says (if au_bidder a = 0 then 0 else sold_for E a) m (close_auction E a m)"
  using says_mails(4) [of m E a] says_trans [OF says_mails(3) [of E a m] says_mails(1) [of _ E a]]
  by (simp add: close_auction_def sold_for_def)

lemma expire_keeps:
  assumes inv: "ah_inv m" and a: "GetAuction s i m = Some a" and fair: "fair_cut E a"
  shows "keeps (held a - (if au_bidder a = 0 then 0 else sold_for E a)) m (expire_auction E s i m)"
    "GetAuction s i (expire_auction E s i m) = None"
proof -
  note c = close_says [of a E m]
  have id: "au_Id a = i" "bid_ok a" using auctions_okD(2) [OF ah_invD(1) [OF inv] a] by simp_all
  have inv1: "ah_inv (close_auction E a m)" and a1: "GetAuction s i (close_auction E a m) = Some a"
    using inv a by (simp_all add: says_inv [OF c] says_reads [OF c])
  have eq: "expire_auction E s i m = RemoveAuction s a (RemoveAItem (au_itemGUIDLow a) (au_DeleteFromDB a (close_auction E a m)))"
    by (simp add: expire_auction_def a)
  note d = drop_keeps [OF inv1 a1 id(1) refl, folded eq]
  have "(if au_bidder a = 0 then 0 else sold_for E a) \<le> held a"
    using sold_for_le [OF fair refl refl] held_bid [OF id(2)] by simp
  then show "keeps (held a - (if au_bidder a = 0 then 0 else sold_for E a)) m (expire_auction E s i m)"
    using d(1-3) by (simp add: keeps_def says_mirrored [OF c] says_total [OF c])
  show "GetAuction s i (expire_auction E s i m) = None" by (rule d(5))
qed


lemma uint_ucast_up: "uint (ucast (w :: uint32) :: uint64) = uint w"
  using unat_ucast_up [of w] by (metis uint_nat)

text \<open>What the owner of a cancelled auction pays; he has to be able to.\<close>

definition cancel_fee :: "ah_env \<Rightarrow> auction \<Rightarrow> uint64" where
  "cancel_fee E a = (if au_bidder a \<noteq> 0 then ucast (GetAuctionCut E a) else 0)"

lemma cancel_eq:
  assumes inv: "ah_inv m" and npc: "ahe_npc E auctioneer = Some f" and a: "GetAuction (GetAuctionsMap E f) i m = Some a"
    and p: "au_owner a = p" and it: "GetAItem (au_itemGUIDLow a) m = Some it" and c: "cancel_fee E a \<le> am_money m p"
  shows "\<exists>m4. says (if au_bidder a \<noteq> 0 \<and> exists_char E (au_bidder a) then unat (au_bid a) else 0) (pays p (cancel_fee E a) m) m4 \<and>
    HandleAuctionRemoveItem E p auctioneer i m =
      RemoveAuction (GetAuctionsMap E f) a (RemoveAItem (au_itemGUIDLow a) (au_DeleteFromDB a m4))"
proof -
  let ?m0 = "pays p (cancel_fee E a) m"
  define m1 where "m1 = (if au_bidder a \<noteq> 0 then SendAuctionCancelledToBidderMail E a it ?m0 else ?m0)"
  have m1: "says (if au_bidder a \<noteq> 0 \<and> exists_char E (au_bidder a) then unat (au_bid a) else 0) ?m0 m1"
    using says_mails(6) [of E a ?m0 it] by (auto simp: m1_def says_refl)
  define m2 where "m2 = ah_emit [auction_mail p AUCTION_CANCELED a
      (BuildAuctionMailBody E 0 0 (ucast (au_buyout a)) (au_deposit a) 0 0) 0 [ai_guidLow it] 0] m1"
  have "says 0 m1 m2" unfolding m2_def by (rule says_emit) (simp_all add: mail_defs)
  note s = says_trans [OF says_trans [OF m1 this] says_mails(7) [of _ p "Some a" AUCTION_CANCEL ERR_AUCTION_OK]]
  define m3 where "m3 = SendAuctionCommandResult p (Some a) AUCTION_CANCEL ERR_AUCTION_OK m2"
  note s3 = says_trans [OF s [folded m3_def] says_quiet(1) [of _ p "am_money m3 p"]]
  have comm: "take_money p x (SendAuctionCancelledToBidderMail E a it m) = SendAuctionCancelledToBidderMail E a it (take_money p x m)" for x
    by (simp add: take_money_def SendAuctionCancelledToBidderMail_def ah_emit_def)
  have "take_money p (- uint (cancel_fee E a)) m = ?m0" by (rule take_money_pays(2) [OF ah_invD(4) [OF inv] c])
  then have paid: "(if au_bidder a > 0 then take_money p (- uint (GetAuctionCut E a)) (SendAuctionCancelledToBidderMail E a it m) else m) = m1"
    by (auto simp: comm m1_def cancel_fee_def uint_ucast_up pays_def word_gt_0)
  have "HandleAuctionRemoveItem E p auctioneer i m = RemoveAuction (GetAuctionsMap E f) a (RemoveAItem (au_itemGUIDLow a)
      (au_DeleteFromDB a (ah_emit [SaveInventoryAndGold p (am_money m3 p)] m3)))"
  proof -
    have guard: "(au_bidder a > 0 \<and> \<not> HasEnoughMoney (ucast (GetAuctionCut E a)) (am_money m p)) = False"
      using c by (auto simp: HasEnoughMoney_def cancel_fee_def word_gt_0 split: if_splits)
    show ?thesis
      by (simp only: HandleAuctionRemoveItem_def Let_def npc a it p guard paid m3_def m2_def option.case simp_thms if_False)
  qed
  with s3 show ?thesis by auto
qed

lemma cancel_keeps:
  assumes inv: "ah_inv m" and npc: "ahe_npc E auctioneer = Some f" and a: "GetAuction (GetAuctionsMap E f) i m = Some a"
    and p: "au_owner a = p" and it: "GetAItem (au_itemGUIDLow a) m = Some it" and c: "cancel_fee E a \<le> am_money m p"
  shows "keeps (unat (cancel_fee E a) + unat (au_deposit a) + refund_lost E 0 a) m (HandleAuctionRemoveItem E p auctioneer i m)"
    "GetAuction (GetAuctionsMap E f) i (HandleAuctionRemoveItem E p auctioneer i m) = None"
    "am_money (HandleAuctionRemoveItem E p auctioneer i m) = (am_money m)(p := am_money m p - cancel_fee E a)"
proof -
  let ?s = "GetAuctionsMap E f"
  have id: "au_Id a = i" "bid_ok a" using auctions_okD(2) [OF ah_invD(1) [OF inv] a] by simp_all
  obtain m4 where m4: "says (if au_bidder a \<noteq> 0 \<and> exists_char E (au_bidder a) then unat (au_bid a) else 0) (pays p (cancel_fee E a) m) m4"
    and eq: "HandleAuctionRemoveItem E p auctioneer i m = RemoveAuction ?s a (RemoveAItem (au_itemGUIDLow a) (au_DeleteFromDB a m4))"
    using cancel_eq [OF assms] by blast
  have inv4: "ah_inv m4" and a4: "GetAuction ?s i m4 = Some a"
    using pays_inv [OF inv c] a by (simp_all add: says_inv [OF m4] says_reads [OF m4])
  note d = drop_keeps [OF inv4 a4 id(1) refl, folded eq]
  have "au_bidder a = 0 \<Longrightarrow> au_bid a = 0" using id(2) by (simp add: bid_ok_def)
  then have "total_gold (HandleAuctionRemoveItem E p auctioneer i m)
      + (unat (cancel_fee E a) + unat (au_deposit a) + refund_lost E 0 a) = total_gold m"
    using d(2) pays_total [OF c] says_total [OF m4] held_bid [OF id(2)] by (auto simp: refund_lost_def split: if_splits)
  then show "keeps (unat (cancel_fee E a) + unat (au_deposit a) + refund_lost E 0 a) m (HandleAuctionRemoveItem E p auctioneer i m)"
    using d(1,3) by (simp add: keeps_def says_mirrored [OF m4])
  show "GetAuction ?s i (HandleAuctionRemoveItem E p auctioneer i m) = None" by (rule d(5))
  show "am_money (HandleAuctionRemoveItem E p auctioneer i m) = (am_money m)(p := am_money m p - cancel_fee E a)"
    unfolding d(4) by (simp add: says_frame [OF m4])
qed

text \<open>Otherwise the handler only answers.\<close>

lemma cancel_refused:
  assumes "\<And>f a it. ahe_npc E auctioneer = Some f \<Longrightarrow> GetAuction (GetAuctionsMap E f) i m = Some a \<Longrightarrow> au_owner a = p \<Longrightarrow>
    GetAItem (au_itemGUIDLow a) m = Some it \<Longrightarrow> \<not> cancel_fee E a \<le> am_money m p"
  shows "says 0 m (HandleAuctionRemoveItem E p auctioneer i m)"
proof (cases "ahe_npc E auctioneer")
  case (Some f)
  show ?thesis
  proof (cases "GetAuction (GetAuctionsMap E f) i m")
    case a: (Some a)
    show ?thesis
    proof (cases "au_owner a = p \<and> GetAItem (au_itemGUIDLow a) m \<noteq> None")
      case True
      then obtain it where it: "GetAItem (au_itemGUIDLow a) m = Some it" by blast
      have "\<not> cancel_fee E a \<le> am_money m p" using assms [OF Some a _ it] True by blast
      then have "au_bidder a > 0 \<and> \<not> HasEnoughMoney (ucast (GetAuctionCut E a)) (am_money m p)"
        by (simp add: cancel_fee_def HasEnoughMoney_def word_gt_0 split: if_splits)
      with Some a it True show ?thesis by (simp add: HandleAuctionRemoveItem_def Let_def says_refl)
    qed (use Some a in \<open>auto simp: HandleAuctionRemoveItem_def Let_def says_mails(7)\<close>)
  qed (use Some in \<open>simp add: HandleAuctionRemoveItem_def Let_def says_mails(7)\<close>)
qed (simp add: HandleAuctionRemoveItem_def says_refl)

end
