(* ===== verification/Auction_Sessions.thy ===== *)
theory Auction_Sessions
  imports Auction_Props
begin

text \<open>
  Selling, and the runs of the auction house: whatever the players do and whenever auctions expire, the
  invariant holds, no assertion fails, the table of auctions is in step with the memory and no gold is
  created.
\<close>

unbundle bit_operations_syntax

section \<open>A new auction\<close>

lemma sell_items_ok:
  assumes "sell_items E m p gs entry = Inr items" and "e \<in> set items"
  shows "(\<exists>g. map_of (am_bags m p) g = Some (fst e)) \<and> GetAItem (ai_guidLow (fst e)) m = None \<and> snd e \<le> ai_count (fst e)"
  using assms
proof (induction E m p gs entry arbitrary: items rule: sell_items.induct)
  case (2 E m p guid n gs entry)
  obtain item where item: "map_of (am_bags m p) guid = Some item" using "2.prems"(1) by (cases "map_of (am_bags m p) guid") simp_all
  define entry1 where "entry1 = (if entry = 0 then ai_entry item else entry)"
  obtain rest where ok: "may_sell E m entry1 n item" and rest: "sell_items E m p gs entry1 = Inr rest" "items = (item, n) # rest"
    using "2.prems"(1) item by (auto simp: Let_def entry1_def bind_res_def split: if_splits sum.splits)
  show ?case
  proof (cases "e \<in> set rest")
    case True
    show ?thesis by (rule "2.IH" [OF item entry1_def _ rest(1) True]) (use ok in simp)
  next
    case False
    then have "e = (item, n)" using "2.prems"(2) rest(2) by simp
    then show ?thesis using item ok by (auto simp: may_sell_def not_less intro: exI [of _ guid])
  qed
qed simp

lemma items_okI:
  assumes "\<And>k it. GetAItem k m = Some it \<Longrightarrow> ai_guidLow it = k \<and> k < am_itemGuid m"
    and "\<And>p g it. map_of (am_bags m p) g = Some it \<Longrightarrow> g = item_guid it \<and> ai_guidLow it < am_itemGuid m \<and> GetAItem (ai_guidLow it) m = None"
    and "\<And>p q g it. map_of (am_bags m p) g = Some it \<Longrightarrow> q \<noteq> p \<Longrightarrow> map_of (am_bags m q) g = None"
  shows "items_ok m"
  using assms unfolding items_ok_def by blast

lemma items_okD:
  assumes "items_ok m"
  shows "GetAItem k m = Some it \<Longrightarrow> ai_guidLow it = k \<and> k < am_itemGuid m"
    "map_of (am_bags m p) g = Some it \<Longrightarrow> g = item_guid it \<and> ai_guidLow it < am_itemGuid m \<and> GetAItem (ai_guidLow it) m = None"
    "map_of (am_bags m p) g = Some it \<Longrightarrow> q \<noteq> p \<Longrightarrow> map_of (am_bags m q) g = None"
  using assms unfolding items_ok_def by blast+

text \<open>
  The common part of both ways to put an item up: the auction \<open>a\<close> has the next id, its item is new to the
  house, and the deposit is paid.
\<close>

lemma add_auction_keeps:
  assumes inv: "ah_inv m" and ids: "am_auctionId m < - 1"
    and a: "au_Id a = am_auctionId m" "au_bidder a = 0" "au_bid a = 0" "au_deposit a = d" and d: "ucast d \<le> am_money m p"
    and at: "\<And>t. auctions_at t m' = (if t = s then om_put (au_Id a) a (auctions_at s m) else auctions_at t m)"
    and it: "\<And>k. GetAItem k m' = (if k = au_itemGUIDLow a then Some it else GetAItem k m)" "GetAItem (au_itemGUIDLow a) m = None"
    and m': "items_ok m'" "am_auctionId m' = am_auctionId m + 1" "am_money m' = (am_money m)(p := am_money m p - ucast d)"
      "mailed (am_out m') = mailed (am_out m)" "\<And>db. ah_db (am_out m') db = (ah_db (am_out m) db)(au_Id a \<mapsto> row_of a)"
  shows "keeps 0 m m'" "GetAuction s (am_auctionId m) m' = Some a"
proof -
  let ?i = "am_auctionId m"
  note ok = ah_invD [OF inv]
  have next_id: "?i < ?i + 1" using ids by (intro word_less_succ) auto
  have new: "GetAuction t ?i m = None" for t using auctions_okD(2) [OF ok(1), of t ?i] by (cases "GetAuction t ?i m") auto
  have g: "GetAuction t j m' = (if t = s \<and> j = ?i then Some a else GetAuction t j m)" for t j
    by (simp add: GetAuction_def at a(1))
  have ba: "bid_ok a" using a by (simp add: bid_ok_def)
  have "auctions_ok m'"
  proof (rule auctions_okI)
    show "om_ok (auctions_at t m')" for t using auctions_okD(1) [OF ok(1)] by (simp add: at)
    show "au_Id x = j \<and> j < am_auctionId m' \<and> bid_ok x" if "GetAuction t j m' = Some x" for t j x
      using that a(1) ba m'(2) next_id auctions_okD(2) [OF ok(1), of t j x] by (auto simp: g split: if_splits)
    show "t = u" if "GetAuction t j m' = Some x" "GetAuction u j m' = Some y" for t u j x y
      using that new auctions_okD(3) [OF ok(1), of t j x u y] by (auto simp: g split: if_splits)
  qed
  moreover have "lots_ok m'"
  proof (rule lots_okI)
    show "GetAItem (au_itemGUIDLow x) m' \<noteq> None" if "GetAuction t j m' = Some x" for t j x
      using that lots_okD(1) [OF ok(2), of t j x] by (auto simp: g it(1) split: if_splits)
    show "j = l" if "GetAuction t j m' = Some x" "GetAuction u l m' = Some y" "au_itemGUIDLow x = au_itemGUIDLow y" for t u j l x y
      using that it(2) lots_okD [OF ok(2)] by (auto simp: g split: if_splits) (metis option.distinct(1))+
  qed
  moreover have "purses_ok m'"
    using pays_inv [OF inv d] m'(3) by (simp add: ah_inv_def purses_ok_def)
  ultimately have inv': "ah_inv m'" using m'(1) by (simp add: ah_inv_def)
  have held: "held a = unat d" using a by (simp add: held_def)
  have "house_held s m' = house_held s m + held a"
    using sum_om_put [OF auctions_okD(1) [OF ok(1)], of "held \<circ> snd" ?i a s] new [of s] a(1)
    by (simp add: house_held_def at GetAuction_def om_del_none)
  moreover have "house_held t m' = house_held t m" if "t \<noteq> s" for t using that by (simp add: house_held_def at)
  ultimately have "house_held Horde m' + house_held Alliance m' + house_held Neutral m'
      = house_held Horde m + house_held Alliance m + house_held Neutral m + unat d" by (cases s) (simp_all add: held)
  moreover have "(\<Sum>q\<in>UNIV. unat (am_money m' q)) + unat d = (\<Sum>q\<in>UNIV. unat (am_money m q))"
    using pays_total [OF d] m'(3) by (simp add: total_gold_def house_held_def unat_ucast_up)
  ultimately have total: "total_gold m' = total_gold m" using m'(4) by (simp add: total_gold_def)
  have "find_auction j m' = (if j = ?i then Some a else find_auction j m)" for j
    using find_auction_unique [of m' s ?i a] inv' by (auto simp: ah_inv_def g intro!: find_auction_cong)
  then have "mirrored db m \<Longrightarrow> mirrored db m'" for db
    by (simp add: mirrored_def m'(5) a(1) fun_eq_iff)
  with inv' total show "keeps 0 m m'" by (simp add: keeps_def)
  show "GetAuction s ?i m' = Some a" by (simp add: g)
qed


section \<open>The bags\<close>

definition owned :: "uint32 \<Rightarrow> ah_item \<Rightarrow> ah_mgr \<Rightarrow> bool" where
  "owned p item m \<longleftrightarrow> ai_guidLow item < am_itemGuid m \<and> GetAItem (ai_guidLow item) m = None \<and>
     (\<forall>q. q \<noteq> p \<longrightarrow> map_of (am_bags m q) (item_guid item) = None)"

lemma owned_bag: "items_ok m \<Longrightarrow> map_of (am_bags m p) g = Some item \<Longrightarrow> owned p item m"
  using items_okD(2,3) [of m p g item] by (auto simp: owned_def)

lemma item_guid_cong: "ai_guidLow x = ai_guidLow y \<Longrightarrow> item_guid x = item_guid y"
  by (simp add: item_guid_def)

lemma take_from_stack_frame [simp]:
  "auctions_at s (take_from_stack p e m) = auctions_at s m" "mAitems (take_from_stack p e m) = mAitems m"
  "am_auctionId (take_from_stack p e m) = am_auctionId m" "am_itemGuid (take_from_stack p e m) = am_itemGuid m"
  "am_money (take_from_stack p e m) = am_money m" "mailed (am_out (take_from_stack p e m)) = mailed (am_out m)"
  "ah_db (am_out (take_from_stack p e m)) db = ah_db (am_out m) db" "GetAItem k (take_from_stack p e m) = GetAItem k m"
  "q \<noteq> p \<Longrightarrow> am_bags (take_from_stack p e m) q = am_bags m q"
  by (simp_all add: take_from_stack_def Let_def MoveItemFromInventory_def mailed_def ah_db_def GetAItem_def)

lemma bag_take_from_stack:
  "map_of (am_bags (take_from_stack p e m) p) = (map_of (am_bags m p))(item_guid (fst e) :=
     (if ai_count (fst e) = snd e then None else Some ((fst e)\<lparr>ai_count := ai_count (fst e) - snd e\<rparr>)))"
  by (simp add: take_from_stack_def Let_def MoveItemFromInventory_def)

lemma owned_take_from_stack [simp]: "owned p item (take_from_stack p e m) = owned p item m"
  by (simp add: owned_def)

lemma take_from_stack_items:
  assumes "items_ok m" and "owned p (fst e) m"
  shows "items_ok (take_from_stack p e m)"
proof (rule items_okI)
  let ?m = "take_from_stack p e m"
  show "ai_guidLow it = k \<and> k < am_itemGuid ?m" if "GetAItem k ?m = Some it" for k it
    using that items_okD(1) [OF assms(1)] by simp
  have own: "ai_guidLow (fst e) < am_itemGuid m" "GetAItem (ai_guidLow (fst e)) m = None"
      "\<And>q. q \<noteq> p \<Longrightarrow> map_of (am_bags m q) (item_guid (fst e)) = None"
    using assms(2) by (simp_all add: owned_def)
  have same: "item_guid ((fst e)\<lparr>ai_count := n\<rparr>) = item_guid (fst e)" for n by (simp add: item_guid_def)
  show "g = item_guid it \<and> ai_guidLow it < am_itemGuid ?m \<and> GetAItem (ai_guidLow it) ?m = None"
    if "map_of (am_bags ?m q) g = Some it" for q g it
    using that own same items_okD(2) [OF assms(1), of q g it]
    by (cases "q = p") (auto simp: bag_take_from_stack split: if_splits)
  show "map_of (am_bags ?m q') g = None" if "map_of (am_bags ?m q) g = Some it" "q' \<noteq> q" for q q' g it
    using that own(3) items_okD(3) [OF assms(1)]
    by (cases "q = p"; cases "q' = p") (auto simp: bag_take_from_stack split: if_splits)
qed

lemma take_all_frame:
  "auctions_at s (fold (take_from_stack p) es m) = auctions_at s m" "mAitems (fold (take_from_stack p) es m) = mAitems m"
  "am_auctionId (fold (take_from_stack p) es m) = am_auctionId m" "am_itemGuid (fold (take_from_stack p) es m) = am_itemGuid m"
  "am_money (fold (take_from_stack p) es m) = am_money m" "mailed (am_out (fold (take_from_stack p) es m)) = mailed (am_out m)"
  "ah_db (am_out (fold (take_from_stack p) es m)) db = ah_db (am_out m) db"
  by (induction es arbitrary: m) simp_all

lemma take_all_items:
  "items_ok m \<Longrightarrow> (\<forall>e \<in> set es. owned p (fst e) m) \<Longrightarrow> items_ok (fold (take_from_stack p) es m)"
  by (induction es arbitrary: m) (simp_all add: take_from_stack_items)

text \<open>An item that goes from a bag to the house, and a new one.\<close>

lemma move_items_ok:
  assumes ok: "items_ok m" and bag: "map_of (am_bags m p) g = Some item"
    and m': "\<And>k. GetAItem k m' = (if k = ai_guidLow item then Some item else GetAItem k m)" "am_itemGuid m' = am_itemGuid m"
      "am_bags m' = (am_bags m)(p := om_del (item_guid item) (am_bags m p))"
  shows "items_ok m'"
proof (rule items_okI)
  have item: "g = item_guid item" "ai_guidLow item < am_itemGuid m" using items_okD(2) [OF ok bag] by simp_all
  have sub: "map_of (am_bags m q) h = Some it \<and> (q = p \<longrightarrow> h \<noteq> g)" if "map_of (am_bags m' q) h = Some it" for q h it
    using that item by (cases "q = p") (auto simp: m'(3) split: if_splits)
  show "ai_guidLow it = k \<and> k < am_itemGuid m'" if "GetAItem k m' = Some it" for k it
    using that item items_okD(1) [OF ok] by (auto simp: m' split: if_splits)
  show "h = item_guid it \<and> ai_guidLow it < am_itemGuid m' \<and> GetAItem (ai_guidLow it) m' = None"
    if "map_of (am_bags m' q) h = Some it" for q h it
  proof -
    have it: "map_of (am_bags m q) h = Some it" "q = p \<Longrightarrow> h \<noteq> g" using sub [OF that] by simp_all
    have "ai_guidLow it \<noteq> ai_guidLow item"
      using it items_okD(2) [OF ok it(1)] item(1) item_guid_cong [of it item] items_okD(3) [OF ok bag, of q] by (cases "q = p") auto
    then show ?thesis using items_okD(2) [OF ok it(1)] by (simp add: m')
  qed
  show "map_of (am_bags m' q') h = None" if "map_of (am_bags m' q) h = Some it" "q' \<noteq> q" for q q' h it
    using sub [OF that(1)] items_okD(3) [OF ok _ that(2)] by (cases "q' = p") (auto simp: m'(3))
qed

lemma new_item_ok:
  assumes ok: "items_ok m" and ids: "am_itemGuid m < - 1" and item: "ai_guidLow item = am_itemGuid m"
    and m': "\<And>k. GetAItem k m' = (if k = ai_guidLow item then Some item else GetAItem k m)" "am_itemGuid m' = am_itemGuid m + 1"
      "am_bags m' = am_bags m"
  shows "items_ok m'"
proof (rule items_okI)
  have up: "k < am_itemGuid m + 1" if "k \<le> am_itemGuid m" for k using that ids by (intro word_less_succ) auto
  show "ai_guidLow it = k \<and> k < am_itemGuid m'" if "GetAItem k m' = Some it" for k it
    using that item up items_okD(1) [OF ok, of k it] by (auto simp: m' split: if_splits)
  show "h = item_guid it \<and> ai_guidLow it < am_itemGuid m' \<and> GetAItem (ai_guidLow it) m' = None"
    if "map_of (am_bags m' q) h = Some it" for q h it
    using that items_okD(2) [OF ok, of q h it] up item by (auto simp: m')
  show "map_of (am_bags m' q') h = None" if "map_of (am_bags m' q) h = Some it" "q' \<noteq> q" for q q' h it
    using that items_okD(3) [OF ok] by (simp add: m')
qed


section \<open>Putting an item up\<close>

lemma take_money_frame [simp]:
  "auctions_at s (take_money p x m) = auctions_at s m" "mAitems (take_money p x m) = mAitems m"
  "am_auctionId (take_money p x m) = am_auctionId m" "am_itemGuid (take_money p x m) = am_itemGuid m"
  "am_bags (take_money p x m) = am_bags m" "am_out (take_money p x m) = am_out m"
  by (simp_all add: take_money_def)

lemma deposit_taken:
  fixes d :: uint32
  assumes "d < 0x80000000" and "ucast d \<le> am_money m p"
  shows "am_money (take_money p (s32 (- s32 (uint d))) m) = (am_money m)(p := am_money m p - ucast d)"
proof -
  have "uint d < 2147483648" using assms(1) by (simp add: word_less_def)
  moreover from this have "s32 (uint d) = uint d" by (intro s32_id) (auto intro: order_trans [OF _ uint_ge_0])
  moreover have "- uint d < 2147483648" using uint_ge_0 [of d] by linarith
  ultimately have "s32 (- s32 (uint d)) = - uint d" by simp
  then have "s32 (- s32 (uint d)) = - uint (ucast d :: uint64)" by (simp add: uint_ucast_up)
  then show ?thesis using ModifyMoney_pays [OF assms(2)] by (simp add: take_money_def)
qed

text \<open>The state after the auction \<open>a\<close> of \<open>item\<close> was entered, before anything is sent.\<close>

definition entered :: "house_side \<Rightarrow> auction \<Rightarrow> ah_item \<Rightarrow> ah_mgr \<Rightarrow> ah_mgr" where
  "entered s a item m = AddAuction s a (m\<lparr>am_auctionId := am_auctionId m + 1, mAitems := om_put (ai_guidLow item) item (mAitems m)\<rparr>)"

lemma entered_frame [simp]:
  "am_auctionId (entered s a item m) = am_auctionId m + 1" "am_itemGuid (entered s a item m) = am_itemGuid m"
  "am_money (entered s a item m) = am_money m" "am_bags (entered s a item m) = am_bags m" "am_out (entered s a item m) = am_out m"
  "auctions_at t (entered s a item m) = (if t = s then om_put (au_Id a) a (auctions_at s m) else auctions_at t m)"
  "mAitems (entered s a item m) = om_put (ai_guidLow item) item (mAitems m)"
  by (simp_all add: entered_def AddAuction_def)

definition sold_out :: "uint32 \<Rightarrow> auction \<Rightarrow> ah_out list \<Rightarrow> ah_mgr \<Rightarrow> ah_mgr" where
  "sold_out p a xs m = ah_emit (xs @ [CHAR_INS_AUCTION (au_Id a) (row_of a), SaveInventoryAndGold p (am_money m p),
     CommandResult p (au_Id a) AUCTION_SELL_ITEM ERR_AUCTION_OK [], AhCriteria p ''CREATE_AUCTION'' 1]) m"

lemma put_up_eq:
  assumes "items \<noteq> []" and "finalCount \<noteq> 0" and item: "item = fst (hd items)"
    and d: "d = GetAuctionDeposit E h etime item finalCount" "ucast d \<le> am_money m p"
    and n: "n = take_money p (s32 (- s32 (uint d))) m"
    and free: "GetAItem (ai_guidLow item) m = None" "GetAItem (am_itemGuid m) m = None"
    and new: "new = item\<lparr>ai_guidLow := am_itemGuid m, ai_count := min finalCount (it_maxStackSize (ahe_template E (ai_entry item)))\<rparr>"
    and t: "t = f_to_uint32 (f_mul (f_of_int (uint etime)) (RATE_AUCTION_TIME E))"
    and a: "a = (\<lambda>it. new_auction E (am_auctionId m) npc h p bid buyout t d it)"
  shows "put_up E p npc s h bid buyout etime items finalCount m = Some
    (if length items = 1 \<and> ai_count item = snd (hd items)
     then sold_out p (a item) [DeleteItemFromInventory (ai_guidLow item), SaveItem item] (MoveItemFromInventory p item (entered s (a item) item n))
     else sold_out p (a new) [SaveItem new] (fold (take_from_stack p) items (entered s (a new) new (n\<lparr>am_itemGuid := am_itemGuid m + 1\<rparr>))))"
proof -
  have id: "au_Id (a it) = am_auctionId m" for it by (simp add: a new_auction_def)
  have c: "CloneItem E item finalCount (m'\<lparr>am_auctionId := x\<rparr>) = Some (new, m'\<lparr>am_auctionId := x, am_itemGuid := am_itemGuid m + 1\<rparr>)"
    if "am_itemGuid m' = am_itemGuid m" for m' x
    using that assms(2) by (simp add: CloneItem_def new word_less_1)
  have f: "GetAItem (ai_guidLow item) (n\<lparr>am_auctionId := x\<rparr>) = None" "GetAItem (ai_guidLow new) (n\<lparr>am_auctionId := x, am_itemGuid := y\<rparr>) = None" for x y
    using free by (simp_all add: GetAItem_def n new)
  have nf: "am_auctionId n = am_auctionId m" "am_itemGuid n = am_itemGuid m" by (simp_all add: n)
  have ent: "entered s b it (n\<lparr>am_itemGuid := y\<rparr>) = AddAuction s b (n\<lparr>am_auctionId := am_auctionId m + 1, am_itemGuid := y,
      mAitems := om_put (ai_guidLow it) it (mAitems n)\<rparr>)" for b it y
    unfolding entered_def by (rule arg_cong [of _ _ "AddAuction s b"]) (simp add: nf)
  have enough: "HasEnoughMoney (ucast d) (am_money m p)" using d(2) by (simp add: HasEnoughMoney_def)
  show ?thesis
  proof (cases "length items = 1 \<and> ai_count item = snd (hd items)")
    case True
    then show ?thesis
      unfolding put_up_def Let_def item [symmetric] d(1) [symmetric] n [symmetric] GenerateAuctionID_def
      using enough f(1) nf id
      by (simp add: AddAItem_def entered_def sold_out_def a t au_SaveToDB_def SendAuctionCommandResult_def MoveItemFromInventory_def)
  next
    case False
    then have no: "(length items = 1 \<and> ai_count item = snd (hd items)) = False" by blast
    show ?thesis
      unfolding put_up_def Let_def item [symmetric] d(1) [symmetric] n [symmetric] GenerateAuctionID_def no if_False
      using enough f(2) nf id c [OF nf(2)]
      by (simp add: AddAItem_def ent sold_out_def a t au_SaveToDB_def SendAuctionCommandResult_def)
  qed
qed


lemma sold_out_frame [simp]:
  "auctions_at t (sold_out p a xs m) = auctions_at t m" "mAitems (sold_out p a xs m) = mAitems m"
  "am_auctionId (sold_out p a xs m) = am_auctionId m" "am_itemGuid (sold_out p a xs m) = am_itemGuid m"
  "am_money (sold_out p a xs m) = am_money m" "am_bags (sold_out p a xs m) = am_bags m"
  "mailed (am_out (sold_out p a xs m)) = mailed (am_out m) + mailed xs"
  "ah_db (am_out (sold_out p a xs m)) db = (ah_db xs (ah_db (am_out m) db))(au_Id a \<mapsto> row_of a)"
  by (simp_all add: sold_out_def mailed_def ah_db_def)

lemma sold_out_items [simp]: "items_ok (sold_out p a xs m) = items_ok m"
  by (simp add: items_ok_def GetAItem_def)

text \<open>A state that differs from \<open>m\<close> in the deposit that was paid, and an auction that has the next id.\<close>

definition paid_deposit :: "uint32 \<Rightarrow> uint32 \<Rightarrow> ah_mgr \<Rightarrow> ah_mgr \<Rightarrow> bool" where
  "paid_deposit p d m n \<longleftrightarrow> (\<forall>u. auctions_at u n = auctions_at u m) \<and> mAitems n = mAitems m \<and> am_auctionId n = am_auctionId m \<and>
     am_itemGuid n = am_itemGuid m \<and> am_bags n = am_bags m \<and> am_out n = am_out m \<and>
     am_money n = (am_money m)(p := am_money m p - ucast d)"

definition fresh_auction :: "uint32 \<Rightarrow> ah_item \<Rightarrow> ah_mgr \<Rightarrow> auction \<Rightarrow> bool" where
  "fresh_auction d it m a \<longleftrightarrow> au_Id a = am_auctionId m \<and> au_bidder a = 0 \<and> au_bid a = 0 \<and> au_deposit a = d \<and> au_itemGUIDLow a = ai_guidLow it"

lemma put_direct:
  assumes inv: "ah_inv m" and ids: "am_auctionId m < - 1" and bag: "map_of (am_bags m p) g = Some item"
    and d: "ucast d \<le> am_money m p" and n: "paid_deposit p d m n" and a: "fresh_auction d item m a"
  shows "keeps 0 m (sold_out p a [DeleteItemFromInventory (ai_guidLow item), SaveItem item]
    (MoveItemFromInventory p item (entered s a item n)))" (is "keeps 0 m ?m")
proof -
  note ok = ah_invD(3) [OF inv]
  have free: "GetAItem (ai_guidLow item) m = None" using items_okD(2) [OF ok bag] by simp
  have nf: "auctions_at u n = auctions_at u m" "mAitems n = mAitems m" "am_auctionId n = am_auctionId m" "am_itemGuid n = am_itemGuid m"
    "am_bags n = am_bags m" "am_out n = am_out m" "am_money n = (am_money m)(p := am_money m p - ucast d)" for u
    using n by (simp_all add: paid_deposit_def)
  have aa: "au_Id a = am_auctionId m" "au_bidder a = 0" "au_bid a = 0" "au_deposit a = d" "au_itemGUIDLow a = ai_guidLow item"
    using a by (simp_all add: fresh_auction_def)
  have mv: "auctions_at u ?m = (if u = s then om_put (au_Id a) a (auctions_at s m) else auctions_at u m)"
    "GetAItem k ?m = (if k = ai_guidLow item then Some item else GetAItem k m)" "am_itemGuid ?m = am_itemGuid m"
    "am_bags ?m = (am_bags m)(p := om_del (item_guid item) (am_bags m p))" "am_auctionId ?m = am_auctionId m + 1"
    "am_money ?m = (am_money m)(p := am_money m p - ucast d)" for u k
    by (simp_all add: MoveItemFromInventory_def nf GetAItem_def)
  have out: "mailed (am_out ?m) = mailed (am_out m)" "ah_db (am_out ?m) db = (ah_db (am_out m) db)(au_Id a \<mapsto> row_of a)" for db
    by (simp_all add: MoveItemFromInventory_def nf mailed_def [of "[_, _]"] ah_db_def [of "[_, _]"])
  have ok': "items_ok ?m" by (rule move_items_ok [OF ok bag mv(2-4)])
  show ?thesis
    by (rule add_auction_keeps(1) [OF inv ids aa(1-4) d mv(1) _ _ ok' mv(5,6) out, where it = item]) (simp_all only: aa mv free)
qed

lemma put_clone:
  assumes inv: "ah_inv m" and ids: "am_auctionId m < - 1" "am_itemGuid m < - 1"
    and items: "\<forall>e \<in> set items. \<exists>g. map_of (am_bags m p) g = Some (fst e)"
    and d: "ucast d \<le> am_money m p" and n: "paid_deposit p d m n" and a: "fresh_auction d new m a" and low: "ai_guidLow new = am_itemGuid m"
  shows "keeps 0 m (sold_out p a [SaveItem new]
    (fold (take_from_stack p) items (entered s a new (n\<lparr>am_itemGuid := am_itemGuid m + 1\<rparr>))))" (is "keeps 0 m ?m")
proof -
  note ok = ah_invD(3) [OF inv]
  have free: "GetAItem (ai_guidLow new) m = None"
    using items_okD(1) [OF ok, of "am_itemGuid m"] low by (cases "GetAItem (am_itemGuid m) m") auto
  have nf: "auctions_at u n = auctions_at u m" "mAitems n = mAitems m" "am_auctionId n = am_auctionId m" "am_itemGuid n = am_itemGuid m"
    "am_bags n = am_bags m" "am_out n = am_out m" "am_money n = (am_money m)(p := am_money m p - ucast d)" for u
    using n by (simp_all add: paid_deposit_def)
  have aa: "au_Id a = am_auctionId m" "au_bidder a = 0" "au_bid a = 0" "au_deposit a = d" "au_itemGUIDLow a = ai_guidLow new"
    using a by (simp_all add: fresh_auction_def)
  let ?n = "entered s a new (n\<lparr>am_itemGuid := am_itemGuid m + 1\<rparr>)"
  have nn: "GetAItem k ?n = (if k = ai_guidLow new then Some new else GetAItem k m)" "am_itemGuid ?n = am_itemGuid m + 1" "am_bags ?n = am_bags m" for k
    by (simp_all add: GetAItem_def nf)
  have okn: "items_ok ?n" by (rule new_item_ok [OF ok ids(2) low nn])
  have "owned p (fst e) ?n" if "e \<in> set items" for e
    using items that owned_bag [OF okn] unfolding nn(3) by blast
  then have ok': "items_ok ?m" using okn by (simp add: take_all_items)
  have mv: "auctions_at u ?m = (if u = s then om_put (au_Id a) a (auctions_at s m) else auctions_at u m)"
    "GetAItem k ?m = (if k = ai_guidLow new then Some new else GetAItem k m)" "am_auctionId ?m = am_auctionId m + 1"
    "am_money ?m = (am_money m)(p := am_money m p - ucast d)" for u k
    by (simp_all add: take_all_frame nf GetAItem_def)
  have out: "mailed (am_out ?m) = mailed (am_out m)" "ah_db (am_out ?m) db = (ah_db (am_out m) db)(au_Id a \<mapsto> row_of a)" for db
    by (simp_all add: take_all_frame nf mailed_def [of "[_]"] ah_db_def [of "[_]"])
  show ?thesis
    by (rule add_auction_keeps(1) [OF inv ids(1) aa(1-4) d mv(1) _ _ ok' mv(3,4) out, where it = new]) (simp_all only: aa mv free)
qed

lemma put_up_keeps:
  assumes inv: "ah_inv m" and ids: "am_auctionId m < - 1" "am_itemGuid m < - 1"
    and items: "items \<noteq> []" "\<forall>e \<in> set items. \<exists>g. map_of (am_bags m p) g = Some (fst e)" and fc: "finalCount \<noteq> 0"
    and d: "d = GetAuctionDeposit E h etime (fst (hd items)) finalCount" "ucast d \<le> am_money m p"
  shows "\<exists>m' a. put_up E p npc s h bid buyout etime items finalCount m = Some m' \<and> GetAuction s (am_auctionId m) m' = Some a \<and>
    au_deposit a = d \<and> (d < 0x80000000 \<longrightarrow> keeps 0 m m')"
proof -
  define item where "item = fst (hd items)"
  define n where "n = take_money p (s32 (- s32 (uint d))) m"
  define new where "new = item\<lparr>ai_guidLow := am_itemGuid m, ai_count := min finalCount (it_maxStackSize (ahe_template E (ai_entry item)))\<rparr>"
  define t where "t = f_to_uint32 (f_mul (f_of_int (uint etime)) (RATE_AUCTION_TIME E))"
  define a where "a = (\<lambda>it. new_auction E (am_auctionId m) npc h p bid buyout t d it)"
  note ok = ah_invD(3) [OF inv]
  obtain g where bag: "map_of (am_bags m p) g = Some item"
    using bspec [OF items(2) hd_in_set [OF items(1)]] unfolding item_def by blast
  have free: "GetAItem (ai_guidLow item) m = None" using items_okD(2) [OF ok bag] by simp
  have free': "GetAItem (am_itemGuid m) m = None" using items_okD(1) [OF ok, of "am_itemGuid m"] by (cases "GetAItem (am_itemGuid m) m") auto
  note eq = put_up_eq [OF items(1) fc item_def d(1) [folded item_def] d(2) n_def free free' new_def t_def a_def]
  have aa: "fresh_auction d it m (a it)" for it by (simp add: fresh_auction_def a_def new_auction_def)
  then have ad: "au_Id (a it) = am_auctionId m" "au_deposit (a it) = d" for it by (simp_all add: fresh_auction_def)
  have pd: "paid_deposit p d m n" if "d < 0x80000000"
    using deposit_taken [OF that d(2)] by (simp add: paid_deposit_def n_def)
  show ?thesis
  proof (cases "length items = 1 \<and> ai_count item = snd (hd items)")
    case True
    let ?m = "sold_out p (a item) [DeleteItemFromInventory (ai_guidLow item), SaveItem item] (MoveItemFromInventory p item (entered s (a item) item n))"
    have "GetAuction s (am_auctionId m) ?m = Some (a item)" by (simp add: GetAuction_def MoveItemFromInventory_def ad)
    moreover have "put_up E p npc s h bid buyout etime items finalCount m = Some ?m" using eq True by simp
    ultimately show ?thesis using put_direct [OF inv ids(1) bag d(2) pd aa] ad(2) by blast
  next
    case False
    let ?m = "sold_out p (a new) [SaveItem new] (fold (take_from_stack p) items (entered s (a new) new (n\<lparr>am_itemGuid := am_itemGuid m + 1\<rparr>)))"
    have "GetAuction s (am_auctionId m) ?m = Some (a new)" by (simp add: GetAuction_def take_all_frame ad)
    moreover have "put_up E p npc s h bid buyout etime items finalCount m = Some ?m" unfolding eq using False by (simp only: if_False)
    moreover have "ai_guidLow new = am_itemGuid m" by (simp add: new_def)
    ultimately show ?thesis using put_clone [OF inv ids items(2) d(2) pd aa] ad(2) by blast
  qed
qed

section \<open>Sessions\<close>

definition small_deposits :: "ah_mgr \<Rightarrow> bool" where
  "small_deposits m \<longleftrightarrow> (\<forall>s i a. GetAuction s i m = Some a \<longrightarrow> au_deposit a < 0x80000000)"

definition ids_left :: "ah_mgr \<Rightarrow> bool" where
  "ids_left m \<longleftrightarrow> am_auctionId m < - 1 \<and> am_itemGuid m < - 1"

definition fair :: "ah_env \<Rightarrow> ah_mgr \<Rightarrow> bool" where
  "fair E m \<longleftrightarrow> (\<forall>s i a. GetAuction s i m = Some a \<longrightarrow> fair_cut E a)"

lemma sell_keeps:
  assumes inv: "ah_inv m" and ids: "ids_left m"
  shows "\<exists>m'. HandleAuctionSellItem E p npc gs bid buyout etime m = Some m' \<and> (small_deposits m' \<longrightarrow> keeps 0 m m')"
proof -
  have refuse: "keeps 0 m (SendAuctionCommandResult p None AUCTION_SELL_ITEM err m)" for err
    by (rule keeps_first_says [OF inv says_mails(7)])
  have put: "\<exists>m'. put_up E p npc s h bid buyout t items (sum_list (map snd items)) m = Some m' \<and> (small_deposits m' \<longrightarrow> keeps 0 m m')"
    if i: "sell_items E m p gs 0 = Inr items" and n: "sum_list (map snd items) \<noteq> 0" for s h items t
  proof (cases "HasEnoughMoney (ucast (GetAuctionDeposit E h t (fst (hd items)) (sum_list (map snd items)))) (am_money m p)")
    case True
    have "items \<noteq> []" using n by auto
    moreover have "\<forall>e \<in> set items. \<exists>g. map_of (am_bags m p) g = Some (fst e)" using sell_items_ok [OF i] by blast
    moreover have "am_auctionId m < - 1" "am_itemGuid m < - 1" using ids by (simp_all add: ids_left_def)
    ultimately obtain m' a where "put_up E p npc s h bid buyout t items (sum_list (map snd items)) m = Some m'"
      "GetAuction s (am_auctionId m) m' = Some a" "au_deposit a < 0x80000000 \<longrightarrow> keeps 0 m m'"
      using put_up_keeps [OF inv _ _ _ _ n refl True [unfolded HasEnoughMoney_def], of npc s bid buyout] by metis
    then show ?thesis unfolding small_deposits_def by blast
  next
    case False
    then show ?thesis using refuse by (simp add: put_up_def Let_def)
  qed
  define Q where "Q r \<longleftrightarrow> (\<exists>m'. r = Some m' \<and> (small_deposits m' \<longrightarrow> keeps 0 m m'))" for r
  have "Q (Some m)" "\<And>err. Q (Some (SendAuctionCommandResult p None AUCTION_SELL_ITEM err m))"
    "\<And>s h items t. sell_items E m p gs 0 = Inr items \<Longrightarrow> sum_list (map snd items) \<noteq> 0 \<Longrightarrow>
       Q (put_up E p npc s h bid buyout t items (sum_list (map snd items)) m)"
    using keeps_refl [OF inv] refuse put by (simp_all add: Q_def)
  then have "Q (HandleAuctionSellItem E p npc gs bid buyout etime m)"
    unfolding HandleAuctionSellItem_def Let_def by (auto split: option.split sum.split)
  then show ?thesis by (simp add: Q_def)
qed

lemma place_bid_keeps:
  assumes inv: "ah_inv m" and p: "p \<noteq> 0" and fair: "fair E m"
  shows "\<exists>n. keeps n m (HandleAuctionPlaceBid E p npc i price m)"
proof (cases "i = 0 \<or> price = 0 \<or> ahe_npc E npc = None")
  case True
  then show ?thesis using keeps_refl [OF inv] by (auto simp: HandleAuctionPlaceBid_def)
next
  case False
  then obtain f where f: "ahe_npc E npc = Some f" by blast
  have refuse: "keeps 0 m (SendAuctionCommandResult p a act err m)" for a act err
    by (rule keeps_first_says [OF inv says_mails(7)])
  have save: "keeps n m m1 \<Longrightarrow> keeps n m (ah_emit [SaveInventoryAndGold p x] m1)" for n m1 x
    by (rule keeps_says [OF _ says_quiet(1)])
  show ?thesis
  proof (cases "GetAuction (GetAuctionsMap E f) i m")
    case None
    then show ?thesis using False f refuse by (auto simp: HandleAuctionPlaceBid_def Let_def)
  next
    case a: (Some a)
    consider "au_owner a = p" | "price \<le> au_bid a \<or> price < au_startbid a"
      | "(price < au_buyout a \<or> au_buyout a = 0) \<and> price < au_bid a + ucast (GetAuctionOutBid a)" | "\<not> price \<le> am_money m p"
      | "au_owner a \<noteq> p" "au_bid a < price" "au_startbid a \<le> price" "price \<le> am_money m p"
        "\<not> ((price < au_buyout a \<or> au_buyout a = 0) \<and> price < au_bid a + ucast (GetAuctionOutBid a))"
      using not_le by blast
    then show ?thesis
    proof cases
      case 5
      define side where "side = GetAuctionsMap E f"
      have eq: "HandleAuctionPlaceBid E p npc i price m =
          (let m1 = (if price < au_buyout a \<or> au_buyout a = 0 then bid_on E p side a price m else buy_out E p side a m)
           in ah_emit [SaveInventoryAndGold p (am_money m1 p)] m1)"
      proof -
        have c: "(i = 0 \<or> price = 0) = False" "(au_owner a = p) = False" "(price \<le> au_bid a \<or> price < au_startbid a) = False"
          "HasEnoughMoney price (am_money m p)" using False 5 by (auto simp: HasEnoughMoney_def)
        show ?thesis using 5(5)
          by (simp only: HandleAuctionPlaceBid_def Let_def side_def f a c option.case if_False not_True_eq_False)
      qed
      have as: "GetAuction side i m = Some a" using a by (simp add: side_def)
      show ?thesis
      proof (cases "price < au_buyout a \<or> au_buyout a = 0")
        case True
        then show ?thesis using bid_on_keeps(1) [OF inv as p 5(1,4,2,3) True, of E] save unfolding eq Let_def by auto
      next
        case False
        then have "au_buyout a \<noteq> 0" "au_buyout a \<le> am_money m p" using 5(4) by auto
        moreover have "fair_cut E a" using fair as unfolding fair_def by blast
        ultimately have "\<exists>n. keeps n m (buy_out E p side a m)" using buy_out_keeps(1) [OF inv as p] by blast
        then show ?thesis using save False unfolding eq Let_def by auto
      qed
    qed (use False f a refuse keeps_refl [OF inv] in \<open>auto simp: HandleAuctionPlaceBid_def Let_def HasEnoughMoney_def\<close>)
  qed
qed

lemma cancel_step:
  assumes inv: "ah_inv m"
  shows "\<exists>n. keeps n m (HandleAuctionRemoveItem E p npc i m)"
proof (cases "\<exists>f a it. ahe_npc E npc = Some f \<and> GetAuction (GetAuctionsMap E f) i m = Some a \<and> au_owner a = p \<and>
    GetAItem (au_itemGUIDLow a) m = Some it \<and> cancel_fee E a \<le> am_money m p")
  case True
  then show ?thesis using cancel_keeps(1) [OF inv] by blast
next
  case False
  have "says 0 m (HandleAuctionRemoveItem E p npc i m)" by (rule cancel_refused) (use False in blast)
  then show ?thesis using keeps_first_says [OF inv] by blast
qed

lemma GetAuction_emit: "GetAuction s i (ah_emit xs m) = GetAuction s i m"
  by (simp add: GetAuction_def)

lemma expire_step:
  assumes "ah_inv m" and "fair E m"
  shows "(\<exists>n. keeps n m (expire_auction E s i m)) \<and> fair E (expire_auction E s i m)"
proof (cases "GetAuction s i m")
  case None
  then show ?thesis using assms keeps_refl by (auto simp: expire_auction_def)
next
  case (Some a)
  have "GetAuction t j (expire_auction E s i m) = (if t = s \<and> j = au_Id a then None else GetAuction t j m)" for t j
    using Some says_reads(1) [OF close_says] by (simp add: expire_auction_def GetAuction_changes au_DeleteFromDB_def GetAuction_emit)
  then have "fair E (expire_auction E s i m)" using assms(2) by (simp add: fair_def)
  moreover have "\<exists>n. keeps n m (expire_auction E s i m)"
    using expire_keeps(1) [OF assms(1) Some] assms(2) Some unfolding fair_def by blast
  ultimately show ?thesis by blast
qed

lemma house_step:
  assumes "ah_inv m" and "fair E m"
  shows "(\<exists>n. keeps n m (house_Update E s ids m)) \<and> fair E (house_Update E s ids m)"
proof -
  have "(\<exists>n. keeps n m (fold (expire_auction E s) ids m)) \<and> fair E (fold (expire_auction E s) ids m)"
    using assms
  proof (induction ids arbitrary: m)
    case (Cons i ids)
    obtain n where n: "keeps n m (expire_auction E s i m)" "fair E (expire_auction E s i m)"
      using expire_step [OF Cons.prems] by blast
    then have "ah_inv (expire_auction E s i m)" by (simp add: keeps_def)
    then show ?case using Cons.IH [OF _ n(2)] keeps_trans [OF n(1)] by (auto intro: exI)
  qed (auto intro: keeps_refl)
  then show ?thesis using assms keeps_refl by (auto simp: house_Update_def)
qed


datatype ah_event =
    Sell uint32 uint64 "(uint64 \<times> uint32) list" uint64 uint64 uint32
  | Bid uint32 uint64 uint32 uint64
  | Cancel uint32 uint64 uint32
  | Tick "uint32 list" "uint32 list" "uint32 list"

fun ah_apply :: "ah_env \<Rightarrow> ah_event \<Rightarrow> ah_mgr \<Rightarrow> ah_mgr option" where
  "ah_apply E (Sell p npc gs bid buyout etime) m = HandleAuctionSellItem E p npc gs bid buyout etime m"
| "ah_apply E (Bid p npc i price) m = Some (HandleAuctionPlaceBid E p npc i price m)"
| "ah_apply E (Cancel p npc i) m = Some (HandleAuctionRemoveItem E p npc i m)"
| "ah_apply E (Tick ids1 ids2 ids3) m = Some (ah_Update E ids1 ids2 ids3 m)"

fun bidder_ok :: "ah_event \<Rightarrow> bool" where
  "bidder_ok (Bid p npc i price) = (p \<noteq> 0)"
| "bidder_ok _ = True"

text \<open>
  The runs of an auction house from the state \<open>m0\<close>.  At each step the environment may be another; the
  cut of no running auction exceeds what is bid, and no deposit reaches \<open>2\<^sup>3\<^sup>1\<close>, where its sign
  would change.
\<close>

inductive ah_session :: "ah_mgr \<Rightarrow> ah_mgr \<Rightarrow> bool" for m0 where
  start: "ah_session m0 m0"
| step: "ah_session m0 m \<Longrightarrow> ids_left m \<Longrightarrow> bidder_ok ev \<Longrightarrow> fair E m \<Longrightarrow> ah_apply E ev m = Some m' \<Longrightarrow> small_deposits m' \<Longrightarrow>
    ah_session m0 m'"

lemma ah_step:
  assumes "ah_inv m" and "ids_left m" and "bidder_ok ev" and "fair E m" and "ah_apply E ev m = Some m'" and "small_deposits m'"
  shows "\<exists>n. keeps n m m'"
proof (cases ev)
  case (Sell p npc gs bid buyout etime)
  then show ?thesis using sell_keeps [OF assms(1,2)] assms(5,6) by (metis ah_apply.simps(1) option.inject)
next
  case (Bid p npc i price)
  then show ?thesis using place_bid_keeps [OF assms(1) _ assms(4)] assms(3,5) by auto
next
  case (Cancel p npc i)
  then show ?thesis using cancel_step [OF assms(1)] assms(5) by auto
next
  case (Tick ids1 ids2 ids3)
  define m1 m2 where "m1 = house_Update E Horde ids1 m" and "m2 = house_Update E Alliance ids2 m1"
  obtain n1 where 1: "keeps n1 m m1" "fair E m1" using house_step [OF assms(1,4)] by (auto simp: m1_def)
  then have "ah_inv m1" by (simp add: keeps_def)
  then obtain n2 where 2: "keeps n2 m1 m2" "fair E m2" using house_step [OF _ 1(2)] by (auto simp: m2_def)
  then have "ah_inv m2" by (simp add: keeps_def)
  then obtain n3 where 3: "keeps n3 m2 (house_Update E Neutral ids3 m2)" using house_step [OF _ 2(2)] by blast
  have "m' = house_Update E Neutral ids3 m2" using assms(5) Tick by (simp add: ah_Update_def m1_def m2_def)
  then show ?thesis using keeps_trans [OF keeps_trans [OF 1(1) 2(1)] 3] by blast
qed

lemma session_keeps:
  assumes "ah_session m0 m" and "ah_inv m0"
  shows "\<exists>n. keeps n m0 m"
  using assms(1)
proof (induction rule: ah_session.induct)
  case start
  then show ?case using keeps_refl [OF assms(2)] by blast
next
  case (step m ev E m')
  then obtain n where n: "keeps n m0 m" by blast
  then have "ah_inv m" by (simp add: keeps_def)
  from ah_step [OF this step.hyps(2-6)] obtain k where "keeps k m m'" by blast
  then show ?case using keeps_trans [OF n] by blast
qed

end
