(* ===== verification/Float32_Bounds.thy ===== *)
theory Float32_Bounds
  imports Complex_Main Float32
begin

text \<open>
  Upper bounds for computations in \<^verbatim>\<open>float\<close>: each rounded operation on non-negative values adds at most
  the part \<open>ulp = 2\<^sup>-\<^sup>2\<^sup>3\<close> of the exact result, as long as nothing overflows or is denormal.
  \<open>fle k x r\<close> says that \<open>x\<close> is a finite value between 0 and \<open>r\<close> with an exponent of at least \<open>-k\<close>.
\<close>

definition ulp :: real where "ulp = 1 / 2 ^ 23"

definition fle :: "int \<Rightarrow> float32 \<Rightarrow> real \<Rightarrow> bool" where
  "fle k x r \<longleftrightarrow> (\<exists>m e. x = Fin m e \<and> 0 \<le> m \<and> - k \<le> e \<and> e \<le> 100 \<and> of_int m * 2 powi e \<le> r)"

lemma fleI: "0 \<le> m \<Longrightarrow> - k \<le> e \<Longrightarrow> e \<le> 100 \<Longrightarrow> of_int m * 2 powi e \<le> r \<Longrightarrow> fle k (Fin m e) r"
  by (auto simp: fle_def)

lemma fleE:
  assumes "fle k x r"
  obtains m e where "x = Fin m e" "0 \<le> m" "- k \<le> e" "e \<le> 100" "of_int m * 2 powi e \<le> r"
  using assms unfolding fle_def by blast

lemma fle_mono: "fle k x r \<Longrightarrow> r \<le> r' \<Longrightarrow> fle k x r'"
  unfolding fle_def by force

lemma nbits_lower: "0 < n \<Longrightarrow> 2 ^ (nbits n - 1) \<le> n"
proof (induction n rule: nbits.induct)
  case (1 n)
  show ?case
  proof (cases "n div 2 = 0")
    case True
    then show ?thesis using 1 by (simp add: nbits.simps [of n])
  next
    case False
    then have "2 ^ (nbits (n div 2) - 1) \<le> n div 2" using 1 by simp
    moreover have "nbits (n div 2) = Suc (nbits (n div 2) - 1)" using False by (simp add: nbits.simps [of "n div 2"])
    ultimately have "2 ^ nbits (n div 2) \<le> 2 * (n div 2)" by (metis power_Suc mult_le_mono2)
    then show ?thesis using 1 by (simp add: nbits.simps [of n])
  qed
qed

lemma rne_upper: "0 \<le> m \<Longrightarrow> 0 \<le> rne m k \<and> rne m k * 2 ^ k \<le> m + 2 ^ k"
proof -
  assume "0 \<le> m"
  moreover have "m div 2 ^ k * 2 ^ k + m mod 2 ^ k = m" by (rule div_mult_mod_eq)
  moreover have "0 \<le> m mod 2 ^ k" by simp
  ultimately have q: "0 \<le> m div 2 ^ k" "m div 2 ^ k * 2 ^ k \<le> m" by (simp add: pos_imp_zdiv_nonneg_iff, linarith)
  have "rne m k \<le> m div 2 ^ k + 1" "m div 2 ^ k \<le> rne m k" by (auto simp: rne_def Let_def)
  moreover from this have "rne m k * 2 ^ k \<le> (m div 2 ^ k + 1) * 2 ^ k" by (intro mult_right_mono) auto
  ultimately show ?thesis using q by (auto simp: algebra_simps)
qed

text \<open>A positive value is at least the power of two of its leading digit.\<close>

lemma leading_digit:
  assumes "0 < m" and "of_int m * 2 powi e \<le> (2 :: real) powi r"
  shows "int (nbits (nat m)) + e \<le> r + 1"
proof -
  have n: "0 < nbits (nat m)" using assms(1) by (simp add: nbits.simps [of "nat m"])
  have "2 ^ (nbits (nat m) - 1) \<le> nat m" using nbits_lower [of "nat m"] assms(1) by simp
  then have "(2 :: int) ^ (nbits (nat m) - 1) \<le> m" using assms(1) by (simp add: le_nat_iff)
  then have "(of_int (2 ^ (nbits (nat m) - 1)) :: real) \<le> of_int m" by (simp only: of_int_le_iff)
  then have "2 ^ (nbits (nat m) - 1) * 2 powi e \<le> of_int m * (2 :: real) powi e" by (intro mult_right_mono) simp_all
  also have "\<dots> \<le> 2 powi r" by (rule assms(2))
  finally have "(2 :: real) powi (int (nbits (nat m)) - 1 + e) \<le> 2 powi r"
    using n by (simp add: power_int_add of_nat_diff flip: power_int_of_nat)
  then have "\<not> r < int (nbits (nat m)) - 1 + e"
    using power_int_strict_increasing [of r "int (nbits (nat m)) - 1 + e" "2 :: real"] by auto
  then show ?thesis by simp
qed

text \<open>The rounded value before the test for overflow.\<close>

lemma round_upper:
  assumes m: "0 \<le> m" and e: "- 149 \<le> e"
  defines "e1 \<equiv> max (- 149) (e + int (nbits (nat \<bar>m\<bar>)) - 24)"
  defines "m2 \<equiv> if e1 \<le> e then m else rne m (nat (e1 - e))"
  defines "e2 \<equiv> if e1 \<le> e then e else e1"
  shows "0 \<le> m2" "e \<le> e2" "of_int m2 * 2 powi e2 \<le> of_int m * 2 powi e * (1 + ulp)"
proof -
  show "0 \<le> m2" "e \<le> e2" using m rne_upper [OF m] by (auto simp: m2_def e2_def)
  show "of_int m2 * 2 powi e2 \<le> of_int m * 2 powi e * (1 + ulp)"
  proof (cases "e1 \<le> e")
    case True
    have "0 \<le> of_int m * 2 powi e * ulp" using m by (simp add: ulp_def)
    then show ?thesis using True by (simp add: m2_def e2_def algebra_simps)
  next
    case False
    define k where "k = nat (e1 - e)"
    have b: "e1 = e + int (nbits (nat m)) - 24" using False e m by (auto simp: e1_def max_def split: if_splits)
    then have k: "e1 = e + int k" "nbits (nat m) = k + 24" "0 < k" using False by (auto simp: k_def)
    have "0 < nat m" using k(2) by (cases "nat m = 0") simp_all
    then have "2 ^ (k + 23) \<le> nat m" using nbits_lower [of "nat m"] k(2) by (simp add: add.commute)
    then have "(2 :: int) ^ (k + 23) \<le> m" using m by (simp add: le_nat_iff)
    then have "(of_int ((2 :: int) ^ (k + 23)) :: real) \<le> of_int m" by (simp only: of_int_le_iff)
    then have big: "(2 :: real) ^ k \<le> of_int m * ulp" by (simp add: ulp_def power_add field_simps)
    have "of_int (rne m k * 2 ^ k) \<le> (of_int (m + 2 ^ k) :: real)" using rne_upper [OF m, of k] by (simp only: of_int_le_iff)
    then have "of_int (rne m k) * 2 ^ k \<le> of_int m * (1 + ulp)" using big by (simp add: algebra_simps)
    then have "of_int (rne m k) * 2 ^ k * 2 powi e \<le> of_int m * (1 + ulp) * 2 powi e" by (rule mult_right_mono) simp
    moreover have "2 powi e2 = 2 ^ k * (2 :: real) powi e" using False k(1) by (simp add: e2_def power_int_add)
    ultimately show ?thesis using False by (simp add: m2_def k_def [symmetric] mult_ac)
  qed
qed

lemma f_round_le:
  assumes m: "0 \<le> m" and e: "- 149 \<le> e" "- k \<le> e" "e \<le> 100" and r: "of_int m * 2 powi e \<le> r" "r \<le> 2 ^ 100"
  shows "fle k (f_round m e) (r * (1 + ulp))"
proof -
  define e1 where "e1 = max (- 149) (e + int (nbits (nat \<bar>m\<bar>)) - 24)"
  define m2 where "m2 = (if e1 \<le> e then m else rne m (nat (e1 - e)))"
  define e2 where "e2 = (if e1 \<le> e then e else e1)"
  note u = round_upper [OF m e(1), folded e1_def, folded m2_def e2_def]
  have le: "of_int m2 * 2 powi e2 \<le> r * (1 + ulp)"
    using u(3) mult_right_mono [OF r(1), of "1 + ulp"] by (simp add: ulp_def)
  have "e1 \<le> 77" if "e < e1"
  proof -
    have "0 < m" using that m e by (cases "m = 0") (auto simp: e1_def)
    moreover have "of_int m * 2 powi e \<le> (2 :: real) powi 100" using r by simp
    ultimately show ?thesis using leading_digit [of m e 100] that e by (auto simp: e1_def)
  qed
  then have e2: "e2 \<le> 100" using e(3) by (auto simp: e2_def)
  have "r * (1 + ulp) \<le> 2 ^ 100 * 2" using r(2) by (intro mult_mono) (simp_all add: ulp_def)
  then have "of_int m2 * 2 powi e2 \<le> (2 :: real) powi 101" using le by simp
  then have "\<not> 128 < int (nbits (nat \<bar>m2\<bar>)) + e2"
    using leading_digit [of m2 e2 101] u(1) e2 by (cases "m2 = 0") auto
  then have "f_round m e = Fin m2 e2"
    unfolding f_round_def Let_def e1_def [symmetric] m2_def [symmetric] e2_def [symmetric] by (rule if_not_P)
  then show ?thesis using fleI [OF u(1) _ e2 le, of k] u(2) e(2) by simp
qed


section \<open>The operations\<close>

lemma f_of_int_le: "0 \<le> n \<Longrightarrow> of_int n \<le> r \<Longrightarrow> r \<le> 2 ^ 100 \<Longrightarrow> fle 0 (f_of_int n) (r * (1 + ulp))"
  using f_round_le [of n 0 0 r] by (simp add: f_of_int_def)

lemma f_mul_le:
  assumes x: "fle k x r" and c: "0 \<le> c" and k: "k \<le> 149" and r: "r * of_int c \<le> 2 ^ 100"
  shows "fle k (f_mul x (Fin c 0)) (r * of_int c * (1 + ulp))"
proof -
  from x obtain m e where m: "x = Fin m e" "0 \<le> m" "- k \<le> e" "e \<le> 100" "of_int m * 2 powi e \<le> r" by (rule fleE)
  have "of_int (m * c) * 2 powi e \<le> r * of_int c" using mult_right_mono [OF m(5), of "of_int c"] c by (simp add: mult_ac)
  then show ?thesis using f_round_le [of "m * c" e k "r * of_int c"] m c k r by simp
qed

lemma nbits_upper: "n < 2 ^ nbits n"
proof (induction n rule: nbits.induct)
  case (1 n)
  then show ?case by (cases "n = 0") (auto simp: nbits.simps [of n])
qed

text \<open>The quotient before it is rounded: the bit for the remainder adds less than \<open>ulp\<close>.\<close>

lemma quot_bits_le:
  assumes m: "0 \<le> m" and n: "0 < n" and s: "n * 2 ^ 27 \<le> 2 ^ s"
  shows "0 \<le> quot_bits m n s" "of_int (quot_bits m n s) \<le> 2 * (of_int m * 2 ^ s / of_int n) * (1 + ulp)"
proof -
  let ?q = "m * 2 ^ s div n"
  have q: "0 \<le> ?q" using m n by (simp add: pos_imp_zdiv_nonneg_iff)
  show "0 \<le> quot_bits m n s" using m n q by (auto simp: quot_bits_def sgn_if)
  show "of_int (quot_bits m n s) \<le> 2 * (of_int m * 2 ^ s / of_int n) * (1 + ulp)"
  proof (cases "m = 0")
    case True
    then show ?thesis by (simp add: quot_bits_def)
  next
    case False
    then have "1 \<le> m" using m by simp
    have "of_int ?q \<le> (of_int (m * 2 ^ s) / of_int n :: real)" by (rule real_of_int_div4) 
    then have le: "of_int ?q \<le> (of_int m * 2 ^ s / of_int n :: real)" by simp
    have "1 * 2 ^ s \<le> m * 2 ^ s" by (rule mult_right_mono [OF \<open>1 \<le> m\<close>]) simp
    then have "n * 2 ^ 27 \<le> m * 2 ^ s" using s by linarith
    then have "(of_int (n * 2 ^ 27) :: real) \<le> of_int (m * 2 ^ s)" by (simp only: of_int_le_iff)
    then have "2 ^ 27 \<le> (of_int m * 2 ^ s / of_int n :: real)" using n by (simp add: field_simps)
    moreover have "1 \<le> 2 * t * ulp" if "2 ^ 27 \<le> t" for t :: real using that by (simp add: ulp_def)
    ultimately have "1 \<le> 2 * (of_int m * 2 ^ s / of_int n) * ulp" by blast
    moreover have "quot_bits m n s \<le> 2 * ?q + 1" using m n q by (auto simp: quot_bits_def sgn_if)
    then have "of_int (quot_bits m n s) \<le> (of_int (2 * ?q + 1) :: real)" by (simp only: of_int_le_iff)
    ultimately show ?thesis using le by (simp add: distrib_left)
  qed
qed

lemma f_div_le:
  assumes x: "fle k x r" and n: "0 < n" "n < 2 ^ 24" and k: "0 \<le> k" "k \<le> 97" and r: "r * (1 + ulp) \<le> 2 ^ 100"
  shows "fle (k + 52) (f_div x (Fin n 0)) (r / of_int n * (1 + ulp) * (1 + ulp))"
proof -
  from x obtain m e where m: "x = Fin m e" "0 \<le> m" "- k \<le> e" "e \<le> 100" "of_int m * 2 powi e \<le> r" by (rule fleE)
  define s where "s = 27 + nbits (nat n)"
  have "nbits (nat n) \<le> 24" by (rule nbits_le) (use n in simp)
  then have s: "s \<le> 51" by (simp add: s_def)
  have "n \<le> 2 ^ nbits (nat n)" using nbits_upper [of "nat n"] n by (simp add: nat_less_iff)
  then have "n * 2 ^ 27 \<le> 2 ^ s" by (simp add: s_def power_add)
  note q = quot_bits_le [OF m(2) n(1) this]
  define v where "v = r / of_int n * (1 + ulp)"
  have e: "(2 :: real) powi (e - int s - 1) = 2 powi e / (2 * 2 ^ s)" by (simp add: power_int_diff)
  have "of_int (quot_bits m n s) * 2 powi (e - int s - 1)
      \<le> 2 * (of_int m * 2 ^ s / of_int n) * (1 + ulp) * (2 :: real) powi (e - int s - 1)"
    by (rule mult_right_mono [OF q(2)]) simp
  also have "\<dots> = of_int m * 2 powi e / of_int n * (1 + ulp)" by (simp add: e)
  also have "\<dots> \<le> v" unfolding v_def
    by (intro mult_right_mono divide_right_mono m(5)) (use n in \<open>simp_all add: ulp_def\<close>)
  finally have v: "of_int (quot_bits m n s) * 2 powi (e - int s - 1) \<le> v" .
  have "0 \<le> r" using m(2,5) by (smt (verit) mult_nonneg_nonneg of_int_0_le_iff zero_le_power_int)
  then have "0 \<le> r * (1 + ulp)" by (simp add: ulp_def)
  then have "r * (1 + ulp) / of_int n \<le> r * (1 + ulp) / 1" using n(1) by (intro divide_left_mono) simp_all
  then have "v \<le> 2 ^ 100" using r by (simp add: v_def)
  moreover have "- 149 \<le> e - int s - 1" "- (k + 52) \<le> e - int s - 1" "e - int s - 1 \<le> 100" using m s k by simp_all
  ultimately have "fle (k + 52) (f_round (quot_bits m n s) (e - int s - 1)) (v * (1 + ulp))" using f_round_le q(1) v by blast
  then show ?thesis using m n by (simp add: v_def s_def Let_def)
qed

text \<open>The conversions drop the fraction, so they do not exceed the bound.\<close>

lemma f_trunc_le:
  assumes "fle k x r"
  shows "\<exists>n. f_trunc x = Some n \<and> 0 \<le> n \<and> of_int n \<le> r"
proof -
  from assms obtain m e where m: "x = Fin m e" "0 \<le> m" "- k \<le> e" "e \<le> 100" "of_int m * 2 powi e \<le> r" by (rule fleE)
  show ?thesis
  proof (cases "0 \<le> e")
    case True
    then have "(2 :: real) powi e = 2 ^ nat e" by (simp add: power_int_def)
    then show ?thesis using m True by simp
  next
    case False
    then have "(2 :: real) powi e = 1 / 2 ^ nat (- e)" by (simp add: power_int_def power_one_over inverse_eq_divide)
    then have "of_int (m div 2 ^ nat (- e)) \<le> r"
      using m(5) real_of_int_div4 [of m "2 ^ nat (- e)"] by simp
    then show ?thesis using m(1,2) False by (cases "m = 0") (auto simp: sgn_if pos_imp_zdiv_nonneg_iff)
  qed
qed

lemma f_to_uint64_le:
  assumes "fle k x r" and "r < 2 ^ 64"
  shows "of_int (uint (f_to_uint64 x)) \<le> r"
proof -
  obtain n where n: "f_trunc x = Some n" "0 \<le> n" "of_int n \<le> r" using f_trunc_le [OF assms(1)] by blast
  have "of_int n < (of_int (2 ^ 64) :: real)" using n(3) assms(2) by simp
  then have "n < 2 ^ 64" by (simp only: of_int_less_iff)
  then show ?thesis using n by (simp add: f_to_uint64_def uint_word_of_int)
qed

lemma f_to_int32_le:
  assumes "fle k x r"
  shows "of_int (max 0 (f_to_int32 x)) \<le> r"
proof -
  obtain n where n: "f_trunc x = Some n" "0 \<le> n" "of_int n \<le> r" using f_trunc_le [OF assms] by blast
  have "f_to_int32 x = int_or_indef n" using n(1) by (cases x) auto
  moreover have "0 \<le> r" using n(2,3) by (metis of_int_0_le_iff order_trans)
  ultimately show ?thesis using n by (simp add: int_or_indef_def)
qed

end
