(* ===== verification/Auction_Theorems.thy ===== *)
theory Auction_Theorems
  imports Auction_Sessions Float32_Bounds
begin

text \<open>
  The results for the auction house: the cut of a house that takes less than everything never exceeds the bid,
  the runs keep the invariant and create no gold, and the ways in which gold and items get lost.
\<close>

unbundle bit_operations_syntax

section \<open>The cut\<close>

lemma small_factor: "(1 + ulp) ^ 6 * (99 / 100) \<le> 1"
  by (simp add: ulp_def power_divide field_simps)

lemma CalculatePct_uint64_le:
  fixes base :: uint64
  assumes "pct \<le> 99"
  shows "of_int (uint (CalculatePct_uint64 base pct)) \<le> of_int (uint base) * (of_int (uint pct) / 100) * (1 + ulp) ^ 4"
proof -
  define b c where "b = (of_int (uint base) :: real)" and "c = uint pct"
  have c: "0 \<le> c" "c \<le> 99" using assms by (simp_all add: c_def word_le_def)
  have "uint base < 2 ^ 64" using uint_lt2p [of base] by simp
  then have "(of_int (uint base) :: real) < of_int (2 ^ 64)" by (simp only: of_int_less_iff)
  then have b: "0 \<le> b" "b \<le> 2 ^ 64" unfolding b_def by (simp_all only: of_int_0_le_iff uint_ge_0) simp
  have u: "1 + ulp \<le> 2" "0 \<le> ulp" by (simp_all add: ulp_def)
  have c': "(of_int c :: real) \<le> 99" using c(2) by simp
  have b1: "b * (1 + ulp) \<le> 2 ^ 65" using mult_mono [OF b(2) u(1)] u(2) by simp
  have b2: "b * (1 + ulp) * of_int c \<le> 2 ^ 72" using mult_mono [OF b1 c'] c(1) by simp
  have b3: "b * (1 + ulp) * of_int c * (1 + ulp) \<le> 2 ^ 73" using mult_mono [OF b2 u(1)] u(2) by simp
  have b4: "b * (1 + ulp) * of_int c * (1 + ulp) * (1 + ulp) \<le> 2 ^ 74" using mult_mono [OF b3 u(1)] u(2) by simp
  have 1: "fle 0 (f_of_int (uint base)) (b * (1 + ulp))" using f_of_int_le [of "uint base" b] b by (simp add: b_def)
  have 2: "fle 0 (f_mul (f_of_int (uint base)) (Fin c 0)) (b * (1 + ulp) * of_int c * (1 + ulp))"
    using f_mul_le [OF 1 c(1)] b2 by simp
  have 3: "fle 52 (f_div (f_mul (f_of_int (uint base)) (Fin c 0)) (Fin 100 0))
      (b * (1 + ulp) * of_int c * (1 + ulp) / 100 * (1 + ulp) * (1 + ulp))"
    using f_div_le [OF 2, of 100] b4 by simp
  have e: "b * (1 + ulp) * of_int c * (1 + ulp) / 100 * (1 + ulp) * (1 + ulp) = b * (of_int c / 100) * (1 + ulp) ^ 4"
    by (simp add: power4_eq_xxxx)
  have f: "f_of_int (uint pct) = Fin c 0" "f_of_int 100 = Fin 100 0" using c by (auto intro!: f_of_int_exact simp: c_def)
  have "b * (of_int c / 100) \<le> 2 ^ 64 * (99 / 100)" by (rule mult_mono) (use b c c' in simp_all)
  then have "b * (of_int c / 100) * (1 + ulp) ^ 4 \<le> 2 ^ 64 * (99 / 100) * (1 + ulp) ^ 4" using u(2) by (intro mult_right_mono) simp_all
  also have "\<dots> < 2 ^ 64" by (simp add: ulp_def power_divide field_simps)
  finally have "b * (of_int c / 100) * (1 + ulp) ^ 4 < 2 ^ 64" .
  then have "of_int (uint (f_to_uint64 (f_div (f_mul (f_of_int (uint base)) (Fin c 0)) (Fin 100 0))))
      \<le> b * (of_int c / 100) * (1 + ulp) ^ 4"
    by (rule f_to_uint64_le [OF 3 [unfolded e]])
  then show ?thesis by (simp only: CalculatePct_uint64_def f b_def c_def)
qed


lemma rate_factor:
  assumes "0 \<le> b" and "c \<le> 99"
  shows "b * (c / 100) * (1 + ulp) ^ 4 * (1 + ulp) ^ 2 \<le> b"
proof -
  have "b * (c / 100) \<le> b * (99 / 100)" using assms by (intro mult_left_mono) simp_all
  moreover have "0 \<le> (1 + ulp) ^ 6" by (simp add: ulp_def)
  ultimately have "b * (c / 100) * (1 + ulp) ^ 6 \<le> b * (99 / 100) * (1 + ulp) ^ 6" by (rule mult_right_mono)
  also have "\<dots> = b * ((1 + ulp) ^ 6 * (99 / 100))" by (simp only: mult_ac)
  also have "\<dots> \<le> b * 1" by (rule mult_left_mono [OF small_factor assms(1)])
  finally have "b * (c / 100) * (1 + ulp) ^ 6 \<le> b" by (simp only: mult_1_right)
  moreover have "(1 + ulp) ^ 6 = (1 + ulp) ^ 4 * (1 + ulp) ^ 2" by (subst power_add [symmetric]) simp
  ultimately show ?thesis by (simp only: mult.assoc)
qed

text \<open>The product with a rate of one, as an integer.\<close>

lemma times_one_le:
  assumes n: "0 \<le> n" "of_int n \<le> r" and x: "r * (1 + ulp) ^ 2 \<le> of_int x" "x < 2 ^ 64"
  shows "max 0 (f_to_int32 (f_mul (f_of_int n) (Fin 1 0))) \<le> x"
proof -
  have u: "1 \<le> 1 + ulp" by (simp add: ulp_def)
  have "0 \<le> (of_int n :: real)" using n(1) by (simp only: of_int_0_le_iff)
  then have r: "0 \<le> r" using n(2) by (rule order_trans)
  have "(of_int x :: real) \<le> of_int (2 ^ 100)" using x(2) unfolding of_int_le_iff by simp
  then have x': "(of_int x :: real) \<le> 2 ^ 100" by simp
  have r1: "r \<le> r * (1 + ulp)" using mult_left_mono [OF u r] by (simp only: mult_1_right)
  have r2: "r * (1 + ulp) \<le> r * (1 + ulp) ^ 2"
    using mult_left_mono [OF u order_trans [OF r r1]] by (simp only: mult_1_right power2_eq_square mult.assoc)
  have s1: "r * (1 + ulp) \<le> 2 ^ 100" by (rule order_trans [OF r2 order_trans [OF x(1) x']])
  have "fle 0 (f_of_int n) (r * (1 + ulp))" by (rule f_of_int_le [OF n order_trans [OF r1 s1]])
  then have "fle 0 (f_mul (f_of_int n) (Fin 1 0)) (r * (1 + ulp) * of_int 1 * (1 + ulp))"
    by (rule f_mul_le) (simp, simp, simp only: of_int_1 mult_1_right s1)
  then have "fle 0 (f_mul (f_of_int n) (Fin 1 0)) (r * (1 + ulp) ^ 2)"
    by (simp only: of_int_1 mult_1_right power2_eq_square mult.assoc)
  from order_trans [OF f_to_int32_le [OF this] x(1)] show ?thesis by (simp only: of_int_le_iff)
qed

text \<open>A house that cuts at most 99 per cent, at the rate of the default configuration, is fair.\<close>

lemma cut_le:
  assumes "RATE_AUCTION_CUT E = Fin 1 0" and "cutPercent (au_house a) \<le> 99"
  shows "unat (GetAuctionCut E a) \<le> unat (au_bid a)"
proof -
  define n where "n = uint (CalculatePct_uint64 (au_bid a) (cutPercent (au_house a)))"
  define cut where "cut = max 0 (f_to_int32 (f_mul (f_of_int n) (Fin 1 0)))"
  have "uint (cutPercent (au_house a)) \<le> 99" using assms(2) by (simp add: word_le_def)
  then have "(of_int (uint (cutPercent (au_house a))) :: real) \<le> of_int 99" by (simp only: of_int_le_iff)
  then have c: "(of_int (uint (cutPercent (au_house a))) :: real) \<le> 99" by (simp only: of_int_numeral)
  have b: "0 \<le> (of_int (uint (au_bid a)) :: real)" by (simp only: of_int_0_le_iff uint_ge_0)
  have x: "uint (au_bid a) < 2 ^ 64" using uint_lt2p [of "au_bid a"] by simp
  have "cut \<le> uint (au_bid a)" unfolding cut_def
    by (rule times_one_le [OF _ _ rate_factor [OF b c] x]) (simp_all only: n_def uint_ge_0 CalculatePct_uint64_le [OF assms(2)])
  moreover have "0 \<le> cut" "cut < 4294967296" using f_to_int32_range [of "f_mul (f_of_int n) (Fin 1 0)"] unfolding cut_def by linarith+
  moreover have "GetAuctionCut E a = word_of_int cut" by (simp only: GetAuctionCut_def assms(1) cut_def n_def)
  moreover have "uint (word_of_int k :: uint32) = k" if "0 \<le> k" "k < 4294967296" for k using that by (simp add: uint_word_of_int)
  ultimately have "uint (GetAuctionCut E a) \<le> uint (au_bid a)" by metis
  then show ?thesis unfolding unat_eq_nat_uint by (rule nat_mono)
qed

lemma fair_rates:
  assumes "RATE_AUCTION_CUT E = Fin 1 0" and "\<And>s i a. GetAuction s i m = Some a \<Longrightarrow> cutPercent (au_house a) \<le> 99"
  shows "fair E m"
proof -
  have "fair_cut E a" if "GetAuction s i m = Some a" for s i a
    unfolding fair_cut_def using cut_le [OF assms(1), of "a\<lparr>au_bid := x\<rparr>" for x] assms(2) [OF that] by (simp add: trans_le_add1)
  then show ?thesis unfolding fair_def by blast
qed

section \<open>An accepted bid\<close>

lemma mailed_list [simp]: "mailed [] = 0" "mailed (x # xs) = out_gold x + mailed xs"
  by (simp_all add: mailed_def)





lemma place_bid_taken:
  assumes npc: "ahe_npc E npc = Some f" and a: "GetAuction (GetAuctionsMap E f) i m = Some a" and i: "i \<noteq> 0"
    and p: "au_owner a \<noteq> p" "price \<le> am_money m p" and price: "au_bid a < price" "au_startbid a \<le> price"
    and inc: "price < au_buyout a \<or> au_buyout a = 0 \<Longrightarrow> au_bid a + ucast (GetAuctionOutBid a) \<le> price"
  shows "HandleAuctionPlaceBid E p npc i price m =
    (let m1 = (if price < au_buyout a \<or> au_buyout a = 0 then bid_on E p (GetAuctionsMap E f) a price m
               else buy_out E p (GetAuctionsMap E f) a m)
     in ah_emit [SaveInventoryAndGold p (am_money m1 p)] m1)"
proof -
  have c: "(i = 0 \<or> price = 0) = False" "(au_owner a = p) = False" "(price \<le> au_bid a \<or> price < au_startbid a) = False"
    "HasEnoughMoney price (am_money m p)" "((price < au_buyout a \<or> au_buyout a = 0) \<and> price < au_bid a + ucast (GetAuctionOutBid a)) = False"
    using i p price inc by (auto simp: HasEnoughMoney_def)
  show ?thesis by (simp only: HandleAuctionPlaceBid_def Let_def npc a c option.case if_False not_True_eq_False)
qed


section \<open>A house with one auction\<close>

text \<open>Player 7 sells item 50, and player 8 has bid 150 of the 100 it should bring at least.\<close>

definition demo_house :: auction_house where
  "demo_house = \<lparr>houseId = 1, houseFaction = 0, depositPercent = 15, cutPercent = 5\<rparr>"

definition demo_item :: ah_item where
  "demo_item = \<lparr>ai_guidLow = 50, ai_entry = 25, ai_count = 1, ai_duration = 0, ai_randomPropertyId = 0,
     ai_tradeable = True, ai_notEmptyBag = False\<rparr>"

definition demo_auction :: auction where
  "demo_auction = \<lparr>au_Id = 1, au_auctioneer = 3, au_itemGUIDLow = 50, au_itemEntry = 25, au_itemCount = 1, au_owner = 7,
     au_startbid = 100, au_bid = 150, au_buyout = 1000, au_expire_time = 5000, au_bidder = 8, au_deposit = 100,
     au_house = demo_house, au_factionTemplateId = 12\<rparr>"

definition demo_env :: "bool \<Rightarrow> ah_env" where
  "demo_env lg = \<lparr>ahe_now = 4000, ahe_gameTime = 4000, ahe_localtime = (\<lambda>_. \<lparr>tm_sec = 0, tm_min = 0, tm_hour = 0, tm_mday = 1,
       tm_mon = 0, tm_year = 114, tm_wday = 3\<rparr>),
     ahe_online = (\<lambda>p. p = 9), ahe_account = (\<lambda>p. p), ahe_npc = (\<lambda>_. Some 12), ahe_factionMask = (\<lambda>_. Some 2),
     ahe_houseStore = (\<lambda>_. Some demo_house), ahe_auctioneerFaction = (\<lambda>_. Some 12),
     ahe_template = (\<lambda>_. \<lparr>it_SellPrice = 100, it_Flags = 0, it_maxStackSize = 20\<rparr>), ahe_twoSide = False, ahe_gmLogTrade = lg,
     ahe_mailDelay = 3600, RATE_AUCTION_TIME = Fin 1 0, RATE_AUCTION_DEPOSIT = Fin 1 0, RATE_AUCTION_CUT = Fin 1 0,
     ahe_uninitialised = 0\<rparr>"

definition demo_mgr :: ah_mgr where
  "demo_mgr = \<lparr>am_horde = [], am_alliance = [(1, demo_auction)], am_neutral = [], mAitems = [(50, demo_item)], am_auctionId = 2,
     am_itemGuid = 100, am_money = (\<lambda>p. if p = 9 then 5000 else 0), am_bags = (\<lambda>_. []), am_out = []\<rparr>"

lemma demo_reads [simp]:
  "auctions_at s demo_mgr = (if s = Alliance then [(1, demo_auction)] else [])" "mAitems demo_mgr = [(50, demo_item)]"
  "am_auctionId demo_mgr = 2" "am_itemGuid demo_mgr = 100" "am_money demo_mgr = (\<lambda>p. if p = 9 then 5000 else 0)"
  "am_bags demo_mgr = (\<lambda>_. [])" "am_out demo_mgr = []"
  by (cases s) (simp_all add: demo_mgr_def auctions_at.simps)

lemma demo_gets [simp]:
  "GetAuction s i demo_mgr = (if s = Alliance \<and> i = 1 then Some demo_auction else None)"
  "GetAItem k demo_mgr = (if k = 50 then Some demo_item else None)"
  by (simp_all add: GetAuction_def GetAItem_def)

lemma demo_side [simp]: "GetAuctionsMap (demo_env lg) f = Alliance" "ahe_npc (demo_env lg) npc = Some 12"
  by (simp_all add: GetAuctionsMap_def demo_env_def FACTION_MASK_ALLIANCE_def)

lemma demo_inv: "ah_inv demo_mgr"
proof -
  have "auctions_ok demo_mgr"
    by (rule auctions_okI) (auto simp: om_ok_def bid_ok_def demo_auction_def split: if_splits)
  moreover have "lots_ok demo_mgr" by (rule lots_okI) (auto simp: demo_auction_def split: if_splits)
  moreover have "items_ok demo_mgr" by (rule items_okI) (auto simp: demo_item_def split: if_splits)
  moreover have "purses_ok demo_mgr" by (simp add: purses_ok_def)
  ultimately show ?thesis by (simp add: ah_inv_def)
qed

lemma demo_fair: "fair (demo_env lg) demo_mgr"
  by (rule fair_rates) (auto simp: demo_env_def demo_auction_def demo_house_def split: if_splits)

lemma demo_outbid: "GetAuctionOutBid demo_auction = 7"
proof -
  have n: "nbits 100 = 7" "nbits 257698037760 = 38" by (simp_all add: nbits.simps)
  have "f_div (Fin 750 0) (Fin 100 0) = f_round 257698037760 (- 35)" by (simp add: n(1) quot_bits_def)
  also have "\<dots> = Fin 15728640 (- 21)" by (simp add: f_round_def n(2) rne_def nbits.simps)
  finally have "f_to_uint64 (f_div (Fin 750 0) (Fin 100 0)) = 7" by (simp add: f_to_uint64_def)
  then have "CalculatePct_uint64 150 5 = 7" by (simp add: CalculatePct_uint64_def f_of_int_exact f_round_exact)
  then show ?thesis by (simp add: GetAuctionOutBid_def demo_auction_def)
qed

section \<open>Theorems\<close>

text \<open>C37. At the default rate, a house that cuts at most 99 per cent of the bid never takes more than the bid, although the
  percentage is computed in \<^verbatim>\<open>float\<close> and rounded three times.\<close>

theorem cut_below_bid:
  assumes "RATE_AUCTION_CUT E = Fin 1 0" and "cutPercent (au_house a) \<le> 99"
  shows "unat (GetAuctionCut E a) \<le> unat (au_bid a)"
  by (rule cut_le [OF assms])

theorem cut_below_bid_witness: "unat (GetAuctionCut (demo_env True) demo_auction) \<le> 150"
  using cut_below_bid [of "demo_env True" demo_auction] by (simp add: demo_env_def demo_auction_def demo_house_def)






text \<open>A run of one step: player 9 outbids player 8.\<close>

lemma demo_bid_session: "ah_session demo_mgr (HandleAuctionPlaceBid (demo_env True) 9 1 1 400 demo_mgr)"
proof (rule ah_session.step [OF ah_session.start])
  show "ids_left demo_mgr" by (simp add: ids_left_def)
  show "bidder_ok (Bid 9 1 1 400)" by simp
  show "fair (demo_env True) demo_mgr" by (rule demo_fair)
  let ?b = "bid_on (demo_env True) 9 Alliance demo_auction 400 demo_mgr"
  have t: "HandleAuctionPlaceBid (demo_env True) 9 1 1 400 demo_mgr = ah_emit [SaveInventoryAndGold 9 (am_money ?b 9)] ?b"
    using place_bid_taken [OF demo_side(2), of True 1 demo_mgr demo_auction 9 400] demo_outbid
    by (simp add: Let_def demo_auction_def)
  have c: "to_pay 9 demo_auction 400 \<le> am_money demo_mgr 9" by (simp add: to_pay_def demo_auction_def)
  have a: "GetAuction Alliance 1 demo_mgr = Some demo_auction" by simp
  obtain m0 where "says (refunded (demo_env True) 9 demo_auction) demo_mgr m0" and
    "?b = SendAuctionCommandResult 9 (Some (demo_auction\<lparr>au_bidder := 9, au_bid := 400\<rparr>)) AUCTION_PLACE_BID ERR_AUCTION_OK
      (ah_emit [CHAR_UPD_AUCTION_BID 9 (ucast (400 :: uint64)) 1] (AddAuction Alliance (demo_auction\<lparr>au_bidder := 9, au_bid := 400\<rparr>)
         (ah_emit [AhCriteria 9 ''HIGHEST_AUCTION_BID'' 400] (pays 9 (to_pay 9 demo_auction 400) m0))))"
    using bid_on_eq [OF demo_inv a c, of "demo_env True"] by auto
  then have "GetAuction s i ?b = (if s = Alliance \<and> i = 1 then Some (demo_auction\<lparr>au_bidder := 9, au_bid := 400\<rparr>) else None)" for s i
    by (auto simp: says_reads [OF says_mails(7)] says_reads(1) GetAuction_emit GetAuction_changes demo_auction_def)
  then show "small_deposits (HandleAuctionPlaceBid (demo_env True) 9 1 1 400 demo_mgr)"
    by (simp add: t small_deposits_def GetAuction_emit demo_auction_def)
qed simp

text \<open>C5. Whatever the players sell, bid and cancel and whenever auctions expire, the invariant of the auction house holds: the
  ids are unique and below the next one, every auction has its item, an item is in one bag or in the house but not in both, a bid
  is at least the start bid and below the buyout price and not the owner's own.  And in every state reached no assertion of the
  code fails: as long as ids are left, every further event has a result.\<close>

theorem auction_invariant:
  assumes "ah_session m0 m" and "ah_inv m0"
  shows "ah_inv m \<and> (ids_left m \<longrightarrow> (\<forall>E ev. ah_apply E ev m \<noteq> None))"
proof -
  have inv: "ah_inv m" using session_keeps [OF assms] by (auto simp: keeps_def)
  have "ah_apply E ev m \<noteq> None" if "ids_left m" for E ev
    using sell_keeps [OF inv that] by (cases ev) force+
  with inv show ?thesis by blast
qed

theorem auction_invariant_witness: "ah_inv (HandleAuctionPlaceBid (demo_env True) 9 1 1 400 demo_mgr)"
  using auction_invariant [OF demo_bid_session demo_inv] by simp



text \<open>C36. The table of auctions follows the memory: if the statements that were sent make it the image of the auctions at the
  start of a run, they do so at its end.\<close>

theorem auction_table_in_step:
  assumes "ah_session m0 m" and "ah_inv m0" and "mirrored db m0"
  shows "ah_db (am_out m) db = (\<lambda>i. map_option row_of (find_auction i m))"
proof -
  have "mirrored db m" using session_keeps [OF assms(1,2)] assms(3) by (auto simp: keeps_def)
  then show ?thesis by (simp add: mirrored_def)
qed

lemma demo_mirrored: "mirrored [1 \<mapsto> row_of demo_auction] demo_mgr"
  by (auto simp: mirrored_def ah_db_def find_auction_def)

theorem auction_table_in_step_witness:
  "let m = HandleAuctionPlaceBid (demo_env True) 9 1 1 400 demo_mgr
   in ah_db (am_out m) [1 \<mapsto> row_of demo_auction] = (\<lambda>i. map_option row_of (find_auction i m))"
  using auction_table_in_step [OF demo_bid_session demo_inv demo_mirrored] by (simp add: Let_def)


section \<open>Where the items go\<close>

definition mailed_items :: "ah_out list \<Rightarrow> uint32 list" where
  "mailed_items xs = concat (map out_items xs)"

lemma mailed_items_simps [simp]:
  "mailed_items [] = []" "mailed_items (x # xs) = out_items x @ mailed_items xs" "mailed_items (xs @ ys) = mailed_items xs @ mailed_items ys"
  by (simp_all add: mailed_items_def)

lemma won_mail_items:
  "mailed_items (am_out (SendAuctionWonMail E a m)) = mailed_items (am_out m) @
     (case GetAItem (au_itemGUIDLow a) m of
        Some it \<Rightarrow> if ahe_online E (au_bidder a) \<or> (ahe_gmLogTrade E \<and> ahe_account E (au_bidder a) \<noteq> 0) then [ai_guidLow it] else []
      | None \<Rightarrow> [])"
  by (simp add: SendAuctionWonMail_def auction_mail_def Let_def split: option.split)

lemma sale_mail_items: "mailed_items (am_out (SendAuctionSuccessfulMail E a m)) = mailed_items (am_out m)"
  by (simp add: SendAuctionSuccessfulMail_def auction_mail_def Let_def)

lemma expired_mail_items:
  "mailed_items (am_out (SendAuctionExpiredMail E a m)) = mailed_items (am_out m) @
     (case GetAItem (au_itemGUIDLow a) m of Some it \<Rightarrow> if exists_char E (au_owner a) then [ai_guidLow it] else [] | None \<Rightarrow> [])"
  by (simp add: SendAuctionExpiredMail_def auction_mail_def split: option.split)

lemma close_mail_items:
  "mailed_items (am_out (close_auction E a m)) = mailed_items (am_out m) @
     (case GetAItem (au_itemGUIDLow a) m of
        None \<Rightarrow> []
      | Some it \<Rightarrow>
          if (if au_bidder a = 0 then exists_char E (au_owner a)
              else ahe_online E (au_bidder a) \<or> (ahe_gmLogTrade E \<and> ahe_account E (au_bidder a) \<noteq> 0))
          then [ai_guidLow it] else [])"
  using says_reads(2) [OF says_mails(3) [of E a m], of "au_itemGUIDLow a"]
  by (simp add: close_auction_def won_mail_items sale_mail_items expired_mail_items split: option.split)



section \<open>The start of the server\<close>

lemma LoadFromFieldList_id: "LoadFromFieldList E f = Some a \<Longrightarrow> au_Id a = fst f"
  by (cases f) (auto simp: LoadFromFieldList_def split: option.splits)

lemma says_log: "says g m m' \<Longrightarrow> set (am_out m) \<subseteq> set (am_out m')"
  by (auto simp: says_def)

lemma delete_expired_log:
  shows "mAitems (delete_expired E f m) = mAitems m" "set (am_out m) \<subseteq> set (am_out (delete_expired E f m))"
    "mAitems m = [] \<Longrightarrow> mailed_items (am_out (delete_expired E f m)) = mailed_items (am_out m)"
    "LoadFromFieldList E f = Some a \<Longrightarrow> CHAR_DEL_AUCTION (fst f) \<in> set (am_out (delete_expired E f m))"
  using subsetD [OF says_log [OF close_says]]
  by (auto simp: delete_expired_def au_DeleteFromDB_def close_mail_items GetAItem_def LoadFromFieldList_id says_frame(2) [OF close_says]
      split: option.split)

lemma DeleteExpired_log:
  assumes "mAitems m = []"
  shows "set (am_out m) \<subseteq> set (am_out (DeleteExpiredAuctionsAtStartup E fs m)) \<and>
    mailed_items (am_out (DeleteExpiredAuctionsAtStartup E fs m)) = mailed_items (am_out m) \<and>
    (\<forall>f a. f \<in> set fs \<and> LoadFromFieldList E f = Some a \<longrightarrow> CHAR_DEL_AUCTION (fst f) \<in> set (am_out (DeleteExpiredAuctionsAtStartup E fs m)))"
  unfolding DeleteExpiredAuctionsAtStartup_def using assms
proof (induction fs arbitrary: m)
  case (Cons g fs)
  note d = delete_expired_log [where E = E and f = g and m = m]
  have "mAitems (delete_expired E g m) = []" using d(1) Cons.prems by simp
  note ih = Cons.IH [OF this]
  have "set (am_out m) \<subseteq> set (am_out (fold (delete_expired E) (g # fs) m))" using d(2) ih by auto
  moreover have "mailed_items (am_out (fold (delete_expired E) (g # fs) m)) = mailed_items (am_out m)" using d(3) Cons.prems ih by simp
  moreover have "CHAR_DEL_AUCTION (fst f) \<in> set (am_out (fold (delete_expired E) (g # fs) m))"
    if "f \<in> set (g # fs)" "LoadFromFieldList E f = Some a" for f a
    using that d(4) ih by (cases "f = g") (auto simp del: split_paired_All split_paired_Ex)
  ultimately show ?case by blast
qed simp

lemma add_items_log: "add_items is m = Some m' \<Longrightarrow> am_out m' = am_out m"
  by (induction "is" arbitrary: m) (auto simp: AddAItem_def split: option.splits if_splits)

lemma LoadAuctions_log:
  "set (am_out m) \<subseteq> set (am_out (LoadAuctions E fs m)) \<and> mailed_items (am_out (LoadAuctions E fs m)) = mailed_items (am_out m)"
proof -
  have l: "set (am_out m) \<subseteq> set (am_out (load_auction E f m))" "mailed_items (am_out (load_auction E f m)) = mailed_items (am_out m)"
    for f m by (auto simp: load_auction_def split: option.split)
  show ?thesis unfolding LoadAuctions_def
    by (induction fs arbitrary: m) (use l in \<open>auto, blast\<close>)
qed

text \<open>C39. At the start of the server the auctions that expired while it was down are closed before the items are loaded: each of them
  is deleted from the table, but none of their items is mailed, neither to a winner nor back to an owner.\<close>

theorem startup_loses_items:
  assumes "ah_startup E expired items fs m = Some m'" and "mAitems m = []"
  shows "mailed_items (am_out m') = mailed_items (am_out m) \<and>
    (\<forall>f a. f \<in> set expired \<and> LoadFromFieldList E f = Some a \<longrightarrow> CHAR_DEL_AUCTION (fst f) \<in> set (am_out m'))"
proof -
  define m1 where "m1 = DeleteExpiredAuctionsAtStartup E expired m"
  from assms(1) obtain m2 where m2: "add_items items (m1\<lparr>mAitems := []\<rparr>) = Some m2" "m' = LoadAuctions E fs m2"
    by (auto simp: ah_startup_def LoadAuctionItems_def m1_def split: option.splits)
  have "am_out m2 = am_out m1" using add_items_log [OF m2(1)] by simp
  then show ?thesis using DeleteExpired_log [OF assms(2), where E = E and fs = expired] LoadAuctions_log [of m2 E fs]
    unfolding m2(2) m1_def by (simp del: split_paired_All split_paired_Ex) blast
qed

theorem startup_loses_items_witness:
  "let m' = the (ah_startup (demo_env True) [(1, row_of demo_auction, 25, 1)] [] [] (demo_mgr\<lparr>am_alliance := [], mAitems := []\<rparr>))
   in mailed_items (am_out m') = [] \<and> CHAR_DEL_AUCTION 1 \<in> set (am_out m')"
proof -
  let ?f = "(1, row_of demo_auction, 25, 1)" and ?m = "demo_mgr\<lparr>am_alliance := [], mAitems := []\<rparr>"
  have "ah_startup (demo_env True) [?f] [] [] ?m = Some (the (ah_startup (demo_env True) [?f] [] [] ?m))"
    by (simp add: ah_startup_def LoadAuctionItems_def)
  moreover have "LoadFromFieldList (demo_env True) ?f \<noteq> None"
    by (simp add: LoadFromFieldList_def demo_env_def GetAuctionHouseEntry_def)
  ultimately show ?thesis using startup_loses_items [of "demo_env True" "[?f]" "[]" "[]" ?m] by (auto simp: Let_def)
qed

text \<open>C38. An auction that is saved and loaded again has its prices cut to the 32 bits of the columns and its expiry time read as
  an unsigned 32-bit number; the house is the one of its auctioneer.  Everything else comes back as it was, so an auction with
  prices below \<open>2\<^sup>3\<^sup>2\<close> that runs until before 2106 comes back unchanged.\<close>

theorem auction_reload:
  assumes "ahe_auctioneerFaction E (au_auctioneer a) = Some f" and "GetAuctionHouseEntry E f = Some h"
  shows "LoadFromFieldList E (au_Id a, row_of a, au_itemEntry a, au_itemCount a) =
      Some (a\<lparr>au_startbid := take_bit 32 (au_startbid a), au_bid := take_bit 32 (au_bid a), au_buyout := take_bit 32 (au_buyout a),
              au_expire_time := au_expire_time a mod 2 ^ 32, au_house := h, au_factionTemplateId := f\<rparr>) \<and>
    (LoadFromFieldList E (au_Id a, row_of a, au_itemEntry a, au_itemCount a) = Some a \<longleftrightarrow>
       au_startbid a < 2 ^ 32 \<and> au_bid a < 2 ^ 32 \<and> au_buyout a < 2 ^ 32 \<and> 0 \<le> au_expire_time a \<and> au_expire_time a < 2 ^ 32 \<and>
       au_house a = h \<and> au_factionTemplateId a = f)"
proof -
  have u: "ucast (ucast w :: uint32) = take_bit 32 w" for w :: uint64 by (rule bit_word_eqI) (auto simp: bit_simps)
  have t: "take_bit 32 w = w \<longleftrightarrow> w < 2 ^ 32" for w :: uint64
    using take_bit_nat_eq_self_iff [of 32 "unat w"] by (simp add: word_unat_eq_iff unsigned_take_bit_eq word_less_nat_alt)
  have e: "k mod 2 ^ 32 = k \<longleftrightarrow> 0 \<le> k \<and> k < 2 ^ 32" for k :: int using take_bit_int_eq_self_iff [of 32 k] by (simp add: take_bit_eq_mod)
  have 1: "LoadFromFieldList E (au_Id a, row_of a, au_itemEntry a, au_itemCount a) =
      Some (a\<lparr>au_startbid := take_bit 32 (au_startbid a), au_bid := take_bit 32 (au_bid a), au_buyout := take_bit 32 (au_buyout a),
              au_expire_time := au_expire_time a mod 2 ^ 32, au_house := h, au_factionTemplateId := f\<rparr>)"
    using assms by (cases a) (simp add: LoadFromFieldList_def row_of_def u uint_word_of_int)
  show ?thesis unfolding 1 using t e by (cases a) auto
qed

theorem auction_reload_witness:
  "LoadFromFieldList (demo_env True) (1, row_of demo_auction, 25, 1) = Some demo_auction"
  using auction_reload [of "demo_env True" demo_auction 12 demo_house]
  by (simp add: demo_auction_def) (simp add: demo_env_def GetAuctionHouseEntry_def)

end
