(* ===== verification/Spec2Isabelle.thy ===== *)
theory Spec2Isabelle
  imports ByteBuf_Props Event_Map Event_Processor Task_Scheduler Timers Update_Mask Wide_Text
    Channel_Props Reputation_DB Calendar_Sessions LFG_Mgr_Props Auction_Theorems
begin

text \<open>
  A verification library for the game server of Project Nelth (\<^verbatim>\<open>source/src/server\<close>, C++): the parts
  of it that keep state of their own and that the rest of the server relies on.  All paths below
  are relative to \<^verbatim>\<open>src/source/src/server\<close>.

  \<^bold>\<open>The program.\<close>  A world server reads packets of players from byte buffers, dispatches them to
  handlers, and updates a world of objects.  Many parts share a few utilities (packet buffers,
  event queues, timers, update masks, text functions); on top of them stand components with a
  state of their own: chat channels, the reputation of a character, the calendar, the dungeon
  finder, the auction house.  Components send packets and database statements; these are appended to a log in the
  model, so that the order of the effects is part of what is proved.  Players, guilds, the
  configuration, the clock and random draws are arguments of the operations that read them.

  \<^bold>\<open>Conventions.\<close>  A class is a record, its member functions are definitions on the record, with the
  names of the code.  Integers have their width: \<open>uint8\<close> to \<open>uint64\<close> are words, signed values are \<open>int\<close>
  with the wrap-around written out (\<open>s32\<close>).  A \<^verbatim>\<open>std::map\<close> is an association list ordered by key (\<open>om_put\<close>,
  \<open>om_del\<close>, invariant \<open>om_ok\<close>), a \<^verbatim>\<open>std::multimap\<close> a list ordered by key with insertion behind equal
  keys (\<open>mm_insert\<close>).  Exceptions, failed assertions and undefined behaviour are values of a sum type.

  \<^bold>\<open>The theories\<close>, each with the file it models and what it shows.

  \<^item> \<open>Prelude\<close>: word types, ordered maps and multimaps, results, and the lemmas on them that the
    components share.
  \<^item> \<open>ByteBuf\<close>, \<open>ByteBuf_Bytes\<close>, \<open>ByteBuf_Packed\<close>, \<open>ByteBuf_Bits\<close>, \<open>ByteBuf_Props\<close>:
    \<^verbatim>\<open>shared/Packets/ByteBuffer.h\<close>.  What is written to a packet is read back (values, strings,
    containers, bit fields, packed GUIDs, packed times); no read leaves the buffer; \<open>PutBits\<close>; strings
    overtake pending bits.  The contract between a writer and its reader is the locale \<open>byte_codec\<close>.
  \<^item> \<open>Event_Map\<close>: \<^verbatim>\<open>game/Utilities/EventMap\<close>.  The store stays ordered; what each operation executes,
    moves and removes, also when the 32 bit timer wraps around.
  \<^item> \<open>Event_Processor\<close>: \<^verbatim>\<open>shared/Utilities/EventProcessor\<close>, over a heap of events with deletion.  An
    update ends and handles each due event once.
  \<^item> \<open>Task_Scheduler\<close>: \<^verbatim>\<open>game/Utilities/TaskScheduler\<close>.  Handlers are programs over the interface; the
    dispatch loop has fuel, and \<open>update_ends_for_repeating_tasks\<close> gives an amount that is enough.
  \<^item> \<open>Timers\<close>: \<^verbatim>\<open>shared/Utilities/Timer.h\<close>.
  \<^item> \<open>Update_Mask\<close>: \<^verbatim>\<open>game/Entities/Object/Updates/UpdateMask.h\<close>.
  \<^item> \<open>String_Util\<close>, \<open>Wide_Text\<close>: \<^verbatim>\<open>shared/Utilities/Util\<close>.
  \<^item> \<open>Channel\<close>, \<open>Channel_Props\<close>: \<^verbatim>\<open>game/Chat/Channels/Channel\<close>.  The ownership invariant, who may join and
    moderate, saving and loading.
  \<^item> \<open>Float32\<close>, \<open>Reputation\<close>, \<open>Reputation_Props\<close>, \<open>Reputation_DB\<close>: \<^verbatim>\<open>game/Reputation/ReputationMgr\<close> and the
    spillover loader of \<^verbatim>\<open>game/Globals/ObjectMgr.cpp\<close>.  The gain of reputation is computed in binary32,
    which \<open>Float32\<close> defines on the encodings (round to nearest, ties to even).  The counters are
    right and the database is in step with the marks in every session of a character; saving
    and loading; bounds; no missing entry is dereferenced.
  \<^item> \<open>Calendar\<close>, \<open>Calendar_Props\<close>, \<open>Calendar_Sessions\<close>: \<^verbatim>\<open>game/Calendar/CalendarMgr\<close> and
    \<^verbatim>\<open>game/Handlers/CalendarHandler.cpp\<close>.  The tables are the abstraction of the calendar in memory in
    every session; ids are not given out twice (locale \<open>id_pool\<close>); restart; removal; two errors.
  \<^item> \<open>LFG_Roles\<close>, \<open>LFG_Data\<close>, \<open>LFG_Queue\<close>, \<open>LFG_Match\<close>, \<open>LFG_Mgr\<close>, \<open>LFG_States\<close>, \<open>LFG_Mgr_Props\<close>:
    \<^verbatim>\<open>game/DungeonFinding\<close>.  \<open>LFG_Roles\<close> is the backtracking \<^verbatim>\<open>LFGMgr::CheckGroupRoles\<close>, proved
    equivalent to the existence of an assignment of roles; \<open>LFG_Data\<close> the data of players, groups and of
    the manager with its setters; \<open>LFG_Queue\<close> the queue of one faction and the test of a combination
    of entries; \<open>LFG_Match\<close> what a match guarantees, what the search finds and misses, and what is left
    of an entry that leaves; \<open>LFG_Mgr\<close> the operations of \<^verbatim>\<open>LFGMgr.cpp\<close> (joining, leaving, role checks,
    proposals, votes to kick, the update) and the hooks of \<^verbatim>\<open>LFGScripts.cpp\<close>; \<open>LFG_States\<close> the runs of
    all of these (\<open>lfg_reach\<close>) and the invariants of them: the locale \<open>lfg_invariant\<close> asks that a
    predicate is kept by the primitive changes of the store and proves that every event keeps it; it
    is interpreted for the saved states and for the lists of the queues; \<open>LFG_Mgr_Props\<close> how role
    checks and proposals end, and errors of the update, the vote and the second join.  The group code
    that a finished proposal and a kick call acts on the finder through the hooks; it is an argument.
  \<^item> \<open>Auction\<close>, \<open>Auction_Props\<close>, \<open>Auction_Sessions\<close>, \<open>Auction_Theorems\<close>, \<open>Float32_Bounds\<close>:
    \<^verbatim>\<open>game/AuctionHouse/AuctionHouseMgr\<close> and \<^verbatim>\<open>game/Handlers/AuctionHouseHandler.cpp\<close>, with the money of
    the players, their bags and the mails.  \<open>Auction\<close> is the model; \<open>Auction_Props\<close> the invariant
    \<open>ah_inv\<close>, the sum \<open>total_gold\<close> of all gold and what each operation does to them (\<open>keeps\<close>);
    \<open>Auction_Sessions\<close> selling and the runs \<open>ah_session\<close> of all handlers and of the update;
    \<open>Float32_Bounds\<close> how much rounding can add to a result in binary32, so that \<open>Auction_Theorems\<close> can show
    that the cut of a house stays below the bid, the hypothesis \<open>fair\<close> of the runs; that no run creates
    gold or breaks the invariant; that the table of auctions follows the memory; what a bid, a buyout
    and an expiry do; and how items and gold get lost (offline winners, the order of loading, prices
    of more than 32 bits).
  \<^bold>\<open>Bounds and fuel.\<close>  Only the dispatch loop of the task scheduler has fuel.  Bounds that are
  hypotheses are those of the machine: ids below \<open>2 ^ 64\<close>, buffers below the limit of the vector,
  fewer than 256 players in a role check or a match, which are counted in 8 bits, free ids for new
  auctions and items, and deposits below \<open>2 ^ 31\<close>.

  \<^bold>\<open>Not modelled.\<close>  Spells, maps and grids, collision, movement and the entities act on the whole
  game world with floating point positions; scripts are content; the database layer, sockets,
  logging and the login server are input and output around third-party libraries; vendored
  code under \<^verbatim>\<open>source/dep\<close>.  Of the modelled files the manifest names what is left out.  Groups,
  guilds, pools, arena teams, tickets and instance scripts can be added in the same
  way: each keeps maps of records and answers handlers.
\<close>

end
